(* ===== verification/Prelude.thy ===== *)
theory Prelude
  imports Main "HOL-Library.Signed_Division" "HOL-Library.Code_Target_Nat"
begin

text \<open>
  What every component shares: the exceptions the code throws, the result of a computation
  that may throw and may change a state, its sequencing and its try/catch, and the generic
  lemmas on them.

  A JavaScript function that may throw is a value of \<open>exn + 'a\<close> (\<open>Inl\<close> the exception), and an
  \<open>async\<close> function over a state \<open>'s\<close> is a function \<open>'s \<Rightarrow> (exn + 'a) \<times> 's\<close>. The state comes back
  on both branches, because a thrown exception does not undo the assignments made before it:
  what undoes them is written where the source undoes them.
\<close>

section \<open>Currencies and exceptions\<close>

datatype currency = ARS | USD | USDT | BRL

fun currency_name :: "currency \<Rightarrow> string" where
  "currency_name ARS = ''ARS''"
| "currency_name USD = ''USD''"
| "currency_name USDT = ''USDT''"
| "currency_name BRL = ''BRL''"

text \<open>
  The four domain errors of \<open>money.ts\<close> come first, then the \<open>HttpException\<close> classes of NestJS
  the code throws (the string is the message, \<open>HttpException\<close> also has its status), a bare
  \<open>Error\<close>, and an error object of the database driver, of which the code reads the fields
  \<open>sqlState\<close>, \<open>code\<close> and \<open>cause\<close>; a field that is absent or not a string is \<open>None\<close>.
\<close>

datatype exn =
    InvalidAmountError string
  | PrecisionError currency nat string
  | CurrencyMismatchError currency currency
  | AmountTooLargeError string
  | BadRequestException string
  | UnauthorizedException string
  | ForbiddenException string
  | NotFoundException string
  | ConflictException string
  | UnprocessableEntityException string
  | InternalServerErrorException string
  | HttpException nat string
  | PlainError string
  | DriverError "string option" "string option" "exn option"

type_synonym ('s, 'a) io = "'s \<Rightarrow> (exn + 'a) \<times> 's"

section \<open>Sequencing, throwing, catching\<close>

named_theorems io_defs
named_theorems io_inv

definition ret :: "'a \<Rightarrow> ('s, 'a) io" where
  "ret x s = (Inr x, s)"

definition throw :: "exn \<Rightarrow> ('s, 'a) io" where
  "throw e s = (Inl e, s)"

definition lift :: "exn + 'a \<Rightarrow> ('s, 'a) io" where
  "lift r s = (r, s)"

definition seqM :: "('s, 'a) io \<Rightarrow> ('a \<Rightarrow> ('s, 'b) io) \<Rightarrow> ('s, 'b) io" where
  "seqM m f s = (case m s of (Inl e, s') \<Rightarrow> (Inl e, s') | (Inr x, s') \<Rightarrow> f x s')"

definition catchM :: "('s, 'a) io \<Rightarrow> (exn \<Rightarrow> ('s, 'a) io) \<Rightarrow> ('s, 'a) io" where
  "catchM m h s = (case m s of (Inl e, s') \<Rightarrow> h e s' | (Inr x, s') \<Rightarrow> (Inr x, s'))"

definition readM :: "('s \<Rightarrow> 'a) \<Rightarrow> ('s, 'a) io" where
  "readM f s = (Inr (f s), s)"

definition modifyM :: "('s \<Rightarrow> 's) \<Rightarrow> ('s, unit) io" where
  "modifyM f s = (Inr (), f s)"

text \<open>\<open>assertFound\<close> of \<open>common/utils/assert-found.ts\<close>.\<close>

definition assertFound :: "'a option \<Rightarrow> string \<Rightarrow> ('s, 'a) io" where
  "assertFound v name = (case v of None \<Rightarrow> throw (NotFoundException (name @ '' not found''))
                                 | Some x \<Rightarrow> ret x)"

text \<open>A pure computation that may throw, sequenced.\<close>

definition thenR :: "exn + 'a \<Rightarrow> ('a \<Rightarrow> exn + 'b) \<Rightarrow> exn + 'b" where
  "thenR r f = (case r of Inl e \<Rightarrow> Inl e | Inr x \<Rightarrow> f x)"

lemma thenR_simps [simp]: "thenR (Inl e) f = Inl e" "thenR (Inr x) f = f x"
  by (simp_all add: thenR_def)

lemma thenR_Inr_iff: "thenR r f = Inr y \<longleftrightarrow> (\<exists>x. r = Inr x \<and> f x = Inr y)"
  by (cases r) simp_all

lemmas [io_defs] = ret_def throw_def lift_def readM_def modifyM_def

lemma seqM_Inr [io_inv]:
  "seqM m f s = (Inr y, t) \<longleftrightarrow> (\<exists>x s'. m s = (Inr x, s') \<and> f x s' = (Inr y, t))"
  by (auto simp: seqM_def split: prod.splits sum.splits)

lemma seqM_Inl [io_inv]:
  "seqM m f s = (Inl e, t) \<longleftrightarrow>
     m s = (Inl e, t) \<or> (\<exists>x s'. m s = (Inr x, s') \<and> f x s' = (Inl e, t))"
  by (auto simp: seqM_def split: prod.splits sum.splits)

lemma catchM_Inr [io_inv]:
  "catchM m h s = (Inr y, t) \<longleftrightarrow>
     m s = (Inr y, t) \<or> (\<exists>e s'. m s = (Inl e, s') \<and> h e s' = (Inr y, t))"
  by (auto simp: catchM_def split: prod.splits sum.splits)

lemma catchM_Inl [io_inv]:
  "catchM m h s = (Inl e, t) \<longleftrightarrow> (\<exists>e' s'. m s = (Inl e', s') \<and> h e' s' = (Inl e, t))"
  by (auto simp: catchM_def split: prod.splits sum.splits)

lemma io_prim_iff [io_inv]:
  "ret x s = (r, t) \<longleftrightarrow> r = Inr x \<and> t = s"
  "throw e s = (r, t) \<longleftrightarrow> r = Inl e \<and> t = s"
  "lift q s = (r, t) \<longleftrightarrow> q = r \<and> t = s"
  "readM g s = (r, t) \<longleftrightarrow> r = Inr (g s) \<and> t = s"
  "modifyM h s = (r', t) \<longleftrightarrow> r' = Inr () \<and> t = h s"
  by (auto simp: io_defs)

lemma assertFound_iff [io_inv]:
  "assertFound v name s = (Inr x, t) \<longleftrightarrow> v = Some x \<and> t = s"
  "assertFound v name s = (Inl e, t) \<longleftrightarrow>
     v = None \<and> e = NotFoundException (name @ '' not found'') \<and> t = s"
  by (auto simp: assertFound_def io_defs split: option.splits)

text \<open>Running forward: what \<open>simp\<close> needs to evaluate a computation on a known state.\<close>

lemma seqM_run:
  "m s = (Inr x, s') \<Longrightarrow> seqM m f s = f x s'"
  "m s = (Inl e, s') \<Longrightarrow> seqM m f s = (Inl e, s')"
  by (simp_all add: seqM_def)

lemma seqM_prim:
  "seqM (ret x) f s = f x s" "seqM (readM g) f s = f (g s) s" "seqM (lift (Inr x)) f s = f x s"
  "seqM (lift (Inl e)) f s = (Inl e, s)" "seqM (throw e) f s = (Inl e, s)"
  "seqM (modifyM h) k s = k () (h s)"
  by (simp_all add: seqM_def io_defs)

lemma catchM_run:
  "m s = (Inr x, s') \<Longrightarrow> catchM m h s = (Inr x, s')"
  "m s = (Inl e, s') \<Longrightarrow> catchM m h s = h e s'"
  by (simp_all add: catchM_def)

lemma assertFound_simps [simp]:
  "assertFound None name = throw (NotFoundException (name @ '' not found''))"
  "assertFound (Some x) name = ret x"
  by (simp_all add: assertFound_def)

lemmas io_run = seqM_def catchM_def io_defs

lemma io_returns: "\<not> isl (fst (m s)) \<Longrightarrow> \<exists>x t. m s = (Inr x, t)"
  by (cases "m s"; cases "fst (m s)") auto

lemma returned_iff:
  "(case p of (Inl _, _) \<Rightarrow> False | (Inr x, t) \<Rightarrow> Q x t) \<longleftrightarrow> (\<exists>x t. p = (Inr x, t) \<and> Q x t)"
  by (cases p; cases "fst p") auto

text \<open>A computation whose result is not used.\<close>

definition void :: "('s, 'a) io \<Rightarrow> ('s, unit) io" where
  "void m = seqM m (\<lambda>_. ret ())"

section \<open>Computations that keep an observation\<close>

text \<open>
  \<open>keeps v m\<close>: whatever \<open>m\<close> returns or throws, the part \<open>v\<close> of the state is what it was. It is
  the frame condition of a call that has effects elsewhere (a webhook delivery, a session row),
  and it composes.
\<close>

named_theorems keeps_intros

definition keeps :: "('s \<Rightarrow> 'v) \<Rightarrow> ('s, 'a) io \<Rightarrow> bool" where
  "keeps v m \<longleftrightarrow> (\<forall>s. v (snd (m s)) = v s)"

lemma keepsI: "(\<And>s r t. m s = (r, t) \<Longrightarrow> v t = v s) \<Longrightarrow> keeps v m"
  unfolding keeps_def by (metis prod.collapse)

lemma keepsD: "keeps v m \<Longrightarrow> m s = (r, t) \<Longrightarrow> v t = v s"
  unfolding keeps_def by (metis snd_conv)

lemma keeps_prim [keeps_intros]:
  "keeps v (ret x)" "keeps v (throw e)" "keeps v (lift r)" "keeps v (readM g)"
  by (auto simp: keeps_def io_defs)

lemma keeps_assertFound [keeps_intros]: "keeps v (assertFound x name)"
  by (cases x) (auto intro: keeps_intros)

lemma keeps_modifyM: "(\<And>s. v (f s) = v s) \<Longrightarrow> keeps v (modifyM f)"
  by (auto simp: keeps_def io_defs)

lemma keeps_seqM [keeps_intros]: "keeps v m \<Longrightarrow> (\<And>x. keeps v (f x)) \<Longrightarrow> keeps v (seqM m f)"
  unfolding keeps_def seqM_def by (auto split: prod.splits sum.splits) (metis snd_conv)+

lemma keeps_catchM [keeps_intros]: "keeps v m \<Longrightarrow> (\<And>e. keeps v (h e)) \<Longrightarrow> keeps v (catchM m h)"
  unfolding keeps_def catchM_def by (auto split: prod.splits sum.splits) (metis snd_conv)+

lemma keeps_if [keeps_intros]: "keeps v m \<Longrightarrow> keeps v n \<Longrightarrow> keeps v (if b then m else n)"
  by simp

lemma keeps_option: "keeps v n \<Longrightarrow> (\<And>x. keeps v (f x)) \<Longrightarrow> keeps v (case q of None \<Rightarrow> n | Some x \<Rightarrow> f x)"
  by (cases q) auto

lemma keeps_pair: "(\<And>x y. keeps v (f x y)) \<Longrightarrow> keeps v (case p of (x, y) \<Rightarrow> f x y)"
  by (cases p) auto

section \<open>Computations that keep a predicate\<close>

text \<open>\<open>invariant P m\<close>: \<open>m\<close>, started in a state with \<open>P\<close>, ends in one, whether it returns or
  throws.\<close>

named_theorems inv_intros

definition invariant :: "('s \<Rightarrow> bool) \<Rightarrow> ('s, 'a) io \<Rightarrow> bool" where
  "invariant P m \<longleftrightarrow> (\<forall>s. P s \<longrightarrow> P (snd (m s)))"

lemma invariantI: "(\<And>s r t. P s \<Longrightarrow> m s = (r, t) \<Longrightarrow> P t) \<Longrightarrow> invariant P m"
  unfolding invariant_def by (metis prod.collapse)

lemma invariantD: "invariant P m \<Longrightarrow> P s \<Longrightarrow> m s = (r, t) \<Longrightarrow> P t"
  unfolding invariant_def by (metis snd_conv)

lemma invariant_prim [inv_intros]:
  "invariant P (ret x)" "invariant P (throw e)" "invariant P (lift r)" "invariant P (readM g)"
  by (auto simp: invariant_def io_defs)

lemma invariant_assertFound [inv_intros]: "invariant P (assertFound x name)"
  by (cases x) (auto intro: inv_intros)

lemma invariant_modifyM: "(\<And>s. P s \<Longrightarrow> P (f s)) \<Longrightarrow> invariant P (modifyM f)"
  by (auto simp: invariant_def io_defs)

lemma invariant_seqM [inv_intros]:
  "invariant P m \<Longrightarrow> (\<And>x. invariant P (f x)) \<Longrightarrow> invariant P (seqM m f)"
  unfolding invariant_def seqM_def by (auto split: prod.splits sum.splits)

lemma invariant_catchM [inv_intros]:
  "invariant P m \<Longrightarrow> (\<And>e. invariant P (h e)) \<Longrightarrow> invariant P (catchM m h)"
  unfolding invariant_def catchM_def by (auto split: prod.splits sum.splits)

lemma invariant_if [inv_intros]:
  "invariant P m \<Longrightarrow> invariant P n \<Longrightarrow> invariant P (if b then m else n)"
  by simp

lemma keeps_invariant: "keeps v m \<Longrightarrow> invariant (\<lambda>s. Q (v s)) m"
  by (auto simp: keeps_def invariant_def)

section \<open>Computations that move along a relation\<close>

text \<open>\<open>moves R m\<close>: whatever \<open>m\<close> returns or throws, \<open>R\<close> leads from the state before to the state
  after. For a reflexive and transitive \<open>R\<close> it composes as \<open>keeps\<close> does.\<close>

definition moves :: "('s \<Rightarrow> 's \<Rightarrow> bool) \<Rightarrow> ('s, 'a) io \<Rightarrow> bool" where
  "moves R m \<longleftrightarrow> (\<forall>s. R s (snd (m s)))"

lemma movesI: "(\<And>s r t. m s = (r, t) \<Longrightarrow> R s t) \<Longrightarrow> moves R m"
  unfolding moves_def by (metis prod.collapse)

lemma movesD: "moves R m \<Longrightarrow> m s = (r, t) \<Longrightarrow> R s t"
  unfolding moves_def by (metis snd_conv)

lemma moves_keeps: "keeps v m \<Longrightarrow> (\<And>s t. v t = v s \<Longrightarrow> R s t) \<Longrightarrow> moves R m"
  unfolding keeps_def moves_def by blast

lemma moves_prim: "reflp R \<Longrightarrow> moves R (ret x)"
  by (simp add: moves_def ret_def reflpD)

lemma moves_seqM: "transp R \<Longrightarrow> moves R m \<Longrightarrow> (\<And>x. moves R (f x)) \<Longrightarrow> moves R (seqM m f)"
  unfolding moves_def seqM_def by (auto split: prod.splits sum.splits) (metis snd_conv transpD)+

lemma moves_catchM: "transp R \<Longrightarrow> moves R m \<Longrightarrow> (\<And>e. moves R (h e)) \<Longrightarrow> moves R (catchM m h)"
  unfolding moves_def catchM_def by (auto split: prod.splits sum.splits) (metis snd_conv transpD)+

lemma moves_if: "moves R m \<Longrightarrow> moves R n \<Longrightarrow> moves R (if b then m else n)"
  by simp

lemma moves_mono: "moves R m \<Longrightarrow> (\<And>s t. R s t \<Longrightarrow> Q s t) \<Longrightarrow> moves Q m"
  unfolding moves_def by blast

section \<open>Optional values\<close>

text \<open>\<open>x ?? d\<close>, and a column an update leaves alone when the value given is \<open>undefined\<close>.\<close>

definition or_else :: "'a option \<Rightarrow> 'a \<Rightarrow> 'a" where
  "or_else x d = (case x of None \<Rightarrow> d | Some y \<Rightarrow> y)"

lemma or_else_simps [simp]: "or_else None d = d" "or_else (Some y) d = y"
  "or_else x (or_else x d) = or_else x d"
  by (simp_all add: or_else_def split: option.splits)

definition given :: "'a option \<Rightarrow> 'a option \<Rightarrow> 'a option" where
  "given x col = (case x of None \<Rightarrow> col | Some y \<Rightarrow> Some y)"

lemma given_simps [simp]: "given None col = col" "given (Some y) col = Some y"
  by (simp_all add: given_def)

text \<open>A string that is tested: the empty one is not there.\<close>

definition truthy :: "string option \<Rightarrow> string option" where
  "truthy x = (case x of None \<Rightarrow> None | Some t \<Rightarrow> if t = '''' then None else Some t)"

lemma catch_ret_total: "\<exists>x t. catchM m (\<lambda>_. ret y) s = (Inr x, t)"
  by (cases "m s"; cases "fst (m s)") (auto simp: catchM_def ret_def)

text \<open>\<open>m.catch(() => null)\<close>.\<close>

definition orNull :: "('s, 'a) io \<Rightarrow> ('s, 'a option) io" where
  "orNull m = catchM (seqM m (\<lambda>x. ret (Some x))) (\<lambda>_. ret None)"

lemma orNull_iff [io_inv]:
  "orNull m s = (r, t) \<longleftrightarrow>
     (\<exists>x. m s = (Inr x, t) \<and> r = Inr (Some x)) \<or> (\<exists>e. m s = (Inl e, t) \<and> r = Inr None)"
  unfolding orNull_def by (cases "m s"; cases "fst (m s)") (auto simp: catchM_def seqM_def ret_def)

lemma keeps_orNull [keeps_intros]: "keeps v m \<Longrightarrow> keeps v (orNull m)"
  unfolding orNull_def by (intro keeps_intros)

lemma invariant_orNull [inv_intros]: "invariant P m \<Longrightarrow> invariant P (orNull m)"
  unfolding orNull_def by (intro inv_intros)

section \<open>A computation on a part of the state\<close>

definition zoom :: "('s \<Rightarrow> 'w) \<Rightarrow> ('w \<Rightarrow> 's \<Rightarrow> 's) \<Rightarrow> ('w, 'a) io \<Rightarrow> ('s, 'a) io" where
  "zoom get put m s = (case m (get s) of (r, w) \<Rightarrow> (r, put w s))"

lemma zoom_iff [io_inv]: "zoom get put m s = (r, t) \<longleftrightarrow> (\<exists>w. m (get s) = (r, w) \<and> t = put w s)"
  by (auto simp: zoom_def split: prod.splits)

section \<open>Lists\<close>

text \<open>The first row a predicate accepts, as \<open>Array.prototype.find\<close>.\<close>

lemma find_Some_iff_mem: "List.find P xs = Some x \<Longrightarrow> x \<in> set xs \<and> P x"
  by (metis find_Some_iff nth_mem)

text \<open>Two lists of the same elements, sorted by an order that tells them apart, are the same list.\<close>

lemma sorted_wrt_unique:
  assumes "sorted_wrt le xs" and "sorted_wrt le ys" and "distinct xs" and "distinct ys"
    and "set xs = set ys" and "\<And>a b. a \<in> set xs \<Longrightarrow> b \<in> set xs \<Longrightarrow> le a b \<Longrightarrow> le b a \<Longrightarrow> a = b"
  shows "xs = ys"
  using assms
proof (induction xs arbitrary: ys)
  case (Cons x xs)
  then obtain y zs where ys: "ys = y # zs" by (cases ys) auto
  have "x = y"
  proof (rule ccontr)
    assume ne: "x \<noteq> y"
    then have "x \<in> set zs" "y \<in> set xs" using Cons.prems(5) ys by auto
    then have "le x y" "le y x" using Cons.prems(1,2) ys by auto
    then show False using Cons.prems(6)[of x y] \<open>y \<in> set xs\<close> ne by simp
  qed
  moreover have "xs = zs"
  proof (rule Cons.IH)
    show "set xs = set zs" using Cons.prems(3-5) ys \<open>x = y\<close> by auto
    show "a = b" if "a \<in> set xs" "b \<in> set xs" "le a b" "le b a" for a b
      using Cons.prems(6)[of a b] that by simp
  qed (use Cons.prems(1-4) ys in simp_all)
  ultimately show ?case using ys by simp
qed simp

lemma list_all2_mem:
  "list_all2 P xs ys \<Longrightarrow> x \<in> set xs \<Longrightarrow> \<exists>y \<in> set ys. P x y"
  "list_all2 P xs ys \<Longrightarrow> y \<in> set ys \<Longrightarrow> \<exists>x \<in> set xs. P x y"
  by (induction rule: list_all2_induct) auto

section \<open>Sets of rows\<close>

text \<open>A key stays a key when a row is replaced by one of the same key, or joined by one of a new key.\<close>

lemma inj_on_put: "inj_on f R \<Longrightarrow> x \<in> R \<Longrightarrow> f y = f x \<Longrightarrow> inj_on f (insert y (R - {x}))"
  by (auto simp: inj_on_def)

lemma inj_on_new: "inj_on f R \<Longrightarrow> f y \<notin> f ` R \<Longrightarrow> inj_on f (insert y R)"
  by auto

end
