(* ===== verification/Decimal_Text.thy ===== *)
theory Decimal_Text
  imports Prelude
begin

text \<open>
  Decimal digits as text: the part of JavaScript's \<open>BigInt\<close>, \<open>toString\<close>, \<open>padStart\<close> and
  \<open>padEnd\<close> that \<open>money.ts\<close> relies on, and the two regular-expression replacements it makes
  (\<open>/^0+(?=\<backslash>d)/\<close> and \<open>/0+$/\<close>). The lemmas relate a text to the number it denotes.
\<close>

named_theorems digit_simps

definition is_digit :: "char \<Rightarrow> bool" where
  "is_digit c \<longleftrightarrow> (48::nat) \<le> of_char c \<and> of_char c \<le> (57::nat)"

definition digit_val :: "char \<Rightarrow> nat" where
  "digit_val c = of_char c - 48"

definition digit_char :: "nat \<Rightarrow> char" where
  "digit_char d = char_of (48 + d)"

abbreviation all_digits :: "string \<Rightarrow> bool" where
  "all_digits \<equiv> list_all is_digit"

abbreviation zeros :: "nat \<Rightarrow> string" where
  "zeros n \<equiv> replicate n (CHR ''0'')"

text \<open>\<open>BigInt(text)\<close> on a text of digits.\<close>

definition digits_value :: "string \<Rightarrow> nat" where
  "digits_value xs = foldl (\<lambda>n c. 10 * n + digit_val c) 0 xs"

text \<open>\<open>String(n)\<close> of a non-negative \<open>bigint\<close>.\<close>

fun show_nat :: "nat \<Rightarrow> string" where
  "show_nat n = (if n < 10 then [digit_char n]
                 else show_nat (n div 10) @ [digit_char (n mod 10)])"

declare show_nat.simps [simp del]

definition padStart :: "nat \<Rightarrow> string \<Rightarrow> string" where
  "padStart k xs = zeros (k - length xs) @ xs"

definition padEnd :: "nat \<Rightarrow> string \<Rightarrow> string" where
  "padEnd k xs = xs @ zeros (k - length xs)"

text \<open>\<open>.replace(/^0+(?=\<backslash>d)/, "")\<close> on digits: the leading zeros, but for the last digit.\<close>

fun strip_leading :: "string \<Rightarrow> string" where
  "strip_leading (c # d # ds) =
     (if c = CHR ''0'' then strip_leading (d # ds) else c # d # ds)"
| "strip_leading ds = ds"

text \<open>\<open>.replace(/0+$/, "")\<close>: the trailing zeros.\<close>

definition strip_trailing :: "string \<Rightarrow> string" where
  "strip_trailing xs = rev (dropWhile (\<lambda>c. c = CHR ''0'') (rev xs))"

section \<open>The value of a text\<close>

lemma foldl_digits:
  "foldl (\<lambda>n c. 10 * n + digit_val c) a xs = a * 10 ^ length xs + digits_value xs"
proof (induction xs arbitrary: a)
  case Nil
  then show ?case by (simp add: digits_value_def)
next
  case (Cons c xs)
  show ?case
    using Cons.IH[of "10 * a + digit_val c"] Cons.IH[of "digit_val c"]
    by (simp add: digits_value_def algebra_simps)
qed

lemma digits_value_Nil [digit_simps]: "digits_value [] = 0"
  by (simp add: digits_value_def)

lemma digits_value_append [digit_simps]:
  "digits_value (xs @ ys) = digits_value xs * 10 ^ length ys + digits_value ys"
  using foldl_digits[of "digits_value xs" ys] by (simp add: digits_value_def)

lemma digits_value_Cons [digit_simps]:
  "digits_value (c # xs) = digit_val c * 10 ^ length xs + digits_value xs"
  using digits_value_append[of "[c]" xs] by (simp add: digits_value_def)

lemma digit_val_zero [digit_simps]: "digit_val (CHR ''0'') = 0"
  by (simp add: digit_val_def)

lemma digits_value_zeros [digit_simps]: "digits_value (zeros n) = 0"
  by (induction n) (simp_all add: digit_simps)

lemma is_digit_zero [simp]: "is_digit (CHR ''0'')"
  by (simp add: is_digit_def)

lemma all_digits_zeros [simp]: "all_digits (zeros n)"
  by (simp add: list_all_iff)

lemma of_char_digit_char: "d < 10 \<Longrightarrow> (of_char (digit_char d) :: nat) = 48 + d"
  by (simp add: digit_char_def)

lemma digit_val_digit_char [digit_simps]: "d < 10 \<Longrightarrow> digit_val (digit_char d) = d"
  by (simp add: digit_val_def of_char_digit_char)

lemma is_digit_digit_char [simp]: "d < 10 \<Longrightarrow> is_digit (digit_char d)"
  by (simp add: is_digit_def of_char_digit_char)

lemma digit_val_less: "is_digit c \<Longrightarrow> digit_val c < 10"
  by (simp add: is_digit_def digit_val_def) linarith

lemma digits_value_less: "all_digits xs \<Longrightarrow> digits_value xs < 10 ^ length xs"
proof (induction xs)
  case Nil
  then show ?case by (simp add: digit_simps)
next
  case (Cons c xs)
  then have "digit_val c \<le> 9" and "digits_value xs < 10 ^ length xs"
    using digit_val_less[of c] by simp_all
  then have "digit_val c * 10 ^ length xs + digits_value xs < 9 * 10 ^ length xs + 10 ^ length xs"
    by (intro add_le_less_mono mult_right_mono) simp_all
  then show ?case by (simp add: digit_simps)
qed

section \<open>Writing a number\<close>

lemma digits_value_show_nat [simp]: "digits_value (show_nat n) = n"
proof (induction n rule: show_nat.induct)
  case (1 n)
  then show ?case
    by (subst show_nat.simps) (simp add: digit_simps)
qed

lemma all_digits_show_nat [simp]: "all_digits (show_nat n)"
proof (induction n rule: show_nat.induct)
  case (1 n)
  then show ?case by (subst show_nat.simps) simp
qed

lemma show_nat_nonempty [simp]: "show_nat n \<noteq> []"
  by (subst show_nat.simps) simp

lemma length_show_nat_le: "0 < k \<Longrightarrow> n < 10 ^ k \<Longrightarrow> length (show_nat n) \<le> k"
proof (induction n arbitrary: k rule: show_nat.induct)
  case (1 n)
  show ?case
  proof (cases "n < 10")
    case True
    then show ?thesis using "1.prems" by (subst show_nat.simps) simp
  next
    case False
    then have "1 < k" using "1.prems" by (cases "k = 1") auto
    then obtain j where j: "k = Suc j" "0 < j" by (cases k) auto
    with "1.prems" have "n div 10 < 10 ^ j" by (simp add: less_mult_imp_div_less mult.commute)
    with "1.IH"[OF False \<open>0 < j\<close>] False j show ?thesis by (subst show_nat.simps) simp
  qed
qed

lemma length_padStart: "length xs \<le> k \<Longrightarrow> length (padStart k xs) = k"
  by (simp add: padStart_def)

lemma digits_value_padStart [simp]: "digits_value (padStart k xs) = digits_value xs"
  by (simp add: padStart_def digit_simps)

lemma all_digits_padStart [simp]: "all_digits (padStart k xs) \<longleftrightarrow> all_digits xs"
  by (simp add: padStart_def)

lemma digits_value_padEnd:
  "digits_value (padEnd k xs) = digits_value xs * 10 ^ (k - length xs)"
  by (simp add: padEnd_def digit_simps)

section \<open>Stripping zeros\<close>

lemma strip_leading_value [simp]: "digits_value (strip_leading xs) = digits_value xs"
  by (induction xs rule: strip_leading.induct) (simp_all add: digit_simps)

lemma strip_leading_length: "length (strip_leading xs) \<le> length xs"
  by (induction xs rule: strip_leading.induct) auto

lemma strip_leading_digits: "all_digits xs \<Longrightarrow> all_digits (strip_leading xs)"
  by (induction xs rule: strip_leading.induct) simp_all

lemma strip_trailing_split:
  "xs = strip_trailing xs @ zeros (length xs - length (strip_trailing xs))"
proof -
  let ?z = "\<lambda>c. c = CHR ''0''"
  have tw: "takeWhile ?z ys = zeros (length (takeWhile ?z ys))" for ys
    by (induction ys) auto
  have "rev xs = takeWhile ?z (rev xs) @ dropWhile ?z (rev xs)" by simp
  then have "xs = rev (dropWhile ?z (rev xs)) @ rev (takeWhile ?z (rev xs))"
    by (metis rev_append rev_rev_ident)
  moreover obtain n where "takeWhile ?z (rev xs) = zeros n" using tw by blast
  ultimately have "xs = strip_trailing xs @ zeros n" by (simp add: strip_trailing_def)
  then show ?thesis by (metis add_diff_cancel_left' length_append length_replicate)
qed

lemma strip_trailing_length: "length (strip_trailing xs) \<le> length xs"
  by (metis strip_trailing_split length_append le_add1)

lemma strip_trailing_digits: "all_digits xs \<Longrightarrow> all_digits (strip_trailing xs)"
  by (metis strip_trailing_split list_all_append)

text \<open>The trailing zeros come back when the text is padded, so no value is lost.\<close>

lemma padEnd_strip_trailing:
  assumes "length xs \<le> k"
  shows "padEnd k (strip_trailing xs) = padEnd k xs"
proof -
  let ?s = "strip_trailing xs"
  have "padEnd k xs = ?s @ zeros (length xs - length ?s) @ zeros (k - length xs)"
    by (metis padEnd_def append.assoc strip_trailing_split)
  also have "\<dots> = ?s @ zeros (k - length ?s)"
    using assms strip_trailing_length[of xs] by (simp flip: replicate_add)
  finally show ?thesis by (simp add: padEnd_def)
qed

lemma strip_trailing_shortest:
  assumes "10 ^ j dvd digits_value xs" and "all_digits xs" and "j \<le> length xs"
  shows "length (strip_trailing xs) \<le> length xs - j"
  using assms
proof (induction j arbitrary: xs)
  case 0
  then show ?case by (simp add: strip_trailing_length)
next
  case (Suc j)
  then obtain ys c where xs: "xs = ys @ [c]" by (cases xs rule: rev_cases) auto
  have val: "digits_value xs = digits_value ys * 10 + digit_val c"
    by (simp add: xs digit_simps)
  have c: "is_digit c" and ys: "all_digits ys" using Suc.prems by (simp_all add: xs)
  have "10 dvd digits_value xs" using Suc.prems(1) by (metis dvd_mult_left power_Suc)
  then have "10 dvd digit_val c" by (simp add: val dvd_add_right_iff)
  then have c0: "digit_val c = 0" using digit_val_less[OF c] by (auto dest: dvd_imp_le)
  then have "of_char c = (48::nat)" using c by (simp add: is_digit_def digit_val_def)
  then have "of_char c = (of_char (CHR ''0'') :: nat)" by simp
  then have c': "c = CHR ''0''" by (simp only: of_char_eq_iff)
  have "10 ^ j dvd digits_value ys"
    using Suc.prems(1) c0 by (simp add: val mult.commute)
  with Suc.IH[of ys] ys Suc.prems(3) have "length (strip_trailing ys) \<le> length ys - j"
    by (simp add: xs)
  then show ?case by (simp add: xs c' strip_trailing_def)
qed

end
