(* ===== verification/Money.thy ===== *)
theory Money
  imports Decimal_Text
begin

text \<open>
  The money value object, \<open>src/src/shared/kernel/money.ts\<close>: the two accepted notations, the
  conversion of a text to a count of ledger units (\<open>10\<^sup>-\<^sup>8\<close>), the constructors \<open>of\<close> and
  \<open>restore\<close>, the arithmetic, the conversion between currencies and the two ways of writing an
  amount. A \<open>bigint\<close> is an \<open>int\<close>; its division truncates toward zero (\<open>sdiv\<close>).
\<close>

section \<open>Constants\<close>

fun currencyDecimals :: "currency \<Rightarrow> nat" where
  "currencyDecimals ARS = 2"
| "currencyDecimals USD = 2"
| "currencyDecimals USDT = 6"
| "currencyDecimals BRL = 2"

definition LEDGER_SCALE :: nat where
  "LEDGER_SCALE = 8"

definition LEDGER_UNIT :: int where
  "LEDGER_UNIT = 10 ^ LEDGER_SCALE"

definition CEILING_TEXT :: string where
  "CEILING_TEXT = ''1000000000000''"

definition CEILING_UNITS :: int where
  "CEILING_UNITS = int (digits_value CEILING_TEXT) * LEDGER_UNIT"

definition MAX_RATE_DIGITS :: nat where
  "MAX_RATE_DIGITS = 36"

section \<open>Parsing\<close>

text \<open>
  \<open>/^(-?)(\<backslash>d+)(?:\<backslash>.(\<backslash>d+))?$/\<close> and \<open>/^(\<backslash>d+)(?:\<backslash>.(\<backslash>d+))?$/\<close>: the groups of the match, or
  \<open>None\<close>. Both expressions are unambiguous, so taking the longest run of digits decides them.
\<close>

definition rate_match :: "string \<Rightarrow> (string \<times> string option) option" where
  "rate_match raw =
     (let w = takeWhile is_digit raw; rest = dropWhile is_digit raw in
      if w = [] then None
      else case rest of
             [] \<Rightarrow> Some (w, None)
           | c # f \<Rightarrow> if c = CHR ''.'' \<and> f \<noteq> [] \<and> all_digits f then Some (w, Some f) else None)"

definition amount_match :: "string \<Rightarrow> (bool \<times> string \<times> string option) option" where
  "amount_match raw =
     (case raw of
        [] \<Rightarrow> None
      | c # cs \<Rightarrow> if c = CHR ''-'' then map_option (\<lambda>(w, f). (True, w, f)) (rate_match cs)
                  else map_option (\<lambda>(w, f). (False, w, f)) (rate_match raw))"

record parsed_amount =
  negative :: bool
  whole :: string
  fraction :: string

definition parseAmount :: "string \<Rightarrow> exn + parsed_amount" where
  "parseAmount raw =
     (case amount_match raw of
        None \<Rightarrow> Inl (InvalidAmountError raw)
      | Some (neg, w, f) \<Rightarrow>
          Inr \<lparr>negative = neg, whole = strip_leading w,
               fraction = strip_trailing (case f of None \<Rightarrow> [] | Some x \<Rightarrow> x)\<rparr>)"

definition toLedgerUnits :: "parsed_amount \<Rightarrow> string \<Rightarrow> exn + int" where
  "toLedgerUnits p raw =
     (if length (whole p) > length CEILING_TEXT then Inl (AmountTooLargeError raw)
      else let magnitude = int (digits_value (whole p)) * LEDGER_UNIT
                           + int (digits_value (padEnd LEDGER_SCALE (fraction p)))
           in Inr (if negative p then - magnitude else magnitude))"

definition parseRate :: "string \<Rightarrow> exn + (int \<times> int)" where
  "parseRate raw =
     (case rate_match raw of
        None \<Rightarrow> Inl (InvalidAmountError raw)
      | Some (w, fo) \<Rightarrow>
          let f = (case fo of None \<Rightarrow> [] | Some x \<Rightarrow> x) in
          if length w + length f > MAX_RATE_DIGITS then Inl (InvalidAmountError raw)
          else let numerator = int (digits_value (w @ f)) in
               if numerator = 0 then Inl (InvalidAmountError raw)
               else Inr (numerator, 10 ^ length f))"

section \<open>The value object\<close>

record money =
  ledgerUnits :: int
  currencyOf :: currency

definition mk_money :: "int \<Rightarrow> currency \<Rightarrow> money" where
  "mk_money u c = \<lparr>ledgerUnits = u, currencyOf = c\<rparr>"

definition toLedgerString :: "money \<Rightarrow> string" where
  "toLedgerString m =
     (let neg = ledgerUnits m < 0;
          magnitude = (if neg then - ledgerUnits m else ledgerUnits m);
          w = magnitude sdiv LEDGER_UNIT;
          f = padStart LEDGER_SCALE (show_nat (nat (magnitude smod LEDGER_UNIT)))
      in (if neg then ''-'' else '''') @ show_nat (nat w) @ ''.'' @ f)"

definition fromUnits :: "int \<Rightarrow> currency \<Rightarrow> string option \<Rightarrow> exn + money" where
  "fromUnits u c ctx =
     (if u \<ge> CEILING_UNITS \<or> u \<le> - CEILING_UNITS
      then Inl (AmountTooLargeError
                  (case ctx of None \<Rightarrow> toLedgerString (mk_money u c) | Some t \<Rightarrow> t))
      else Inr (mk_money u c))"

definition money_of :: "string \<Rightarrow> currency \<Rightarrow> exn + money" where
  "money_of raw c =
     thenR (parseAmount raw) (\<lambda>p.
       if length (fraction p) > currencyDecimals c
       then Inl (PrecisionError c (currencyDecimals c) raw)
       else thenR (toLedgerUnits p raw) (\<lambda>u. fromUnits u c (Some raw)))"

definition money_restore :: "string \<Rightarrow> currency \<Rightarrow> exn + money" where
  "money_restore raw c =
     thenR (parseAmount raw) (\<lambda>p.
       if length (fraction p) > LEDGER_SCALE then Inl (InvalidAmountError raw)
       else thenR (toLedgerUnits p raw) (\<lambda>u. fromUnits u c (Some raw)))"

definition money_zero :: "currency \<Rightarrow> money" where
  "money_zero c = mk_money 0 c"

definition assertSameCurrency :: "money \<Rightarrow> money \<Rightarrow> exn + unit" where
  "assertSameCurrency a b =
     (if currencyOf a \<noteq> currencyOf b
      then Inl (CurrencyMismatchError (currencyOf a) (currencyOf b)) else Inr ())"

definition money_add :: "money \<Rightarrow> money \<Rightarrow> exn + money" where
  "money_add a b =
     thenR (assertSameCurrency a b) (\<lambda>_.
       fromUnits (ledgerUnits a + ledgerUnits b) (currencyOf a) None)"

definition money_subtract :: "money \<Rightarrow> money \<Rightarrow> exn + money" where
  "money_subtract a b =
     thenR (assertSameCurrency a b) (\<lambda>_.
       fromUnits (ledgerUnits a - ledgerUnits b) (currencyOf a) None)"

definition currencyStep :: "currency \<Rightarrow> int" where
  "currencyStep c = 10 ^ (LEDGER_SCALE - currencyDecimals c)"

definition convertTo :: "money \<Rightarrow> currency \<Rightarrow> string \<Rightarrow> exn + money" where
  "convertTo m target rawRate =
     (if target = currencyOf m then Inl (CurrencyMismatchError (currencyOf m) target)
      else thenR (parseRate rawRate) (\<lambda>(numerator, denominator).
             let exact = (ledgerUnits m * numerator) sdiv denominator;
                 step = currencyStep target
             in fromUnits ((exact sdiv step) * step) target None))"

definition money_equals :: "money \<Rightarrow> money \<Rightarrow> bool" where
  "money_equals a b \<longleftrightarrow> currencyOf a = currencyOf b \<and> ledgerUnits a = ledgerUnits b"

definition isLessThan :: "money \<Rightarrow> money \<Rightarrow> exn + bool" where
  "isLessThan a b = thenR (assertSameCurrency a b) (\<lambda>_. Inr (ledgerUnits a < ledgerUnits b))"

definition isGreaterThanOrEqual :: "money \<Rightarrow> money \<Rightarrow> exn + bool" where
  "isGreaterThanOrEqual a b =
     thenR (assertSameCurrency a b) (\<lambda>_. Inr (ledgerUnits a \<ge> ledgerUnits b))"

definition isZero :: "money \<Rightarrow> bool" where
  "isZero m \<longleftrightarrow> ledgerUnits m = 0"

definition isNegative :: "money \<Rightarrow> bool" where
  "isNegative m \<longleftrightarrow> ledgerUnits m < 0"

definition money_toString :: "money \<Rightarrow> string" where
  "money_toString m =
     (let decimals = currencyDecimals (currencyOf m);
          step = (10::int) ^ (LEDGER_SCALE - decimals);
          neg = ledgerUnits m < 0;
          magnitude = (if neg then - ledgerUnits m else ledgerUnits m);
          quotient0 = magnitude sdiv step;
          quotient = (if (magnitude smod step) * 2 \<ge> step then quotient0 + 1 else quotient0);
          base = (10::int) ^ decimals;
          w = quotient sdiv base;
          txt = (if decimals > 0
                 then show_nat (nat w) @ ''.'' @ padStart decimals (show_nat (nat (quotient smod base)))
                 else show_nat (nat w))
      in if neg \<and> quotient \<noteq> 0 then ''-'' @ txt else txt)"

definition money_toJSON :: "money \<Rightarrow> string" where
  "money_toJSON m = money_toString m"

section \<open>The accepted texts\<close>

named_theorems money_simps

text \<open>The text with a given sign, whole part and optional fraction.\<close>

definition amount_text :: "bool \<Rightarrow> string \<Rightarrow> string option \<Rightarrow> string" where
  "amount_text neg w f =
     (if neg then ''-'' else '''') @ w @ (case f of None \<Rightarrow> '''' | Some x \<Rightarrow> ''.'' @ x)"

definition plain_parts :: "string \<Rightarrow> string option \<Rightarrow> bool" where
  "plain_parts w f \<longleftrightarrow> w \<noteq> [] \<and> all_digits w
     \<and> (case f of None \<Rightarrow> True | Some x \<Rightarrow> x \<noteq> [] \<and> all_digits x)"

lemma not_digit_punct [simp]: "\<not> is_digit (CHR ''.'')" "\<not> is_digit (CHR ''-'')"
  by (simp_all add: is_digit_def)

lemma takeWhile_digits: "all_digits w \<Longrightarrow> takeWhile is_digit (w @ r) = w @ takeWhile is_digit r"
  by (induction w) simp_all

lemma dropWhile_digits: "all_digits w \<Longrightarrow> dropWhile is_digit (w @ r) = dropWhile is_digit r"
  by (induction w) simp_all

lemma span_digits_all:
  "all_digits w \<Longrightarrow> takeWhile is_digit w = w" "all_digits w \<Longrightarrow> dropWhile is_digit w = []"
  by (induction w) simp_all

lemma rate_match_text: "plain_parts w f \<Longrightarrow> rate_match (amount_text False w f) = Some (w, f)"
  by (cases f)
     (auto simp: rate_match_def amount_text_def plain_parts_def takeWhile_digits dropWhile_digits
                 span_digits_all)

lemma rate_match_Some:
  assumes "rate_match raw = Some (w, f)"
  shows "raw = amount_text False w f \<and> plain_parts w f"
proof -
  obtain v r where vr: "v = takeWhile is_digit raw" "r = dropWhile is_digit raw" by simp
  then have raw: "raw = v @ r" by simp
  have dig: "all_digits v" using vr by (auto simp: list_all_iff dest: set_takeWhileD)
  from assms show ?thesis
    unfolding rate_match_def Let_def vr[symmetric] using raw dig
    by (auto simp: amount_text_def plain_parts_def split: if_splits list.splits)
qed

lemma rate_match_iff:
  "rate_match raw = Some (w, f) \<longleftrightarrow> raw = amount_text False w f \<and> plain_parts w f"
  using rate_match_Some rate_match_text by blast

lemma amount_text_neg: "amount_text True w f = CHR ''-'' # amount_text False w f"
  by (simp add: amount_text_def)

lemma amount_text_hd:
  "plain_parts w f \<Longrightarrow> \<exists>c cs. amount_text False w f = c # cs \<and> c \<noteq> CHR ''-''"
  by (cases w) (auto simp: amount_text_def plain_parts_def)

lemma amount_match_iff:
  "amount_match raw = Some (neg, w, f) \<longleftrightarrow> raw = amount_text neg w f \<and> plain_parts w f"
proof (cases neg)
  case True
  have "amount_match (amount_text True w f) = Some (True, w, f)" if "plain_parts w f"
    using rate_match_text[OF that] by (simp add: amount_match_def amount_text_neg)
  moreover have "raw = amount_text True w f \<and> plain_parts w f"
    if "amount_match raw = Some (True, w, f)"
    using that rate_match_Some
    by (auto simp: amount_match_def amount_text_neg split: list.splits if_splits)
  ultimately show ?thesis using True by auto
next
  case False
  have "amount_match (amount_text False w f) = Some (False, w, f)" if "plain_parts w f"
    using rate_match_text[OF that] amount_text_hd[OF that] by (auto simp: amount_match_def)
  moreover have "raw = amount_text False w f \<and> plain_parts w f"
    if "amount_match raw = Some (False, w, f)"
    using that rate_match_Some by (auto simp: amount_match_def split: list.splits if_splits)
  ultimately show ?thesis using False by auto
qed

section \<open>Constants, evaluated\<close>

lemma digits_value_ceiling: "digits_value CEILING_TEXT = 10 ^ 12"
  unfolding CEILING_TEXT_def by (simp add: digits_value_def digit_val_def)

lemma money_const [money_simps]:
  "LEDGER_SCALE = 8" "LEDGER_UNIT = 10 ^ 8" "length CEILING_TEXT = 13" "CEILING_UNITS = 10 ^ 20"
  unfolding CEILING_UNITS_def digits_value_ceiling
  by (simp_all add: LEDGER_SCALE_def LEDGER_UNIT_def CEILING_TEXT_def)

lemma currencyDecimals_le [simp]: "currencyDecimals c \<le> 8" "0 < currencyDecimals c"
  by (cases c; simp)+

lemma currencyStep_pos [simp]: "0 < currencyStep c"
  by (simp add: currencyStep_def)

lemma currencyStep_scale: "currencyStep c * 10 ^ currencyDecimals c = LEDGER_UNIT"
  by (cases c) (simp_all add: currencyStep_def money_simps)

section \<open>The count of ledger units of a text\<close>

definition frac_of :: "string option \<Rightarrow> string" where
  "frac_of f = (case f of None \<Rightarrow> [] | Some x \<Rightarrow> x)"

definition units_of :: "bool \<Rightarrow> string \<Rightarrow> string option \<Rightarrow> int" where
  "units_of neg w f =
     (let u = int (digits_value w) * LEDGER_UNIT
              + int (digits_value (padEnd LEDGER_SCALE (strip_trailing (frac_of f))))
      in if neg then - u else u)"

lemma frac_of_simps [simp]: "frac_of None = []" "frac_of (Some x) = x"
  by (simp_all add: frac_of_def)

lemma plain_parts_digits:
  "plain_parts w f \<Longrightarrow> all_digits w \<and> all_digits (frac_of f) \<and> w \<noteq> []"
  by (cases f) (simp_all add: plain_parts_def)

lemma digits_value_fraction:
  assumes "length (strip_trailing f) \<le> k"
  shows "digits_value (padEnd k (strip_trailing f)) * 10 ^ length f = digits_value f * 10 ^ k"
proof -
  let ?s = "strip_trailing f" and ?z = "length f - length (strip_trailing f)"
  have len: "length f = length ?s + ?z" using strip_trailing_length[of f] by simp
  have "digits_value f = digits_value (?s @ zeros ?z)" using strip_trailing_split[of f] by simp
  then have val: "digits_value f = digits_value ?s * 10 ^ ?z" by (simp add: digit_simps)
  have "digits_value (padEnd k ?s) * 10 ^ length f
        = digits_value ?s * (10 ^ (k - length ?s) * 10 ^ length ?s) * 10 ^ ?z"
    by (subst len) (simp add: digits_value_padEnd power_add algebra_simps)
  also have "\<dots> = digits_value f * 10 ^ k"
    using assms by (simp add: val algebra_simps flip: power_add)
  finally show ?thesis .
qed

lemma padEnd_fraction_less:
  assumes "length (strip_trailing f) \<le> k" and "all_digits f"
  shows "digits_value (padEnd k (strip_trailing f)) < 10 ^ k"
proof -
  have "all_digits (padEnd k (strip_trailing f))"
    using strip_trailing_digits[OF assms(2)] by (simp add: padEnd_def)
  moreover have "length (padEnd k (strip_trailing f)) = k"
    using assms(1) by (simp add: padEnd_def)
  ultimately show ?thesis using digits_value_less[of "padEnd k (strip_trailing f)"] by simp
qed

text \<open>The units denote exactly the decimal number that was written.\<close>

lemma units_of_exact:
  assumes "length (strip_trailing (frac_of f)) \<le> LEDGER_SCALE"
  shows "units_of neg w f * 10 ^ length (frac_of f)
         = (if neg then - 1 else 1) * int (digits_value (w @ frac_of f)) * LEDGER_UNIT"
proof -
  let ?f = "frac_of f"
  let ?p = "int (digits_value (padEnd LEDGER_SCALE (strip_trailing ?f)))"
  have p: "?p * 10 ^ length ?f = int (digits_value ?f) * LEDGER_UNIT"
    using arg_cong[OF digits_value_fraction[OF assms], of int] by (simp add: money_simps)
  have "(int (digits_value w) * LEDGER_UNIT + ?p) * 10 ^ length ?f
        = int (digits_value (w @ ?f)) * LEDGER_UNIT"
    by (simp add: p digit_simps algebra_simps)
  then show ?thesis by (simp add: units_of_def Let_def algebra_simps)
qed

lemma scaled_less:
  "0 \<le> p \<Longrightarrow> p < 10 ^ 8 \<Longrightarrow> (k * 10 ^ 8 + p < 10 ^ 20) = (k < (10::int) ^ 12)"
  by (rule iffI; simp; linarith)

lemma units_of_ceiling:
  assumes "plain_parts w f" and "length (strip_trailing (frac_of f)) \<le> LEDGER_SCALE"
  shows "\<bar>units_of neg w f\<bar> < CEILING_UNITS \<longleftrightarrow> digits_value w < 10 ^ 12"
proof -
  let ?p = "int (digits_value (padEnd LEDGER_SCALE (strip_trailing (frac_of f))))"
  have "all_digits (frac_of f)" using plain_parts_digits[OF assms(1)] by simp
  then have "digits_value (padEnd LEDGER_SCALE (strip_trailing (frac_of f))) < 10 ^ LEDGER_SCALE"
    using assms(2) by (rule padEnd_fraction_less[rotated])
  then have "?p < int (10 ^ LEDGER_SCALE)" by (simp only: of_nat_less_iff)
  then have p: "0 \<le> ?p" "?p < 10 ^ 8" by (simp_all add: money_simps)
  have "\<bar>units_of neg w f\<bar> = int (digits_value w) * 10 ^ 8 + ?p"
    using p(1) by (simp add: units_of_def Let_def money_simps)
  also have "\<dots> < 10 ^ 20 \<longleftrightarrow> int (digits_value w) < 10 ^ 12"
    by (rule scaled_less[OF p])
  finally show ?thesis by (simp add: money_simps)
qed

lemma strip_leading_value_ge:
  "1 < length (strip_leading w) \<Longrightarrow> all_digits w
   \<Longrightarrow> 10 ^ (length (strip_leading w) - 1) \<le> digits_value w"
proof (induction w rule: strip_leading.induct)
  case (1 c d ds)
  show ?case
  proof (cases "c = CHR ''0''")
    case True
    with 1 show ?thesis by (simp add: digit_simps)
  next
    case False
    have "digit_val c \<noteq> 0"
    proof
      assume "digit_val c = 0"
      then have "of_char c = (of_char (CHR ''0'') :: nat)"
        using 1(3) by (simp add: is_digit_def digit_val_def)
      with False show False by (simp only: of_char_eq_iff)
    qed
    then have "1 * 10 ^ length (d # ds) \<le> digit_val c * 10 ^ length (d # ds)"
      by (intro mult_right_mono) simp_all
    then have "10 ^ length (d # ds) \<le> digits_value (c # d # ds)"
      unfolding digits_value_Cons[of c "d # ds"] by linarith
    then show ?thesis using False by simp
  qed
qed simp_all

lemma toLedgerUnits_text:
  "toLedgerUnits \<lparr>negative = neg, whole = strip_leading w, fraction = strip_trailing (frac_of f)\<rparr> raw
   = (if length (strip_leading w) > 13 then Inl (AmountTooLargeError raw)
      else Inr (units_of neg w f))"
  by (simp add: toLedgerUnits_def units_of_def Let_def money_simps)

lemma long_whole_is_large:
  "all_digits w \<Longrightarrow> 13 < length (strip_leading w) \<Longrightarrow> 10 ^ 12 \<le> digits_value w"
  by (rule order_trans[OF power_increasing strip_leading_value_ge]) simp_all

lemma parseAmount_text:
  "plain_parts w f \<Longrightarrow> parseAmount (amount_text neg w f) =
     Inr \<lparr>negative = neg, whole = strip_leading w, fraction = strip_trailing (frac_of f)\<rparr>"
  by (simp add: parseAmount_def amount_match_iff[THEN iffD2, OF conjI, OF refl] frac_of_def)

lemma parseAmount_Inr_iff:
  "parseAmount raw = Inr p \<longleftrightarrow>
     (\<exists>neg w f. raw = amount_text neg w f \<and> plain_parts w f
        \<and> p = \<lparr>negative = neg, whole = strip_leading w, fraction = strip_trailing (frac_of f)\<rparr>)"
proof
  assume "parseAmount raw = Inr p"
  then obtain neg w f where "amount_match raw = Some (neg, w, f)"
    and "p = \<lparr>negative = neg, whole = strip_leading w, fraction = strip_trailing (frac_of f)\<rparr>"
    by (auto simp: parseAmount_def frac_of_def split: option.splits)
  then show "\<exists>neg w f. raw = amount_text neg w f \<and> plain_parts w f
        \<and> p = \<lparr>negative = neg, whole = strip_leading w, fraction = strip_trailing (frac_of f)\<rparr>"
    unfolding amount_match_iff by blast
qed (auto simp: parseAmount_text)

lemma parseAmount_Inl_iff:
  "parseAmount raw = Inl e \<longleftrightarrow> e = InvalidAmountError raw \<and> amount_match raw = None"
  by (auto simp: parseAmount_def split: option.splits)

section \<open>Construction\<close>

definition money_ok :: "money \<Rightarrow> bool" where
  "money_ok m \<longleftrightarrow> \<bar>ledgerUnits m\<bar> < CEILING_UNITS"

lemma mk_money_simps [simp]:
  "ledgerUnits (mk_money u c) = u" "currencyOf (mk_money u c) = c"
  "mk_money (ledgerUnits m) (currencyOf m) = m"
  "mk_money u c = mk_money u' c' \<longleftrightarrow> u = u' \<and> c = c'"
  by (simp_all add: mk_money_def)

lemma fromUnits_Inr_iff:
  "fromUnits u c ctx = Inr m \<longleftrightarrow> \<bar>u\<bar> < CEILING_UNITS \<and> m = mk_money u c"
  by (auto simp: fromUnits_def)

lemma fromUnits_ok:
  "fromUnits u c ctx = Inr m \<Longrightarrow> money_ok m \<and> ledgerUnits m = u \<and> currencyOf m = c"
  by (simp add: fromUnits_Inr_iff money_ok_def)

lemma money_of_text:
  assumes "plain_parts w f"
  shows "money_of (amount_text neg w f) c =
     (if length (strip_trailing (frac_of f)) > currencyDecimals c
      then Inl (PrecisionError c (currencyDecimals c) (amount_text neg w f))
      else if digits_value w \<ge> 10 ^ 12 then Inl (AmountTooLargeError (amount_text neg w f))
      else Inr (mk_money (units_of neg w f) c))"
proof (cases "length (strip_trailing (frac_of f)) > currencyDecimals c")
  case True
  then show ?thesis by (simp add: money_of_def parseAmount_text[OF assms])
next
  case False
  then have short: "length (strip_trailing (frac_of f)) \<le> LEDGER_SCALE"
    unfolding money_simps using currencyDecimals_le(1)[of c] by linarith
  note ceil = units_of_ceiling[OF assms short, of neg]
  have digs: "all_digits w" using plain_parts_digits[OF assms] by simp
  show ?thesis
    using False ceil long_whole_is_large[OF digs]
    by (auto simp: money_of_def parseAmount_text[OF assms] toLedgerUnits_text fromUnits_def)
qed

lemma money_restore_text:
  assumes "plain_parts w f"
  shows "money_restore (amount_text neg w f) c =
     (if length (strip_trailing (frac_of f)) > LEDGER_SCALE
      then Inl (InvalidAmountError (amount_text neg w f))
      else if digits_value w \<ge> 10 ^ 12 then Inl (AmountTooLargeError (amount_text neg w f))
      else Inr (mk_money (units_of neg w f) c))"
proof (cases "length (strip_trailing (frac_of f)) > LEDGER_SCALE")
  case True
  then show ?thesis by (simp add: money_restore_def parseAmount_text[OF assms])
next
  case False
  then have short: "length (strip_trailing (frac_of f)) \<le> LEDGER_SCALE" by simp
  note ceil = units_of_ceiling[OF assms short, of neg]
  have digs: "all_digits w" using plain_parts_digits[OF assms] by simp
  show ?thesis
    using False ceil long_whole_is_large[OF digs]
    by (auto simp: money_restore_def parseAmount_text[OF assms] toLedgerUnits_text fromUnits_def)
qed

lemma money_malformed:
  "amount_match raw = None \<Longrightarrow> money_of raw c = Inl (InvalidAmountError raw)"
  "amount_match raw = None \<Longrightarrow> money_restore raw c = Inl (InvalidAmountError raw)"
  by (simp_all add: money_of_def money_restore_def parseAmount_def)

section \<open>Truncating division\<close>

lemma sdiv_nonneg [simp]: "0 \<le> a \<Longrightarrow> 0 < b \<Longrightarrow> a sdiv b = a div b" for a b :: int
  by (cases "a = 0") (simp_all add: signed_divide_int_def)

lemma smod_nonneg [simp]: "0 \<le> a \<Longrightarrow> 0 < b \<Longrightarrow> a smod b = a mod b" for a b :: int
  by (cases "a = 0") (simp_all add: signed_modulo_int_def)

lemma abs_sdiv: "0 < b \<Longrightarrow> \<bar>a sdiv b\<bar> = \<bar>a\<bar> div b" for a b :: int
  by (cases "a = 0") (simp_all add: signed_divide_int_def abs_mult pos_imp_zdiv_nonneg_iff)

lemma sdiv_neg: "0 < b \<Longrightarrow> (- a) sdiv b = - (a sdiv b)" for a b :: int
  by (simp add: signed_divide_int_def)

lemma sdiv_sdiv:
  fixes a b c :: int
  assumes "0 < b" and "0 < c"
  shows "(a sdiv b) sdiv c = a sdiv (b * c)"
proof -
  have pos: "(x sdiv b) sdiv c = x sdiv (b * c)" if "0 \<le> x" for x
    using that assms by (simp add: zdiv_zmult2_eq pos_imp_zdiv_nonneg_iff)
  show ?thesis
  proof (cases "0 \<le> a")
    case True
    then show ?thesis by (rule pos)
  next
    case False
    then have "((- a) sdiv b) sdiv c = (- a) sdiv (b * c)" by (intro pos) simp
    then show ?thesis using assms by (simp add: sdiv_neg)
  qed
qed

text \<open>The truncated multiple of a step: never larger in magnitude, and less than a step away.\<close>

lemma trunc_step:
  fixes a d k :: int
  assumes "0 < d" and "0 < k"
  defines "t \<equiv> (a sdiv (d * k)) * k"
  shows "\<bar>t\<bar> * d \<le> \<bar>a\<bar>" and "\<bar>a\<bar> < (\<bar>t\<bar> + k) * d" and "k dvd t" and "0 \<le> t * a"
proof -
  let ?q = "\<bar>a\<bar> div (d * k)"
  have dk: "0 < d * k" using assms by simp
  have t: "\<bar>t\<bar> = ?q * k" using assms dk by (simp add: t_def abs_mult abs_sdiv)
  have eq: "\<bar>a\<bar> = ?q * (d * k) + \<bar>a\<bar> mod (d * k)" by (rule div_mult_mod_eq[symmetric])
  have b: "0 \<le> \<bar>a\<bar> mod (d * k)" "\<bar>a\<bar> mod (d * k) < d * k" using dk by simp_all
  have td: "\<bar>t\<bar> * d = ?q * (d * k)" by (simp add: t algebra_simps)
  show "\<bar>t\<bar> * d \<le> \<bar>a\<bar>" unfolding td using eq b(1) by linarith
  have "(\<bar>t\<bar> + k) * d = ?q * (d * k) + d * k" unfolding distrib_right td by simp
  then show "\<bar>a\<bar> < (\<bar>t\<bar> + k) * d" using eq b(2) by linarith
  show "k dvd t" by (simp add: t_def)
  have "(a sdiv (d * k)) * a = ?q * (a * sgn a)"
    unfolding signed_divide_int_def using dk by (simp add: ac_simps)
  also have "\<dots> = ?q * \<bar>a\<bar>" by (simp only: abs_sgn)
  also have "0 \<le> \<dots>" using dk by (intro mult_nonneg_nonneg div_int_pos_iff[THEN iffD2]) simp_all
  finally have "0 \<le> (a sdiv (d * k)) * a" .
  then have "0 \<le> k * ((a sdiv (d * k)) * a)" by (rule mult_nonneg_nonneg[OF less_imp_le[OF assms(2)]])
  then show "0 \<le> t * a" by (simp add: t_def ac_simps)
qed

section \<open>Conversion\<close>

lemma parseRate_pos: "parseRate raw = Inr (n, d) \<Longrightarrow> 0 < n \<and> 0 < d"
  by (auto simp: parseRate_def Let_def split: option.splits if_splits)

lemma convertTo_Inr_iff:
  "convertTo m t raw = Inr m' \<longleftrightarrow>
     t \<noteq> currencyOf m \<and>
     (\<exists>n d. parseRate raw = Inr (n, d)
        \<and> m' = mk_money ((ledgerUnits m * n) sdiv (d * currencyStep t) * currencyStep t) t
        \<and> money_ok m')"
proof (cases "parseRate raw")
  case (Inl e)
  then show ?thesis by (auto simp: convertTo_def)
next
  case (Inr nd)
  obtain n d where nd: "nd = (n, d)" by (cases nd)
  then have "0 < d" using Inr parseRate_pos by blast
  then have "(x sdiv d) sdiv currencyStep t = x sdiv (d * currencyStep t)" for x
    by (rule sdiv_sdiv) simp
  then show ?thesis
    using Inr nd by (auto simp: convertTo_def Let_def fromUnits_Inr_iff money_ok_def)
qed

section \<open>Writing an amount\<close>

lemma abs_if_neg: "(if u < 0 then - u else u) = \<bar>u\<bar>" for u :: int
  by simp

lemma toLedgerString_text:
  "toLedgerString m =
     amount_text (ledgerUnits m < 0) (show_nat (nat (\<bar>ledgerUnits m\<bar> div LEDGER_UNIT)))
       (Some (padStart LEDGER_SCALE (show_nat (nat (\<bar>ledgerUnits m\<bar> mod LEDGER_UNIT)))))"
  by (simp add: toLedgerString_def Let_def abs_if_neg amount_text_def money_simps)

text \<open>A count \<open>q\<close> of the unit \<open>10\<^sup>-\<^sup>d\<close> as text, and the number it denotes.\<close>

definition fixed_whole :: "nat \<Rightarrow> int \<Rightarrow> string" where
  "fixed_whole d q = show_nat (nat (q div 10 ^ d))"

definition fixed_frac :: "nat \<Rightarrow> int \<Rightarrow> string" where
  "fixed_frac d q = padStart d (show_nat (nat (q mod 10 ^ d)))"

lemma fixed_frac_length: "0 < d \<Longrightarrow> length (fixed_frac d q) = d"
  unfolding fixed_frac_def
  by (intro length_padStart length_show_nat_le) (simp_all add: nat_less_iff)

lemma fixed_plain: "0 < d \<Longrightarrow> plain_parts (fixed_whole d q) (Some (fixed_frac d q))"
  using fixed_frac_length[of d q] by (auto simp: plain_parts_def fixed_whole_def fixed_frac_def)

lemma fixed_value:
  assumes "0 < d" and "0 \<le> q"
  shows "int (digits_value (fixed_whole d q @ fixed_frac d q)) = q"
proof -
  have "int (digits_value (fixed_whole d q @ fixed_frac d q)) = q div 10 ^ d * 10 ^ d + q mod 10 ^ d"
    using assms fixed_frac_length[OF assms(1), of q]
    by (simp add: digit_simps) (simp add: fixed_whole_def fixed_frac_def pos_imp_zdiv_nonneg_iff)
  then show ?thesis by (simp only: div_mult_mod_eq)
qed

lemma fixed_whole_value: "0 \<le> q \<Longrightarrow> int (digits_value (fixed_whole d q)) = q div 10 ^ d"
  by (simp add: fixed_whole_def pos_imp_zdiv_nonneg_iff)

lemma units_of_fixed:
  assumes "0 < d" and "d \<le> LEDGER_SCALE" and "0 \<le> q"
  shows "units_of neg (fixed_whole d q) (Some (fixed_frac d q))
         = (if neg then - 1 else 1) * q * 10 ^ (LEDGER_SCALE - d)"
proof -
  let ?u = "units_of neg (fixed_whole d q) (Some (fixed_frac d q))"
  have "length (strip_trailing (fixed_frac d q)) \<le> LEDGER_SCALE"
    using strip_trailing_length[of "fixed_frac d q"] fixed_frac_length[OF assms(1), of q] assms(2)
    by simp
  then have "?u * 10 ^ d = (if neg then - 1 else 1) * q * LEDGER_UNIT"
    using units_of_exact[of "Some (fixed_frac d q)" neg "fixed_whole d q"]
          fixed_value[OF assms(1,3)] fixed_frac_length[OF assms(1), of q] by simp
  also have "LEDGER_UNIT = 10 ^ (LEDGER_SCALE - d) * 10 ^ d"
    using assms(2) by (simp add: LEDGER_UNIT_def flip: power_add)
  finally show ?thesis by simp
qed

lemma toLedgerString_fixed:
  "toLedgerString m = amount_text (ledgerUnits m < 0) (fixed_whole LEDGER_SCALE \<bar>ledgerUnits m\<bar>)
                        (Some (fixed_frac LEDGER_SCALE \<bar>ledgerUnits m\<bar>))"
  by (simp add: toLedgerString_text fixed_whole_def fixed_frac_def LEDGER_UNIT_def)

lemma restore_fixed:
  assumes "0 < d" and "d \<le> LEDGER_SCALE" and "0 \<le> q" and "q < 10 ^ (12 + d)"
  shows "money_restore (amount_text neg (fixed_whole d q) (Some (fixed_frac d q))) c
         = Inr (mk_money ((if neg then - 1 else 1) * q * 10 ^ (LEDGER_SCALE - d)) c)"
proof -
  have short: "length (strip_trailing (fixed_frac d q)) \<le> LEDGER_SCALE"
    using strip_trailing_length[of "fixed_frac d q"] fixed_frac_length[OF assms(1), of q] assms(2)
    by simp
  have "q div 10 ^ d * 10 ^ d \<le> q"
    using div_mult_mod_eq[of q "10 ^ d"] pos_mod_sign[of "10 ^ d" q, OF zero_less_power] by linarith
  also have "q < 10 ^ 12 * 10 ^ d" using assms(4) by (simp add: power_add)
  finally have "q div 10 ^ d < 10 ^ 12" by (rule mult_right_less_imp_less) simp
  then have "int (digits_value (fixed_whole d q)) < int (10 ^ 12)"
    using fixed_whole_value[OF assms(3), of d] by simp
  then have "digits_value (fixed_whole d q) < 10 ^ 12" by (simp only: of_nat_less_iff)
  then show ?thesis
    using short units_of_fixed[OF assms(1-3), of neg]
    by (simp add: money_restore_text[OF fixed_plain[OF assms(1)]] not_le)
qed

text \<open>The rounding of \<open>toString\<close>: to the nearest step, a tie away from zero.\<close>

definition round_quotient :: "int \<Rightarrow> int \<Rightarrow> int" where
  "round_quotient k a = (if (a mod k) * 2 \<ge> k then a div k + 1 else a div k)"

lemma round_quotient_bounds:
  assumes "0 < k"
  shows "2 * (round_quotient k a * k - a) \<le> k" and "- k < 2 * (round_quotient k a * k - a)"
proof -
  obtain r where r: "r = a mod k" "0 \<le> r" "r < k" using assms by simp
  have "round_quotient k a * k - a = (if r * 2 \<ge> k then k - r else - r)"
    unfolding round_quotient_def r(1)
    by (simp add: algebra_simps minus_mod_eq_mult_div[symmetric])
  then show "2 * (round_quotient k a * k - a) \<le> k" "- k < 2 * (round_quotient k a * k - a)"
    using r(2,3) by (cases "r * 2 \<ge> k"; simp)+
qed

lemma round_quotient_nonneg: "0 < k \<Longrightarrow> 0 \<le> a \<Longrightarrow> 0 \<le> round_quotient k a"
  by (simp add: round_quotient_def pos_imp_zdiv_nonneg_iff)

lemma round_quotient_exact: "0 < k \<Longrightarrow> round_quotient k (q * k) = q"
  by (simp add: round_quotient_def)

lemma money_toString_fixed:
  "money_toString m =
     (let q = round_quotient (currencyStep (currencyOf m)) \<bar>ledgerUnits m\<bar>;
          d = currencyDecimals (currencyOf m)
      in amount_text (ledgerUnits m < 0 \<and> q \<noteq> 0) (fixed_whole d q) (Some (fixed_frac d q)))"
proof -
  let ?k = "currencyStep (currencyOf m)" and ?d = "currencyDecimals (currencyOf m)"
  have k: "(10::int) ^ (LEDGER_SCALE - ?d) = ?k" by (simp add: currencyStep_def)
  let ?a = "\<bar>ledgerUnits m\<bar>"
  have q: "0 \<le> round_quotient ?k ?a" by (rule round_quotient_nonneg) simp_all
  have rq: "(if (?a smod ?k) * 2 \<ge> ?k then ?a sdiv ?k + 1 else ?a sdiv ?k) = round_quotient ?k ?a"
    by (subst sdiv_nonneg smod_nonneg, simp, simp)+ (simp add: round_quotient_def)
  obtain x where x: "x = round_quotient ?k ?a" by simp
  show ?thesis
    unfolding money_toString_def Let_def abs_if_neg k rq x[symmetric]
    using q[folded x] by (simp add: amount_text_def fixed_whole_def fixed_frac_def)
qed

section \<open>Round trips\<close>

lemma restore_ledger_any:
  assumes "\<bar>ledgerUnits m\<bar> < CEILING_UNITS"
  shows "money_restore (toLedgerString m) c = Inr (mk_money (ledgerUnits m) c)"
proof -
  have "\<bar>ledgerUnits m\<bar> < 10 ^ (12 + LEDGER_SCALE)"
    using assms by (simp add: money_simps)
  then have "money_restore (toLedgerString m) c = Inr (mk_money
      ((if ledgerUnits m < 0 then - 1 else 1) * \<bar>ledgerUnits m\<bar> * 10 ^ (LEDGER_SCALE - LEDGER_SCALE)) c)"
    unfolding toLedgerString_fixed by (intro restore_fixed) (simp_all add: LEDGER_SCALE_def)
  then show ?thesis by (simp add: abs_if split: if_splits)
qed

lemma restore_ledger_text:
  "money_ok m \<Longrightarrow> money_restore (toLedgerString m) (currencyOf m) = Inr m"
  by (simp add: restore_ledger_any money_ok_def)

text \<open>The amount a ledger text denotes, whatever its size.\<close>

definition units_of_text :: "string \<Rightarrow> int" where
  "units_of_text t = (case amount_match t of None \<Rightarrow> 0 | Some (neg, w, f) \<Rightarrow> units_of neg w f)"

lemma units_of_ledger_text: "units_of_text (toLedgerString m) = ledgerUnits m"
proof -
  let ?a = "\<bar>ledgerUnits m\<bar>" and ?neg = "ledgerUnits m < 0"
  have "amount_match (toLedgerString m) = Some (?neg, fixed_whole LEDGER_SCALE ?a, Some (fixed_frac LEDGER_SCALE ?a))"
    by (subst amount_match_iff) (simp add: toLedgerString_fixed fixed_plain LEDGER_SCALE_def)
  then show ?thesis
    by (simp add: units_of_text_def units_of_fixed LEDGER_SCALE_def abs_if split: if_splits)
qed

lemma toString_grid:
  assumes "currencyStep (currencyOf m) dvd ledgerUnits m"
  defines "k \<equiv> currencyStep (currencyOf m)"
  shows "round_quotient k \<bar>ledgerUnits m\<bar> = \<bar>ledgerUnits m\<bar> div k"
    and "\<bar>ledgerUnits m\<bar> div k * k = \<bar>ledgerUnits m\<bar>"
proof -
  show q: "\<bar>ledgerUnits m\<bar> div k * k = \<bar>ledgerUnits m\<bar>" using assms by simp
  show "round_quotient k \<bar>ledgerUnits m\<bar> = \<bar>ledgerUnits m\<bar> div k"
    using round_quotient_exact[of k "\<bar>ledgerUnits m\<bar> div k"] unfolding q by (simp add: k_def)
qed

lemma restore_display_text:
  assumes "money_ok m" and "currencyStep (currencyOf m) dvd ledgerUnits m"
  shows "money_restore (money_toString m) (currencyOf m) = Inr m"
proof -
  let ?c = "currencyOf m" and ?d = "currencyDecimals (currencyOf m)"
  let ?k = "currencyStep ?c" and ?a = "\<bar>ledgerUnits m\<bar>"
  let ?q = "?a div ?k" and ?neg = "ledgerUnits m < 0 \<and> ?a div ?k \<noteq> 0"
  note q = toString_grid[OF assms(2)]
  have q0: "0 \<le> ?q" by (simp add: pos_imp_zdiv_nonneg_iff)
  have d: "0 < ?d" "?d \<le> LEDGER_SCALE" by (simp_all add: LEDGER_SCALE_def)
  have k: "?k = 10 ^ (LEDGER_SCALE - ?d)" by (simp add: currencyStep_def)
  have "?q * ?k < 10 ^ 12 * 10 ^ ?d * ?k"
    using assms(1) currencyStep_scale[of ?c]
    unfolding q(2) by (simp add: money_ok_def money_simps mult.commute mult.left_commute)
  then have "?q < 10 ^ (12 + ?d)" by (simp add: power_add)
  then have r: "money_restore (amount_text ?neg (fixed_whole ?d ?q) (Some (fixed_frac ?d ?q))) ?c
         = Inr (mk_money ((if ?neg then - 1 else 1) * ?q * 10 ^ (LEDGER_SCALE - ?d)) ?c)"
    by (rule restore_fixed[OF d q0])
  have "(if ?neg then - 1 else 1) * ?q * 10 ^ (LEDGER_SCALE - ?d) = ledgerUnits m"
    using q(2) unfolding k[symmetric] by (auto simp: abs_if split: if_splits)
  then show ?thesis
    using r by (simp add: money_toString_fixed Let_def q(1))
qed

end
