(* ===== verification/Money_Laws.thy ===== *)
theory Money_Laws
  imports Money
begin

text \<open>
  The properties of the money value object: which texts it accepts and the exact number each
  denotes, the two round trips through text, the rounding of the displayed form, the ceiling
  as an invariant of everything the class can produce, and what a conversion may lose but never
  gain.
\<close>

section \<open>Parsing\<close>

text \<open>C6. \<open>Money.of\<close> succeeds exactly on the plain decimals (an optional minus, digits, an
  optional point with digits) that have, trailing zeros apart, no more decimals than the
  currency and are below \<open>10\<^sup>1\<^sup>2\<close> in magnitude, however many leading zeros they have; the value it
  returns is the written number, exactly: with \<open>k\<close> digits after the point, its count of
  \<open>10\<^sup>-\<^sup>8\<close> times \<open>10\<^sup>k\<close> is the integer written by all the digits, times \<open>10\<^sup>8\<close>.\<close>

theorem money_of_exact:
  "money_of raw c = Inr m \<longleftrightarrow>
     (\<exists>neg w f. raw = amount_text neg w f \<and> plain_parts w f
        \<and> length (strip_trailing (frac_of f)) \<le> currencyDecimals c
        \<and> digits_value w < 10 ^ 12
        \<and> currencyOf m = c
        \<and> ledgerUnits m * 10 ^ length (frac_of f)
            = (if neg then - 1 else 1) * int (digits_value (w @ frac_of f)) * 10 ^ 8)"
    (is "_ \<longleftrightarrow> ?R")
proof
  assume ok: "money_of raw c = Inr m"
  obtain neg w f where am: "amount_match raw = Some (neg, w, f)"
    using ok money_malformed(1)[of raw c] by (cases "amount_match raw") auto
  then have raw: "raw = amount_text neg w f" and pl: "plain_parts w f"
    by (simp_all add: amount_match_iff)
  have sh: "length (strip_trailing (frac_of f)) \<le> currencyDecimals c" and
    lt: "digits_value w < 10 ^ 12" and m: "m = mk_money (units_of neg w f) c"
    using ok unfolding raw money_of_text[OF pl] by (auto split: if_splits)
  have "length (strip_trailing (frac_of f)) \<le> LEDGER_SCALE"
    unfolding money_simps using sh currencyDecimals_le(1)[of c] by linarith
  from units_of_exact[OF this, of neg w] raw pl sh lt m show ?R
    by (intro exI[of _ neg] exI[of _ w] exI[of _ f]) (simp add: money_simps)
next
  assume ?R
  then obtain neg w f where raw: "raw = amount_text neg w f" and pl: "plain_parts w f"
    and sh: "length (strip_trailing (frac_of f)) \<le> currencyDecimals c"
    and lt: "digits_value w < 10 ^ 12" and c: "currencyOf m = c"
    and u: "ledgerUnits m * 10 ^ length (frac_of f)
            = (if neg then - 1 else 1) * int (digits_value (w @ frac_of f)) * 10 ^ 8" by blast
  have "length (strip_trailing (frac_of f)) \<le> LEDGER_SCALE"
    unfolding money_simps using sh currencyDecimals_le(1)[of c] by linarith
  from units_of_exact[OF this, of neg w] u
  have "ledgerUnits m * 10 ^ length (frac_of f) = units_of neg w f * 10 ^ length (frac_of f)"
    by (simp only: money_simps)
  then have "ledgerUnits m = units_of neg w f" by (rule mult_right_cancel[THEN iffD1, rotated]) simp
  then have "m = mk_money (units_of neg w f) c" using c mk_money_simps(3)[of m] by simp
  then show "money_of raw c = Inr m" using sh lt by (simp add: raw money_of_text[OF pl])
qed

section \<open>Round trips through text\<close>

text \<open>C9. Persistence loses nothing: the text written to the database by \<open>toLedgerString\<close> is
  read back by \<open>restore\<close> as the same amount of the same currency, for every amount the class can
  hold, negative amounts and amounts finer than the currency's decimals included.\<close>

theorem restore_toLedgerString:
  assumes "money_ok m"
  shows "money_restore (toLedgerString m) (currencyOf m) = Inr m"
  by (rule restore_ledger_text[OF assms])

theorem restore_toLedgerString_witness:
  "toLedgerString (mk_money (- 100050000) USD) = ''-1.00050000''
   \<and> money_restore ''-1.00050000'' USD = Inr (mk_money (- 100050000) USD)"
proof -
  have t: "toLedgerString (mk_money (- 100050000) USD) = ''-1.00050000''" by code_simp
  have ok: "money_ok (mk_money (- 100050000) USD)" by (simp add: money_ok_def money_simps)
  show ?thesis using restore_toLedgerString[OF ok] by (simp add: t)
qed

text \<open>What a client is shown can be sent back: an amount within its currency's decimals,
  displayed by \<open>toString\<close>, is accepted by \<open>Money.of\<close> in the same currency and is the same
  amount.\<close>

theorem of_toString:
  assumes "money_ok m" and "currencyStep (currencyOf m) dvd ledgerUnits m"
  shows "money_of (money_toString m) (currencyOf m) = Inr m"
proof -
  let ?d = "currencyDecimals (currencyOf m)" and ?q = "round_quotient (currencyStep (currencyOf m)) \<bar>ledgerUnits m\<bar>"
  have d: "0 < ?d" by (simp add: LEDGER_SCALE_def)
  have "length (strip_trailing (fixed_frac ?d ?q)) \<le> ?d"
    using strip_trailing_length[of "fixed_frac ?d ?q"] fixed_frac_length[OF d, of ?q] by simp
  then show ?thesis
    using restore_display_text[OF assms] fixed_plain[OF d, of ?q]
    by (simp add: money_toString_fixed Let_def money_of_text money_restore_text split: if_splits)
qed

theorem of_toString_witness:
  "money_toString (mk_money (- 1050000000) USDT) = ''-10.500000''
   \<and> money_of ''-10.500000'' USDT = Inr (mk_money (- 1050000000) USDT)"
proof -
  let ?m = "mk_money (- 1050000000) USDT"
  have t: "money_toString ?m = ''-10.500000''" by code_simp
  have "money_ok ?m" by (simp add: money_ok_def money_simps)
  moreover have "currencyStep (currencyOf ?m) dvd ledgerUnits ?m"
    by (simp add: currencyStep_def LEDGER_SCALE_def)
  ultimately show ?thesis using of_toString[of ?m] by (simp add: t)
qed

section \<open>The displayed text\<close>

text \<open>\<open>toString\<close> shows exactly the currency's decimals and rounds to the nearest, a tie away
  from zero: the integer written by its digits, times the step of the currency, differs from the
  magnitude by at most half a step and never by exactly minus half a step; the minus sign is
  shown exactly for a negative amount that does not round to zero.\<close>

theorem toString_nearest:
  "\<exists>neg w f. money_toString m = amount_text neg w (Some f)
     \<and> plain_parts w (Some f) \<and> length f = currencyDecimals (currencyOf m)
     \<and> 2 * (int (digits_value (w @ f)) * currencyStep (currencyOf m) - \<bar>ledgerUnits m\<bar>)
          \<le> currencyStep (currencyOf m)
     \<and> - currencyStep (currencyOf m)
          < 2 * (int (digits_value (w @ f)) * currencyStep (currencyOf m) - \<bar>ledgerUnits m\<bar>)
     \<and> neg = (ledgerUnits m < 0 \<and> digits_value (w @ f) \<noteq> 0)"
proof -
  let ?d = "currencyDecimals (currencyOf m)" and ?k = "currencyStep (currencyOf m)"
  let ?q = "round_quotient ?k \<bar>ledgerUnits m\<bar>"
  have q: "0 \<le> ?q" by (rule round_quotient_nonneg) simp_all
  have v: "int (digits_value (fixed_whole ?d ?q @ fixed_frac ?d ?q)) = ?q"
    using q by (intro fixed_value) simp_all
  then have z: "digits_value (fixed_whole ?d ?q @ fixed_frac ?d ?q) = 0 \<longleftrightarrow> ?q = 0" by linarith
  show ?thesis
    unfolding money_toString_fixed Let_def
    using round_quotient_bounds[of ?k "\<bar>ledgerUnits m\<bar>"] fixed_plain[of ?d ?q]
          fixed_frac_length[of ?d ?q] v z
    by (intro exI[of _ "ledgerUnits m < 0 \<and> ?q \<noteq> 0"] exI[of _ "fixed_whole ?d ?q"]
              exI[of _ "fixed_frac ?d ?q"]) simp
qed

section \<open>The ceiling\<close>

text \<open>The amounts a program can obtain through the public interface of the class.\<close>

inductive obtainable :: "money \<Rightarrow> bool" where
  of_text: "money_of raw c = Inr m \<Longrightarrow> obtainable m"
| restored: "money_restore raw c = Inr m \<Longrightarrow> obtainable m"
| zero: "obtainable (money_zero c)"
| added: "obtainable a \<Longrightarrow> obtainable b \<Longrightarrow> money_add a b = Inr m \<Longrightarrow> obtainable m"
| subtracted: "obtainable a \<Longrightarrow> obtainable b \<Longrightarrow> money_subtract a b = Inr m \<Longrightarrow> obtainable m"
| converted: "obtainable a \<Longrightarrow> convertTo a c raw = Inr m \<Longrightarrow> obtainable m"

lemma thenR_fromUnits_ok: "thenR r (\<lambda>u. fromUnits (g u) c ctx) = Inr m \<Longrightarrow> money_ok m"
  by (auto simp: thenR_Inr_iff dest: fromUnits_ok)

lemma money_of_ok: "money_of raw c = Inr m \<Longrightarrow> money_ok m"
  by (auto simp: money_of_def thenR_Inr_iff split: if_splits dest: fromUnits_ok)

lemma money_restore_ok: "money_restore raw c = Inr m \<Longrightarrow> money_ok m"
  by (auto simp: money_restore_def thenR_Inr_iff split: if_splits dest: fromUnits_ok)

text \<open>Everything the class can produce, by whatever sequence of constructors, additions,
  subtractions and conversions, is below \<open>10\<^sup>1\<^sup>2\<close> in magnitude, what a column \<open>NUMERIC(20,8)\<close>
  can hold; and every such amount can be produced.\<close>

theorem obtainable_iff: "obtainable m \<longleftrightarrow> \<bar>ledgerUnits m\<bar> < 10 ^ 20"
proof
  assume "obtainable m"
  then have "money_ok m"
  proof induction
    case (zero c)
    show ?case by (simp add: money_zero_def money_ok_def money_simps)
  qed (auto simp: money_add_def money_subtract_def convertTo_Inr_iff
            dest: money_of_ok money_restore_ok thenR_fromUnits_ok)
  then show "\<bar>ledgerUnits m\<bar> < 10 ^ 20" by (simp add: money_ok_def money_simps)
next
  assume "\<bar>ledgerUnits m\<bar> < 10 ^ 20"
  then have "\<bar>ledgerUnits m\<bar> < 10 ^ (12 + LEDGER_SCALE)" by (simp add: LEDGER_SCALE_def)
  from restore_fixed[OF _ _ _ this, of "ledgerUnits m < 0" "currencyOf m"]
  have "money_restore (toLedgerString m) (currencyOf m) = Inr m"
    unfolding toLedgerString_fixed by (simp add: LEDGER_SCALE_def)
  then show "obtainable m" by (rule obtainable.restored)
qed

section \<open>Addition, subtraction, comparison\<close>

lemma money_add_Inr_iff:
  "money_add a b = Inr m \<longleftrightarrow> currencyOf a = currencyOf b
     \<and> m = mk_money (ledgerUnits a + ledgerUnits b) (currencyOf a) \<and> money_ok m"
  by (auto simp: money_add_def assertSameCurrency_def thenR_Inr_iff fromUnits_Inr_iff money_ok_def)

lemma money_subtract_Inr_iff:
  "money_subtract a b = Inr m \<longleftrightarrow> currencyOf a = currencyOf b
     \<and> m = mk_money (ledgerUnits a - ledgerUnits b) (currencyOf a) \<and> money_ok m"
  by (auto simp: money_subtract_def assertSameCurrency_def thenR_Inr_iff fromUnits_Inr_iff
                 money_ok_def)

lemma isLessThan_Inr_iff:
  "isLessThan a b = Inr r \<longleftrightarrow> currencyOf a = currencyOf b \<and> r = (ledgerUnits a < ledgerUnits b)"
  by (auto simp: isLessThan_def assertSameCurrency_def)

text \<open>The balance check is the right one: for a balance and an amount that are not negative,
  \<open>isLessThan\<close> answers \<open>false\<close> exactly when the subtraction succeeds with a result that is not
  negative; in particular a subtraction that passed the check never throws.\<close>

theorem balance_check_sound:
  assumes "money_ok a" and "money_ok b" and "\<not> isNegative a" and "\<not> isNegative b"
  shows "isLessThan a b = Inr False \<longleftrightarrow> (\<exists>m. money_subtract a b = Inr m \<and> \<not> isNegative m)"
  using assms
  by (auto simp: isLessThan_Inr_iff money_subtract_Inr_iff isNegative_def money_ok_def)

theorem balance_check_sound_witness:
  "isLessThan (mk_money 500 USD) (mk_money 500 USD) = Inr False
   \<and> (\<exists>m. money_subtract (mk_money 500 USD) (mk_money 500 USD) = Inr m \<and> \<not> isNegative m)"
proof -
  have "isLessThan (mk_money 500 USD) (mk_money 500 USD) = Inr False" by (simp add: isLessThan_Inr_iff)
  then show ?thesis
    using balance_check_sound[of "mk_money 500 USD" "mk_money 500 USD"]
    by (simp add: money_ok_def money_simps isNegative_def)
qed

section \<open>Conversion\<close>

text \<open>C10. A conversion truncates toward zero to the target currency's decimals and never creates
  value: with the rate \<open>n/d\<close> the text denotes, the result is a multiple of the currency's step,
  has the sign of the amount, is at most the exact product in magnitude, and less than one step
  below it.\<close>

theorem convertTo_truncates:
  assumes "convertTo m t raw = Inr m'"
  shows "\<exists>n d. parseRate raw = Inr (n, d) \<and> 0 < n \<and> 0 < d
     \<and> currencyOf m' = t \<and> t \<noteq> currencyOf m
     \<and> currencyStep t dvd ledgerUnits m'
     \<and> 0 \<le> ledgerUnits m' * ledgerUnits m
     \<and> \<bar>ledgerUnits m'\<bar> * d \<le> \<bar>ledgerUnits m\<bar> * n
     \<and> \<bar>ledgerUnits m\<bar> * n < (\<bar>ledgerUnits m'\<bar> + currencyStep t) * d"
proof -
  from assms obtain n d where nd: "parseRate raw = Inr (n, d)" and t: "t \<noteq> currencyOf m"
    and m': "m' = mk_money ((ledgerUnits m * n) sdiv (d * currencyStep t) * currencyStep t) t"
    by (auto simp: convertTo_Inr_iff)
  have pos: "0 < n" "0 < d" using parseRate_pos[OF nd] by simp_all
  note tr = trunc_step[OF pos(2) currencyStep_pos, where a = "ledgerUnits m * n"]
  have "0 \<le> n * (ledgerUnits m' * ledgerUnits m)" using tr(4) by (simp add: m' ac_simps)
  then have "0 \<le> ledgerUnits m' * ledgerUnits m" using pos(1) by (simp add: zero_le_mult_iff)
  then show ?thesis using nd t pos tr(1-3) by (auto simp: m' abs_mult)
qed

theorem convertTo_truncates_witness:
  "convertTo (mk_money 100050000000 ARS) USD ''0.001'' = Inr (mk_money 100000000 USD)
   \<and> (\<exists>n d. parseRate ''0.001'' = Inr (n, d) \<and> 0 < n \<and> 0 < d
        \<and> \<bar>ledgerUnits (mk_money 100000000 USD)\<bar> * d \<le> \<bar>ledgerUnits (mk_money 100050000000 ARS)\<bar> * n)"
proof -
  have c: "convertTo (mk_money 100050000000 ARS) USD ''0.001'' = Inr (mk_money 100000000 USD)"
    by code_simp
  show ?thesis using convertTo_truncates[OF c] c by blast
qed

text \<open>No arbitrage: converting there and back at two rates whose product is at most one
  never returns more than was put in.\<close>

theorem convertTo_there_and_back:
  assumes "convertTo m t raw1 = Inr m1" and "convertTo m1 (currencyOf m) raw2 = Inr m2"
    and "parseRate raw1 = Inr (n1, d1)" and "parseRate raw2 = Inr (n2, d2)"
    and "n1 * n2 \<le> d1 * d2"
  shows "\<bar>ledgerUnits m2\<bar> \<le> \<bar>ledgerUnits m\<bar>"
proof -
  have p: "0 < n1" "0 < d1" "0 < n2" "0 < d2" using assms(3,4) parseRate_pos by blast+
  have 1: "\<bar>ledgerUnits m1\<bar> * d1 \<le> \<bar>ledgerUnits m\<bar> * n1"
    using convertTo_truncates[OF assms(1)] assms(3) by auto
  have 2: "\<bar>ledgerUnits m2\<bar> * d2 \<le> \<bar>ledgerUnits m1\<bar> * n2"
    using convertTo_truncates[OF assms(2)] assms(4) by auto
  have "\<bar>ledgerUnits m2\<bar> * (d1 * d2) = (\<bar>ledgerUnits m2\<bar> * d2) * d1" by (simp add: ac_simps)
  also have "\<dots> \<le> (\<bar>ledgerUnits m1\<bar> * n2) * d1" using 2 p by (intro mult_right_mono) simp_all
  also have "\<dots> = (\<bar>ledgerUnits m1\<bar> * d1) * n2" by (simp add: ac_simps)
  also have "\<dots> \<le> (\<bar>ledgerUnits m\<bar> * n1) * n2" using 1 p by (intro mult_right_mono) simp_all
  also have "\<dots> = \<bar>ledgerUnits m\<bar> * (n1 * n2)" by (simp add: ac_simps)
  also have "\<dots> \<le> \<bar>ledgerUnits m\<bar> * (d1 * d2)" using assms(5) by (intro mult_left_mono) simp_all
  finally show ?thesis by (rule mult_right_le_imp_le) (simp add: p)
qed

theorem convertTo_there_and_back_witness:
  "convertTo (mk_money 1000 USDT) USD ''0.9998'' = Inr (mk_money 0 USD)
   \<and> convertTo (mk_money 0 USD) USDT ''1.0002'' = Inr (mk_money 0 USDT)
   \<and> \<bar>ledgerUnits (mk_money 0 USDT)\<bar> \<le> \<bar>ledgerUnits (mk_money 1000 USDT)\<bar>"
proof -
  have a: "convertTo (mk_money 1000 USDT) USD ''0.9998'' = Inr (mk_money 0 USD)" by code_simp
  have b: "convertTo (mk_money 0 USD) (currencyOf (mk_money 1000 USDT)) ''1.0002''
           = Inr (mk_money 0 USDT)" by code_simp
  have r: "parseRate ''0.9998'' = Inr (9998, 10000)" "parseRate ''1.0002'' = Inr (10002, 10000)"
    by code_simp+
  show ?thesis using convertTo_there_and_back[OF a b r] a b by simp
qed

end
