(* ===== verification/Ports.thy ===== *)
theory Ports
  imports Money
begin

text \<open>
  The ports of the wallet module, \<open>src/src/modules/wallet/application/ports\<close>: the data the use
  cases exchange with persistence and the operations they call, as a record of functions over
  the state \<open>'s\<close> of whoever provides them; the events they hand to the webhook service; and, as
  the locale \<open>wallet_port\<close>, the contract the interfaces' comments promise.
\<close>

section \<open>Data\<close>

record wallet_snapshot =
  ws_id :: string
  ws_userId :: "string option"
  ws_currency :: currency
  ws_balance :: money
  ws_version :: int

datatype transactionType = DEPOSIT | WITHDRAWAL | TRANSFER

fun transactionType_name :: "transactionType \<Rightarrow> string" where
  "transactionType_name DEPOSIT = ''DEPOSIT''"
| "transactionType_name WITHDRAWAL = ''WITHDRAWAL''"
| "transactionType_name TRANSFER = ''TRANSFER''"

datatype transactionStatus = PENDING | COMPLETED | FAILED | CANCELLED | REVERSED

fun transactionStatus_name :: "transactionStatus \<Rightarrow> string" where
  "transactionStatus_name PENDING = ''PENDING''"
| "transactionStatus_name COMPLETED = ''COMPLETED''"
| "transactionStatus_name FAILED = ''FAILED''"
| "transactionStatus_name CANCELLED = ''CANCELLED''"
| "transactionStatus_name REVERSED = ''REVERSED''"

text \<open>The metadata the code writes holds strings and \<open>null\<close> (\<open>None\<close>) only.\<close>

type_synonym metadata = "(string \<times> string option) list"

record new_transaction =
  nt_walletId :: string
  nt_type :: transactionType
  nt_status :: transactionStatus
  nt_amount :: money
  nt_description :: string
  nt_metadata :: "metadata option"

record transaction_record =
  tr_id :: string
  tr_walletId :: string
  tr_toWalletId :: "string option"
  tr_type :: string
  tr_amount :: string
  tr_currency :: currency
  tr_status :: string
  tr_description :: "string option"
  tr_category :: "string option"
  tr_metadata :: "metadata option"
  tr_reversesTransactionId :: "string option"
  tr_createdAt :: int

record beneficiary_snapshot =
  bs_id :: string
  bs_alias :: string
  bs_currency :: currency
  bs_beneficiaryType :: string
  bs_accountNumber :: string
  bs_bankName :: "string option"

text \<open>\<open>WebhookEvent\<close> of \<open>webhook.service.ts\<close>.\<close>

record webhook_event_data =
  we_walletId :: string
  we_userId :: string
  we_amount :: string
  we_currency :: string
  we_transactionId :: string

datatype webhook_event =
    DepositConfirmed webhook_event_data
  | WithdrawCompleted webhook_event_data
  | TransferCompleted webhook_event_data

section \<open>Operations\<close>

record 's wallet_tx =
  findByUserAndCurrency :: "string \<Rightarrow> currency \<Rightarrow> ('s, wallet_snapshot option) io"
  findOrCreateEmpty :: "string \<Rightarrow> currency \<Rightarrow> ('s, wallet_snapshot) io"
  credit :: "string \<Rightarrow> int \<Rightarrow> money \<Rightarrow> ('s, bool) io"
  debit :: "string \<Rightarrow> int \<Rightarrow> money \<Rightarrow> ('s, bool) io"
  create_transaction :: "new_transaction \<Rightarrow> ('s, transaction_record) io"

text \<open>\<open>UnitOfWork.run\<close>, at the only result type the use cases use it with.\<close>

type_synonym 's unit_of_work =
  "('s wallet_tx \<Rightarrow> ('s, transaction_record) io) \<Rightarrow> ('s, transaction_record) io"

section \<open>The contract\<close>

text \<open>
  \<open>tx_closed tx P\<close>: every operation of the port keeps \<open>P\<close>. \<open>only_through tx m\<close> is the sentence
  of \<open>unit-of-work.port.ts\<close> that the work "must have no side effects except through \<open>tx\<close>":
  whatever all the operations keep, the work keeps.
\<close>

definition tx_closed :: "'s wallet_tx \<Rightarrow> ('s \<Rightarrow> bool) \<Rightarrow> bool" where
  "tx_closed tx P \<longleftrightarrow>
     (\<forall>u c. invariant P (findByUserAndCurrency tx u c))
     \<and> (\<forall>u c. invariant P (findOrCreateEmpty tx u c))
     \<and> (\<forall>i v m. invariant P (credit tx i v m))
     \<and> (\<forall>i v m. invariant P (debit tx i v m))
     \<and> (\<forall>n. invariant P (create_transaction tx n))"

definition only_through :: "'s wallet_tx \<Rightarrow> ('s, 'a) io \<Rightarrow> bool" where
  "only_through tx m \<longleftrightarrow> (\<forall>P. tx_closed tx P \<longrightarrow> invariant P m)"

named_theorems only_intros

lemma only_through_op [only_intros]:
  "only_through tx (findByUserAndCurrency tx u c)" "only_through tx (findOrCreateEmpty tx u c)"
  "only_through tx (credit tx i v m)" "only_through tx (debit tx i v m)"
  "only_through tx (create_transaction tx n)"
  by (simp_all add: only_through_def tx_closed_def)

lemma only_through_prim [only_intros]:
  "only_through tx (ret x)" "only_through tx (throw e)" "only_through tx (lift r)"
  "only_through tx (assertFound y name)"
  by (auto simp: only_through_def intro: inv_intros)

lemma only_through_seqM [only_intros]:
  "only_through tx m \<Longrightarrow> (\<And>x. only_through tx (f x)) \<Longrightarrow> only_through tx (seqM m f)"
  by (auto simp: only_through_def intro: inv_intros)

lemma only_through_if [only_intros]:
  "only_through tx m \<Longrightarrow> only_through tx n \<Longrightarrow> only_through tx (if b then m else n)"
  by simp

text \<open>
  What a caller can observe of the persisted money: the wallet of each user and currency, and the
  transaction rows in the order they were written.
\<close>

record money_view =
  v_wallets :: "string \<times> currency \<Rightarrow> wallet_snapshot option"
  v_log :: "transaction_record list"

text \<open>The row the transaction repository returns for a new transaction.\<close>

definition records :: "transaction_record \<Rightarrow> new_transaction \<Rightarrow> bool" where
  "records r n \<longleftrightarrow> tr_walletId r = nt_walletId n
     \<and> tr_toWalletId r = None
     \<and> tr_type r = transactionType_name (nt_type n)
     \<and> tr_currency r = currencyOf (nt_amount n)
     \<and> tr_status r = transactionStatus_name (nt_status n)
     \<and> tr_description r = Some (nt_description n)
     \<and> tr_metadata r = nt_metadata n
     \<and> (currencyStep (currencyOf (nt_amount n)) dvd ledgerUnits (nt_amount n)
          \<longrightarrow> money_ok (nt_amount n)
          \<longrightarrow> money_restore (tr_amount r) (currencyOf (nt_amount n)) = Inr (nt_amount n))"

definition moved :: "wallet_snapshot \<Rightarrow> int \<Rightarrow> wallet_snapshot" where
  "moved w u = w\<lparr>ws_balance := mk_money (ledgerUnits (ws_balance w) + u) (currencyOf (ws_balance w)),
                 ws_version := ws_version w + 1\<rparr>"

definition set_wallet :: "string \<times> currency \<Rightarrow> wallet_snapshot \<Rightarrow> money_view \<Rightarrow> money_view" where
  "set_wallet k w v = v\<lparr>v_wallets := (v_wallets v)(k := Some w)\<rparr>"

definition log_tx :: "transaction_record \<Rightarrow> money_view \<Rightarrow> money_view" where
  "log_tx r v = v\<lparr>v_log := v_log v @ [r]\<rparr>"

lemma view_simps [simp]:
  "v_wallets (set_wallet k w v) = (v_wallets v)(k := Some w)" "v_log (set_wallet k w v) = v_log v"
  "v_wallets (log_tx r v) = v_wallets v" "v_log (log_tx r v) = v_log v @ [r]"
  "set_wallet k w' (set_wallet k w v) = set_wallet k w' v"
  by (simp_all add: set_wallet_def log_tx_def)

lemma moved_simps [simp]:
  "ws_id (moved w u) = ws_id w" "ws_userId (moved w u) = ws_userId w"
  "ws_currency (moved w u) = ws_currency w" "ws_version (moved w u) = ws_version w + 1"
  "ledgerUnits (ws_balance (moved w u)) = ledgerUnits (ws_balance w) + u"
  "currencyOf (ws_balance (moved w u)) = currencyOf (ws_balance w)"
  by (simp_all add: moved_def)

definition empty_wallet :: "wallet_snapshot \<Rightarrow> string \<Rightarrow> currency \<Rightarrow> bool" where
  "empty_wallet w u c \<longleftrightarrow> ws_userId w = Some u \<and> ws_currency w = c
     \<and> ws_balance w = money_zero c \<and> ws_version w = 1"

locale wallet_port =
  fixes tx :: "'s wallet_tx"
    and run :: "'s unit_of_work"
    and view :: "'s \<Rightarrow> money_view"
    and inv :: "'s \<Rightarrow> bool"
  assumes closed: "tx_closed tx inv"
    and owned: "inv s \<Longrightarrow> v_wallets (view s) (u, c) = Some w
      \<Longrightarrow> ws_userId w = Some u \<and> ws_currency w = c \<and> currencyOf (ws_balance w) = c"
    and ids: "inv s \<Longrightarrow> v_wallets (view s) k = Some w \<Longrightarrow> v_wallets (view s) k' = Some w'
      \<Longrightarrow> ws_id w = ws_id w' \<Longrightarrow> k = k'"
    and find: "inv s \<Longrightarrow> findByUserAndCurrency tx u c s = (Inr q, t)
      \<Longrightarrow> q = v_wallets (view s) (u, c) \<and> view t = view s"
    and find_or_create: "inv s \<Longrightarrow> findOrCreateEmpty tx u c s = (Inr w, t)
      \<Longrightarrow> (case v_wallets (view s) (u, c) of
             Some w' \<Rightarrow> w = w' \<and> view t = view s
           | None \<Rightarrow> empty_wallet w u c \<and> view t = set_wallet (u, c) w (view s))"
    and credit: "inv s \<Longrightarrow> v_wallets (view s) (u, c) = Some w \<Longrightarrow> currencyOf m = c
      \<Longrightarrow> credit tx (ws_id w) ver m s = (Inr ok, t)
      \<Longrightarrow> view t = (if ok then set_wallet (u, c) (moved w (ledgerUnits m)) (view s) else view s)
          \<and> (ok \<longrightarrow> ws_version w = ver)"
    and debit: "inv s \<Longrightarrow> v_wallets (view s) (u, c) = Some w \<Longrightarrow> currencyOf m = c
      \<Longrightarrow> debit tx (ws_id w) ver m s = (Inr ok, t)
      \<Longrightarrow> view t = (if ok then set_wallet (u, c) (moved w (- ledgerUnits m)) (view s) else view s)
          \<and> (ok \<longrightarrow> ws_version w = ver)"
    and create: "inv s \<Longrightarrow> create_transaction tx n s = (Inr r, t)
      \<Longrightarrow> view t = log_tx r (view s) \<and> records r n"
    and run_keeps: "inv s \<Longrightarrow> only_through tx (work tx) \<Longrightarrow> run work s = (res, t) \<Longrightarrow> inv t"
    and run_throws: "inv s \<Longrightarrow> only_through tx (work tx) \<Longrightarrow> run work s = (Inl e, t)
      \<Longrightarrow> view t = view s"
    and run_returns: "inv s \<Longrightarrow> only_through tx (work tx) \<Longrightarrow> run work s = (Inr r, t)
      \<Longrightarrow> \<exists>s0 s1. inv s0 \<and> view s0 = view s \<and> work tx s0 = (Inr r, s1) \<and> view t = view s1"

end
