(* ===== verification/Use_Cases.thy ===== *)
theory Use_Cases
  imports Ports
begin

text \<open>
  The wallet use cases, \<open>src/src/modules/wallet/application\<close>: \<open>toMoney\<close>, and the \<open>execute\<close> of
  \<open>DepositService\<close>, \<open>WithdrawService\<close> and \<open>SendService\<close>, over the ports they are injected with:
  the unit of work \<open>run\<close>, the beneficiary reader and the webhook service's \<open>dispatch\<close>. What they
  log is not modelled. The lemmas are proved once against the contract \<open>wallet_port\<close>.
\<close>

section \<open>The boundary: a client's text to money\<close>

definition invalid_amount_message :: "string \<Rightarrow> string" where
  "invalid_amount_message raw = ''\"'' @ raw @ ''\" is not a valid monetary amount''"

definition toMoney :: "string \<Rightarrow> currency \<Rightarrow> exn + money" where
  "toMoney raw c =
     (case money_of raw c of
        Inl (PrecisionError cur d _) \<Rightarrow>
          Inl (BadRequestException
                 (currency_name cur @ '' supports at most '' @ show_nat d @ '' decimal places''))
      | Inl (AmountTooLargeError _) \<Rightarrow>
          Inl (BadRequestException (''amount must be less than '' @ CEILING_TEXT))
      | Inl (InvalidAmountError r) \<Rightarrow> Inl (BadRequestException (invalid_amount_message r))
      | Inl e \<Rightarrow> Inl e
      | Inr m \<Rightarrow> Inr m)"

text \<open>\<open>AMOUNT_PATTERN\<close> of \<open>dto/amount.dto.ts\<close>: the check on the request body, with no sign.\<close>

definition dto_amount_ok :: "string \<Rightarrow> bool" where
  "dto_amount_ok raw \<longleftrightarrow> rate_match raw \<noteq> None"

section \<open>Deposit\<close>

record deposit_input =
  di_userId :: string
  di_currency :: currency
  di_amount :: string
  di_description :: "string option"

definition deposito :: string where
  "deposito = ''Dep'' @ [CHR 0xC3, CHR 0xB3] @ ''sito ''"

definition envio :: string where
  "envio = ''Env'' @ [CHR 0xC3, CHR 0xAD] @ ''o a ''"

definition deposit_work :: "deposit_input \<Rightarrow> money \<Rightarrow> 's wallet_tx \<Rightarrow> ('s, transaction_record) io" where
  "deposit_work inp money tx =
     seqM (findOrCreateEmpty tx (di_userId inp) (di_currency inp)) (\<lambda>wallet.
     seqM (case money_add (ws_balance wallet) money of
             Inl (AmountTooLargeError _) \<Rightarrow>
               throw (UnprocessableEntityException
                        ''The resulting balance would exceed the maximum allowed'')
           | Inl e \<Rightarrow> throw e
           | Inr _ \<Rightarrow> ret ()) (\<lambda>_.
     seqM (credit tx (ws_id wallet) (ws_version wallet) money) (\<lambda>applied.
     if \<not> applied then throw (ConflictException ''Optimistic lock conflict'')
     else create_transaction tx
            \<lparr>nt_walletId = ws_id wallet, nt_type = DEPOSIT, nt_status = COMPLETED,
             nt_amount = money,
             nt_description = or_else (di_description inp) (deposito @ currency_name (di_currency inp)),
             nt_metadata = None\<rparr>)))"

definition event_data :: "transaction_record \<Rightarrow> string \<Rightarrow> string \<Rightarrow> currency \<Rightarrow> webhook_event_data" where
  "event_data transaction userId amount c =
     \<lparr>we_walletId = tr_walletId transaction, we_userId = userId, we_amount = amount,
      we_currency = currency_name c, we_transactionId = tr_id transaction\<rparr>"

text \<open>
  The second half of the three \<open>execute\<close>: run the work, then hand the event to the webhook
  service and swallow what it throws.
\<close>

definition run_and_notify ::
  "'s unit_of_work \<Rightarrow> (webhook_event \<Rightarrow> ('s, unit) io) \<Rightarrow> (transaction_record \<Rightarrow> webhook_event)
   \<Rightarrow> ('s wallet_tx \<Rightarrow> ('s, transaction_record) io) \<Rightarrow> ('s, transaction_record) io" where
  "run_and_notify run dispatch event work =
     seqM (run work) (\<lambda>transaction.
     seqM (catchM (dispatch (event transaction)) (\<lambda>err. ret ())) (\<lambda>_.
     ret transaction))"

definition deposit_execute ::
  "'s unit_of_work \<Rightarrow> (webhook_event \<Rightarrow> ('s, unit) io) \<Rightarrow> deposit_input \<Rightarrow> ('s, transaction_record) io"
where
  "deposit_execute run dispatch inp =
     seqM (lift (toMoney (di_amount inp) (di_currency inp))) (\<lambda>money.
     run_and_notify run dispatch
       (\<lambda>transaction. DepositConfirmed (event_data transaction (di_userId inp) (di_amount inp) (di_currency inp)))
       (deposit_work inp money))"

section \<open>Withdrawal\<close>

record withdraw_input =
  wi_userId :: string
  wi_currency :: currency
  wi_amount :: string
  wi_description :: "string option"

definition withdraw_work :: "withdraw_input \<Rightarrow> money \<Rightarrow> 's wallet_tx \<Rightarrow> ('s, transaction_record) io" where
  "withdraw_work inp money tx =
     seqM (findByUserAndCurrency tx (wi_userId inp) (wi_currency inp)) (\<lambda>found.
     seqM (assertFound found (''Wallet '' @ currency_name (wi_currency inp))) (\<lambda>wallet.
     seqM (lift (isLessThan (ws_balance wallet) money)) (\<lambda>less.
     if less then throw (UnprocessableEntityException ''Insufficient balance'')
     else
       seqM (debit tx (ws_id wallet) (ws_version wallet) money) (\<lambda>applied.
       if \<not> applied then throw (ConflictException ''Optimistic lock conflict'')
       else create_transaction tx
              \<lparr>nt_walletId = ws_id wallet, nt_type = WITHDRAWAL, nt_status = COMPLETED,
               nt_amount = money,
               nt_description = or_else (wi_description inp) (''Retiro '' @ currency_name (wi_currency inp)),
               nt_metadata = None\<rparr>))))"

definition withdraw_execute ::
  "'s unit_of_work \<Rightarrow> (webhook_event \<Rightarrow> ('s, unit) io) \<Rightarrow> withdraw_input \<Rightarrow> ('s, transaction_record) io"
where
  "withdraw_execute run dispatch inp =
     seqM (lift (toMoney (wi_amount inp) (wi_currency inp))) (\<lambda>money.
     run_and_notify run dispatch
       (\<lambda>transaction. WithdrawCompleted (event_data transaction (wi_userId inp) (wi_amount inp) (wi_currency inp)))
       (withdraw_work inp money))"

section \<open>Transfer to a beneficiary\<close>

record send_input =
  si_userId :: string
  si_beneficiaryId :: string
  si_amount :: string

definition send_work ::
  "send_input \<Rightarrow> beneficiary_snapshot \<Rightarrow> money \<Rightarrow> 's wallet_tx \<Rightarrow> ('s, transaction_record) io" where
  "send_work inp b money tx =
     seqM (findByUserAndCurrency tx (si_userId inp) (bs_currency b)) (\<lambda>found.
     seqM (assertFound found (''Wallet '' @ currency_name (bs_currency b))) (\<lambda>wallet.
     seqM (lift (isLessThan (ws_balance wallet) money)) (\<lambda>less.
     if less then throw (UnprocessableEntityException ''Insufficient balance'')
     else
       seqM (debit tx (ws_id wallet) (ws_version wallet) money) (\<lambda>applied.
       if \<not> applied then throw (ConflictException ''Optimistic lock conflict'')
       else create_transaction tx
              \<lparr>nt_walletId = ws_id wallet, nt_type = TRANSFER, nt_status = COMPLETED,
               nt_amount = money,
               nt_description = envio @ bs_alias b,
               nt_metadata = Some [(''beneficiaryId'', Some (bs_id b)),
                                   (''beneficiaryAlias'', Some (bs_alias b)),
                                   (''beneficiaryType'', Some (bs_beneficiaryType b)),
                                   (''accountNumber'', Some (bs_accountNumber b)),
                                   (''bankName'', bs_bankName b)]\<rparr>))))"

definition send_execute ::
  "'s unit_of_work \<Rightarrow> (string \<Rightarrow> string \<Rightarrow> ('s, beneficiary_snapshot option) io)
   \<Rightarrow> (webhook_event \<Rightarrow> ('s, unit) io) \<Rightarrow> send_input \<Rightarrow> ('s, transaction_record) io"
where
  "send_execute run findActive dispatch inp =
     seqM (findActive (si_userId inp) (si_beneficiaryId inp)) (\<lambda>found.
     seqM (assertFound found ''Beneficiary'') (\<lambda>beneficiary.
     seqM (lift (toMoney (si_amount inp) (bs_currency beneficiary))) (\<lambda>money.
     run_and_notify run dispatch
       (\<lambda>transaction. TransferCompleted (event_data transaction (si_userId inp) (si_amount inp) (bs_currency beneficiary)))
       (send_work inp beneficiary money))))"

section \<open>Facts about the boundary\<close>

lemma toMoney_Inr_iff: "toMoney raw c = Inr m \<longleftrightarrow> money_of raw c = Inr m"
  by (auto simp: toMoney_def split: sum.splits exn.splits)

lemma money_of_props:
  assumes "money_of raw c = Inr m"
  shows "currencyOf m = c" and "money_ok m" and "currencyStep c dvd ledgerUnits m"
proof -
  obtain neg w f where "amount_match raw = Some (neg, w, f)"
    using assms money_malformed(1)[of raw c] by (cases "amount_match raw") auto
  then have raw: "raw = amount_text neg w f" and pl: "plain_parts w f"
    by (simp_all add: amount_match_iff)
  have sh: "length (strip_trailing (frac_of f)) \<le> currencyDecimals c"
    and m: "m = mk_money (units_of neg w f) c"
    using assms unfolding raw money_of_text[OF pl] by (auto split: if_splits)
  then show "currencyOf m = c" by simp
  show "money_ok m" using assms
    by (auto simp: money_of_def thenR_Inr_iff split: if_splits dest: fromUnits_ok)
  let ?s = "strip_trailing (frac_of f)" and ?d = "currencyDecimals c"
  have "LEDGER_SCALE - length ?s = (?d - length ?s) + (LEDGER_SCALE - ?d)"
    unfolding money_simps using sh currencyDecimals_le(1)[of c] by linarith
  then have "currencyStep c dvd int (digits_value (padEnd LEDGER_SCALE ?s))"
    by (simp add: digits_value_padEnd currencyStep_def power_add)
  moreover have "currencyStep c dvd LEDGER_UNIT"
    using currencyStep_scale[of c] by (metis dvd_triv_left)
  ultimately show "currencyStep c dvd ledgerUnits m"
    by (simp add: m units_of_def Let_def)
qed

lemma toMoney_props:
  assumes "toMoney raw c = Inr m"
  shows "currencyOf m = c" and "money_ok m" and "currencyStep c dvd ledgerUnits m"
  using money_of_props assms by (simp_all add: toMoney_Inr_iff)

lemma dto_amount_nonneg:
  assumes "dto_amount_ok raw" and "toMoney raw c = Inr m"
  shows "0 \<le> ledgerUnits m"
proof -
  obtain w f where "rate_match raw = Some (w, f)" using assms(1) by (auto simp: dto_amount_ok_def)
  then have raw: "raw = amount_text False w f" and pl: "plain_parts w f"
    by (simp_all add: rate_match_iff)
  have "m = mk_money (units_of False w f) c"
    using assms(2) unfolding toMoney_Inr_iff raw money_of_text[OF pl] by (auto split: if_splits)
  then show ?thesis by (simp add: units_of_def Let_def money_simps)
qed

end
