(* ===== verification/Wallet_Contract.thy ===== *)
theory Wallet_Contract
  imports Use_Cases
begin

text \<open>
  What the three use cases do to the observable money, proved once for any implementation of the
  ports that keeps the contract \<open>wallet_port\<close>: a use case that returns moved exactly the amount
  and wrote exactly one row; a use case that throws changed nothing. Then sequences of commands:
  every balance is what it was plus what the new rows of its wallet add up to, and no balance
  becomes negative.
\<close>

section \<open>One posting\<close>

text \<open>
  \<open>posted v k u n r v'\<close>: from \<open>v\<close> to \<open>v'\<close> the wallet \<open>k\<close> (an empty one, if it was not there and
  \<open>fresh\<close> allows it) moved by \<open>u\<close> and the row \<open>r\<close> recording \<open>n\<close> was appended; nothing else.
\<close>

definition posted ::
  "bool \<Rightarrow> money_view \<Rightarrow> string \<times> currency \<Rightarrow> int \<Rightarrow> new_transaction \<Rightarrow> transaction_record \<Rightarrow> money_view \<Rightarrow> bool"
where
  "posted fresh v k u n r v' \<longleftrightarrow>
     (\<exists>w. (v_wallets v k = Some w \<or> fresh \<and> v_wallets v k = None \<and> empty_wallet w (fst k) (snd k))
        \<and> nt_walletId n = ws_id w
        \<and> records r n
        \<and> v' = log_tx r (set_wallet k (moved w u) v))"

definition balance_at :: "money_view \<Rightarrow> string \<times> currency \<Rightarrow> int" where
  "balance_at v k = (case v_wallets v k of None \<Rightarrow> 0 | Some w \<Rightarrow> ledgerUnits (ws_balance w))"

definition deposit_row :: "deposit_input \<Rightarrow> money \<Rightarrow> string \<Rightarrow> new_transaction" where
  "deposit_row inp m wid =
     \<lparr>nt_walletId = wid, nt_type = DEPOSIT, nt_status = COMPLETED, nt_amount = m,
      nt_description = or_else (di_description inp) (deposito @ currency_name (di_currency inp)),
      nt_metadata = None\<rparr>"

definition withdraw_row :: "withdraw_input \<Rightarrow> money \<Rightarrow> string \<Rightarrow> new_transaction" where
  "withdraw_row inp m wid =
     \<lparr>nt_walletId = wid, nt_type = WITHDRAWAL, nt_status = COMPLETED, nt_amount = m,
      nt_description = or_else (wi_description inp) (''Retiro '' @ currency_name (wi_currency inp)),
      nt_metadata = None\<rparr>"

lemma only_through_deposit: "only_through tx (deposit_work inp m tx)"
  unfolding deposit_work_def
  by (intro only_intros) (auto split: sum.splits exn.splits intro: only_intros)

lemma only_through_withdraw: "only_through tx (withdraw_work inp m tx)"
  unfolding withdraw_work_def by (intro only_intros)

lemma only_through_send: "only_through tx (send_work inp b m tx)"
  unfolding send_work_def by (intro only_intros)

lemma deposit_check:
  "(case money_add b m of
      Inl (AmountTooLargeError _) \<Rightarrow> throw (UnprocessableEntityException msg)
    | Inl e \<Rightarrow> throw e | Inr _ \<Rightarrow> ret ()) s = (Inr y, t)
   \<longleftrightarrow> (\<exists>q. money_add b m = Inr q) \<and> t = s"
  by (auto simp: io_inv split: sum.splits exn.splits)

context wallet_port
begin

lemma invD: "invariant inv (findByUserAndCurrency tx u c)" "invariant inv (findOrCreateEmpty tx u c)"
  "invariant inv (credit tx i ver m)" "invariant inv (debit tx i ver m)"
  "invariant inv (create_transaction tx n)"
  using closed by (simp_all add: tx_closed_def)

lemmas inv_step = invD[THEN invariantD]

lemma deposit_work_returns:
  assumes "inv s" and "deposit_work inp m tx s = (Inr r, t)" and "currencyOf m = di_currency inp"
  shows "\<exists>w. posted True (view s) (di_userId inp, di_currency inp) (ledgerUnits m)
               (deposit_row inp m w) r (view t)
           \<and> \<bar>balance_at (view s) (di_userId inp, di_currency inp) + ledgerUnits m\<bar> < CEILING_UNITS"
proof -
  let ?u = "di_userId inp" and ?c = "di_currency inp"
  from assms(2) obtain w s1 s2 q where f: "findOrCreateEmpty tx ?u ?c s = (Inr w, s1)"
    and q: "money_add (ws_balance w) m = Inr q"
    and c: "credit tx (ws_id w) (ws_version w) m s1 = (Inr True, s2)"
    and cr: "create_transaction tx (deposit_row inp m (ws_id w)) s2 = (Inr r, t)"
    by (auto simp: deposit_work_def io_inv deposit_check deposit_row_def split: if_splits)
  have i1: "inv s1" and i2: "inv s2"
    using inv_step(2)[OF assms(1) f] inv_step(3)[OF _ c] by blast+
  have w1: "v_wallets (view s1) (?u, ?c) = Some w"
    and src: "v_wallets (view s) (?u, ?c) = Some w \<and> view s1 = view s
           \<or> v_wallets (view s) (?u, ?c) = None \<and> empty_wallet w ?u ?c
             \<and> view s1 = set_wallet (?u, ?c) w (view s)"
    using find_or_create[OF assms(1) f] by (auto split: option.splits)
  have v2: "view s2 = set_wallet (?u, ?c) (moved w (ledgerUnits m)) (view s1)"
    using credit[OF i1 w1 assms(3) c] by simp
  have v3: "view t = log_tx r (view s2)" and rec: "records r (deposit_row inp m (ws_id w))"
    using create[OF i2 cr] by simp_all
  have bal: "balance_at (view s) (?u, ?c) = ledgerUnits (ws_balance w)"
    using src by (auto simp: balance_at_def empty_wallet_def money_zero_def)
  have "posted True (view s) (?u, ?c) (ledgerUnits m) (deposit_row inp m (ws_id w)) r (view t)"
    unfolding posted_def using src v2 v3 rec
    by (intro exI[of _ w]) (auto simp: deposit_row_def)
  moreover have "\<bar>ledgerUnits (ws_balance w) + ledgerUnits m\<bar> < CEILING_UNITS"
    using q by (auto simp: money_add_def thenR_Inr_iff fromUnits_Inr_iff)
  ultimately show ?thesis unfolding bal by blast
qed

lemma debit_work_returns:
  assumes "inv s" and "currencyOf m = c"
    and "findByUserAndCurrency tx u c s = (Inr (Some w), s1)"
    and "isLessThan (ws_balance w) m = Inr False"
    and "debit tx (ws_id w) (ws_version w) m s1 = (Inr True, s2)"
    and "create_transaction tx n s2 = (Inr r, t)" and "nt_walletId n = ws_id w"
  shows "posted False (view s) (u, c) (- ledgerUnits m) n r (view t)
         \<and> ledgerUnits m \<le> balance_at (view s) (u, c)"
proof -
  have i1: "inv s1" and i2: "inv s2"
    using inv_step(1)[OF assms(1,3)] inv_step(4)[OF _ assms(5)] by blast+
  have w: "v_wallets (view s) (u, c) = Some w" and v1: "view s1 = view s"
    using find[OF assms(1,3)] by simp_all
  have v2: "view s2 = set_wallet (u, c) (moved w (- ledgerUnits m)) (view s1)"
    using debit[OF i1 _ assms(2,5), of u] w v1 by simp
  have v3: "view t = log_tx r (view s2)" and rec: "records r n"
    using create[OF i2 assms(6)] by simp_all
  have "ledgerUnits m \<le> ledgerUnits (ws_balance w)"
    using assms(4) by (auto simp: isLessThan_def thenR_Inr_iff)
  then show ?thesis
    using w v1 v2 v3 rec assms(7) by (auto simp: posted_def balance_at_def)
qed

lemma withdraw_work_returns:
  assumes "inv s" and "withdraw_work inp m tx s = (Inr r, t)" and "currencyOf m = wi_currency inp"
  shows "\<exists>w. posted False (view s) (wi_userId inp, wi_currency inp) (- ledgerUnits m)
               (withdraw_row inp m w) r (view t)
           \<and> ledgerUnits m \<le> balance_at (view s) (wi_userId inp, wi_currency inp)"
proof -
  from assms(2) obtain w s1 s2 where
      f: "findByUserAndCurrency tx (wi_userId inp) (wi_currency inp) s = (Inr (Some w), s1)"
    and l: "isLessThan (ws_balance w) m = Inr False"
    and d: "debit tx (ws_id w) (ws_version w) m s1 = (Inr True, s2)"
    and cr: "create_transaction tx (withdraw_row inp m (ws_id w)) s2 = (Inr r, t)"
    by (auto simp: withdraw_work_def io_inv withdraw_row_def split: if_splits)
  have "nt_walletId (withdraw_row inp m (ws_id w)) = ws_id w" by (simp add: withdraw_row_def)
  from debit_work_returns[OF assms(1,3) f l d cr this] show ?thesis by blast
qed

lemma send_work_returns:
  assumes "inv s" and "send_work inp b m tx s = (Inr r, t)" and "currencyOf m = bs_currency b"
  shows "\<exists>n. posted False (view s) (si_userId inp, bs_currency b) (- ledgerUnits m) n r (view t)
           \<and> nt_type n = TRANSFER \<and> nt_amount n = m
           \<and> ledgerUnits m \<le> balance_at (view s) (si_userId inp, bs_currency b)"
proof -
  from assms(2) obtain w s1 s2 n where
      f: "findByUserAndCurrency tx (si_userId inp) (bs_currency b) s = (Inr (Some w), s1)"
    and l: "isLessThan (ws_balance w) m = Inr False"
    and d: "debit tx (ws_id w) (ws_version w) m s1 = (Inr True, s2)"
    and cr: "create_transaction tx n s2 = (Inr r, t)"
    and n: "nt_walletId n = ws_id w" "nt_type n = TRANSFER" "nt_amount n = m"
    by (auto simp: send_work_def io_inv split: if_splits)
  from debit_work_returns[OF assms(1,3) f l d cr n(1)] n show ?thesis by blast
qed

text \<open>From the work to the whole use case: the retries of \<open>run\<close> and the webhook are invisible.\<close>

lemma notify_returns:
  assumes "inv s" and "only_through tx (work tx)" and "\<forall>e. keeps view (dispatch e)"
    and "run_and_notify run dispatch ev work s = (Inr r, t)"
  shows "\<exists>s0 s1. inv s0 \<and> view s0 = view s \<and> work tx s0 = (Inr r, s1) \<and> view t = view s1"
proof -
  from assms(4) obtain s2 y where run: "run work s = (Inr r, s2)"
    and d: "catchM (dispatch (ev r)) (\<lambda>_. ret ()) s2 = (Inr y, t)"
    by (auto simp: run_and_notify_def seqM_Inr io_prim_iff)
  have "keeps view (catchM (dispatch (ev r)) (\<lambda>_. ret ()))"
    using assms(3) by (intro keeps_intros) blast
  then have "view t = view s2" using d by (rule keepsD)
  then show ?thesis using run_returns[where work = work, OF assms(1,2) run] by simp
qed

lemma notify_throws:
  assumes "inv s" and "only_through tx (work tx)"
    and "run_and_notify run dispatch ev work s = (Inl e, t)"
  shows "view t = view s"
proof -
  from assms(3) have "run work s = (Inl e, t)" by (auto simp: run_and_notify_def io_inv)
  then show ?thesis by (rule run_throws[where work = work, OF assms(1,2)])
qed

lemma notify_inv:
  assumes "only_through tx (work tx)" and "\<forall>e. invariant inv (dispatch e)"
  shows "invariant inv (run_and_notify run dispatch ev work)"
proof -
  have "invariant inv (run work)"
    by (rule invariantI) (rule run_keeps[where work = work, OF _ assms(1)])
  then show ?thesis unfolding run_and_notify_def using assms(2) by (intro inv_intros) blast+
qed

lemma deposit_returns:
  assumes "inv s" and "\<forall>e. keeps view (dispatch e)"
    and "deposit_execute run dispatch inp s = (Inr r, t)"
  shows "\<exists>m w. toMoney (di_amount inp) (di_currency inp) = Inr m
     \<and> posted True (view s) (di_userId inp, di_currency inp) (ledgerUnits m) (deposit_row inp m w)
         r (view t)
     \<and> \<bar>balance_at (view s) (di_userId inp, di_currency inp) + ledgerUnits m\<bar> < CEILING_UNITS"
proof -
  from assms(3) obtain m ev where m: "toMoney (di_amount inp) (di_currency inp) = Inr m"
    and rest: "run_and_notify run dispatch ev (deposit_work inp m) s = (Inr r, t)"
    by (auto simp: deposit_execute_def seqM_Inr io_prim_iff)
  from notify_returns[where work = "deposit_work inp m", OF assms(1) only_through_deposit assms(2) rest]
  obtain s0 s1 where 0: "inv s0" "view s0 = view s" "deposit_work inp m tx s0 = (Inr r, s1)"
    "view t = view s1" by blast
  from deposit_work_returns[OF 0(1,3) toMoney_props(1)[OF m]] 0(2,4) m show ?thesis by auto
qed

lemma deposit_throws:
  "inv s \<Longrightarrow> deposit_execute run dispatch inp s = (Inl e, t) \<Longrightarrow> view t = view s"
  using notify_throws[where work = "deposit_work inp m" for inp m, OF _ only_through_deposit]
  by (auto simp: deposit_execute_def seqM_Inl io_prim_iff)

lemma withdraw_returns:
  assumes "inv s" and "\<forall>e. keeps view (dispatch e)"
    and "withdraw_execute run dispatch inp s = (Inr r, t)"
  shows "\<exists>m w. toMoney (wi_amount inp) (wi_currency inp) = Inr m
     \<and> posted False (view s) (wi_userId inp, wi_currency inp) (- ledgerUnits m) (withdraw_row inp m w)
         r (view t)
     \<and> ledgerUnits m \<le> balance_at (view s) (wi_userId inp, wi_currency inp)"
proof -
  from assms(3) obtain m ev where m: "toMoney (wi_amount inp) (wi_currency inp) = Inr m"
    and rest: "run_and_notify run dispatch ev (withdraw_work inp m) s = (Inr r, t)"
    by (auto simp: withdraw_execute_def seqM_Inr io_prim_iff)
  from notify_returns[where work = "withdraw_work inp m", OF assms(1) only_through_withdraw assms(2) rest]
  obtain s0 s1 where 0: "inv s0" "view s0 = view s" "withdraw_work inp m tx s0 = (Inr r, s1)"
    "view t = view s1" by blast
  from withdraw_work_returns[OF 0(1,3) toMoney_props(1)[OF m]] 0(2,4) m show ?thesis by auto
qed

lemma withdraw_throws:
  "inv s \<Longrightarrow> withdraw_execute run dispatch inp s = (Inl e, t) \<Longrightarrow> view t = view s"
  using notify_throws[where work = "withdraw_work inp m" for inp m, OF _ only_through_withdraw]
  by (auto simp: withdraw_execute_def seqM_Inl io_prim_iff)

lemma send_returns:
  assumes "inv s" and "\<forall>e. keeps view (dispatch e)"
    and "\<forall>u i. keeps view (findActive u i)" and "\<forall>u i. invariant inv (findActive u i)"
    and "send_execute run findActive dispatch inp s = (Inr r, t)"
  shows "\<exists>b s' m n. findActive (si_userId inp) (si_beneficiaryId inp) s = (Inr (Some b), s')
     \<and> toMoney (si_amount inp) (bs_currency b) = Inr m
     \<and> nt_type n = TRANSFER \<and> nt_amount n = m
     \<and> posted False (view s) (si_userId inp, bs_currency b) (- ledgerUnits m) n r (view t)
     \<and> ledgerUnits m \<le> balance_at (view s) (si_userId inp, bs_currency b)"
proof -
  from assms(5) obtain b s' m ev where
      f: "findActive (si_userId inp) (si_beneficiaryId inp) s = (Inr (Some b), s')"
    and m: "toMoney (si_amount inp) (bs_currency b) = Inr m"
    and rest: "run_and_notify run dispatch ev (send_work inp b m) s' = (Inr r, t)"
    by (auto simp: send_execute_def seqM_Inr io_prim_iff assertFound_iff)
  have i: "inv s'" and v: "view s' = view s"
    using assms(1,3,4) f by (blast dest: invariantD keepsD)+
  from notify_returns[where work = "send_work inp b m", OF i only_through_send assms(2) rest]
  obtain s0 s1 where 0: "inv s0" "view s0 = view s'" "send_work inp b m tx s0 = (Inr r, s1)"
    "view t = view s1" by blast
  from send_work_returns[OF 0(1,3) toMoney_props(1)[OF m]] 0(2,4) v m f show ?thesis by auto
qed

lemma send_throws:
  assumes "inv s" and "\<forall>u i. keeps view (findActive u i)" and "\<forall>u i. invariant inv (findActive u i)"
    and "send_execute run findActive dispatch inp s = (Inl e, t)"
  shows "view t = view s"
proof -
  have fa: "invariant inv (findActive u i)" "keeps view (findActive u i)" for u i
    using assms by blast+
  from assms(4) show ?thesis
    using notify_throws[where work = "send_work inp b m" for inp b m, OF _ only_through_send] invariantD[OF fa(1) assms(1)] keepsD[OF fa(2)]
    by (auto simp: send_execute_def seqM_Inl seqM_Inr io_prim_iff assertFound_iff) metis+
qed

end

section \<open>Sequences of commands\<close>

text \<open>The money operations of \<open>WalletService\<close> (\<open>wallet.service.ts\<close>), which delegates to the use
  cases, and a sequence of requests to it, each of which may throw.\<close>

datatype wallet_command =
    Deposit deposit_input
  | Withdraw withdraw_input
  | Send send_input

fun wallet_service ::
  "'s unit_of_work \<Rightarrow> (string \<Rightarrow> string \<Rightarrow> ('s, beneficiary_snapshot option) io)
   \<Rightarrow> (webhook_event \<Rightarrow> ('s, unit) io) \<Rightarrow> wallet_command \<Rightarrow> ('s, transaction_record) io" where
  "wallet_service run findActive dispatch (Deposit inp) = deposit_execute run dispatch inp"
| "wallet_service run findActive dispatch (Withdraw inp) = withdraw_execute run dispatch inp"
| "wallet_service run findActive dispatch (Send inp) = send_execute run findActive dispatch inp"

primrec wallet_session ::
  "'s unit_of_work \<Rightarrow> (string \<Rightarrow> string \<Rightarrow> ('s, beneficiary_snapshot option) io)
   \<Rightarrow> (webhook_event \<Rightarrow> ('s, unit) io) \<Rightarrow> wallet_command list \<Rightarrow> 's \<Rightarrow> 's" where
  "wallet_session run findActive dispatch [] s = s"
| "wallet_session run findActive dispatch (x # xs) s =
     wallet_session run findActive dispatch xs (snd (wallet_service run findActive dispatch x s))"

text \<open>The request bodies the controller's validation lets through.\<close>

fun validated :: "wallet_command \<Rightarrow> bool" where
  "validated (Deposit inp) = dto_amount_ok (di_amount inp)"
| "validated (Withdraw inp) = dto_amount_ok (wi_amount inp)"
| "validated (Send inp) = dto_amount_ok (si_amount inp)"

text \<open>What a row did to its wallet, and what a list of rows did to the wallet at a key.\<close>

definition signed_units :: "transaction_record \<Rightarrow> int" where
  "signed_units r =
     (case money_restore (tr_amount r) (tr_currency r) of
        Inl _ \<Rightarrow> 0
      | Inr m \<Rightarrow> if tr_type r = ''DEPOSIT'' then ledgerUnits m else - ledgerUnits m)"

definition posted_to :: "money_view \<Rightarrow> string \<times> currency \<Rightarrow> transaction_record list \<Rightarrow> int" where
  "posted_to v k rows =
     (case v_wallets v k of
        None \<Rightarrow> 0
      | Some w \<Rightarrow> sum_list (map signed_units (filter (\<lambda>r. tr_walletId r = ws_id w) rows)))"

definition unique_ids :: "money_view \<Rightarrow> bool" where
  "unique_ids v \<longleftrightarrow> (\<forall>k k' w w'. v_wallets v k = Some w \<longrightarrow> v_wallets v k' = Some w'
      \<longrightarrow> ws_id w = ws_id w' \<longrightarrow> k = k')"

definition wallets_persist :: "money_view \<Rightarrow> money_view \<Rightarrow> bool" where
  "wallets_persist v v' \<longleftrightarrow>
     (\<forall>k w. v_wallets v k = Some w \<longrightarrow> (\<exists>w'. v_wallets v' k = Some w' \<and> ws_id w' = ws_id w))"

definition explained :: "money_view \<Rightarrow> money_view \<Rightarrow> transaction_record list \<Rightarrow> bool" where
  "explained v v' rows \<longleftrightarrow>
     v_log v' = v_log v @ rows
     \<and> (\<forall>k. balance_at v' k = balance_at v k + posted_to v' k rows)
     \<and> wallets_persist v v'
     \<and> (\<forall>r \<in> set rows. \<exists>k w. v_wallets v' k = Some w \<and> tr_walletId r = ws_id w)"

definition solvent :: "money_view \<Rightarrow> bool" where
  "solvent v \<longleftrightarrow> (\<forall>k. 0 \<le> balance_at v k)"

lemma explained_refl: "explained v v []"
  by (auto simp: explained_def wallets_persist_def posted_to_def split: option.splits)

lemma posted_to_old_rows:
  assumes "explained v v' rows" and "wallets_persist v' v''" and "unique_ids v''"
  shows "posted_to v'' k rows = posted_to v' k rows"
proof (cases "v_wallets v' k")
  case (Some w)
  then obtain w'' where "v_wallets v'' k = Some w''" "ws_id w'' = ws_id w"
    using assms(2) unfolding wallets_persist_def by (metis)
  then show ?thesis using Some by (simp add: posted_to_def)
next
  case None
  have "tr_walletId r \<noteq> ws_id w" if mem: "r \<in> set rows" and at: "v_wallets v'' k = Some w" for r w
  proof
    assume eq: "tr_walletId r = ws_id w"
    obtain k' w' where w': "v_wallets v' k' = Some w'" "tr_walletId r = ws_id w'"
      using assms(1) mem unfolding explained_def by metis
    then obtain w'' where "v_wallets v'' k' = Some w''" "ws_id w'' = ws_id w'"
      using assms(2) unfolding wallets_persist_def by metis
    then have "k' = k" using assms(3) at eq w'(2) by (metis unique_ids_def)
    then show False using None w'(1) by simp
  qed
  then show ?thesis using None by (auto simp: posted_to_def filter_empty_conv split: option.splits)
qed

lemma explained_trans:
  assumes "explained v v' rows" and "explained v' v'' rows'" and "unique_ids v''"
  shows "explained v v'' (rows @ rows')"
proof -
  have pers: "wallets_persist v' v''" using assms(2) by (simp add: explained_def)
  have "posted_to v'' k (rows @ rows') = posted_to v'' k rows + posted_to v'' k rows'" for k
    by (auto simp: posted_to_def split: option.splits)
  then have bal: "balance_at v'' k = balance_at v k + posted_to v'' k (rows @ rows')" for k
    using assms(1,2)[unfolded explained_def] posted_to_old_rows[OF assms(1) pers assms(3), of k]
    by (metis add.assoc)
  have own: "\<exists>k w. v_wallets v'' k = Some w \<and> tr_walletId r = ws_id w"
    if "r \<in> set (rows @ rows')" for r
    using that assms(1,2) pers unfolding explained_def wallets_persist_def set_append Un_iff
    by metis
  have "wallets_persist v v'"
    using assms(1) by (simp add: explained_def)
  then have "wallets_persist v v''" using pers unfolding wallets_persist_def by metis
  then show ?thesis
    using assms(1,2) bal own unfolding explained_def by (metis append_assoc)
qed

lemma posted_explained:
  assumes "posted fresh v k u n r v'" and "unique_ids v'" and "signed_units r = u"
  shows "explained v v' [r]"
proof -
  obtain w where w: "v_wallets v k = Some w \<or> v_wallets v k = None \<and> empty_wallet w (fst k) (snd k)"
    and v': "v' = log_tx r (set_wallet k (moved w u) v)" and r: "tr_walletId r = ws_id w"
    using assms(1) by (auto simp: posted_def records_def)
  have b: "balance_at v k = ledgerUnits (ws_balance w)"
    using w by (auto simp: balance_at_def empty_wallet_def money_zero_def)
  have vw: "v_wallets v' = (v_wallets v)(k := Some (moved w u))" and vl: "v_log v' = v_log v @ [r]"
    by (simp_all add: v')
  have other: "ws_id w' \<noteq> ws_id w" if "k' \<noteq> k" "v_wallets v k' = Some w'" for k' w'
    using assms(2) that unfolding unique_ids_def vw
    by (metis fun_upd_other fun_upd_same moved_simps(1))
  have bal: "balance_at v' k' = balance_at v k' + posted_to v' k' [r]" for k'
  proof (cases "k' = k")
    case True
    then show ?thesis using b r assms(3) by (simp add: balance_at_def posted_to_def vw)
  next
    case False
    then show ?thesis using other[OF False] r
      by (cases "v_wallets v k'") (auto simp: balance_at_def posted_to_def vw)
  qed
  have "wallets_persist v v'" unfolding wallets_persist_def
  proof (intro allI impI)
    fix k' w' assume a: "v_wallets v k' = Some w'"
    show "\<exists>w''. v_wallets v' k' = Some w'' \<and> ws_id w'' = ws_id w'"
      using a w by (cases "k' = k") (auto simp: vw)
  qed
  moreover have "v_wallets v' k = Some (moved w u)" "tr_walletId r = ws_id (moved w u)"
    using r by (simp_all add: vw)
  then have "\<exists>k w. v_wallets v' k = Some w \<and> tr_walletId r = ws_id w" by blast
  ultimately show ?thesis using bal vl unfolding explained_def by simp
qed

lemma signed_units_posted:
  assumes "records r n" and "money_ok (nt_amount n)"
    and "currencyStep (currencyOf (nt_amount n)) dvd ledgerUnits (nt_amount n)"
  shows "signed_units r = (if nt_type n = DEPOSIT then ledgerUnits (nt_amount n)
                           else - ledgerUnits (nt_amount n))"
  using assms by (cases "nt_type n") (auto simp: records_def signed_units_def)

lemma posted_records: "posted fresh v k u n r v' \<Longrightarrow> records r n"
  by (auto simp: posted_def)

lemma posted_solvent:
  assumes "posted fresh v k u n r v'" and "solvent v" and "0 \<le> balance_at v k + u"
  shows "solvent v'"
proof -
  obtain w where w: "v_wallets v k = Some w \<or> v_wallets v k = None \<and> empty_wallet w (fst k) (snd k)"
    and v': "v' = log_tx r (set_wallet k (moved w u) v)"
    using assms(1) by (auto simp: posted_def)
  have "balance_at v k = ledgerUnits (ws_balance w)"
    using w by (auto simp: balance_at_def empty_wallet_def money_zero_def)
  then show ?thesis using assms(2,3) by (auto simp: solvent_def v' balance_at_def)
qed

context wallet_port
begin

lemma unique: "inv s \<Longrightarrow> unique_ids (view s)"
  unfolding unique_ids_def using ids by blast

text \<open>One command, whatever its outcome.\<close>

definition frame_ok ::
  "(string \<Rightarrow> string \<Rightarrow> ('s, beneficiary_snapshot option) io) \<Rightarrow> (webhook_event \<Rightarrow> ('s, unit) io) \<Rightarrow> bool"
where
  "frame_ok fa d \<longleftrightarrow> (\<forall>e. keeps view (d e)) \<and> (\<forall>e. invariant inv (d e))
     \<and> (\<forall>u i. keeps view (fa u i)) \<and> (\<forall>u i. invariant inv (fa u i))"

lemma service_inv:
  assumes "frame_ok fa d"
  shows "invariant inv (wallet_service run fa d x)"
proof (cases x)
  case (Deposit inp)
  then show ?thesis
    using assms notify_inv[where work = "deposit_work inp m" for m, OF only_through_deposit]
    by (auto simp: frame_ok_def deposit_execute_def intro!: inv_intros)
next
  case (Withdraw inp)
  then show ?thesis
    using assms notify_inv[where work = "withdraw_work inp m" for m, OF only_through_withdraw]
    by (auto simp: frame_ok_def withdraw_execute_def intro!: inv_intros)
next
  case (Send inp)
  then show ?thesis
    using assms notify_inv[where work = "send_work inp b m" for b m, OF only_through_send]
    by (auto simp: frame_ok_def send_execute_def intro!: inv_intros)
qed

lemma service_throws:
  assumes "frame_ok fa d" and "inv s" and "wallet_service run fa d x s = (Inl e, t)"
  shows "view t = view s"
  using assms deposit_throws withdraw_throws send_throws
  by (cases x) (auto simp: frame_ok_def)

lemma service_posts:
  assumes "frame_ok fa d" and "inv s" and "wallet_service run fa d x s = (Inr r, t)"
  shows "\<exists>fresh k n m. posted fresh (view s) k
            (if nt_type n = DEPOSIT then ledgerUnits m else - ledgerUnits m) n r (view t)
          \<and> nt_amount n = m \<and> (\<exists>raw c. toMoney raw c = Inr m \<and> (validated x \<longrightarrow> dto_amount_ok raw))
          \<and> (nt_type n = DEPOSIT \<or> ledgerUnits m \<le> balance_at (view s) k)"
proof (cases x)
  case (Deposit inp)
  then obtain m w where "toMoney (di_amount inp) (di_currency inp) = Inr m"
    and "posted True (view s) (di_userId inp, di_currency inp) (ledgerUnits m) (deposit_row inp m w)
           r (view t)"
    using deposit_returns[OF assms(2), of d inp r t] assms(1,3) by (auto simp: frame_ok_def)
  then show ?thesis
    by (intro exI[of _ True] exI[of _ "(di_userId inp, di_currency inp)"] exI[of _ "deposit_row inp m w"]
              exI[of _ m]) (auto simp: deposit_row_def Deposit)
next
  case (Withdraw inp)
  then obtain m w where "toMoney (wi_amount inp) (wi_currency inp) = Inr m"
    and "posted False (view s) (wi_userId inp, wi_currency inp) (- ledgerUnits m)
           (withdraw_row inp m w) r (view t)"
    and "ledgerUnits m \<le> balance_at (view s) (wi_userId inp, wi_currency inp)"
    using withdraw_returns[OF assms(2), of d inp r t] assms(1,3) by (auto simp: frame_ok_def)
  then show ?thesis
    by (intro exI[of _ False] exI[of _ "(wi_userId inp, wi_currency inp)"]
              exI[of _ "withdraw_row inp m w"] exI[of _ m]) (auto simp: withdraw_row_def Withdraw)
next
  case (Send inp)
  have "\<exists>b s' m n. fa (si_userId inp) (si_beneficiaryId inp) s = (Inr (Some b), s')
     \<and> toMoney (si_amount inp) (bs_currency b) = Inr m
     \<and> nt_type n = TRANSFER \<and> nt_amount n = m
     \<and> posted False (view s) (si_userId inp, bs_currency b) (- ledgerUnits m) n r (view t)
     \<and> ledgerUnits m \<le> balance_at (view s) (si_userId inp, bs_currency b)"
    using assms(1,3) Send by (intro send_returns[OF assms(2), of d]) (auto simp: frame_ok_def)
  then obtain b :: beneficiary_snapshot and m n where
      "toMoney (si_amount inp) (bs_currency b) = Inr m"
    and "nt_type n = TRANSFER" "nt_amount n = m"
    and "posted False (view s) (si_userId inp, bs_currency b) (- ledgerUnits m) n r (view t)"
    and "ledgerUnits m \<le> balance_at (view s) (si_userId inp, bs_currency b)"
    by blast
  then show ?thesis
    by (intro exI[of _ False] exI[of _ "(si_userId inp, bs_currency b)"] exI[of _ n]
              exI[of _ m]) (auto simp: Send)
qed

lemma service_explained:
  assumes "frame_ok fa d" and "inv s" and "wallet_service run fa d x s = (res, t)"
  shows "explained (view s) (view t) (case res of Inl _ \<Rightarrow> [] | Inr r \<Rightarrow> [r])"
proof (cases res)
  case (Inl e)
  then show ?thesis using service_throws[OF assms(1,2)] assms(3) explained_refl by force
next
  case (Inr r)
  then obtain fresh k n m where
      p: "posted fresh (view s) k (if nt_type n = DEPOSIT then ledgerUnits m else - ledgerUnits m)
            n r (view t)" and n: "nt_amount n = m"
    and m: "\<exists>raw c. toMoney raw c = Inr m"
    using service_posts[OF assms(1,2)] assms(3) by metis
  have "inv t" using service_inv[OF assms(1)] assms(2,3) by (rule invariantD)
  moreover have "signed_units r = (if nt_type n = DEPOSIT then ledgerUnits m else - ledgerUnits m)"
    using signed_units_posted[OF posted_records[OF p]] m n toMoney_props by metis
  ultimately show ?thesis using posted_explained[OF p unique] Inr by simp
qed

lemma service_solvent:
  assumes "frame_ok fa d" and "inv s" and "wallet_service run fa d x s = (res, t)"
    and "validated x" and "solvent (view s)"
  shows "solvent (view t)"
proof (cases res)
  case (Inl e)
  then show ?thesis using service_throws[OF assms(1,2)] assms(3,5) by simp
next
  case (Inr r)
  then obtain fresh k n m where
      p: "posted fresh (view s) k (if nt_type n = DEPOSIT then ledgerUnits m else - ledgerUnits m)
            n r (view t)"
    and raw: "\<exists>raw c. toMoney raw c = Inr m \<and> dto_amount_ok raw"
    and le: "nt_type n = DEPOSIT \<or> ledgerUnits m \<le> balance_at (view s) k"
    using service_posts[OF assms(1,2)] assms(3,4) by metis
  have "0 \<le> ledgerUnits m" using raw dto_amount_nonneg by blast
  moreover have "0 \<le> balance_at (view s) k" using assms(5) unfolding solvent_def by blast
  ultimately show ?thesis using le posted_solvent[OF p assms(5)] by (auto split: if_splits)
qed

lemma session_explained:
  assumes "frame_ok fa d" and "inv s"
  shows "inv (wallet_session run fa d xs s)
     \<and> (\<exists>rows. explained (view s) (view (wallet_session run fa d xs s)) rows)"
  using assms(2)
proof (induction xs arbitrary: s)
  case Nil
  then show ?case using explained_refl by auto
next
  case (Cons x xs)
  obtain res t where t: "wallet_service run fa d x s = (res, t)" by (cases "wallet_service run fa d x s")
  have "inv t" using service_inv[OF assms(1)] Cons.prems t by (rule invariantD)
  with Cons.IH obtain rows where "explained (view t) (view (wallet_session run fa d xs t)) rows"
    and "inv (wallet_session run fa d xs t)" by blast
  then show ?case
    using service_explained[OF assms(1) Cons.prems t] explained_trans unique t by fastforce
qed

lemma session_solvent:
  assumes "frame_ok fa d" and "inv s" and "solvent (view s)" and "list_all validated xs"
  shows "solvent (view (wallet_session run fa d xs s))"
  using assms(2,3,4)
proof (induction xs arbitrary: s)
  case (Cons x xs)
  obtain res t where t: "wallet_service run fa d x s = (res, t)" by (cases "wallet_service run fa d x s")
  have "inv t" using service_inv[OF assms(1)] Cons.prems(1) t by (rule invariantD)
  moreover have "solvent (view t)"
    using service_solvent[OF assms(1) Cons.prems(1) t] Cons.prems by simp
  ultimately show ?case using Cons.IH[of t] Cons.prems(3) t by simp
qed simp

end

end
