(* ===== verification/In_Memory_UoW.thy ===== *)
theory In_Memory_UoW
  imports Wallet_Contract "HOL-Library.AList"
begin

text \<open>
  \<open>InMemoryUnitOfWork\<close> and \<open>InMemoryBeneficiaryReader\<close> of
  \<open>src/src/modules/wallet/testing/in-memory-unit-of-work.ts\<close>: the class fields as one record, the
  methods as computations over it, and the proof that they provide the contract \<open>wallet_port\<close>.
  A \<open>Map\<close> is an association list in insertion order (\<open>AList.update\<close> overwrites in place and
  appends a new key, as \<open>Map.prototype.set\<close>). The values \<open>randomUUID()\<close> is still going to return
  and the time \<open>new Date()\<close> reads are part of the state.
\<close>

section \<open>State and operations\<close>

record stored_wallet =
  sw_id :: string
  sw_userId :: string
  sw_currency :: currency
  sw_balance :: money
  sw_version :: int

record mem_state =
  mwallets :: "(string \<times> stored_wallet) list"
  mrecords :: "transaction_record list"
  conflictsToInject :: int
  failNextCreate :: "exn option"
  mbeneficiaries :: "(string \<times> beneficiary_snapshot) list"
  uuids :: "nat \<Rightarrow> string"
  mclock :: int

definition randomUUID :: "(mem_state, string) io" where
  "randomUUID s = (Inr (uuids s 0), s\<lparr>uuids := (\<lambda>n. uuids s (Suc n))\<rparr>)"

definition seedWallet :: "string \<Rightarrow> currency \<Rightarrow> string \<Rightarrow> int option \<Rightarrow> (mem_state, stored_wallet) io" where
  "seedWallet userId c bal ver =
     seqM randomUUID (\<lambda>i.
     seqM (lift (money_restore bal c)) (\<lambda>b.
     let wallet = \<lparr>sw_id = i, sw_userId = userId, sw_currency = c, sw_balance = b,
                   sw_version = or_else ver 1\<rparr>
     in seqM (modifyM (mwallets_update (AList.update i wallet))) (\<lambda>_. ret wallet)))"

definition injectVersionConflicts :: "int \<Rightarrow> mem_state \<Rightarrow> mem_state" where
  "injectVersionConflicts count s = s\<lparr>conflictsToInject := count\<rparr>"

definition injectTransactionFailure :: "exn \<Rightarrow> mem_state \<Rightarrow> mem_state" where
  "injectTransactionFailure e s = s\<lparr>failNextCreate := Some e\<rparr>"

definition walletOf :: "mem_state \<Rightarrow> string \<Rightarrow> currency \<Rightarrow> stored_wallet option" where
  "walletOf s userId c =
     List.find (\<lambda>w. sw_userId w = userId \<and> sw_currency w = c) (map snd (mwallets s))"

definition mem_toSnapshot :: "stored_wallet \<Rightarrow> wallet_snapshot" where
  "mem_toSnapshot w = \<lparr>ws_id = sw_id w, ws_userId = Some (sw_userId w), ws_currency = sw_currency w,
     ws_balance = sw_balance w, ws_version = sw_version w\<rparr>"

definition mem_swap ::
  "string \<Rightarrow> int \<Rightarrow> money \<Rightarrow> (money \<Rightarrow> money \<Rightarrow> exn + money) \<Rightarrow> (mem_state, bool) io" where
  "mem_swap walletId expectedVersion amount op s =
     (case map_of (mwallets s) walletId of
        None \<Rightarrow> (Inr False, s)
      | Some wallet \<Rightarrow>
          if sw_version wallet \<noteq> expectedVersion then (Inr False, s)
          else if 0 < conflictsToInject s
          then (Inr False, s\<lparr>conflictsToInject := conflictsToInject s - 1\<rparr>)
          else (case op (sw_balance wallet) amount of
                  Inl e \<Rightarrow> (Inl e, s)
                | Inr b \<Rightarrow>
                    (Inr True,
                     s\<lparr>mwallets := AList.update walletId
                          (wallet\<lparr>sw_balance := b, sw_version := sw_version wallet + 1\<rparr>) (mwallets s)\<rparr>)))"

definition mem_findOrCreateEmpty :: "string \<Rightarrow> currency \<Rightarrow> (mem_state, wallet_snapshot) io" where
  "mem_findOrCreateEmpty userId c s =
     (case walletOf s userId c of
        Some existing \<Rightarrow> (Inr (mem_toSnapshot existing), s)
      | None \<Rightarrow> seqM (seedWallet userId c ''0'' None) (\<lambda>created. ret (mem_toSnapshot created)) s)"

definition mem_create :: "new_transaction \<Rightarrow> (mem_state, transaction_record) io" where
  "mem_create inp s =
     (case failNextCreate s of
        Some e \<Rightarrow> (Inl e, s\<lparr>failNextCreate := None\<rparr>)
      | None \<Rightarrow>
          seqM randomUUID (\<lambda>i.
          let r = \<lparr>tr_id = i, tr_walletId = nt_walletId inp, tr_toWalletId = None,
                   tr_type = transactionType_name (nt_type inp),
                   tr_amount = money_toString (nt_amount inp),
                   tr_currency = currencyOf (nt_amount inp),
                   tr_status = transactionStatus_name (nt_status inp),
                   tr_description = Some (nt_description inp), tr_category = None,
                   tr_metadata = nt_metadata inp, tr_reversesTransactionId = None,
                   tr_createdAt = mclock s\<rparr>
          in seqM (modifyM (mrecords_update (\<lambda>rs. rs @ [r]))) (\<lambda>_. ret r)) s)"

definition mem_tx :: "mem_state wallet_tx" where
  "mem_tx = \<lparr>findByUserAndCurrency = (\<lambda>u c. readM (\<lambda>s. map_option mem_toSnapshot (walletOf s u c))),
             findOrCreateEmpty = mem_findOrCreateEmpty,
             credit = (\<lambda>i v m. mem_swap i v m money_add),
             debit = (\<lambda>i v m. mem_swap i v m money_subtract),
             create_transaction = mem_create\<rparr>"

definition mem_run :: "mem_state unit_of_work" where
  "mem_run work s =
     (case work mem_tx s of
        (Inr r, t) \<Rightarrow> (Inr r, t)
      | (Inl e, t) \<Rightarrow> (Inl e, t\<lparr>mwallets := mwallets s, mrecords := mrecords s\<rparr>))"

definition reader_key :: "string \<Rightarrow> string \<Rightarrow> string" where
  "reader_key userId i = userId @ '':'' @ i"

definition reader_add :: "string \<Rightarrow> beneficiary_snapshot \<Rightarrow> mem_state \<Rightarrow> mem_state" where
  "reader_add userId b = mbeneficiaries_update (AList.update (reader_key userId (bs_id b)) b)"

definition reader_findActive ::
  "string \<Rightarrow> string \<Rightarrow> (mem_state, beneficiary_snapshot option) io" where
  "reader_findActive userId i = readM (\<lambda>s. map_of (mbeneficiaries s) (reader_key userId i))"

section \<open>The observable money and the class invariant\<close>

definition mem_view :: "mem_state \<Rightarrow> money_view" where
  "mem_view s = \<lparr>v_wallets = (\<lambda>(u, c). map_option mem_toSnapshot (walletOf s u c)), v_log = mrecords s\<rparr>"

definition mem_inv :: "mem_state \<Rightarrow> bool" where
  "mem_inv s \<longleftrightarrow> distinct (map fst (mwallets s))
     \<and> (\<forall>(i, w) \<in> set (mwallets s). sw_id w = i \<and> currencyOf (sw_balance w) = sw_currency w)
     \<and> inj (uuids s) \<and> (\<forall>n. uuids s n \<notin> fst ` set (mwallets s))"

lemma walletOf_SomeD:
  assumes "mem_inv s" and "walletOf s u c = Some w"
  shows "sw_userId w = u" "sw_currency w = c" "currencyOf (sw_balance w) = c"
    and "map_of (mwallets s) (sw_id w) = Some w"
proof -
  from find_Some_iff_mem[OF assms(2)[unfolded walletOf_def]]
  have "w \<in> snd ` set (mwallets s)" and w: "sw_userId w = u" "sw_currency w = c" by auto
  then obtain i where "(i, w) \<in> set (mwallets s)" by force
  moreover from this have "i = sw_id w" "currencyOf (sw_balance w) = sw_currency w"
    using assms(1) by (auto simp: mem_inv_def)
  ultimately show "sw_userId w = u" "sw_currency w = c" "currencyOf (sw_balance w) = c"
    and "map_of (mwallets s) (sw_id w) = Some w"
    using w assms(1) by (auto simp: mem_inv_def)
qed

lemma find_map_snd_update:
  "distinct (map fst ws) \<Longrightarrow> map_of ws i = Some w \<Longrightarrow> P w' = P w \<Longrightarrow>
   List.find P (map snd (AList.update i w' ws)) =
     (if List.find P (map snd ws) = Some w then Some w' else List.find P (map snd ws))
   \<or> (\<exists>j. j \<noteq> i \<and> map_of ws j = Some w)"
proof (induction ws)
  case (Cons p ws)
  obtain j x where p: "p = (j, x)" by (cases p)
  show ?case
  proof (cases "j = i")
    case True
    then have x: "x = w" using Cons.prems(2) p by simp
    show ?thesis
    proof (cases "P w")
      case False
      have "w \<notin> snd ` set ws \<or> (\<exists>k. k \<noteq> i \<and> map_of (p # ws) k = Some w)"
        using Cons.prems(1) p True by (auto simp: image_iff)
      moreover have "List.find P (map snd ws) \<noteq> Some w"
        using False by (auto dest: find_Some_iff_mem)
      ultimately show ?thesis using p True x False Cons.prems(3) by simp
    qed (use p True x Cons.prems(3) in simp)
  next
    case False
    then show ?thesis using Cons p by auto
  qed
qed simp

lemma walletOf_update:
  assumes "mem_inv s" and "map_of (mwallets s) i = Some w"
    and "sw_userId w' = sw_userId w" and "sw_currency w' = sw_currency w"
  shows "walletOf (s\<lparr>mwallets := AList.update i w' (mwallets s)\<rparr>) u c =
     (if walletOf s u c = Some w then Some w' else walletOf s u c)"
proof -
  have "sw_id w = i" using assms(1,2) by (auto simp: mem_inv_def dest: map_of_SomeD)
  moreover have "sw_id w = j" if "map_of (mwallets s) j = Some w" for j
    using that assms(1) by (auto simp: mem_inv_def dest: map_of_SomeD)
  ultimately have one: "\<nexists>j. j \<noteq> i \<and> map_of (mwallets s) j = Some w" by blast
  show ?thesis
    using find_map_snd_update[OF _ assms(2), of "\<lambda>w. sw_userId w = u \<and> sw_currency w = c" w']
      one assms by (auto simp: walletOf_def mem_inv_def)
qed

lemma update_new_key: "i \<notin> fst ` set ws \<Longrightarrow> AList.update i w ws = ws @ [(i, w)]"
  by (induction ws) auto

lemma find_append_one:
  "List.find P (xs @ [x]) = (case List.find P xs of None \<Rightarrow> if P x then Some x else None | Some y \<Rightarrow> Some y)"
  by (induction xs) auto

lemma restore_zero: "money_restore ''0'' c = Inr (money_zero c)"
  by (cases c; code_simp)

lemma seedWallet_new:
  assumes "mem_inv s" and "money_restore bal c = Inr b"
  shows "seedWallet u c bal ver s =
    (let w = \<lparr>sw_id = uuids s 0, sw_userId = u, sw_currency = c, sw_balance = b,
              sw_version = or_else ver 1\<rparr>
     in (Inr w, s\<lparr>mwallets := mwallets s @ [(uuids s 0, w)], uuids := (\<lambda>n. uuids s (Suc n))\<rparr>))"
  using assms by (simp add: seedWallet_def io_run randomUUID_def update_new_key mem_inv_def Let_def)

lemma mem_findOrCreateEmpty_None:
  assumes "mem_inv s" and "walletOf s u c = None"
  shows "mem_findOrCreateEmpty u c s =
    (let w = \<lparr>sw_id = uuids s 0, sw_userId = u, sw_currency = c, sw_balance = money_zero c,
              sw_version = 1\<rparr>
     in (Inr (mem_toSnapshot w),
         s\<lparr>mwallets := mwallets s @ [(uuids s 0, w)], uuids := (\<lambda>n. uuids s (Suc n))\<rparr>))"
  using assms
  by (simp add: mem_findOrCreateEmpty_def seqM_def ret_def seedWallet_new[OF _ restore_zero] or_else_def Let_def)

lemma view_append:
  assumes "walletOf s u c = None" and "sw_userId w = u" and "sw_currency w = c"
  shows "mem_view (s\<lparr>mwallets := mwallets s @ [(i, w)], uuids := f\<rparr>)
         = set_wallet (u, c) (mem_toSnapshot w) (mem_view s)"
  using assms
  by (auto simp: mem_view_def set_wallet_def walletOf_def find_append_one fun_eq_iff
           split: option.splits)

lemma view_update:
  assumes "mem_inv s" and "walletOf s u c = Some w"
    and "sw_userId w' = u" and "sw_currency w' = c"
  shows "mem_view (s\<lparr>mwallets := AList.update (sw_id w) w' (mwallets s)\<rparr>)
         = set_wallet (u, c) (mem_toSnapshot w') (mem_view s)"
proof -
  note w = walletOf_SomeD[OF assms(1,2)]
  let ?s' = "s\<lparr>mwallets := AList.update (sw_id w) w' (mwallets s)\<rparr>"
  have upd: "walletOf ?s' u' c' = (if walletOf s u' c' = Some w then Some w' else walletOf s u' c')" for u' c'
    by (rule walletOf_update[OF assms(1) w(4) trans[OF assms(3) w(1)[symmetric]]
              trans[OF assms(4) w(2)[symmetric]]])
  have look: "walletOf ?s' u' c' = (if (u', c') = (u, c) then Some w' else walletOf s u' c')" for u' c'
  proof (cases "(u', c') = (u, c)")
    case False
    then have "walletOf s u' c' \<noteq> Some w" using walletOf_SomeD(1,2)[OF assms(1)] w(1,2) by blast
    then show ?thesis using False upd by presburger
  qed (simp add: upd assms(2))
  have "v_wallets (mem_view ?s') k = ((v_wallets (mem_view s))((u, c) := Some (mem_toSnapshot w'))) k" for k
    by (cases k) (simp add: mem_view_def look)
  then show ?thesis
    by (intro money_view.equality ext) (simp_all add: mem_view_def)
qed

section \<open>Every operation keeps the class invariant\<close>

text \<open>The stronger form also keeps the identifiers of an earlier state out of the ones to come:
  it is what \<open>run\<close> needs when it puts the earlier wallets back.\<close>

definition mem_inv_since :: "mem_state \<Rightarrow> mem_state \<Rightarrow> bool" where
  "mem_inv_since s t \<longleftrightarrow> mem_inv t \<and> (\<forall>n. uuids t n \<notin> fst ` set (mwallets s))"

lemma mem_inv_draw:
  assumes "mem_inv_since s t"
  shows "mem_inv_since s (t\<lparr>uuids := (\<lambda>n. uuids t (Suc n))\<rparr>)"
  using assms by (auto simp: mem_inv_since_def mem_inv_def inj_def)

lemma mem_inv_append:
  assumes "mem_inv_since s t" and "sw_id w = uuids t 0" and "currencyOf (sw_balance w) = sw_currency w"
  shows "mem_inv_since s (t\<lparr>mwallets := mwallets t @ [(uuids t 0, w)], uuids := (\<lambda>n. uuids t (Suc n))\<rparr>)"
  using assms by (auto simp: mem_inv_since_def mem_inv_def inj_def)

lemma mem_inv_update:
  assumes "mem_inv_since s t" and "map_of (mwallets t) i = Some w" and "sw_id w' = i"
    and "currencyOf (sw_balance w') = sw_currency w'"
  shows "mem_inv_since s (t\<lparr>mwallets := AList.update i w' (mwallets t)\<rparr>)"
proof -
  have i: "i \<in> fst ` set (mwallets t)" using assms(2) by (metis domI dom_map_of_conv_image_fst)
  have dom: "fst ` set (AList.update i w' (mwallets t)) = fst ` set (mwallets t)"
    using i by (auto simp: dom_update)
  have "set (AList.update i w' ws) \<subseteq> insert (i, w') (set ws)" for ws
    by (induction ws) auto
  then have mem: "p = (i, w') \<or> p \<in> set (mwallets t)" if "p \<in> set (AList.update i w' (mwallets t))" for p
    using that by blast
  have "\<forall>(j, x) \<in> set (AList.update i w' (mwallets t)). sw_id x = j \<and> currencyOf (sw_balance x) = sw_currency x"
  proof
    fix p assume "p \<in> set (AList.update i w' (mwallets t))"
    then show "case p of (j, x) \<Rightarrow> sw_id x = j \<and> currencyOf (sw_balance x) = sw_currency x"
      using mem[of p] assms by (auto simp: mem_inv_since_def mem_inv_def)
  qed
  then show ?thesis using assms(1) dom
    by (simp add: mem_inv_since_def mem_inv_def distinct_update)
qed

lemma mem_inv_since_cong:
  "mem_inv_since s t \<Longrightarrow> mwallets t' = mwallets t \<Longrightarrow> uuids t' = uuids t \<Longrightarrow> mem_inv_since s t'"
  by (simp add: mem_inv_since_def mem_inv_def)

lemma since_swap:
  assumes op: "\<And>a b m. op a b = Inr m \<Longrightarrow> currencyOf m = currencyOf a"
  shows "invariant (mem_inv_since s) (mem_swap i ver m op)"
proof (rule invariantI)
  fix t r t' assume t: "mem_inv_since s t" and run: "mem_swap i ver m op t = (r, t')"
  show "mem_inv_since s t'"
  proof (cases "mwallets t' = mwallets t \<and> uuids t' = uuids t")
    case True
    then show ?thesis using mem_inv_since_cong[OF t] by simp
  next
    case False
    then obtain w b where w: "map_of (mwallets t) i = Some w" and b: "op (sw_balance w) m = Inr b"
      and t': "t' = t\<lparr>mwallets := AList.update i (w\<lparr>sw_balance := b, sw_version := sw_version w + 1\<rparr>) (mwallets t)\<rparr>"
      using run by (auto simp: mem_swap_def split: option.splits if_splits sum.splits)
    have "sw_id w = i \<and> currencyOf (sw_balance w) = sw_currency w"
      using t map_of_SomeD[OF w] by (auto simp: mem_inv_since_def mem_inv_def)
    then show ?thesis unfolding t' using op[OF b] by (intro mem_inv_update[OF t w]) simp_all
  qed
qed

lemma since_findOrCreate: "invariant (mem_inv_since s) (mem_findOrCreateEmpty u c)"
proof (rule invariantI)
  fix t r t' assume t: "mem_inv_since s t" and run: "mem_findOrCreateEmpty u c t = (r, t')"
  show "mem_inv_since s t'"
  proof (cases "walletOf t u c")
    case None
    have "mem_inv t" using t by (simp add: mem_inv_since_def)
    then have "t' = t\<lparr>mwallets := mwallets t @ [(uuids t 0,
        \<lparr>sw_id = uuids t 0, sw_userId = u, sw_currency = c, sw_balance = money_zero c, sw_version = 1\<rparr>)],
        uuids := (\<lambda>n. uuids t (Suc n))\<rparr>"
      using run mem_findOrCreateEmpty_None[OF _ None] by (simp add: Let_def)
    then show ?thesis using mem_inv_append[OF t] by (simp add: money_zero_def)
  next
    case Some
    then show ?thesis using run t by (simp add: mem_findOrCreateEmpty_def)
  qed
qed

lemma mem_create_eq:
  "mem_create n s = (case failNextCreate s of
     Some e \<Rightarrow> (Inl e, s\<lparr>failNextCreate := None\<rparr>)
   | None \<Rightarrow>
       (let r = \<lparr>tr_id = uuids s 0, tr_walletId = nt_walletId n, tr_toWalletId = None,
                tr_type = transactionType_name (nt_type n), tr_amount = money_toString (nt_amount n),
                tr_currency = currencyOf (nt_amount n),
                tr_status = transactionStatus_name (nt_status n),
                tr_description = Some (nt_description n), tr_category = None,
                tr_metadata = nt_metadata n, tr_reversesTransactionId = None,
                tr_createdAt = mclock s\<rparr>
        in (Inr r, s\<lparr>uuids := (\<lambda>n. uuids s (Suc n)), mrecords := mrecords s @ [r]\<rparr>)))"
  by (simp add: mem_create_def io_run randomUUID_def Let_def split: option.splits)

lemma since_create: "invariant (mem_inv_since s) (mem_create n)"
proof (rule invariantI)
  fix t r t' assume t: "mem_inv_since s t" and run: "mem_create n t = (r, t')"
  show "mem_inv_since s t'"
  proof (cases "failNextCreate t")
    case None
    then have "mwallets t' = mwallets t" "uuids t' = (\<lambda>n. uuids t (Suc n))"
      using run by (auto simp: mem_create_eq Let_def)
    then show ?thesis by (intro mem_inv_since_cong[OF mem_inv_draw[OF t]]) simp_all
  next
    case Some
    then show ?thesis using run by (intro mem_inv_since_cong[OF t]) (auto simp: mem_create_eq)
  qed
qed

lemma add_currency: "money_add a b = Inr m \<Longrightarrow> currencyOf m = currencyOf a"
  "money_subtract a b = Inr m \<Longrightarrow> currencyOf m = currencyOf a"
  by (auto simp: money_add_def money_subtract_def thenR_Inr_iff fromUnits_Inr_iff)

lemma since_closed: "tx_closed mem_tx (mem_inv_since s)"
  unfolding tx_closed_def mem_tx_def
  by (auto intro!: inv_intros since_findOrCreate since_create since_swap dest: add_currency)

lemma mem_inv_since_self: "mem_inv s \<Longrightarrow> mem_inv_since s s"
  by (simp add: mem_inv_since_def mem_inv_def)

lemma mem_closed: "tx_closed mem_tx mem_inv"
  unfolding tx_closed_def
proof (intro conjI allI)
  have P: "invariant mem_inv m" if "\<And>s. invariant (mem_inv_since s) m" for m :: "(mem_state, 'a) io"
    using that mem_inv_since_self by (auto simp: invariant_def mem_inv_since_def) blast
  note c = since_closed[unfolded tx_closed_def]
  fix u c i v m n
  show "invariant mem_inv (findByUserAndCurrency mem_tx u c)"
    "invariant mem_inv (findOrCreateEmpty mem_tx u c)"
    "invariant mem_inv (credit mem_tx i v m)"
    "invariant mem_inv (debit mem_tx i v m)"
    "invariant mem_inv (create_transaction mem_tx n)"
    by (rule P, use c in blast)+
qed

section \<open>The contract\<close>

lemma mem_view_sel [simp]: "v_log (mem_view s) = mrecords s"
  "v_wallets (mem_view s) (u, c) = map_option mem_toSnapshot (walletOf s u c)"
  by (simp_all add: mem_view_def)

lemma mem_view_cong:
  "mwallets t = mwallets s \<Longrightarrow> mrecords t = mrecords s \<Longrightarrow> mem_view t = mem_view s"
  by (simp add: mem_view_def walletOf_def)

lemma mem_swap_law:
  assumes "mem_inv s" and "v_wallets (mem_view s) (u, c) = Some w"
    and "mem_swap (ws_id w) ver m op s = (Inr ok, t)"
    and op: "\<And>a q. currencyOf a = c \<Longrightarrow> op a m = Inr q \<Longrightarrow> q = mk_money (ledgerUnits a + d) c"
  shows "mem_view t = (if ok then set_wallet (u, c) (moved w d) (mem_view s) else mem_view s)
       \<and> (ok \<longrightarrow> ws_version w = ver)"
proof -
  obtain x where x: "walletOf s u c = Some x" and w: "w = mem_toSnapshot x"
    using assms(2) by auto
  note xs = walletOf_SomeD[OF assms(1) x]
  have i: "ws_id w = sw_id x" by (simp add: w mem_toSnapshot_def)
  show ?thesis
  proof (cases ok)
    case True
    obtain q where q: "op (sw_balance x) m = Inr q" and "sw_version x = ver"
      and t: "t = s\<lparr>mwallets := AList.update (sw_id x)
                 (x\<lparr>sw_balance := q, sw_version := sw_version x + 1\<rparr>) (mwallets s)\<rparr>"
      using assms(3) True xs(4) unfolding i mem_swap_def
      by (auto split: if_splits sum.splits)
    moreover have "mem_toSnapshot (x\<lparr>sw_balance := q, sw_version := sw_version x + 1\<rparr>) = moved w d"
      using op[OF xs(3) q] xs(3) by (simp add: w moved_def mem_toSnapshot_def)
    ultimately show ?thesis
      using view_update[OF assms(1) x, of "x\<lparr>sw_balance := q, sw_version := sw_version x + 1\<rparr>"] xs True
      by (simp add: w mem_toSnapshot_def)
  next
    case False
    then show ?thesis using assms(3) xs(4) unfolding i mem_swap_def
      by (auto split: if_splits sum.splits intro: mem_view_cong)
  qed
qed

lemma mem_create_law:
  assumes "mem_create n s = (Inr r, t)"
  shows "mem_view t = log_tx r (mem_view s) \<and> records r n"
proof -
  have t: "failNextCreate s = None" "mrecords t = mrecords s @ [r]" "mwallets t = mwallets s"
    and r: "r = \<lparr>tr_id = uuids s 0, tr_walletId = nt_walletId n, tr_toWalletId = None,
                tr_type = transactionType_name (nt_type n), tr_amount = money_toString (nt_amount n),
                tr_currency = currencyOf (nt_amount n),
                tr_status = transactionStatus_name (nt_status n),
                tr_description = Some (nt_description n), tr_category = None,
                tr_metadata = nt_metadata n, tr_reversesTransactionId = None,
                tr_createdAt = mclock s\<rparr>"
    using assms by (auto simp: mem_create_eq Let_def split: option.splits)
  have "mem_view t = log_tx r (mem_view s)"
    using t by (simp add: mem_view_def log_tx_def walletOf_def)
  moreover have "records r n"
    unfolding records_def r using restore_display_text by simp
  ultimately show ?thesis by blast
qed

lemma mem_run_keeps:
  assumes "mem_inv s" and "only_through mem_tx (work mem_tx)" and "mem_run work s = (res, t)"
  shows "mem_inv t"
proof -
  obtain r t0 where w: "work mem_tx s = (r, t0)" by (cases "work mem_tx s")
  have "invariant (mem_inv_since s) (work mem_tx)"
    using assms(2) since_closed by (simp add: only_through_def)
  then have "mem_inv_since s t0" using mem_inv_since_self[OF assms(1)] w by (rule invariantD)
  then have "mem_inv t0" "mem_inv (t0\<lparr>mwallets := mwallets s, mrecords := mrecords s\<rparr>)"
    using assms(1) by (simp_all add: mem_inv_since_def mem_inv_def)
  then show ?thesis using assms(3) w by (auto simp: mem_run_def split: sum.splits)
qed

lemma mem_run_cases:
  "mem_run work s = (Inr r, t) \<longleftrightarrow> work mem_tx s = (Inr r, t)"
  "mem_run work s = (Inl e, t) \<Longrightarrow> mwallets t = mwallets s \<and> mrecords t = mrecords s"
  by (auto simp: mem_run_def split: prod.splits sum.splits)

interpretation mem: wallet_port mem_tx mem_run mem_view mem_inv
proof (unfold_locales, goal_cases)
  case 1
  show ?case by (rule mem_closed)
next
  case (2 s u c w)
  then obtain x where "walletOf s u c = Some x" "w = mem_toSnapshot x" by auto
  then show ?case using walletOf_SomeD[OF 2(1), of u c x] by (simp add: mem_toSnapshot_def)
next
  case (3 s k w k' w')
  obtain u c u' c' where k: "k = (u, c)" "k' = (u', c')" by (cases k; cases k')
  with 3 obtain x x' where "walletOf s u c = Some x" "walletOf s u' c' = Some x'"
    "sw_id x = sw_id x'" by (auto simp: mem_toSnapshot_def)
  then show ?case
    using walletOf_SomeD(1,2,4)[OF 3(1), of u c x] walletOf_SomeD(1,2,4)[OF 3(1), of u' c' x'] k
    by (metis option.inject)
next
  case (4 s u c q t)
  then show ?case by (auto simp: mem_tx_def readM_def)
next
  case (5 s u c w t)
  show ?case
  proof (cases "walletOf s u c")
    case None
    then show ?thesis using 5 mem_findOrCreateEmpty_None[OF 5(1) None] view_append[OF None]
      by (auto simp: mem_tx_def Let_def empty_wallet_def mem_toSnapshot_def)
  next
    case Some
    then show ?thesis using 5 by (simp add: mem_tx_def mem_findOrCreateEmpty_def)
  qed
next
  case (6 s u c w m ver ok t)
  then have "mem_swap (ws_id w) ver m money_add s = (Inr ok, t)" by (simp add: mem_tx_def)
  then show ?case using 6(3)
    by (intro mem_swap_law[OF 6(1,2)])
       (auto simp: money_add_def thenR_Inr_iff fromUnits_Inr_iff)
next
  case (7 s u c w m ver ok t)
  then have "mem_swap (ws_id w) ver m money_subtract s = (Inr ok, t)" by (simp add: mem_tx_def)
  then show ?case using 7(3)
    by (intro mem_swap_law[OF 7(1,2)])
       (auto simp: money_subtract_def thenR_Inr_iff fromUnits_Inr_iff)
next
  case (8 s n r t)
  then show ?case by (intro mem_create_law) (simp add: mem_tx_def)
next
  case (9 s work res t)
  then show ?case by (rule mem_run_keeps)
next
  case (10 s work e t)
  then show ?case using mem_run_cases(2) mem_view_cong by metis
next
  case (11 s work r t)
  then show ?case by (metis mem_run_cases(1))
qed

lemma reader_frame:
  "keeps mem_view (reader_findActive u i)" "invariant mem_inv (reader_findActive u i)"
  by (auto simp: reader_findActive_def intro: keeps_intros inv_intros)

section \<open>Properties of the wallet service over this store\<close>

definition mem_empty :: mem_state where
  "mem_empty = \<lparr>mwallets = [], mrecords = [], conflictsToInject = 0, failNextCreate = None,
     mbeneficiaries = [], uuids = (\<lambda>n. replicate n CHR ''u''), mclock = 0\<rparr>"

lemma mem_empty_inv: "mem_inv mem_empty"
  by (auto simp: mem_inv_def mem_empty_def inj_def)

lemma mem_frame_ok:
  "(\<forall>e. keeps mem_view (d e)) \<Longrightarrow> (\<forall>e. invariant mem_inv (d e)) \<Longrightarrow>
   mem.frame_ok reader_findActive d"
  by (simp add: mem.frame_ok_def reader_frame)

definition demo_commands :: "wallet_command list" where
  "demo_commands =
     [Deposit \<lparr>di_userId = ''ana'', di_currency = USD, di_amount = ''100.50'', di_description = None\<rparr>,
      Withdraw \<lparr>wi_userId = ''ana'', wi_currency = USD, wi_amount = ''40.25'', wi_description = None\<rparr>,
      Withdraw \<lparr>wi_userId = ''ana'', wi_currency = USD, wi_amount = ''1000'', wi_description = None\<rparr>,
      Deposit \<lparr>di_userId = ''ana'', di_currency = BRL, di_amount = ''1.234'', di_description = None\<rparr>]"

text \<open>C8. The journal explains every balance: whatever sequence of deposits, withdrawals and
  transfers is requested, with whatever outcome each has, the transaction rows grow by some rows,
  and the balance of every user and currency is what it was plus the signed sum of the new rows of
  that wallet. Injected version conflicts and failing inserts are included.\<close>

theorem mem_session_explained:
  assumes "mem_inv s" and "\<forall>e. keeps mem_view (d e)" and "\<forall>e. invariant mem_inv (d e)"
  shows "\<exists>rows. explained (mem_view s) (mem_view (wallet_session mem_run reader_findActive d xs s)) rows"
  using mem.session_explained[OF mem_frame_ok assms(1)] assms(2,3) by blast

theorem mem_session_explained_witness:
  "\<exists>rows. explained (mem_view mem_empty)
     (mem_view (wallet_session mem_run reader_findActive (\<lambda>e. ret ()) demo_commands mem_empty)) rows"
  by (rule mem_session_explained[OF mem_empty_inv]) (simp_all add: keeps_prim invariant_prim)

text \<open>No overdraft: requests that passed the body validation never take a balance below zero,
  in any order and with any outcomes.\<close>

theorem mem_session_solvent:
  assumes "mem_inv s" and "\<forall>e. keeps mem_view (d e)" and "\<forall>e. invariant mem_inv (d e)"
    and "list_all validated xs" and "solvent (mem_view s)"
  shows "solvent (mem_view (wallet_session mem_run reader_findActive d xs s))"
  using mem.session_solvent[OF mem_frame_ok assms(1)] assms(2-5) by blast

theorem mem_session_solvent_witness:
  "solvent (mem_view (wallet_session mem_run reader_findActive (\<lambda>e. ret ()) demo_commands mem_empty))
   \<and> balance_at (mem_view (wallet_session mem_run reader_findActive (\<lambda>e. ret ()) demo_commands mem_empty))
       (''ana'', USD) = 6025000000"
proof
  show "solvent (mem_view (wallet_session mem_run reader_findActive (\<lambda>e. ret ()) demo_commands mem_empty))"
  proof (rule mem_session_solvent[OF mem_empty_inv])
    show "\<forall>e. keeps mem_view ((\<lambda>e. ret ()) e)" "\<forall>e. invariant mem_inv ((\<lambda>e. ret ()) e)"
      by (simp_all add: keeps_prim invariant_prim)
    show "list_all validated demo_commands" by code_simp
    show "solvent (mem_view mem_empty)"
      by (auto simp: solvent_def balance_at_def mem_empty_def mem_view_def walletOf_def)
  qed
  show "balance_at (mem_view (wallet_session mem_run reader_findActive (\<lambda>e. ret ()) demo_commands mem_empty))
       (''ana'', USD) = 6025000000"
    by code_simp
qed

text \<open>C5. All or nothing: a command that throws leaves the stored wallets and the transaction rows
  exactly as they were, whatever step threw.\<close>

theorem mem_service_atomic:
  assumes "wallet_service mem_run reader_findActive d x s = (Inl e, t)"
  shows "mwallets t = mwallets s \<and> mrecords t = mrecords s"
proof -
  have n: "mwallets t = mwallets s \<and> mrecords t = mrecords s"
    if "run_and_notify mem_run d ev work s = (Inl e, t)" for ev work
    using that mem_run_cases(2) by (auto simp: run_and_notify_def io_inv)
  show ?thesis
    using assms n
    by (cases x) (auto simp: deposit_execute_def withdraw_execute_def send_execute_def
                       reader_findActive_def seqM_Inl io_prim_iff assertFound_iff)
qed

theorem mem_service_atomic_witness:
  "let s = injectTransactionFailure (PlainError ''down'') mem_empty;
       t = snd (wallet_service mem_run reader_findActive (\<lambda>e. ret ()) (hd demo_commands) s)
   in mwallets t = mwallets s \<and> mrecords t = mrecords s"
proof -
  let ?s = "injectTransactionFailure (PlainError ''down'') mem_empty"
  let ?r = "wallet_service mem_run reader_findActive (\<lambda>e. ret ()) (hd demo_commands) ?s"
  have "fst ?r = Inl (PlainError ''down'')" by code_simp
  then have "?r = (Inl (PlainError ''down''), snd ?r)" by (metis prod.collapse)
  from mem_service_atomic[OF this] show ?thesis by (simp add: Let_def)
qed

text \<open>With no conflict and no failure injected, the outcome is decided by the amount and the
  balance alone.\<close>

definition undisturbed :: "mem_state \<Rightarrow> bool" where
  "undisturbed s \<longleftrightarrow> conflictsToInject s \<le> 0 \<and> failNextCreate s = None"

lemma findOrCreate_total:
  assumes "mem_inv s"
  obtains x s1 where "mem_findOrCreateEmpty u c s = (Inr (mem_toSnapshot x), s1)"
    and "mem_inv s1" and "walletOf s1 u c = Some x" and "undisturbed s1 = undisturbed s"
    and "ledgerUnits (sw_balance x) = balance_at (mem_view s) (u, c)"
proof (cases "walletOf s u c")
  case None
  let ?w = "\<lparr>sw_id = uuids s 0, sw_userId = u, sw_currency = c, sw_balance = money_zero c, sw_version = 1\<rparr>"
  let ?s1 = "s\<lparr>mwallets := mwallets s @ [(uuids s 0, ?w)], uuids := (\<lambda>n. uuids s (Suc n))\<rparr>"
  have run: "mem_findOrCreateEmpty u c s = (Inr (mem_toSnapshot ?w), ?s1)"
    using mem_findOrCreateEmpty_None[OF assms None] by (simp add: Let_def)
  have inv: "mem_inv ?s1"
    using mem_inv_append[OF mem_inv_since_self[OF assms], of ?w]
    by (simp add: mem_inv_since_def money_zero_def)
  have look: "walletOf ?s1 u c = Some ?w"
    using None by (simp add: walletOf_def find_append_one)
  have "ledgerUnits (sw_balance ?w) = balance_at (mem_view s) (u, c)"
    using None by (simp add: balance_at_def money_zero_def)
  moreover have "undisturbed ?s1 = undisturbed s" by (simp add: undisturbed_def)
  ultimately show thesis using that[OF run inv look] by blast
next
  case (Some x)
  then show thesis using that[of x s] assms
    by (simp add: mem_findOrCreateEmpty_def balance_at_def mem_toSnapshot_def)
qed

lemma swap_total:
  assumes "mem_inv s" and "walletOf s u c = Some x" and "undisturbed s"
  shows "mem_swap (sw_id x) (sw_version x) m op s =
    (case op (sw_balance x) m of Inl e \<Rightarrow> (Inl e, s)
     | Inr b \<Rightarrow> (Inr True, s\<lparr>mwallets := AList.update (sw_id x)
                   (x\<lparr>sw_balance := b, sw_version := sw_version x + 1\<rparr>) (mwallets s)\<rparr>))"
  using assms walletOf_SomeD(4)[OF assms(1,2)] by (simp add: mem_swap_def undisturbed_def)

lemma create_total:
  "undisturbed s \<Longrightarrow> \<exists>r t. mem_create n s = (Inr r, t)"
  by (simp add: mem_create_eq undisturbed_def Let_def)

lemma notify_total:
  "(\<exists>r t. run_and_notify mem_run d ev work s = (Inr r, t)) \<longleftrightarrow> (\<exists>r t. work mem_tx s = (Inr r, t))"
proof -
  have "\<exists>t'. catchM (d (ev r)) (\<lambda>_. ret ()) t = (Inr (), t')" for r t
    by (cases "d (ev r) t"; cases "fst (d (ev r) t)") (auto simp: catchM_def io_defs)
  then show ?thesis by (fastforce simp: run_and_notify_def seqM_Inr io_prim_iff mem_run_cases(1))
qed

text \<open>The end of every use case, undisturbed: a swap of the row just read, and the row of the journal.\<close>

lemma swap_and_create:
  assumes "mem_inv s" and "walletOf s u c = Some x" and "undisturbed s"
  shows "(\<exists>r t. seqM (mem_swap (sw_id x) (sw_version x) m op) (\<lambda>applied.
            if \<not> applied then throw e else mem_create n) s = (Inr r, t))
     \<longleftrightarrow> (\<exists>q. op (sw_balance x) m = Inr q)"
proof (cases "op (sw_balance x) m")
  case (Inl e')
  then show ?thesis using swap_total[OF assms, of m op] by (simp add: seqM_def)
next
  case (Inr q)
  let ?s2 = "s\<lparr>mwallets := AList.update (sw_id x)
               (x\<lparr>sw_balance := q, sw_version := sw_version x + 1\<rparr>) (mwallets s)\<rparr>"
  have "undisturbed ?s2" using assms(3) by (simp add: undisturbed_def)
  from create_total[OF this] show ?thesis using swap_total[OF assms, of m op] Inr by (simp add: seqM_def)
qed

text \<open>Both sums are refused at the ceiling only.\<close>

lemma sum_within_ceiling:
  assumes "currencyOf a = currencyOf b"
  shows "(\<exists>q. money_add a b = Inr q) \<longleftrightarrow> \<bar>ledgerUnits a + ledgerUnits b\<bar> < CEILING_UNITS"
    and "(\<exists>q. money_subtract a b = Inr q) \<longleftrightarrow> \<bar>ledgerUnits a - ledgerUnits b\<bar> < CEILING_UNITS"
  using assms by (auto simp: money_add_def money_subtract_def assertSameCurrency_def thenR_Inr_iff fromUnits_Inr_iff)

lemma mem_tx_ops:
  "findByUserAndCurrency mem_tx u c = readM (\<lambda>s. map_option mem_toSnapshot (walletOf s u c))"
  "findOrCreateEmpty mem_tx = mem_findOrCreateEmpty" "create_transaction mem_tx = mem_create"
  "credit mem_tx i v a = mem_swap i v a money_add" "debit mem_tx i v a = mem_swap i v a money_subtract"
  by (simp_all add: mem_tx_def)

lemma mem_deposit_work_iff:
  assumes "mem_inv s" and "undisturbed s" and "currencyOf m = di_currency inp"
  shows "(\<exists>r t. deposit_work inp m mem_tx s = (Inr r, t)) \<longleftrightarrow>
      \<bar>balance_at (mem_view s) (di_userId inp, di_currency inp) + ledgerUnits m\<bar> < CEILING_UNITS"
proof -
  obtain x s1 where f: "mem_findOrCreateEmpty (di_userId inp) (di_currency inp) s = (Inr (mem_toSnapshot x), s1)"
    and 1: "mem_inv s1" "walletOf s1 (di_userId inp) (di_currency inp) = Some x"
    and u: "undisturbed s1 = undisturbed s"
    and b: "ledgerUnits (sw_balance x) = balance_at (mem_view s) (di_userId inp, di_currency inp)"
    by (rule findOrCreate_total[OF assms(1)])
  have c: "currencyOf (sw_balance x) = currencyOf m" using walletOf_SomeD(3)[OF 1] assms(3) by simp
  have "(\<exists>r t. deposit_work inp m mem_tx s = (Inr r, t)) \<longleftrightarrow> (\<exists>q. money_add (sw_balance x) m = Inr q)"
  proof (cases "money_add (sw_balance x) m")
    case (Inl e)
    then show ?thesis using f by (auto simp: deposit_work_def seqM_Inr mem_tx_ops deposit_check mem_toSnapshot_def)
  next
    case (Inr q)
    then show ?thesis using f swap_and_create[OF 1, of m money_add] u assms(2)
      by (simp add: deposit_work_def mem_tx_ops mem_toSnapshot_def seqM_run seqM_prim cong: if_cong)
  qed
  then show ?thesis by (simp add: sum_within_ceiling(1)[OF c] b)
qed

lemma mem_withdraw_work_iff:
  assumes "mem_inv s" and "undisturbed s" and "currencyOf m = wi_currency inp"
  shows "(\<exists>r t. withdraw_work inp m mem_tx s = (Inr r, t)) \<longleftrightarrow>
      walletOf s (wi_userId inp) (wi_currency inp) \<noteq> None
      \<and> ledgerUnits m \<le> balance_at (mem_view s) (wi_userId inp, wi_currency inp)
      \<and> \<bar>balance_at (mem_view s) (wi_userId inp, wi_currency inp) - ledgerUnits m\<bar> < CEILING_UNITS"
proof (cases "walletOf s (wi_userId inp) (wi_currency inp)")
  case None
  then show ?thesis by (simp add: withdraw_work_def mem_tx_ops seqM_Inr io_prim_iff assertFound_iff)
next
  case (Some x)
  let ?bal = "ledgerUnits (sw_balance x)"
  have b: "balance_at (mem_view s) (wi_userId inp, wi_currency inp) = ?bal"
    using Some by (simp add: balance_at_def mem_toSnapshot_def)
  have c: "currencyOf (sw_balance x) = currencyOf m" using walletOf_SomeD(3)[OF assms(1) Some] assms(3) by simp
  have less: "isLessThan (sw_balance x) m = Inr (?bal < ledgerUnits m)"
    using c by (simp add: isLessThan_def assertSameCurrency_def)
  have "withdraw_work inp m mem_tx s = (if ?bal < ledgerUnits m
      then (Inl (UnprocessableEntityException ''Insufficient balance''), s)
      else seqM (mem_swap (sw_id x) (sw_version x) m money_subtract) (\<lambda>applied.
             if \<not> applied then throw (ConflictException ''Optimistic lock conflict'')
             else mem_create (withdraw_row inp m (sw_id x))) s)"
    using Some by (simp add: withdraw_work_def withdraw_row_def mem_tx_ops mem_toSnapshot_def less seqM_prim throw_def
                   cong: if_cong)
  then show ?thesis
    using swap_and_create[OF assms(1) Some assms(2), of m money_subtract] sum_within_ceiling(2)[OF c] Some b by auto
qed

text \<open>A deposit succeeds exactly when its amount is a valid amount of the currency and the
  balance it leads to stays below the ledger's ceiling; the wallet need not exist.\<close>

theorem mem_deposit_succeeds_iff:
  assumes "mem_inv s" and "undisturbed s"
  shows "(\<exists>r t. deposit_execute mem_run d inp s = (Inr r, t)) \<longleftrightarrow>
    (\<exists>m. toMoney (di_amount inp) (di_currency inp) = Inr m
       \<and> \<bar>balance_at (mem_view s) (di_userId inp, di_currency inp) + ledgerUnits m\<bar> < CEILING_UNITS)"
proof -
  have "(\<exists>r t. deposit_execute mem_run d inp s = (Inr r, t)) \<longleftrightarrow>
    (\<exists>m. toMoney (di_amount inp) (di_currency inp) = Inr m
       \<and> (\<exists>r t. deposit_work inp m mem_tx s = (Inr r, t)))"
    using notify_total by (auto simp: deposit_execute_def seqM_Inr io_prim_iff) blast+
  then show ?thesis using mem_deposit_work_iff[OF assms] toMoney_props(1) by metis
qed

theorem mem_deposit_succeeds_iff_witness:
  "let inp = \<lparr>di_userId = ''ana'', di_currency = USD, di_amount = ''100.50'', di_description = None\<rparr>
   in (\<exists>r t. deposit_execute mem_run (\<lambda>e. throw (PlainError ''webhook'')) inp mem_empty = (Inr r, t))"
proof -
  let ?inp = "\<lparr>di_userId = ''ana'', di_currency = USD, di_amount = ''100.50'', di_description = None\<rparr>"
  have u: "undisturbed mem_empty" by code_simp
  have m: "toMoney (di_amount ?inp) (di_currency ?inp) = Inr (mk_money 10050000000 USD)" by code_simp
  have b: "balance_at (mem_view mem_empty) (di_userId ?inp, di_currency ?inp) = 0" by code_simp
  have c: "\<bar>0 + ledgerUnits (mk_money 10050000000 USD)\<bar> < CEILING_UNITS" by code_simp
  show ?thesis
    unfolding Let_def mem_deposit_succeeds_iff[OF mem_empty_inv u] b using m c by blast
qed

text \<open>C11. A withdrawal succeeds exactly when its amount is a valid amount of the currency, the
  user has a wallet in it and the balance covers the amount (and, for the negative amounts only a
  caller that skips the body validation can pass, the ceiling is respected).\<close>

theorem mem_withdraw_succeeds_iff:
  assumes "mem_inv s" and "undisturbed s"
  shows "(\<exists>r t. withdraw_execute mem_run d inp s = (Inr r, t)) \<longleftrightarrow>
    (\<exists>m. toMoney (wi_amount inp) (wi_currency inp) = Inr m
       \<and> walletOf s (wi_userId inp) (wi_currency inp) \<noteq> None
       \<and> ledgerUnits m \<le> balance_at (mem_view s) (wi_userId inp, wi_currency inp)
       \<and> \<bar>balance_at (mem_view s) (wi_userId inp, wi_currency inp) - ledgerUnits m\<bar> < CEILING_UNITS)"
proof -
  have "(\<exists>r t. withdraw_execute mem_run d inp s = (Inr r, t)) \<longleftrightarrow>
    (\<exists>m. toMoney (wi_amount inp) (wi_currency inp) = Inr m
       \<and> (\<exists>r t. withdraw_work inp m mem_tx s = (Inr r, t)))"
    using notify_total by (auto simp: withdraw_execute_def seqM_Inr io_prim_iff) blast+
  then show ?thesis using mem_withdraw_work_iff[OF assms] toMoney_props(1) by metis
qed

theorem mem_withdraw_succeeds_iff_witness:
  "let s = wallet_session mem_run reader_findActive (\<lambda>e. ret ()) [hd demo_commands] mem_empty;
       inp = (\<lambda>raw. \<lparr>wi_userId = ''ana'', wi_currency = USD, wi_amount = raw, wi_description = None\<rparr>)
   in (\<exists>r t. withdraw_execute mem_run (\<lambda>e. ret ()) (inp ''100.50'') s = (Inr r, t))
      \<and> \<not> (\<exists>r t. withdraw_execute mem_run (\<lambda>e. ret ()) (inp ''100.51'') s = (Inr r, t))"
proof -
  define s where "s = wallet_session mem_run reader_findActive (\<lambda>e. ret ()) [hd demo_commands] mem_empty"
  let ?inp = "\<lambda>raw. \<lparr>wi_userId = ''ana'', wi_currency = USD, wi_amount = raw, wi_description = None\<rparr>"
  have i: "mem_inv s" unfolding s_def
    by (rule conjunct1[OF mem.session_explained[OF mem_frame_ok mem_empty_inv]]) (simp_all add: keeps_prim invariant_prim)
  have u: "undisturbed s" unfolding s_def by code_simp
  have b: "balance_at (mem_view s) (''ana'', USD) = 10050000000" unfolding s_def by code_simp
  have w: "walletOf s ''ana'' USD \<noteq> None" using b by (auto simp: balance_at_def split: option.splits)
  have m: "toMoney ''100.50'' USD = Inr (mk_money 10050000000 USD)"
    "toMoney ''100.51'' USD = Inr (mk_money 10051000000 USD)" by code_simp+
  have c: "CEILING_UNITS = 10 ^ 20" by (simp add: money_simps)
  show ?thesis
    unfolding Let_def s_def[symmetric] mem_withdraw_succeeds_iff[OF i u] using w by (simp add: m b c)
qed

end
