(* ===== verification/Optimistic_Retry.thy ===== *)
theory Optimistic_Retry
  imports Ports
begin

text \<open>
  \<open>src/src/modules/wallet/utils/with-optimistic-retry.ts\<close>: which errors are worth another
  attempt, and the bounded loop around \<open>prisma.$transaction\<close>. The transaction itself (with its
  isolation level and timeouts) is the database client's and a parameter, and so is the pause
  between two attempts. The loop's laws about commits and rollbacks are inherited from those of one
  transaction.
\<close>

section \<open>Which errors are retried\<close>

definition MAX_RETRIES :: nat where "MAX_RETRIES = 3"
definition MAX_CAUSE_DEPTH :: nat where "MAX_CAUSE_DEPTH = 3"
definition RETRYABLE_SQL_STATES :: "string list" where "RETRYABLE_SQL_STATES = [''40001'', ''40P01'']"
definition RETRYABLE_PRISMA_CODES :: "string list" where "RETRYABLE_PRISMA_CODES = [''P2002'']"

text \<open>Only the driver's errors have the fields the code reads; a \<open>cause\<close> cannot be the error
  itself here, which is the case the source excludes with \<open>cause !== error\<close>.\<close>

fun hasRetryableCode :: "exn \<Rightarrow> nat \<Rightarrow> bool" where
  "hasRetryableCode (DriverError sqlState code cause) depth =
     (if MAX_CAUSE_DEPTH < depth then False
      else if (case sqlState of None \<Rightarrow> False | Some st \<Rightarrow> st \<in> set RETRYABLE_SQL_STATES) then True
      else if (case code of None \<Rightarrow> False | Some c \<Rightarrow> c \<in> set RETRYABLE_PRISMA_CODES) then True
      else (case cause of None \<Rightarrow> False | Some e \<Rightarrow> hasRetryableCode e (depth + 1)))"
| "hasRetryableCode e depth = False"

definition isRetryable :: "exn \<Rightarrow> bool" where
  "isRetryable e \<longleftrightarrow> (case e of ConflictException _ \<Rightarrow> True | _ \<Rightarrow> hasRetryableCode e 0)"

text \<open>What the recursion decides: one of the first four errors of the chain of causes has a
  retryable code.\<close>

fun cause_chain :: "exn \<Rightarrow> exn list" where
  "cause_chain (DriverError sqlState code cause) =
     DriverError sqlState code cause # (case cause of None \<Rightarrow> [] | Some e \<Rightarrow> cause_chain e)"
| "cause_chain e = [e]"

fun own_code :: "exn \<Rightarrow> bool" where
  "own_code (DriverError sqlState code cause) \<longleftrightarrow>
     sqlState \<in> {Some ''40001'', Some ''40P01''} \<or> code = Some ''P2002''"
| "own_code e \<longleftrightarrow> False"

lemma hasRetryableCode_chain:
  "hasRetryableCode e depth \<longleftrightarrow> (\<exists>x \<in> set (take (4 - depth) (cause_chain e)). own_code x)"
proof (induction e depth rule: hasRetryableCode.induct)
  case (1 sqlState code cause depth)
  show ?case
  proof (cases "depth \<le> 3")
    case True
    then have d: "4 - depth = Suc (3 - depth)" "4 - (depth + 1) = 3 - depth" by simp_all
    have own: "own_code (DriverError sqlState code cause) \<longleftrightarrow>
        (case sqlState of None \<Rightarrow> False | Some st \<Rightarrow> st \<in> set RETRYABLE_SQL_STATES)
        \<or> (case code of None \<Rightarrow> False | Some c \<Rightarrow> c \<in> set RETRYABLE_PRISMA_CODES)"
      by (auto simp: RETRYABLE_SQL_STATES_def RETRYABLE_PRISMA_CODES_def split: option.splits)
    have step: "hasRetryableCode (DriverError sqlState code cause) depth \<longleftrightarrow>
        own_code (DriverError sqlState code cause)
        \<or> (case cause of None \<Rightarrow> False | Some e \<Rightarrow> hasRetryableCode e (depth + 1))"
      unfolding own using True by (simp add: MAX_CAUSE_DEPTH_def)
    show ?thesis
    proof (cases cause)
      case None
      then show ?thesis using step d by simp
    next
      case (Some e)
      show ?thesis
      proof (cases "own_code (DriverError sqlState code cause)")
        case False
        then have "hasRetryableCode e (depth + 1)
            \<longleftrightarrow> (\<exists>x \<in> set (take (4 - (depth + 1)) (cause_chain e)). own_code x)"
          using 1 Some True unfolding own MAX_CAUSE_DEPTH_def by simp
        then show ?thesis unfolding step using d Some False by simp
      qed (use step d in simp)
    qed
  qed (simp add: MAX_CAUSE_DEPTH_def)
qed (auto simp: take_Cons split: nat.splits)

section \<open>The loop\<close>

text \<open>\<open>undef\<close> is the value of \<open>lastError\<close> before the first attempt; the \<open>throw\<close> after the loop
  would need it only if the loop ran no attempt.\<close>

function retry_loop ::
  "('s, 'a) io \<Rightarrow> (nat \<Rightarrow> 's \<Rightarrow> 's) \<Rightarrow> nat \<Rightarrow> exn \<Rightarrow> ('s, 'a) io" where
  "retry_loop transaction sleep attempt lastError s =
     (if attempt < MAX_RETRIES then
        (case transaction s of
           (Inr x, t) \<Rightarrow> (Inr x, t)
         | (Inl e, t) \<Rightarrow>
             if \<not> isRetryable e \<or> attempt = MAX_RETRIES - 1 then (Inl e, t)
             else retry_loop transaction sleep (attempt + 1) e (sleep attempt t))
      else (Inl lastError, s))"
  by auto
termination by (relation "measure (\<lambda>(_, _, attempt, _, _). MAX_RETRIES - attempt)") auto

declare retry_loop.simps [simp del]

definition withOptimisticRetry ::
  "(('s, 'a) io \<Rightarrow> ('s, 'a) io) \<Rightarrow> (nat \<Rightarrow> 's \<Rightarrow> 's) \<Rightarrow> exn \<Rightarrow> ('s, 'a) io \<Rightarrow> ('s, 'a) io" where
  "withOptimisticRetry transaction sleep undef fn = retry_loop (transaction fn) sleep 0 undef"

text \<open>The state the \<open>k\<close>-th attempt starts from, when all before it failed.\<close>

primrec attempt_state :: "('s, 'a) io \<Rightarrow> (nat \<Rightarrow> 's \<Rightarrow> 's) \<Rightarrow> nat \<Rightarrow> 's \<Rightarrow> 's" where
  "attempt_state m sleep 0 s = s"
| "attempt_state m sleep (Suc k) s = sleep k (snd (m (attempt_state m sleep k s)))"

definition retryable_failure :: "(exn + 'a) \<Rightarrow> bool" where
  "retryable_failure r \<longleftrightarrow> (case r of Inl e \<Rightarrow> isRetryable e | Inr _ \<Rightarrow> False)"

lemma retry_step:
  "attempt < 3 \<Longrightarrow> retry_loop m sleep attempt le s =
     (if retryable_failure (fst (m s)) \<and> attempt < 2
      then retry_loop m sleep (attempt + 1) (projl (fst (m s))) (sleep attempt (snd (m s)))
      else m s)"
  by (subst retry_loop.simps)
     (auto simp: MAX_RETRIES_def retryable_failure_def split: prod.splits sum.splits)

lemma retry_one_attempt:
  "\<exists>k<3. withOptimisticRetry transaction sleep undef fn s
           = transaction fn (attempt_state (transaction fn) sleep k s)
       \<and> (\<forall>j<k. retryable_failure (fst (transaction fn (attempt_state (transaction fn) sleep j s))))
       \<and> (k < 2 \<longrightarrow> \<not> retryable_failure (fst (withOptimisticRetry transaction sleep undef fn s)))"
proof -
  let ?m = "transaction fn"
  let ?a = "\<lambda>k. attempt_state ?m sleep k s"
  have r: "withOptimisticRetry transaction sleep undef fn s = retry_loop ?m sleep 0 undef s"
    by (simp add: withOptimisticRetry_def)
  consider (0) "\<not> retryable_failure (fst (?m (?a 0)))"
    | (1) "retryable_failure (fst (?m (?a 0)))" "\<not> retryable_failure (fst (?m (?a 1)))"
    | (2) "retryable_failure (fst (?m (?a 0)))" "retryable_failure (fst (?m (?a 1)))" by blast
  then show ?thesis
  proof cases
    case 0
    then show ?thesis unfolding r by (intro exI[of _ 0]) (simp add: retry_step)
  next
    case 1
    then show ?thesis unfolding r
      by (intro exI[of _ 1]) (simp add: retry_step less_Suc_eq)
  next
    case 2
    then show ?thesis unfolding r
      by (intro exI[of _ 2]) (simp add: retry_step less_Suc_eq numeral_2_eq_2)
  qed
qed

text \<open>Where a failed transaction and the pauses leave a view of the state as it was, the whole run is one
  attempt from a state with the same view.\<close>

lemma retry_view:
  assumes "\<And>s e t. transaction fn s = (Inl e, t) \<Longrightarrow> v t = v s" and "\<And>i s. v (sleep i s) = v s"
    and "withOptimisticRetry transaction sleep undef fn s = (res, t)"
  shows "\<exists>s'. v s' = v s \<and> transaction fn s' = (res, t)"
proof -
  let ?a = "\<lambda>k. attempt_state (transaction fn) sleep k s"
  have same: "v (?a k) = v s" if "\<forall>j<k. retryable_failure (fst (transaction fn (?a j)))" for k
    using that
  proof (induction k)
    case (Suc k)
    obtain r t where r: "transaction fn (?a k) = (r, t)" by (cases "transaction fn (?a k)")
    then obtain e where "r = Inl e"
      using Suc.prems by (cases r) (auto simp: retryable_failure_def dest: spec[of _ k])
    then show ?case using Suc r assms(1)[of "?a k" e t] assms(2) by simp
  qed simp
  obtain k where "withOptimisticRetry transaction sleep undef fn s = transaction fn (?a k)"
    and "\<forall>j<k. retryable_failure (fst (transaction fn (?a j)))"
    using retry_one_attempt[of transaction sleep undef fn s] by blast
  then show ?thesis using same assms(3) by metis
qed

text \<open>C12. The retry loop returns what one of at most three attempts returned: the first that
  succeeded or failed with an error not worth retrying, or the third. Each attempt before it failed
  with a version conflict, a serialization failure, a deadlock or a unique violation, and an attempt
  starts where the previous one and the pause after it left the state.\<close>

theorem retry_is_one_attempt:
  "\<exists>k<3. withOptimisticRetry transaction sleep undef fn s
           = transaction fn (attempt_state (transaction fn) sleep k s)
       \<and> (\<forall>j<k. retryable_failure (fst (transaction fn (attempt_state (transaction fn) sleep j s))))
       \<and> (k < 2 \<longrightarrow> \<not> retryable_failure (fst (withOptimisticRetry transaction sleep undef fn s)))"
  by (rule retry_one_attempt)

definition flaky :: "(nat, nat) io" where
  "flaky s = (if s < 2 then (Inl (DriverError (Some ''40001'') None None), s + 1) else (Inr s, s))"

theorem retry_is_one_attempt_witness:
  "withOptimisticRetry (\<lambda>m. m) (\<lambda>_ s. s) (PlainError '''') flaky 0 = (Inr 2, 2)
   \<and> (\<exists>k<3. withOptimisticRetry (\<lambda>m. m) (\<lambda>_ s. s) (PlainError '''') flaky 0
               = flaky (attempt_state flaky (\<lambda>_ s. s) k 0))"
proof
  show "withOptimisticRetry (\<lambda>m. m) (\<lambda>_ s. s) (PlainError '''') flaky 0 = (Inr 2, 2)"
    by code_simp
  show "\<exists>k<3. withOptimisticRetry (\<lambda>m. m) (\<lambda>_ s. s) (PlainError '''') flaky 0
               = flaky (attempt_state flaky (\<lambda>_ s. s) k 0)"
    using retry_is_one_attempt[of "\<lambda>m. m" "\<lambda>_ s. s" "PlainError ''''" flaky 0] by blast
qed

text \<open>An error is retried exactly when it is the conflict the use cases throw, or it or one of
  its three nearest causes carries SQL state 40001 or 40P01 or Prisma's code P2002.\<close>

theorem isRetryable_iff:
  "isRetryable e \<longleftrightarrow> (\<exists>m. e = ConflictException m) \<or> (\<exists>x \<in> set (take 4 (cause_chain e)). own_code x)"
proof -
  have "isRetryable e \<longleftrightarrow> (\<exists>m. e = ConflictException m) \<or> hasRetryableCode e 0"
    by (cases e) (simp_all add: isRetryable_def)
  then show ?thesis by (simp add: hasRetryableCode_chain)
qed

end
