(* ===== verification/Table.thy ===== *)
theory Table
  imports Prelude
begin

text \<open>
  A table of the database as the services use it. The generated Prisma client is not part of the
  repository's sources: a delegate (\<open>prisma.session\<close>, \<open>prisma.wallet\<close>, \<dots>) is a record of functions over the
  state of whoever provides it, a \<open>where\<close> object is a predicate on rows and a \<open>data\<close> object of an
  update is a function on rows. What the services rely on is the locale \<open>table\<close>: which rows a call
  returns and how the set of rows changes, that a call that throws changes no row, and that no
  call touches the rest of the state. \<open>list_delegate\<close> is a concrete table kept in a list, which
  has these laws.
\<close>

section \<open>Delegates\<close>

record ('s, 'r, 'n) delegate =
  findFirst :: "('r \<Rightarrow> bool) \<Rightarrow> ('s, 'r option) io"
  findMany :: "('r \<Rightarrow> bool) \<Rightarrow> ('r \<Rightarrow> 'r \<Rightarrow> bool) \<Rightarrow> ('s, 'r list) io"
  findPage :: "('r \<Rightarrow> bool) \<Rightarrow> ('r \<Rightarrow> 'r \<Rightarrow> bool) \<Rightarrow> nat \<Rightarrow> nat \<Rightarrow> ('s, 'r list) io"
  count :: "('r \<Rightarrow> bool) \<Rightarrow> ('s, nat) io"
  create :: "'n \<Rightarrow> ('s, 'r) io"
  createMany :: "'n list \<Rightarrow> ('s, nat) io"
  upsert :: "('r \<Rightarrow> bool) \<Rightarrow> 'n \<Rightarrow> ('r \<Rightarrow> 'r) \<Rightarrow> ('s, 'r) io"
  update :: "('r \<Rightarrow> bool) \<Rightarrow> ('r \<Rightarrow> 'r) \<Rightarrow> ('s, 'r) io"
  updateMany :: "('r \<Rightarrow> bool) \<Rightarrow> ('r \<Rightarrow> 'r) \<Rightarrow> ('s, nat) io"
  delete :: "('r \<Rightarrow> bool) \<Rightarrow> ('s, 'r) io"
  deleteMany :: "('r \<Rightarrow> bool) \<Rightarrow> ('s, nat) io"

text \<open>\<open>settles\<close>: what a call does to the rows, by its outcome.\<close>

definition settles ::
  "('s \<Rightarrow> 'v) \<Rightarrow> ('s \<Rightarrow> 'o) \<Rightarrow> ('s, 'a) io \<Rightarrow> ('s \<Rightarrow> 'a \<Rightarrow> 'v \<Rightarrow> bool) \<Rightarrow> bool" where
  "settles rows other m Q \<longleftrightarrow>
     (\<forall>s r t. m s = (r, t) \<longrightarrow> other t = other s \<and>
        (case r of Inl e \<Rightarrow> rows t = rows s | Inr x \<Rightarrow> Q s x (rows t)))"

lemma settles_Inr:
  "settles rows other m Q \<Longrightarrow> m s = (Inr x, t) \<Longrightarrow> Q s x (rows t) \<and> other t = other s"
  unfolding settles_def by fastforce

lemma settles_Inl:
  "settles rows other m Q \<Longrightarrow> m s = (Inl e, t) \<Longrightarrow> rows t = rows s \<and> other t = other s"
  unfolding settles_def by fastforce

lemma settles_other: "settles rows other m Q \<Longrightarrow> keeps other m"
  unfolding settles_def by (intro keepsI) blast

text \<open>The orders an \<open>orderBy\<close> can ask for: total and transitive. \<open>anyOrder\<close> stands for no \<open>orderBy\<close>.\<close>

definition total_order :: "('r \<Rightarrow> 'r \<Rightarrow> bool) \<Rightarrow> bool" where
  "total_order le \<longleftrightarrow> (\<forall>a b. le a b \<or> le b a) \<and> (\<forall>a b c. le a b \<longrightarrow> le b c \<longrightarrow> le a c)"

definition anyOrder :: "'r \<Rightarrow> 'r \<Rightarrow> bool" where
  "anyOrder a b = True"

text \<open>
  The laws. \<open>made s n r\<close>: \<open>r\<close> is a row the database may make of the data \<open>n\<close> (with its generated
  identifier and its column defaults). \<open>stamp s r\<close>: \<open>r\<close> with the columns the client sets on its own
  in an update (\<open>@updatedAt\<close>).
\<close>

locale table =
  fixes d :: "('s, 'r, 'n) delegate"
    and rows :: "'s \<Rightarrow> 'r set"
    and other :: "'s \<Rightarrow> 'o"
    and made :: "'s \<Rightarrow> 'n \<Rightarrow> 'r \<Rightarrow> bool"
    and stamp :: "'s \<Rightarrow> 'r \<Rightarrow> 'r"
  assumes findFirst: "settles rows other (findFirst d P) (\<lambda>s q R. R = rows s \<and>
      (case q of None \<Rightarrow> (\<forall>r \<in> rows s. \<not> P r) | Some r \<Rightarrow> r \<in> rows s \<and> P r))"
    and findMany: "settles rows other (findMany d P le) (\<lambda>s rs R. R = rows s \<and>
      set rs = {r \<in> rows s. P r} \<and> distinct rs \<and> (total_order le \<longrightarrow> sorted_wrt le rs))"
    and findPage: "settles rows other (findPage d P le skip lim) (\<lambda>s rs R. R = rows s \<and>
      (\<exists>all. set all = {r \<in> rows s. P r} \<and> distinct all \<and> (total_order le \<longrightarrow> sorted_wrt le all)
             \<and> rs = take lim (drop skip all)))"
    and count: "settles rows other (count d P) (\<lambda>s k R. R = rows s \<and> k = card {r \<in> rows s. P r})"
    and create: "settles rows other (create d n) (\<lambda>s r R. made s n r \<and> r \<notin> rows s \<and> R = insert r (rows s))"
    and createMany: "settles rows other (createMany d ns) (\<lambda>s k R. k = length ns \<and>
      (\<exists>rs. list_all2 (made s) ns rs \<and> set rs \<inter> rows s = {} \<and> distinct rs \<and> R = rows s \<union> set rs))"
    and upsert: "settles rows other (upsert d P n f) (\<lambda>s r R.
      if \<exists>x \<in> rows s. P x then \<exists>x \<in> rows s. P x \<and> r = stamp s (f x) \<and> R = insert r (rows s - {x})
      else made s n r \<and> r \<notin> rows s \<and> R = insert r (rows s))"
    and update: "settles rows other (update d P f) (\<lambda>s r R.
      \<exists>x \<in> rows s. P x \<and> r = stamp s (f x) \<and> R = insert r (rows s - {x}))"
    and updateMany: "settles rows other (updateMany d P f) (\<lambda>s k R. k = card {r \<in> rows s. P r} \<and>
      R = (\<lambda>r. if P r then stamp s (f r) else r) ` rows s)"
    and delete: "settles rows other (delete d P) (\<lambda>s r R. r \<in> rows s \<and> P r \<and> R = rows s - {r})"
    and deleteMany: "settles rows other (deleteMany d P) (\<lambda>s k R. k = card {r \<in> rows s. P r} \<and>
      R = {r \<in> rows s. \<not> P r})"
begin

lemmas laws = findFirst findMany findPage count create createMany upsert update updateMany delete deleteMany
lemmas returns = laws[THEN settles_Inr]
lemmas throws = laws[THEN settles_Inl]
lemmas frames = laws[THEN settles_other]

end

text \<open>\<open>findFirst\<close> with an \<open>orderBy\<close>.\<close>

definition findFirstBy :: "('s, 'r, 'n) delegate \<Rightarrow> ('r \<Rightarrow> bool) \<Rightarrow> ('r \<Rightarrow> 'r \<Rightarrow> bool) \<Rightarrow> ('s, 'r option) io" where
  "findFirstBy d P le = seqM (findPage d P le 0 1) (\<lambda>rs. ret (case rs of [] \<Rightarrow> None | r # _ \<Rightarrow> Some r))"

context table
begin

lemma findFirstBy_returns:
  assumes "findFirstBy d P le s = (Inr q, t)" and "total_order le"
  shows "rows t = rows s \<and> other t = other s \<and>
    (case q of None \<Rightarrow> (\<forall>r \<in> rows s. \<not> P r) | Some r \<Rightarrow> r \<in> rows s \<and> P r \<and> (\<forall>r' \<in> rows s. P r' \<longrightarrow> le r r'))"
proof -
  from assms(1) obtain rs where f: "findPage d P le 0 1 s = (Inr rs, t)"
    and q: "q = (case rs of [] \<Rightarrow> None | r # _ \<Rightarrow> Some r)"
    by (auto simp: findFirstBy_def seqM_Inr io_prim_iff)
  from returns(3)[OF f] assms(2) obtain all where all: "set all = {r \<in> rows s. P r}" "sorted_wrt le all"
    "rs = take 1 (drop 0 all)" and same: "rows t = rows s" "other t = other s" by blast
  have refl: "le r r" for r using assms(2) by (auto simp: total_order_def)
  show ?thesis
  proof (cases all)
    case Nil
    then show ?thesis using all same q by (auto split: option.splits)
  next
    case (Cons r rest)
    then have "q = Some r" using all(3) q by simp
    moreover have "le r r'" if "r' \<in> set all" for r' using that all(2) Cons refl by auto
    ultimately show ?thesis using all(1) Cons same by (auto split: option.splits)
  qed
qed

end

section \<open>A concrete table\<close>

text \<open>Rows in a list inside a state reached by a getter and a setter. New rows are built by
  \<open>mk\<close> from the state, a position in the batch and the data; every update stamps the row. A call
  that finds no row to act on throws Prisma's P2025, an insert whose row the unique columns
  \<open>clash\<close> with another throws P2002.\<close>

definition P2025 :: exn where "P2025 = DriverError None (Some ''P2025'') None"
definition P2002 :: exn where "P2002 = DriverError None (Some ''P2002'') None"

primrec insort_by :: "('r \<Rightarrow> 'r \<Rightarrow> bool) \<Rightarrow> 'r \<Rightarrow> 'r list \<Rightarrow> 'r list" where
  "insort_by le x [] = [x]"
| "insort_by le x (y # ys) = (if le x y then x # y # ys else y # insort_by le x ys)"

definition sort_by :: "('r \<Rightarrow> 'r \<Rightarrow> bool) \<Rightarrow> 'r list \<Rightarrow> 'r list" where
  "sort_by le xs = foldr (insort_by le) xs []"

definition select_rows :: "('r \<Rightarrow> bool) \<Rightarrow> ('r \<Rightarrow> 'r \<Rightarrow> bool) \<Rightarrow> 'r list \<Rightarrow> 'r list" where
  "select_rows P le xs = sort_by le (remdups (filter P xs))"

definition list_insert ::
  "('s \<Rightarrow> 'r list) \<Rightarrow> ('r list \<Rightarrow> 's \<Rightarrow> 's) \<Rightarrow> ('s \<Rightarrow> nat \<Rightarrow> 'n \<Rightarrow> 'r) \<Rightarrow> ('r \<Rightarrow> 'r \<Rightarrow> bool)
   \<Rightarrow> 'n \<Rightarrow> ('s, 'r) io" where
  "list_insert get put mk clash n s =
     (if list_ex (\<lambda>x. x = mk s 0 n \<or> clash (mk s 0 n) x) (get s) then (Inl P2002, s)
      else (Inr (mk s 0 n), put (get s @ [mk s 0 n]) s))"

definition list_insertMany ::
  "('s \<Rightarrow> 'r list) \<Rightarrow> ('r list \<Rightarrow> 's \<Rightarrow> 's) \<Rightarrow> ('s \<Rightarrow> nat \<Rightarrow> 'n \<Rightarrow> 'r) \<Rightarrow> ('r \<Rightarrow> 'r \<Rightarrow> bool)
   \<Rightarrow> 'n list \<Rightarrow> ('s, nat) io" where
  "list_insertMany get put mk clash ns s =
     (let rs = map2 (mk s) [0..<length ns] ns
      in if list_ex (\<lambda>r. list_ex (\<lambda>x. x = r \<or> clash r x) (get s)) rs \<or> \<not> distinct rs then (Inl P2002, s)
         else (Inr (length ns), put (get s @ rs) s))"

definition list_replace ::
  "('s \<Rightarrow> 'r list) \<Rightarrow> ('r list \<Rightarrow> 's \<Rightarrow> 's) \<Rightarrow> 'r \<Rightarrow> 'r \<Rightarrow> ('s, 'r) io" where
  "list_replace get put x y s = (Inr y, put (map (\<lambda>r. if r = x then y else r) (get s)) s)"

definition list_delegate ::
  "('s \<Rightarrow> 'r list) \<Rightarrow> ('r list \<Rightarrow> 's \<Rightarrow> 's) \<Rightarrow> ('s \<Rightarrow> nat \<Rightarrow> 'n \<Rightarrow> 'r) \<Rightarrow> ('s \<Rightarrow> 'r \<Rightarrow> 'r)
   \<Rightarrow> ('r \<Rightarrow> 'r \<Rightarrow> bool) \<Rightarrow> ('s, 'r, 'n) delegate" where
  "list_delegate get put mk stamp clash =
     \<lparr>findFirst = (\<lambda>P s. (Inr (List.find P (get s)), s)),
      findMany = (\<lambda>P le s. (Inr (select_rows P le (get s)), s)),
      findPage = (\<lambda>P le skip n s. (Inr (take n (drop skip (select_rows P le (get s)))), s)),
      count = (\<lambda>P s. (Inr (length (select_rows P anyOrder (get s))), s)),
      create = list_insert get put mk clash,
      createMany = list_insertMany get put mk clash,
      upsert = (\<lambda>P n f s. case List.find P (get s) of
                  None \<Rightarrow> list_insert get put mk clash n s
                | Some x \<Rightarrow> list_replace get put x (stamp s (f x)) s),
      update = (\<lambda>P f s. case List.find P (get s) of
                  None \<Rightarrow> (Inl P2025, s)
                | Some x \<Rightarrow> list_replace get put x (stamp s (f x)) s),
      updateMany = (\<lambda>P f s. (Inr (length (select_rows P anyOrder (get s))),
                  put (map (\<lambda>r. if P r then stamp s (f r) else r) (get s)) s)),
      delete = (\<lambda>P s. case List.find P (get s) of
                  None \<Rightarrow> (Inl P2025, s)
                | Some x \<Rightarrow> (Inr x, put (filter (\<lambda>r. r \<noteq> x) (get s)) s)),
      deleteMany = (\<lambda>P s. (Inr (length (select_rows P anyOrder (get s))),
                  put (filter (\<lambda>r. \<not> P r) (get s)) s))\<rparr>"

lemma insort_by_set [simp]: "set (insort_by le x ys) = insert x (set ys)"
  by (induction ys) auto

lemma sort_by_set [simp]: "set (sort_by le xs) = set xs"
  by (induction xs) (auto simp: sort_by_def)

lemma sort_by_length [simp]: "length (sort_by le xs) = length xs"
proof -
  have "length (insort_by le x ys) = Suc (length ys)" for x ys by (induction ys) auto
  then show ?thesis by (induction xs) (auto simp: sort_by_def)
qed

lemma sort_by_distinct [simp]: "distinct (sort_by le xs) = distinct xs"
  by (metis card_distinct distinct_card sort_by_length sort_by_set)

lemma sort_by_sorted:
  assumes "total_order le"
  shows "sorted_wrt le (sort_by le xs)"
proof -
  have "sorted_wrt le (insort_by le x ys)" if "sorted_wrt le ys" for x ys
    using that
  proof (induction ys)
    case (Cons y ys)
    then show ?case using assms unfolding total_order_def by (auto; metis)
  qed simp
  then show ?thesis by (induction xs) (simp_all add: sort_by_def)
qed

lemma select_rows_props:
  "set (select_rows P le xs) = {r \<in> set xs. P r}" "distinct (select_rows P le xs)"
  "total_order le \<Longrightarrow> sorted_wrt le (select_rows P le xs)"
  "length (select_rows P le xs) = card {r \<in> set xs. P r}"
  by (auto simp: select_rows_def sort_by_sorted length_remdups_card_conv)

lemma find_cases:
  "(List.find P xs = None \<and> (\<forall>x \<in> set xs. \<not> P x)) \<or> (\<exists>x. List.find P xs = Some x \<and> x \<in> set xs \<and> P x)"
  by (metis find_None_iff find_Some_iff_mem not_None_eq)

lemma set_map_replace: "x \<in> set xs \<Longrightarrow> set (map (\<lambda>r. if r = x then y else r) xs) = insert y (set xs - {x})"
  by auto

lemma list_delegate_table:
  assumes get_put: "\<And>rs s. get (put rs s) = rs" and other_put: "\<And>rs s. other (put rs s) = other s"
  shows "table (list_delegate get put mk stamp clash) (\<lambda>s. set (get s)) other
           (\<lambda>s n r. (\<exists>i. r = mk s i n) \<and> (\<forall>x \<in> set (get s). \<not> clash r x)) stamp"
proof (unfold_locales, goal_cases)
  case (1 P)
  then show ?case
    by (auto simp: settles_def list_delegate_def find_None_iff dest: find_Some_iff_mem split: option.splits)
next
  case (2 P le)
  then show ?case by (simp add: settles_def list_delegate_def select_rows_props)
next
  case (3 P le skip lim)
  then show ?case by (auto simp: settles_def list_delegate_def select_rows_props
                           intro!: exI[of _ "select_rows P le (get s)" for s])
next
  case (4 P)
  then show ?case by (simp add: settles_def list_delegate_def select_rows_props)
next
  case (5 n)
  then show ?case by (auto simp: settles_def list_delegate_def list_insert_def list_ex_iff get_put other_put)
next
  case (6 ns)
  show ?case unfolding settles_def
  proof (intro allI impI)
    fix s r t assume run: "createMany (list_delegate get put mk stamp clash) ns s = (r, t)"
    let ?rs = "map2 (mk s) [0..<length ns] ns"
    have mk: "list_all2 (\<lambda>n r. (\<exists>i. r = mk s i n) \<and> (\<forall>x\<in>set (get s). \<not> clash r x)) ns ?rs"
      if "\<forall>r \<in> set ?rs. \<forall>x \<in> set (get s). x \<noteq> r \<and> \<not> clash r x"
    proof (unfold list_all2_conv_all_nth, intro conjI allI impI)
      fix i assume i: "i < length ns"
      then have r: "?rs ! i = mk s i (ns ! i)" by simp
      have "?rs ! i \<in> set ?rs" by (rule nth_mem) (simp add: i)
      then show "\<forall>x\<in>set (get s). \<not> clash (?rs ! i) x" using that by blast
      show "\<exists>j. ?rs ! i = mk s j (ns ! i)" using r by blast
    qed simp
    show "other t = other s \<and> (case r of Inl e \<Rightarrow> set (get t) = set (get s)
        | Inr k \<Rightarrow> k = length ns \<and> (\<exists>rs. list_all2 (\<lambda>n r. (\<exists>i. r = mk s i n)
              \<and> (\<forall>x\<in>set (get s). \<not> clash r x)) ns rs
            \<and> set rs \<inter> set (get s) = {} \<and> distinct rs \<and> set (get t) = set (get s) \<union> set rs))"
    proof (cases "list_ex (\<lambda>r. list_ex (\<lambda>x. x = r \<or> clash r x) (get s)) ?rs \<or> \<not> distinct ?rs")
      case True
      then show ?thesis using run by (auto simp: list_delegate_def list_insertMany_def Let_def)
    next
      case False
      then have ok: "\<forall>r \<in> set ?rs. \<forall>x \<in> set (get s). x \<noteq> r \<and> \<not> clash r x" and d: "distinct ?rs"
        by (auto simp: list_ex_iff)
      have "r = Inr (length ns)" "t = put (get s @ ?rs) s"
        using run False by (auto simp: list_delegate_def list_insertMany_def Let_def)
      moreover have "set ?rs \<inter> set (get s) = {}" using ok by blast
      moreover note mk[OF ok] d
      ultimately show ?thesis
        by (simp add: get_put other_put) (intro exI[of _ ?rs], simp)
    qed
  qed
next
  case (7 P n f)
  show ?case unfolding settles_def
  proof (intro allI impI)
    fix s r t assume run: "upsert (list_delegate get put mk stamp clash) P n f s = (r, t)"
    show "other t = other s \<and> (case r of Inl e \<Rightarrow> set (get t) = set (get s)
        | Inr x \<Rightarrow> if \<exists>x\<in>set (get s). P x
            then \<exists>x'\<in>set (get s). P x' \<and> x = stamp s (f x') \<and> set (get t) = insert x (set (get s) - {x'})
            else ((\<exists>i. x = mk s i n) \<and> (\<forall>x'\<in>set (get s). \<not> clash x x')) \<and> x \<notin> set (get s) \<and> set (get t) = insert x (set (get s)))"
    proof (cases "List.find P (get s)")
      case None
      then have no: "\<not> (\<exists>x \<in> set (get s). P x)" by (auto simp: find_None_iff)
      have run': "list_insert get put mk clash n s = (r, t)"
        using run None by (simp add: list_delegate_def)
      show ?thesis
      proof (cases r)
        case (Inr y)
        then have "y = mk s 0 n" "y \<notin> set (get s)" "\<forall>x \<in> set (get s). \<not> clash y x" "t = put (get s @ [y]) s"
          using run' by (auto simp: list_insert_def list_ex_iff split: if_splits)
        then show ?thesis using no Inr by (auto simp: get_put other_put)
      qed (use run' in \<open>auto simp: list_insert_def split: if_splits\<close>)
    next
      case (Some x)
      then have x: "x \<in> set (get s)" "P x" by (auto dest: find_Some_iff_mem)
      have "r = Inr (stamp s (f x))" "other t = other s"
        "set (get t) = insert (stamp s (f x)) (set (get s) - {x})"
        using run Some by (auto simp: list_delegate_def list_replace_def get_put other_put
                                 set_map_replace[OF x(1)] simp del: set_map)
      then show ?thesis using x by auto
    qed
  qed
next
  case (8 P f)
  show ?case unfolding settles_def
  proof (intro allI impI)
    fix s r t assume run: "update (list_delegate get put mk stamp clash) P f s = (r, t)"
    show "other t = other s \<and> (case r of Inl e \<Rightarrow> set (get t) = set (get s)
        | Inr y \<Rightarrow> \<exists>x\<in>set (get s). P x \<and> y = stamp s (f x) \<and> set (get t) = insert y (set (get s) - {x}))"
    proof (cases "List.find P (get s)")
      case None
      then show ?thesis using run by (auto simp: list_delegate_def)
    next
      case (Some x)
      then have x: "x \<in> set (get s)" "P x" by (auto dest: find_Some_iff_mem)
      have "r = Inr (stamp s (f x))" "other t = other s"
        "set (get t) = insert (stamp s (f x)) (set (get s) - {x})"
        using run Some by (auto simp: list_delegate_def list_replace_def get_put other_put
                                 set_map_replace[OF x(1)] simp del: set_map)
      then show ?thesis using x by auto
    qed
  qed
next
  case (9 P f)
  then show ?case by (simp add: settles_def list_delegate_def select_rows_props get_put other_put)
next
  case (10 P)
  show ?case unfolding settles_def
  proof (intro allI impI)
    fix s r t assume run: "delete (list_delegate get put mk stamp clash) P s = (r, t)"
    show "other t = other s \<and> (case r of Inl e \<Rightarrow> set (get t) = set (get s)
        | Inr y \<Rightarrow> y \<in> set (get s) \<and> P y \<and> set (get t) = set (get s) - {y})"
      using find_cases[of P "get s"] run by (auto simp: list_delegate_def get_put other_put)
  qed
next
  case (11 P)
  then show ?case by (auto simp: settles_def list_delegate_def select_rows_props get_put other_put)
qed

lemma settles_mono:
  "settles rows other m Q \<Longrightarrow> (\<And>s x R. Q s x R \<Longrightarrow> Q' s x R) \<Longrightarrow> settles rows other m Q'"
  unfolding settles_def by (fastforce split: sum.splits)

lemma table_weaken:
  assumes "table d rows other made stamp" and "\<And>s n r. made s n r \<Longrightarrow> made' s n r"
  shows "table d rows other made' stamp"
proof -
  note laws = table.laws[OF assms(1)]
  have many: "\<exists>rsa. list_all2 (made' s) ns rsa \<and> set rsa \<inter> R = {} \<and> distinct rsa
      \<and> R \<union> set rs = R \<union> set rsa"
    if "list_all2 (made s) ns rs" "set rs \<inter> R = {}" "distinct rs" for s ns rs R
  proof -
    have "list_all2 (made' s) ns rs" using that(1) by (rule list_all2_mono) (rule assms(2))
    then show ?thesis using that(2,3) by blast
  qed
  show ?thesis
    by (unfold_locales; (rule laws | rule settles_mono, rule laws))
       (auto simp: assms(2) split: if_splits dest: many)
qed

text \<open>A call that gives up, changing nothing, when the state it would leave is refused.\<close>

definition guarded :: "exn \<Rightarrow> ('s \<Rightarrow> bool) \<Rightarrow> ('s, 'a) io \<Rightarrow> ('s, 'a) io" where
  "guarded e ok m s = (case m s of
     (Inr x, t) \<Rightarrow> if ok t then (Inr x, t) else (Inl e, s) | (Inl e', t) \<Rightarrow> (Inl e', t))"

lemma guarded_settles: "settles rows other m Q \<Longrightarrow> settles rows other (guarded e ok m) Q"
  unfolding settles_def guarded_def by (fastforce split: prod.splits sum.splits if_splits)

lemma table_guarded:
  assumes "table d rows other made stamp"
  shows "table (d\<lparr>updateMany := (\<lambda>P f. guarded e ok (updateMany d P f))\<rparr>) rows other made stamp"
  using table.laws[OF assms] by unfold_locales (simp_all add: guarded_settles)

lemma table_guarded_update:
  assumes "table d rows other made stamp"
  shows "table (d\<lparr>update := (\<lambda>P f. guarded e ok (update d P f))\<rparr>) rows other made stamp"
  using table.laws[OF assms] by unfold_locales (simp_all add: guarded_settles)

text \<open>A delete that has a further effect elsewhere, as a cascade.\<close>

definition deletes_also :: "('r \<Rightarrow> 's \<Rightarrow> 's) \<Rightarrow> ('s, 'r) io \<Rightarrow> ('s, 'r) io" where
  "deletes_also g m s = (case m s of (Inr r, t) \<Rightarrow> (Inr r, g r t) | (Inl e, t) \<Rightarrow> (Inl e, t))"

lemma table_deletes_also:
  assumes "table d rows other made stamp" and "\<And>r s. rows (g r s) = rows s" and "\<And>r s. other (g r s) = other s"
  shows "table (d\<lparr>delete := (\<lambda>P. deletes_also g (delete d P))\<rparr>) rows other made stamp"
proof -
  have "settles rows other (deletes_also g m) Q" if "settles rows other m Q" for m Q
    using that assms(2,3) unfolding settles_def deletes_also_def by (fastforce split: prod.splits sum.splits)
  then show ?thesis using table.laws[OF assms(1)] by unfold_locales simp_all
qed

text \<open>The calls of a table inside a larger state.\<close>

definition zoom_delegate ::
  "('s \<Rightarrow> 'w) \<Rightarrow> ('w \<Rightarrow> 's \<Rightarrow> 's) \<Rightarrow> ('w, 'r, 'n) delegate \<Rightarrow> ('s, 'r, 'n) delegate" where
  "zoom_delegate get put d =
     \<lparr>findFirst = (\<lambda>q. zoom get put (findFirst d q)), findMany = (\<lambda>q le. zoom get put (findMany d q le)),
      findPage = (\<lambda>q le k n. zoom get put (findPage d q le k n)), count = (\<lambda>q. zoom get put (count d q)),
      create = (\<lambda>n. zoom get put (create d n)), createMany = (\<lambda>ns. zoom get put (createMany d ns)),
      upsert = (\<lambda>q n f. zoom get put (upsert d q n f)), update = (\<lambda>q f. zoom get put (update d q f)),
      updateMany = (\<lambda>q f. zoom get put (updateMany d q f)), delete = (\<lambda>q. zoom get put (delete d q)),
      deleteMany = (\<lambda>q. zoom get put (deleteMany d q))\<rparr>"

text \<open>A table keeps its laws inside a larger state.\<close>

lemma settles_zoom:
  assumes m: "settles rows other m Q" and lens: "\<And>w s. get (put w s) = w"
    and rest: "\<And>w s. other' (put w s) = other' s"
    and Q: "\<And>s x R. Q (get s) x R \<Longrightarrow> Q' s x R"
  shows "settles (\<lambda>s. rows (get s)) other' (zoom get put m) Q'"
  unfolding settles_def
proof (intro allI impI)
  fix s r t assume "zoom get put m s = (r, t)"
  then obtain w where w: "m (get s) = (r, w)" "t = put w s" by (auto simp: zoom_iff)
  have "case r of Inl e \<Rightarrow> rows w = rows (get s) | Inr x \<Rightarrow> Q (get s) x (rows w)"
    using m w(1) unfolding settles_def by blast
  then show "other' t = other' s
      \<and> (case r of Inl e \<Rightarrow> rows (get t) = rows (get s) | Inr x \<Rightarrow> Q' s x (rows (get t)))"
    using Q w(2) lens rest by (simp split: sum.splits)
qed

lemma table_zoom:
  assumes t: "table d rows other made stamp" and lens: "\<And>w s. get (put w s) = w"
    and rest: "\<And>w s. other' (put w s) = other' s"
  shows "table (zoom_delegate get put d) (\<lambda>s. rows (get s)) other' (\<lambda>s. made (get s)) (\<lambda>s. stamp (get s))"
proof -
  note z = settles_zoom[where get = get and put = put and other' = other', OF _ lens rest]
  show ?thesis
  proof (rule table.intro, unfold zoom_delegate_def delegate.simps, goal_cases)
    case (1 P)
    show ?case by (rule z[OF table.laws(1)[OF t]])
  next
    case (2 P le)
    show ?case by (rule z[OF table.laws(2)[OF t]])
  next
    case (3 P le skip lim)
    show ?case by (rule z[OF table.laws(3)[OF t]])
  next
    case (4 P)
    show ?case by (rule z[OF table.laws(4)[OF t]])
  next
    case (5 n)
    show ?case by (rule z[OF table.laws(5)[OF t]])
  next
    case (6 ns)
    show ?case by (rule z[OF table.laws(6)[OF t]])
  next
    case (7 P n f)
    show ?case by (rule z[OF table.laws(7)[OF t]])
  next
    case (8 P f)
    show ?case by (rule z[OF table.laws(8)[OF t]])
  next
    case (9 P f)
    show ?case by (rule z[OF table.laws(9)[OF t]])
  next
    case (10 P)
    show ?case by (rule z[OF table.laws(10)[OF t]])
  next
    case (11 P)
    show ?case by (rule z[OF table.laws(11)[OF t]])
  qed
qed

end
