(* ===== verification/Prisma_Wallet.thy ===== *)
theory Prisma_Wallet
  imports Wallet_Contract Optimistic_Retry Table
begin

text \<open>
  The persistence adapter the application runs on,
  \<open>src/src/modules/wallet/infrastructure/persistence\<close>: \<open>PrismaWalletRepository\<close>,
  \<open>PrismaTransactionRepository\<close>, \<open>PrismaBeneficiaryReader\<close> and \<open>PrismaUnitOfWork\<close> (one interactive transaction
  per attempt, with the retry of \<open>with-optimistic-retry.ts\<close>), and the proof that it keeps the
  contract \<open>wallet_port\<close>. The client's calls, \<open>$transaction\<close> and its \<open>Decimal\<close> are the parameters of
  \<open>prisma_env\<close>; the locale \<open>prisma_ports\<close> says what is relied on. A column \<open>DECIMAL(20,8)\<close> is the
  integer of its \<open>10^-8\<close> units.
\<close>

section \<open>Rows and operations\<close>

record wallet_row =
  wr_id :: string
  wr_userId :: "string option"
  wr_currency :: currency
  wr_balance :: int
  wr_version :: int

record new_wallet =
  nw_userId :: string
  nw_currency :: currency
  nw_balance :: int
  nw_version :: int

record tx_row =
  xr_id :: string
  xr_walletId :: string
  xr_toWalletId :: "string option"
  xr_type :: string
  xr_amount :: int
  xr_currency :: currency
  xr_status :: string
  xr_description :: "string option"
  xr_category :: "string option"
  xr_metadata :: "metadata option"
  xr_reversesTransactionId :: "string option"
  xr_createdAt :: int

record new_tx_row =
  nx_walletId :: string
  nx_type :: transactionType
  nx_amount :: int
  nx_currency :: currency
  nx_status :: transactionStatus
  nx_description :: string
  nx_metadata :: "metadata option"

record beneficiary_row =
  br_id :: string
  br_userId :: string
  br_alias :: string
  br_currency :: currency
  br_beneficiaryType :: string
  br_accountNumber :: string
  br_bankName :: "string option"
  br_isActive :: bool

record 's prisma_env =
  p_wallets :: "('s, wallet_row, new_wallet) delegate"
  p_createTransaction :: "new_tx_row \<Rightarrow> ('s, tx_row) io"
  p_findBeneficiary :: "(beneficiary_row \<Rightarrow> bool) \<Rightarrow> ('s, beneficiary_row option) io"
  p_transaction :: "('s, transaction_record) io \<Rightarrow> ('s, transaction_record) io"
  p_sleep :: "nat \<Rightarrow> 's \<Rightarrow> 's"
  Decimal :: "string \<Rightarrow> int"
  toFixed8 :: "int \<Rightarrow> string"
  decimal_toString :: "int \<Rightarrow> string"

definition prisma_toSnapshot :: "'s prisma_env \<Rightarrow> wallet_row \<Rightarrow> exn + wallet_snapshot" where
  "prisma_toSnapshot X row =
     thenR (money_restore (toFixed8 X (wr_balance row)) (wr_currency row)) (\<lambda>b.
       Inr \<lparr>ws_id = wr_id row, ws_userId = wr_userId row, ws_currency = wr_currency row,
            ws_balance = b, ws_version = wr_version row\<rparr>)"

definition userId_currency :: "string \<Rightarrow> currency \<Rightarrow> wallet_row \<Rightarrow> bool" where
  "userId_currency userId c r \<longleftrightarrow> wr_userId r = Some userId \<and> wr_currency r = c"

definition prisma_findByUserAndCurrency ::
  "'s prisma_env \<Rightarrow> string \<Rightarrow> currency \<Rightarrow> ('s, wallet_snapshot option) io" where
  "prisma_findByUserAndCurrency X userId c =
     seqM (findFirst (p_wallets X) (userId_currency userId c)) (\<lambda>row.
     case row of
       None \<Rightarrow> ret None
     | Some r \<Rightarrow> seqM (lift (prisma_toSnapshot X r)) (\<lambda>w. ret (Some w)))"

definition prisma_findOrCreateEmpty ::
  "'s prisma_env \<Rightarrow> string \<Rightarrow> currency \<Rightarrow> ('s, wallet_snapshot) io" where
  "prisma_findOrCreateEmpty X userId c =
     seqM (upsert (p_wallets X) (userId_currency userId c)
             \<lparr>nw_userId = userId, nw_currency = c, nw_balance = 0, nw_version = 1\<rparr> (\<lambda>r. r)) (\<lambda>row.
     lift (prisma_toSnapshot X row))"

definition compareAndSwap :: "'s prisma_env \<Rightarrow> string \<Rightarrow> int \<Rightarrow> int \<Rightarrow> ('s, bool) io" where
  "compareAndSwap X walletId expectedVersion increment =
     seqM (updateMany (p_wallets X) (\<lambda>r. wr_id r = walletId \<and> wr_version r = expectedVersion)
             (\<lambda>r. r\<lparr>wr_balance := wr_balance r + increment, wr_version := wr_version r + 1\<rparr>)) (\<lambda>count.
     ret (count = 1))"

definition prisma_credit :: "'s prisma_env \<Rightarrow> string \<Rightarrow> int \<Rightarrow> money \<Rightarrow> ('s, bool) io" where
  "prisma_credit X walletId expectedVersion amount =
     compareAndSwap X walletId expectedVersion (Decimal X (toLedgerString amount))"

definition prisma_debit :: "'s prisma_env \<Rightarrow> string \<Rightarrow> int \<Rightarrow> money \<Rightarrow> ('s, bool) io" where
  "prisma_debit X walletId expectedVersion amount =
     compareAndSwap X walletId expectedVersion (- Decimal X (toLedgerString amount))"

definition record_of :: "'s prisma_env \<Rightarrow> tx_row \<Rightarrow> transaction_record" where
  "record_of X row = \<lparr>tr_id = xr_id row, tr_walletId = xr_walletId row, tr_toWalletId = xr_toWalletId row,
     tr_type = xr_type row, tr_amount = decimal_toString X (xr_amount row), tr_currency = xr_currency row,
     tr_status = xr_status row, tr_description = xr_description row, tr_category = xr_category row,
     tr_metadata = xr_metadata row, tr_reversesTransactionId = xr_reversesTransactionId row,
     tr_createdAt = xr_createdAt row\<rparr>"

definition prisma_create_transaction ::
  "'s prisma_env \<Rightarrow> new_transaction \<Rightarrow> ('s, transaction_record) io" where
  "prisma_create_transaction X tx =
     seqM (p_createTransaction X
       \<lparr>nx_walletId = nt_walletId tx, nx_type = nt_type tx,
        nx_amount = Decimal X (toLedgerString (nt_amount tx)), nx_currency = currencyOf (nt_amount tx),
        nx_status = nt_status tx, nx_description = nt_description tx, nx_metadata = nt_metadata tx\<rparr>) (\<lambda>row.
     ret (record_of X row))"

definition prisma_tx :: "'s prisma_env \<Rightarrow> 's wallet_tx" where
  "prisma_tx X = \<lparr>findByUserAndCurrency = prisma_findByUserAndCurrency X,
     findOrCreateEmpty = prisma_findOrCreateEmpty X, credit = prisma_credit X, debit = prisma_debit X,
     create_transaction = prisma_create_transaction X\<rparr>"

text \<open>\<open>PrismaUnitOfWork.run\<close>; the last argument of the retry is the value of \<open>lastError\<close> before any
  attempt, which is never thrown.\<close>

definition prisma_run :: "'s prisma_env \<Rightarrow> 's unit_of_work" where
  "prisma_run X work = withOptimisticRetry (p_transaction X) (p_sleep X) (PlainError '''') (work (prisma_tx X))"

definition prisma_findActive ::
  "'s prisma_env \<Rightarrow> string \<Rightarrow> string \<Rightarrow> ('s, beneficiary_snapshot option) io" where
  "prisma_findActive X userId beneficiaryId =
     seqM (p_findBeneficiary X (\<lambda>r. br_id r = beneficiaryId \<and> br_userId r = userId \<and> br_isActive r)) (\<lambda>row.
     case row of
       None \<Rightarrow> ret None
     | Some r \<Rightarrow> ret (Some \<lparr>bs_id = br_id r, bs_alias = br_alias r, bs_currency = br_currency r,
         bs_beneficiaryType = br_beneficiaryType r, bs_accountNumber = br_accountNumber r,
         bs_bankName = br_bankName r\<rparr>))"

section \<open>The observable money\<close>

text \<open>The wallet of a user and currency is the row the unique index names, and the rows of the
  transaction table are read the way the repository returns them. \<open>prisma_inv\<close> is what the schema's
  keys and column types say of the wallet table.\<close>

definition column_ok :: "wallet_row \<Rightarrow> bool" where
  "column_ok r \<longleftrightarrow> \<bar>wr_balance r\<bar> < CEILING_UNITS"

definition snap :: "wallet_row \<Rightarrow> wallet_snapshot" where
  "snap r = \<lparr>ws_id = wr_id r, ws_userId = wr_userId r, ws_currency = wr_currency r,
     ws_balance = mk_money (wr_balance r) (wr_currency r), ws_version = wr_version r\<rparr>"

definition wallet_at :: "wallet_row set \<Rightarrow> string \<times> currency \<Rightarrow> wallet_snapshot option" where
  "wallet_at R k = (if \<exists>r \<in> R. userId_currency (fst k) (snd k) r
     then Some (snap (THE r. r \<in> R \<and> userId_currency (fst k) (snd k) r)) else None)"

definition prisma_view ::
  "'s prisma_env \<Rightarrow> ('s \<Rightarrow> wallet_row set) \<Rightarrow> ('s \<Rightarrow> tx_row list) \<Rightarrow> 's \<Rightarrow> money_view" where
  "prisma_view X wrows txlog s = \<lparr>v_wallets = wallet_at (wrows s), v_log = map (record_of X) (txlog s)\<rparr>"

definition good_rows :: "wallet_row set \<Rightarrow> bool" where
  "good_rows R \<longleftrightarrow> (\<forall>r \<in> R. column_ok r) \<and> inj_on wr_id R
     \<and> (\<forall>r \<in> R. \<forall>r' \<in> R. wr_userId r \<noteq> None \<longrightarrow> wr_userId r = wr_userId r'
          \<longrightarrow> wr_currency r = wr_currency r' \<longrightarrow> r = r')"

definition prisma_inv :: "('s \<Rightarrow> wallet_row set) \<Rightarrow> 's \<Rightarrow> bool" where
  "prisma_inv wrows s \<longleftrightarrow> good_rows (wrows s)"

section \<open>What the adapter relies on\<close>

definition wallet_made :: "new_wallet \<Rightarrow> wallet_row \<Rightarrow> bool" where
  "wallet_made n r \<longleftrightarrow> wr_userId r = Some (nw_userId n) \<and> wr_currency r = nw_currency n
     \<and> wr_balance r = nw_balance n \<and> wr_version r = nw_version n"

definition tx_made :: "new_tx_row \<Rightarrow> tx_row \<Rightarrow> bool" where
  "tx_made n r \<longleftrightarrow> xr_walletId r = nx_walletId n \<and> xr_toWalletId r = None
     \<and> xr_type r = transactionType_name (nx_type n) \<and> xr_amount r = nx_amount n
     \<and> xr_currency r = nx_currency n \<and> xr_status r = transactionStatus_name (nx_status n)
     \<and> xr_description r = Some (nx_description n) \<and> xr_category r = None
     \<and> xr_metadata r = nx_metadata n \<and> xr_reversesTransactionId r = None"

text \<open>
  The wallets are a table with primary key \<open>id\<close> whose balance column refuses what does not fit
  in \<open>DECIMAL(20,8)\<close>; the transaction table grows by the row inserted; an interactive transaction
  that commits has run its function on the data as they were, one that fails has changed nothing;
  pauses change no data. The last three laws are those of the decimal type: it reads and prints
  ledger amounts exactly, and \<open>toString\<close> prints an amount within its currency's decimals without an
  exponent.
\<close>

locale prisma_ports =
  fixes X :: "'s prisma_env" and wrows :: "'s \<Rightarrow> wallet_row set" and txlog :: "'s \<Rightarrow> tx_row list"
  assumes wtab: "table (p_wallets X) wrows txlog
      (\<lambda>s n r. wallet_made n r \<and> wr_id r \<notin> wr_id ` wrows s) (\<lambda>s r. r)"
    and column: "updateMany (p_wallets X) P f s = (Inr k, t) \<Longrightarrow> \<forall>r \<in> wrows s. column_ok r
      \<Longrightarrow> \<forall>r \<in> wrows t. column_ok r"
    and txtab: "settles txlog wrows (p_createTransaction X n)
      (\<lambda>s r log. log = txlog s @ [r] \<and> tx_made n r)"
    and commit: "p_transaction X m s = (Inr x, t) \<Longrightarrow>
      \<exists>s0 s1. wrows s0 = wrows s \<and> txlog s0 = txlog s \<and> m s0 = (Inr x, s1)
            \<and> wrows t = wrows s1 \<and> txlog t = txlog s1"
    and rollback: "p_transaction X m s = (Inl e, t) \<Longrightarrow> wrows t = wrows s \<and> txlog t = txlog s"
    and pause: "wrows (p_sleep X i s) = wrows s \<and> txlog (p_sleep X i s) = txlog s"
    and reads: "Decimal X (toLedgerString m') = ledgerUnits m'"
    and prints8: "\<bar>u\<bar> < CEILING_UNITS \<Longrightarrow> money_restore (toFixed8 X u) c = Inr (mk_money u c)"
    and prints: "\<bar>u\<bar> < CEILING_UNITS \<Longrightarrow> currencyStep c dvd u
      \<Longrightarrow> money_restore (decimal_toString X u) c = Inr (mk_money u c)"
begin

lemmas wtab_returns = table.returns[OF wtab]
lemmas wtab_throws = table.throws[OF wtab]

abbreviation pview :: "'s \<Rightarrow> money_view" where "pview \<equiv> prisma_view X wrows txlog"
abbreviation pinv :: "'s \<Rightarrow> bool" where "pinv \<equiv> prisma_inv wrows"

lemmas pview_def = prisma_view_def
lemmas pinv_def = prisma_inv_def

lemma good_rowsD:
  assumes "good_rows R"
  shows "r \<in> R \<Longrightarrow> column_ok r" and "inj_on wr_id R"
    and "r \<in> R \<Longrightarrow> r' \<in> R \<Longrightarrow> wr_id r = wr_id r' \<Longrightarrow> r = r'"
    and "r \<in> R \<Longrightarrow> r' \<in> R \<Longrightarrow> wr_userId r = Some u \<Longrightarrow> wr_userId r' = Some u
      \<Longrightarrow> wr_currency r = wr_currency r' \<Longrightarrow> r = r'"
  using assms unfolding good_rows_def inj_on_def by auto

lemma good_rowsI:
  assumes "\<And>r. r \<in> R \<Longrightarrow> column_ok r" and "inj_on wr_id R"
    and "\<And>r r' u. r \<in> R \<Longrightarrow> r' \<in> R \<Longrightarrow> wr_userId r = Some u \<Longrightarrow> wr_userId r' = Some u
      \<Longrightarrow> wr_currency r = wr_currency r' \<Longrightarrow> r = r'"
  shows "good_rows R"
  unfolding good_rows_def
proof (intro conjI ballI impI)
  fix r r' assume "r \<in> R" "r' \<in> R" "wr_userId r \<noteq> None" "wr_userId r = wr_userId r'"
    "wr_currency r = wr_currency r'"
  then show "r = r'" using assms(3)[of r r'] by fastforce
qed (use assms in auto)

lemma good_rows_map:
  assumes "good_rows R" and "\<And>r. r \<in> R \<Longrightarrow> column_ok (g r)"
    and "\<And>r. wr_id (g r) = wr_id r" and "\<And>r. wr_userId (g r) = wr_userId r"
    and "\<And>r. wr_currency (g r) = wr_currency r"
  shows "good_rows (g ` R)"
proof (rule good_rowsI)
  show "inj_on wr_id (g ` R)"
    using good_rowsD(2)[OF assms(1)] by (auto simp: inj_on_def assms(3))
  fix r r' x assume "r \<in> g ` R" "r' \<in> g ` R" and q: "wr_userId r = Some x" "wr_userId r' = Some x"
    "wr_currency r = wr_currency r'"
  then obtain a b where ab: "a \<in> R" "r = g a" "b \<in> R" "r' = g b" by blast
  then have "a = b" using good_rowsD(4)[OF assms(1) ab(1,3), of x] q by (simp add: assms(4,5))
  then show "r = r'" using ab by simp
qed (use assms(2) in blast)

lemma wallet_at_Some:
  assumes "good_rows R"
  shows "wallet_at R (u, c) = Some w \<longleftrightarrow> (\<exists>r \<in> R. userId_currency u c r \<and> w = snap r)"
proof -
  have the: "(THE r. r \<in> R \<and> userId_currency u c r) = r" if "r \<in> R" "userId_currency u c r" for r
    using that assms by (intro the_equality) (auto simp: good_rows_def userId_currency_def)
  show ?thesis by (auto simp: wallet_at_def the) (metis the)
qed

lemma wallet_at_None: "wallet_at R (u, c) = None \<longleftrightarrow> (\<forall>r \<in> R. \<not> userId_currency u c r)"
  by (auto simp: wallet_at_def)

lemma pview_simps [simp]:
  "v_wallets (pview s) = wallet_at (wrows s)" "v_log (pview s) = map (record_of X) (txlog s)"
  by (simp_all add: pview_def)

lemma pview_cong: "wrows t = wrows s \<Longrightarrow> txlog t = txlog s \<Longrightarrow> pview t = pview s"
  by (simp add: pview_def)

lemma toSnapshot_ok: "column_ok r \<Longrightarrow> prisma_toSnapshot X r = Inr (snap r)"
  by (simp add: prisma_toSnapshot_def snap_def column_ok_def prints8)

lemma wallet_at_cong:
  "(\<And>r. userId_currency u c r \<Longrightarrow> (r \<in> R') = (r \<in> R)) \<Longrightarrow> wallet_at R' (u, c) = wallet_at R (u, c)"
proof -
  assume "\<And>r. userId_currency u c r \<Longrightarrow> (r \<in> R') = (r \<in> R)"
  then have "(r \<in> R' \<and> userId_currency u c r) = (r \<in> R \<and> userId_currency u c r)" for r by blast
  then show ?thesis unfolding wallet_at_def fst_conv snd_conv Bex_def by presburger
qed

lemma wallet_at_put:
  assumes "good_rows R'" and "userId_currency u c r1" and "R' = insert r1 (R - Z)"
    and "\<forall>z \<in> Z. userId_currency u c z"
  shows "wallet_at R' = (wallet_at R)((u, c) := Some (snap r1))"
proof
  fix k :: "string \<times> currency"
  obtain u' c' where k: "k = (u', c')" by (cases k)
  show "wallet_at R' k = ((wallet_at R)((u, c) := Some (snap r1))) k"
  proof (cases "k = (u, c)")
    case True
    have "r1 \<in> R'" using assms(3) by blast
    then show ?thesis using True wallet_at_Some[OF assms(1), of u c "snap r1"] assms(2) by auto
  next
    case False
    then have other: "\<not> userId_currency u' c' z" if "userId_currency u c z" for z
      using that k by (auto simp: userId_currency_def)
    have "(r \<in> R') = (r \<in> R)" if "userId_currency u' c' r" for r
      unfolding assms(3) using that other assms(2,4) by blast
    then have "wallet_at R' (u', c') = wallet_at R (u', c')" by (rule wallet_at_cong)
    then show ?thesis using False k by auto
  qed
qed

lemma swap_law:
  assumes "pinv s" and "wallet_at (wrows s) (u, c) = Some w"
    and "compareAndSwap X (ws_id w) ver d s = (Inr ok, t)"
  shows "pview t = (if ok then set_wallet (u, c) (moved w d) (pview s) else pview s)
       \<and> (ok \<longrightarrow> ws_version w = ver) \<and> pinv t"
proof -
  have good: "good_rows (wrows s)" using assms(1) by (simp add: pinv_def)
  obtain r0 where r0: "r0 \<in> wrows s" "userId_currency u c r0" and w: "w = snap r0"
    using assms(2) wallet_at_Some[OF good] by blast
  let ?P = "\<lambda>r. wr_id r = ws_id w \<and> wr_version r = ver"
  let ?f = "\<lambda>r. r\<lparr>wr_balance := wr_balance r + d, wr_version := wr_version r + 1\<rparr>"
  from assms(3) obtain k where up: "updateMany (p_wallets X) ?P ?f s = (Inr k, t)" and ok: "ok = (k = 1)"
    by (auto simp: compareAndSwap_def io_inv)
  have k: "k = card {r \<in> wrows s. ?P r}" and rows: "wrows t = (\<lambda>r. if ?P r then ?f r else r) ` wrows s"
    and log: "txlog t = txlog s" using wtab_returns(9)[OF up] by simp_all
  have col: "\<forall>r \<in> wrows t. column_ok r"
    using column[OF up] good by (simp add: good_rows_def)
  have id: "wr_id r = ws_id w \<longleftrightarrow> r = r0" if "r \<in> wrows s" for r
    using inj_on_eq_iff[OF good_rowsD(2)[OF good] that r0(1)] by (simp add: snap_def w)
  show ?thesis
  proof (cases "wr_version r0 = ver")
    case True
    then have "{r \<in> wrows s. ?P r} = {r0}" using id r0(1) w by auto
    then have okT: "ok" using k ok by simp
    have rows': "wrows t = insert (?f r0) (wrows s - {r0})"
      unfolding rows using id r0(1) True by (auto simp: image_iff)
    have "good_rows (wrows t)"
    proof (rule good_rowsI)
      show "inj_on wr_id (wrows t)"
        unfolding rows' using good_rowsD(2)[OF good] r0(1) by (auto simp: inj_on_def)
      fix r r' x assume r: "r \<in> wrows t" "r' \<in> wrows t" "wr_userId r = Some x" "wr_userId r' = Some x"
        "wr_currency r = wr_currency r'"
      let ?old = "\<lambda>r. if r = ?f r0 then r0 else r"
      have "?old r \<in> wrows s" "?old r' \<in> wrows s" using r(1,2) r0(1) unfolding rows' by auto
      moreover have "wr_userId (?old r) = wr_userId r" "wr_currency (?old r) = wr_currency r" for r
        by simp_all
      ultimately have "?old r = ?old r'" using good_rowsD(4)[OF good, of "?old r" "?old r'" x] r(3-5) by simp
      then show "r = r'" using r(1,2) unfolding rows' by (auto split: if_splits)
    qed (use col in blast)
    moreover have "snap (?f r0) = moved w d" by (simp add: snap_def moved_def w)
    moreover have "userId_currency u c (?f r0)" using r0(2) by (simp add: userId_currency_def)
    ultimately have "wallet_at (wrows t) = (wallet_at (wrows s))((u, c) := Some (moved w d))" and p: "pinv t"
      using wallet_at_put[OF _ _ rows'] r0(2) by (simp_all add: pinv_def)
    then show ?thesis using okT True log by (simp add: pview_def set_wallet_def w snap_def)
  next
    case False
    then have none: "\<not> ?P r" if "r \<in> wrows s" for r using id[OF that] by auto
    then have "k = 0" using k by (simp add: card_eq_0_iff)
    moreover have "wrows t = wrows s" unfolding rows using none by (auto simp: image_iff)
    ultimately show ?thesis using ok log assms(1) pview_cong by (simp add: pinv_def)
  qed
qed

lemma findOrCreate_law:
  assumes "pinv s" and "prisma_findOrCreateEmpty X u c s = (Inr w, t)"
  shows "(case wallet_at (wrows s) (u, c) of
             Some w' \<Rightarrow> w = w' \<and> pview t = pview s
           | None \<Rightarrow> empty_wallet w u c \<and> pview t = set_wallet (u, c) w (pview s)) \<and> pinv t"
proof -
  have good: "good_rows (wrows s)" using assms(1) by (simp add: pinv_def)
  from assms(2) obtain r where up: "upsert (p_wallets X) (userId_currency u c)
      \<lparr>nw_userId = u, nw_currency = c, nw_balance = 0, nw_version = 1\<rparr> (\<lambda>r. r) s = (Inr r, t)"
    and sn: "prisma_toSnapshot X r = Inr w"
    by (auto simp: prisma_findOrCreateEmpty_def io_inv)
  have log: "txlog t = txlog s" using wtab_returns(7)[OF up] by simp
  show ?thesis
  proof (cases "\<exists>x \<in> wrows s. userId_currency u c x")
    case True
    then have "r \<in> wrows s" "userId_currency u c r" "wrows t = wrows s"
      using wtab_returns(7)[OF up] by auto
    moreover from this have "w = snap r" using sn toSnapshot_ok good by (simp add: good_rows_def)
    ultimately show ?thesis
      using wallet_at_Some[OF good, of u c w] log assms(1) pview_cong
      by (auto simp: pinv_def split: option.splits)
  next
    case False
    then have none: "wallet_at (wrows s) (u, c) = None" by (auto simp: wallet_at_None)
    have made: "wr_userId r = Some u" "wr_currency r = c" "wr_balance r = 0" "wr_version r = 1"
      "wr_id r \<notin> wr_id ` wrows s" and rows: "wrows t = insert r (wrows s)"
      using wtab_returns(7)[OF up] False by (auto simp: wallet_made_def)
    have ok: "column_ok r" using made by (simp add: column_ok_def money_simps)
    have "good_rows (wrows t)" unfolding rows
    proof (rule good_rowsI)
      show "column_ok x" if "x \<in> insert r (wrows s)" for x
        using that ok good_rowsD(1)[OF good] by blast
      show "inj_on wr_id (insert r (wrows s))" using good_rowsD(2)[OF good] made(5) by auto
      fix a b x assume ab: "a \<in> insert r (wrows s)" "b \<in> insert r (wrows s)" "wr_userId a = Some x"
        "wr_userId b = Some x" "wr_currency a = wr_currency b"
      have no: "y \<in> wrows s \<Longrightarrow> wr_userId y = Some u \<Longrightarrow> wr_currency y = c \<Longrightarrow> False" for y
        using False by (auto simp: userId_currency_def)
      consider "a = r" "b = r" | "a = r" "b \<in> wrows s" | "a \<in> wrows s" "b = r" | "a \<in> wrows s" "b \<in> wrows s"
        using ab(1,2) by blast
      then show "a = b"
      proof cases
        case 2
        then show ?thesis using no[of b] ab(3-5) made(1,2) by simp
      next
        case 3
        then show ?thesis using no[of a] ab(3-5) made(1,2) by simp
      next
        case 4
        then show ?thesis by (rule good_rowsD(4)[OF good _ _ ab(3-5)])
      qed simp
    qed
    moreover have "w = snap r" using sn toSnapshot_ok[OF ok] by simp
    moreover have "empty_wallet (snap r) u c"
      using made by (simp add: empty_wallet_def snap_def money_zero_def)
    moreover have "wallet_at (wrows t) = (wallet_at (wrows s))((u, c) := Some (snap r))"
      using wallet_at_put[of "wrows t" u c r "wrows s" "{}"] calculation(1) made(1,2) rows
      by (simp add: userId_currency_def)
    ultimately show ?thesis using none log by (simp add: pinv_def pview_def set_wallet_def)
  qed
qed

lemma create_law:
  assumes "prisma_create_transaction X n s = (Inr r, t)"
  shows "pview t = log_tx r (pview s) \<and> records r n \<and> wrows t = wrows s"
proof -
  from assms obtain x where cr: "p_createTransaction X
      \<lparr>nx_walletId = nt_walletId n, nx_type = nt_type n,
       nx_amount = Decimal X (toLedgerString (nt_amount n)), nx_currency = currencyOf (nt_amount n),
       nx_status = nt_status n, nx_description = nt_description n, nx_metadata = nt_metadata n\<rparr> s = (Inr x, t)"
    and r: "r = record_of X x"
    by (auto simp: prisma_create_transaction_def io_inv)
  from settles_Inr[OF txtab cr] have log: "txlog t = txlog s @ [x]" and w: "wrows t = wrows s"
    and made: "xr_walletId x = nt_walletId n" "xr_toWalletId x = None"
      "xr_type x = transactionType_name (nt_type n)" "xr_amount x = ledgerUnits (nt_amount n)"
      "xr_currency x = currencyOf (nt_amount n)" "xr_status x = transactionStatus_name (nt_status n)"
      "xr_description x = Some (nt_description n)" "xr_metadata x = nt_metadata n"
    by (auto simp: tx_made_def reads)
  have "records r n"
    unfolding records_def r record_of_def using made prints by (simp add: money_ok_def)
  then show ?thesis using log w r by (simp add: pview_def log_tx_def)
qed

end

context prisma_ports
begin

lemma pinv_cong: "wrows t = wrows s \<Longrightarrow> pinv s \<Longrightarrow> pinv t"
  by (simp add: pinv_def)

lemma findBy_law:
  assumes "pinv s" and "prisma_findByUserAndCurrency X u c s = (q, t)"
  shows "wrows t = wrows s \<and> txlog t = txlog s \<and> (\<forall>w. q = Inr w \<longrightarrow> w = wallet_at (wrows s) (u, c))"
proof -
  obtain r s1 where f: "findFirst (p_wallets X) (userId_currency u c) s = (r, s1)"
    by (cases "findFirst (p_wallets X) (userId_currency u c) s")
  have good: "good_rows (wrows s)" using assms(1) by (simp add: pinv_def)
  show ?thesis
  proof (cases r)
    case (Inl e)
    then have "q = Inl e" "t = s1" using assms(2) f by (auto simp: prisma_findByUserAndCurrency_def seqM_def)
    then show ?thesis using wtab_throws(1)[OF f[unfolded Inl]] by simp
  next
    case (Inr o')
    note law = wtab_returns(1)[OF f[unfolded Inr]]
    show ?thesis
    proof (cases o')
      case None
      then have "q = Inr None" "t = s1"
        using assms(2) f Inr by (auto simp: prisma_findByUserAndCurrency_def seqM_def ret_def)
      then show ?thesis using law None wallet_at_None[of "wrows s" u c] by simp
    next
      case (Some x)
      then have x: "x \<in> wrows s" "userId_currency u c x" using law by simp_all
      then have "q = Inr (Some (snap x))" "t = s1"
        using assms(2) f Inr Some toSnapshot_ok[OF good_rowsD(1)[OF good x(1)]]
        by (auto simp: prisma_findByUserAndCurrency_def seqM_def ret_def lift_def)
      then show ?thesis using law x wallet_at_Some[OF good, of u c "snap x"] by auto
    qed
  qed
qed

lemma findOrCreate_throws:
  "prisma_findOrCreateEmpty X u c s = (Inl e, t) \<Longrightarrow> pinv s \<Longrightarrow> wrows t = wrows s"
proof -
  assume p: "pinv s" and run: "prisma_findOrCreateEmpty X u c s = (Inl e, t)"
  let ?n = "\<lparr>nw_userId = u, nw_currency = c, nw_balance = 0, nw_version = 1\<rparr>"
  obtain r s1 where up: "upsert (p_wallets X) (userId_currency u c) ?n (\<lambda>r. r) s = (r, s1)"
    by (cases "upsert (p_wallets X) (userId_currency u c) ?n (\<lambda>r. r) s")
  show ?thesis
  proof (cases r)
    case (Inl e')
    then have "t = s1" using run up by (auto simp: prisma_findOrCreateEmpty_def seqM_def)
    then show ?thesis using wtab_throws(7)[OF up[unfolded Inl]] by simp
  next
    case (Inr x)
    have "x \<in> wrows s \<or> wr_balance x = 0"
      using wtab_returns(7)[OF up[unfolded Inr]] by (auto simp: wallet_made_def split: if_splits)
    then have "column_ok x" using p good_rowsD(1)
      by (auto simp: pinv_def column_ok_def money_simps)
    then show ?thesis using run up Inr toSnapshot_ok
      by (simp add: prisma_findOrCreateEmpty_def seqM_def lift_def)
  qed
qed

lemma swap_throws: "compareAndSwap X i ver d s = (Inl e, t) \<Longrightarrow> wrows t = wrows s"
  using wtab_throws(9) by (auto simp: compareAndSwap_def io_inv)

lemma swap_other:
  assumes "pinv s" and "compareAndSwap X i ver d s = (Inr ok, t)"
  shows "pinv t"
proof (cases "\<exists>r0 \<in> wrows s. wr_id r0 = i \<and> wr_userId r0 \<noteq> None")
  case True
  then obtain r0 u where r0: "r0 \<in> wrows s" "wr_id r0 = i" "wr_userId r0 = Some u" by auto
  have "wallet_at (wrows s) (u, wr_currency r0) = Some (snap r0)"
    using assms(1) r0 wallet_at_Some by (auto simp: pinv_def userId_currency_def)
  moreover have "ws_id (snap r0) = i" by (simp add: snap_def r0)
  ultimately show ?thesis using swap_law[OF assms(1)] assms(2) by blast
next
  case False
  let ?P = "\<lambda>r. wr_id r = i \<and> wr_version r = ver"
  let ?g = "\<lambda>r. if ?P r then r\<lparr>wr_balance := wr_balance r + d, wr_version := wr_version r + 1\<rparr> else r"
  have good: "good_rows (wrows s)" using assms(1) by (simp add: pinv_def)
  from assms(2) obtain k where up: "updateMany (p_wallets X) ?P
      (\<lambda>r. r\<lparr>wr_balance := wr_balance r + d, wr_version := wr_version r + 1\<rparr>) s = (Inr k, t)"
    by (auto simp: compareAndSwap_def io_inv)
  have rows: "wrows t = ?g ` wrows s" using wtab_returns(9)[OF up] by simp
  have "good_rows (wrows t)" unfolding rows
  proof (rule good_rows_map[OF good])
    show "column_ok (?g r)" if "r \<in> wrows s" for r
      using that column[OF up] good_rowsD(1)[OF good] rows by blast
  qed simp_all
  then show ?thesis by (simp add: pinv_def)
qed

lemma pclosed: "tx_closed (prisma_tx X) pinv"
proof -
  have "invariant pinv (prisma_findByUserAndCurrency X u c)" for u c
  proof (rule invariantI)
    fix s r t assume "pinv s" "prisma_findByUserAndCurrency X u c s = (r, t)"
    then show "pinv t" using findBy_law[of s u c r t] pinv_cong[of t s] by simp
  qed
  moreover have "invariant pinv (prisma_findOrCreateEmpty X u c)" for u c
  proof (rule invariantI)
    fix s r t assume "pinv s" "prisma_findOrCreateEmpty X u c s = (r, t)"
    then show "pinv t"
      using findOrCreate_law[of s u c _ t] findOrCreate_throws[of u c s _ t] pinv_cong[of t s] by (cases r) auto
  qed
  moreover have swap: "invariant pinv (compareAndSwap X i ver d)" for i ver d
  proof (rule invariantI)
    fix s r t assume "pinv s" "compareAndSwap X i ver d s = (r, t)"
    then show "pinv t"
      using swap_other[of s i ver d _ t] swap_throws[of i ver d s _ t] pinv_cong[of t s] by (cases r) auto
  qed
  moreover have "invariant pinv (prisma_create_transaction X n)" for n
  proof -
    have "keeps wrows (prisma_create_transaction X n)"
      unfolding prisma_create_transaction_def by (intro keeps_intros settles_other[OF txtab])
    then show ?thesis unfolding pinv_def by (rule keeps_invariant)
  qed
  ultimately show ?thesis by (simp add: tx_closed_def prisma_tx_def prisma_credit_def prisma_debit_def)
qed

text \<open>A run is one of its attempts, and those before it changed nothing.\<close>

lemma run_cases:
  assumes "prisma_run X work s = (res, t)"
  shows "\<exists>s'. wrows s' = wrows s \<and> txlog s' = txlog s
           \<and> p_transaction X (work (prisma_tx X)) s' = (res, t)"
  using retry_view[of "p_transaction X" "work (prisma_tx X)" "\<lambda>s. (wrows s, txlog s)" "p_sleep X",
      OF _ _ assms[unfolded prisma_run_def]] rollback pause by simp

lemma run_commit:
  assumes "prisma_run X work s = (Inr r, t)"
  shows "\<exists>s0 s1. wrows s0 = wrows s \<and> txlog s0 = txlog s \<and> work (prisma_tx X) s0 = (Inr r, s1)
             \<and> wrows t = wrows s1 \<and> txlog t = txlog s1"
  using run_cases[OF assms] commit by metis

lemma run_rollback:
  assumes "prisma_run X work s = (Inl e, t)"
  shows "wrows t = wrows s \<and> txlog t = txlog s"
  using run_cases[OF assms] rollback by metis

lemma contract: "wallet_port (prisma_tx X) (prisma_run X) pview pinv"
proof (unfold_locales, goal_cases)
  case 1
  show ?case by (rule pclosed)
next
  case (2 s u c w)
  then show ?case using wallet_at_Some by (auto simp: pinv_def snap_def userId_currency_def)
next
  case (3 s k w k' w')
  obtain u c u' c' where k: "k = (u, c)" "k' = (u', c')" by (cases k; cases k')
  have good: "good_rows (wrows s)" using 3(1) by (simp add: pinv_def)
  from 3(2,3) k obtain r r' where r: "r \<in> wrows s" "userId_currency u c r" "w = snap r"
    "r' \<in> wrows s" "userId_currency u' c' r'" "w' = snap r'"
    using wallet_at_Some[OF good] by auto
  then have "r = r'" using good_rowsD(3)[OF good r(1,4)] 3(4) by (simp add: snap_def)
  then show ?case using r k by (simp add: userId_currency_def)
next
  case (4 s u c q t)
  then have "prisma_findByUserAndCurrency X u c s = (Inr q, t)" by (simp add: prisma_tx_def)
  then show ?case using findBy_law[OF 4(1)] pview_cong by simp
next
  case (5 s u c w t)
  then show ?case using findOrCreate_law by (simp add: prisma_tx_def)
next
  case (6 s u c w m ver ok t)
  then have "compareAndSwap X (ws_id w) ver (ledgerUnits m) s = (Inr ok, t)"
    by (simp add: prisma_tx_def prisma_credit_def reads)
  then show ?case using swap_law[OF 6(1)] 6(2) by simp
next
  case (7 s u c w m ver ok t)
  then have "compareAndSwap X (ws_id w) ver (- ledgerUnits m) s = (Inr ok, t)"
    by (simp add: prisma_tx_def prisma_debit_def reads)
  then show ?case using swap_law[OF 7(1)] 7(2) by simp
next
  case (8 s n r t)
  then show ?case using create_law by (simp add: prisma_tx_def)
next
  case (9 s work res t)
  show ?case
  proof (cases res)
    case (Inl e)
    then show ?thesis using run_rollback 9 pinv_cong by blast
  next
    case (Inr r)
    then obtain s0 s1 where 0: "wrows s0 = wrows s" "work (prisma_tx X) s0 = (Inr r, s1)" "wrows t = wrows s1"
      using run_commit 9(3) by blast
    have "invariant pinv (work (prisma_tx X))" using 9(2) pclosed by (simp add: only_through_def)
    then have "pinv s1" using pinv_cong[OF 0(1) 9(1)] 0(2) by (rule invariantD)
    then show ?thesis using pinv_cong[OF 0(3)] by simp
  qed
next
  case (10 s work e t)
  then show ?case using run_rollback pview_cong by blast
next
  case (11 s work r t)
  then obtain s0 s1 where "wrows s0 = wrows s" "txlog s0 = txlog s" "work (prisma_tx X) s0 = (Inr r, s1)"
      "wrows t = wrows s1" "txlog t = txlog s1"
    using run_commit by blast
  then show ?case using pinv_cong[OF _ 11(1)] pview_cong by blast
qed

sublocale wallet_port "prisma_tx X" "prisma_run X" pview pinv
  by (rule contract)

end

section \<open>A concrete database\<close>

record prisma_world =
  pw_wallets :: "wallet_row list"
  pw_txs :: "tx_row list"
  pw_beneficiaries :: "beneficiary_row list"
  pw_clock :: int

definition demo_wallet_row :: "'a prisma_world_scheme \<Rightarrow> nat \<Rightarrow> new_wallet \<Rightarrow> wallet_row" where
  "demo_wallet_row s k n = \<lparr>wr_id = replicate (length (pw_wallets s) + k) CHR ''w'',
     wr_userId = Some (nw_userId n), wr_currency = nw_currency n, wr_balance = nw_balance n,
     wr_version = nw_version n\<rparr>"

definition demo_wallets :: "('a prisma_world_scheme, wallet_row, new_wallet) delegate" where
  "demo_wallets = list_delegate pw_wallets (\<lambda>rs s. s\<lparr>pw_wallets := rs\<rparr>) demo_wallet_row (\<lambda>s r. r)
     (\<lambda>r r'. wr_id r = wr_id r')"

definition columns_ok :: "'a prisma_world_scheme \<Rightarrow> bool" where
  "columns_ok s \<longleftrightarrow> list_all column_ok (pw_wallets s)"

definition demo_tx_row :: "'a prisma_world_scheme \<Rightarrow> new_tx_row \<Rightarrow> tx_row" where
  "demo_tx_row s n = \<lparr>xr_id = replicate (length (pw_txs s)) CHR ''t'', xr_walletId = nx_walletId n,
     xr_toWalletId = None, xr_type = transactionType_name (nx_type n), xr_amount = nx_amount n,
     xr_currency = nx_currency n, xr_status = transactionStatus_name (nx_status n),
     xr_description = Some (nx_description n), xr_category = None, xr_metadata = nx_metadata n,
     xr_reversesTransactionId = None, xr_createdAt = pw_clock s\<rparr>"

definition demo_prisma :: "'a prisma_world_scheme prisma_env" where
  "demo_prisma =
     \<lparr>p_wallets = demo_wallets\<lparr>updateMany := (\<lambda>P f.
        guarded (DriverError (Some ''22003'') None None) columns_ok (updateMany demo_wallets P f))\<rparr>,
      p_createTransaction = (\<lambda>n s. (Inr (demo_tx_row s n), s\<lparr>pw_txs := pw_txs s @ [demo_tx_row s n]\<rparr>)),
      p_findBeneficiary = (\<lambda>P. readM (\<lambda>s. List.find P (pw_beneficiaries s))),
      p_transaction = (\<lambda>m s. case m s of (Inr x, t) \<Rightarrow> (Inr x, t) | (Inl e, t) \<Rightarrow> (Inl e, s)),
      p_sleep = (\<lambda>_ s. s),
      Decimal = units_of_text,
      toFixed8 = (\<lambda>u. toLedgerString (mk_money u USD)),
      decimal_toString = (\<lambda>u. toLedgerString (mk_money u USD))\<rparr>"

definition demo_wrows :: "'a prisma_world_scheme \<Rightarrow> wallet_row set" where
  "demo_wrows s = set (pw_wallets s)"

interpretation demo_prisma: prisma_ports demo_prisma demo_wrows pw_txs
proof (rule prisma_ports.intro, goal_cases)
  case 1
  have "table demo_wallets (\<lambda>s. set (pw_wallets s)) pw_txs
      (\<lambda>s n r. (\<exists>i. r = demo_wallet_row s i n) \<and> (\<forall>x \<in> set (pw_wallets s). \<not> wr_id r = wr_id x)) (\<lambda>s r. r)"
    unfolding demo_wallets_def by (rule list_delegate_table) simp_all
  from table_guarded[OF this] have t: "table (p_wallets demo_prisma) demo_wrows pw_txs
      (\<lambda>s n r. (\<exists>i. r = demo_wallet_row s i n) \<and> (\<forall>x \<in> demo_wrows s. \<not> wr_id r = wr_id x)) (\<lambda>s r. r)"
    by (simp add: demo_prisma_def demo_wrows_def[abs_def])
  show ?case
  proof (rule table_weaken[OF t], elim conjE exE, intro conjI)
    fix s :: "'a prisma_world_scheme" and n r i assume "r = demo_wallet_row s i n"
      and new: "\<forall>x \<in> demo_wrows s. \<not> wr_id r = wr_id x"
    then show "wallet_made n r" by (simp add: wallet_made_def demo_wallet_row_def)
    show "wr_id r \<notin> wr_id ` demo_wrows s" using new by blast
  qed
next
  case (2 P f s k t)
  then have "columns_ok t"
    by (auto simp: demo_prisma_def guarded_def split: prod.splits sum.splits if_splits)
  then show ?case by (simp add: columns_ok_def demo_wrows_def list_all_iff)
next
  case (3 n)
  show ?case by (simp add: settles_def demo_prisma_def demo_tx_row_def tx_made_def demo_wrows_def)
next
  case (4 m s x t)
  then show ?case by (auto simp: demo_prisma_def split: prod.splits sum.splits)
next
  case (5 m s e t)
  then show ?case by (auto simp: demo_prisma_def split: prod.splits sum.splits)
next
  case (7 m)
  show ?case by (simp add: demo_prisma_def units_of_ledger_text)
next
  case (8 u c)
  then show ?case by (simp add: demo_prisma_def restore_ledger_any)
next
  case (9 u c)
  then show ?case by (simp add: demo_prisma_def restore_ledger_any)
qed (simp add: demo_prisma_def)

section \<open>Properties\<close>

lemma view_kept: "keeps wrows m \<Longrightarrow> keeps txlog m \<Longrightarrow> keeps (prisma_view X wrows txlog) m"
  by (simp add: keeps_def prisma_view_def)

lemma inv_kept: "keeps wrows m \<Longrightarrow> invariant (prisma_inv wrows) m"
  by (simp add: keeps_def invariant_def prisma_inv_def)

definition demo_database :: prisma_world where
  "demo_database = \<lparr>pw_wallets =
      [\<lparr>wr_id = ''w1'', wr_userId = Some ''ana'', wr_currency = USD, wr_balance = 500000000, wr_version = 7\<rparr>],
     pw_txs = [], pw_beneficiaries =
      [\<lparr>br_id = ''b1'', br_userId = ''ana'', br_alias = ''mama'', br_currency = USD,
        br_beneficiaryType = ''CBU'', br_accountNumber = ''1'', br_bankName = None, br_isActive = True\<rparr>],
     pw_clock = 0\<rparr>"

text \<open>C2. On the production adapter the journal explains every balance and nothing is overdrawn: for
  any sequence of validated deposits, withdrawals and transfers over a database that keeps its keys, starts with no
  negative balance and commits or rolls back transactions, each balance is the earlier one plus the signed sum of
  the new transaction rows of its wallet, and no balance is negative that was not.\<close>

theorem prisma_session_sound:
  assumes "prisma_ports X wrows txlog" and "prisma_inv wrows s"
    and "\<forall>e. keeps wrows (d e) \<and> keeps txlog (d e)"
    and "\<forall>P. keeps wrows (p_findBeneficiary X P) \<and> keeps txlog (p_findBeneficiary X P)"
    and "list_all validated xs" and "solvent (prisma_view X wrows txlog s)"
  shows "let s' = wallet_session (prisma_run X) (prisma_findActive X) d xs s
         in (\<exists>rows. explained (prisma_view X wrows txlog s) (prisma_view X wrows txlog s') rows)
            \<and> solvent (prisma_view X wrows txlog s')"
proof -
  note port = prisma_ports.contract[OF assms(1)]
  have d: "keeps wrows (d e)" "keeps txlog (d e)" for e
    using assms(3) by blast+
  have b: "keeps wrows (prisma_findActive X u i)" "keeps txlog (prisma_findActive X u i)" for u i
    using assms(4) unfolding prisma_findActive_def by (auto intro!: keeps_intros keeps_option)
  have frame: "wallet_port.frame_ok (prisma_view X wrows txlog) (prisma_inv wrows) (prisma_findActive X) d"
    unfolding wallet_port.frame_ok_def[OF port]
    by (intro conjI allI view_kept inv_kept d b)
  have "\<exists>rows. explained (prisma_view X wrows txlog s) (prisma_view X wrows txlog
      (wallet_session (prisma_run X) (prisma_findActive X) d xs s)) rows"
    using wallet_port.session_explained[OF port frame assms(2), of xs] by (elim exE conjE) (rule exI)
  then show ?thesis
    unfolding Let_def using wallet_port.session_solvent[OF port frame assms(2,6,5)] by (rule conjI)
qed

text \<open>The commands of the witness: a transfer, a withdrawal that is too large, a first deposit.\<close>

definition demo_requests :: "wallet_command list" where
  "demo_requests =
     [Send \<lparr>si_userId = ''ana'', si_beneficiaryId = ''b1'', si_amount = ''1.25''\<rparr>,
      Withdraw \<lparr>wi_userId = ''ana'', wi_currency = USD, wi_amount = ''4'', wi_description = None\<rparr>,
      Deposit \<lparr>di_userId = ''ana'', di_currency = USDT, di_amount = ''0.000001'', di_description = None\<rparr>]"

lemma demo_database_inv: "prisma_inv demo_wrows demo_database"
  by (simp add: prisma_inv_def good_rows_def demo_wrows_def demo_database_def column_ok_def money_simps)

lemma demo_solvent: "solvent (prisma_view demo_prisma demo_wrows pw_txs demo_database)"
  unfolding solvent_def
proof
  fix k :: "string \<times> currency"
  obtain u c where k: "k = (u, c)" by (cases k)
  show "0 \<le> balance_at (prisma_view demo_prisma demo_wrows pw_txs demo_database) k"
  proof (cases "wallet_at (demo_wrows demo_database) (u, c)")
    case (Some w)
    have good: "good_rows (demo_wrows demo_database)" using demo_database_inv by (simp add: prisma_inv_def)
    obtain r where "r \<in> demo_wrows demo_database" and w: "w = snap r"
      using iffD1[OF demo_prisma.wallet_at_Some[OF good] Some] by blast
    then have "wr_balance r = 500000000" by (simp add: demo_wrows_def demo_database_def)
    then have "0 \<le> ledgerUnits (ws_balance w)" by (simp add: w snap_def)
    then show ?thesis using Some by (simp add: k balance_at_def prisma_view_def)
  qed (simp add: k balance_at_def prisma_view_def)
qed

theorem prisma_session_sound_witness:
  "solvent (prisma_view demo_prisma demo_wrows pw_txs
      (wallet_session (prisma_run demo_prisma) (prisma_findActive demo_prisma) (\<lambda>e. ret ()) demo_requests demo_database))
   \<and> map wr_balance (pw_wallets
      (wallet_session (prisma_run demo_prisma) (prisma_findActive demo_prisma) (\<lambda>e. ret ()) demo_requests demo_database))
     = [375000000, 100]"
proof
  have "let s' = wallet_session (prisma_run demo_prisma) (prisma_findActive demo_prisma) (\<lambda>e. ret ()) demo_requests demo_database
        in (\<exists>rows. explained (prisma_view demo_prisma demo_wrows pw_txs demo_database)
                      (prisma_view demo_prisma demo_wrows pw_txs s') rows)
           \<and> solvent (prisma_view demo_prisma demo_wrows pw_txs s')"
  proof (rule prisma_session_sound[OF demo_prisma.prisma_ports_axioms demo_database_inv _ _ _ demo_solvent])
    show "list_all validated demo_requests" by code_simp
  qed (auto simp: demo_prisma_def intro: keeps_prim)
  then show "solvent (prisma_view demo_prisma demo_wrows pw_txs
      (wallet_session (prisma_run demo_prisma) (prisma_findActive demo_prisma) (\<lambda>e. ret ()) demo_requests demo_database))"
    by (simp add: Let_def)
  show "map wr_balance (pw_wallets
      (wallet_session (prisma_run demo_prisma) (prisma_findActive demo_prisma) (\<lambda>e. ret ()) demo_requests demo_database))
     = [375000000, 100]" by code_simp
qed

end
