(* ===== verification/Sessions.thy ===== *)
theory Sessions
  imports Table
begin

text \<open>
  Sessions and their tokens: \<open>SessionService\<close> (\<open>src/src/modules/session/session.service.ts\<close>),
  \<open>SessionTokenService\<close> (\<open>src/src/modules/auth/session-token.service.ts\<close>), \<open>refresh\<close> and \<open>logout\<close> of
  \<open>AuthService\<close> (\<open>src/src/modules/auth/auth.service.ts\<close>) and the passport strategies that guard the
  routes. The session table, argon2, the JWT library, the response's cookies and the clock are the
  fields of \<open>auth_env\<close>; what the code relies on them for is the locale \<open>auth_ports\<close>.
\<close>

section \<open>Data\<close>

record session_row =
  sn_id :: string
  sn_userId :: string
  sn_refreshToken :: string
  sn_refreshTokenVersion :: int
  sn_userAgent :: "string option"
  sn_ipAddress :: "string option"
  sn_location :: "string option"
  sn_isActive :: bool
  sn_expiresAt :: "int option"
  sn_createdAt :: int
  sn_lastUsedAt :: int

text \<open>\<open>CreateSessionInterface\<close> and \<open>UpdateSessionInterface\<close>; \<open>None\<close> is \<open>undefined\<close>.\<close>

record new_session =
  ns_id :: "string option"
  ns_userId :: string
  ns_refreshToken :: string
  ns_userAgent :: "string option"
  ns_ipAddress :: "string option"
  ns_location :: "string option"
  ns_isActive :: "bool option"
  ns_expiresAt :: int

record session_changes =
  ch_refreshToken :: "string option"
  ch_refreshTokenVersion :: "int option"
  ch_userAgent :: "string option"
  ch_ipAddress :: "string option"
  ch_location :: "string option"
  ch_isActive :: "bool option"
  ch_expiresAt :: "int option"

definition no_changes :: session_changes where
  "no_changes = \<lparr>ch_refreshToken = None, ch_refreshTokenVersion = None, ch_userAgent = None,
     ch_ipAddress = None, ch_location = None, ch_isActive = None, ch_expiresAt = None\<rparr>"

definition apply_changes :: "session_changes \<Rightarrow> session_row \<Rightarrow> session_row" where
  "apply_changes u r = r\<lparr>
     sn_refreshToken := or_else (ch_refreshToken u) (sn_refreshToken r),
     sn_refreshTokenVersion := or_else (ch_refreshTokenVersion u) (sn_refreshTokenVersion r),
     sn_userAgent := given (ch_userAgent u) (sn_userAgent r),
     sn_ipAddress := given (ch_ipAddress u) (sn_ipAddress r),
     sn_location := given (ch_location u) (sn_location r),
     sn_isActive := or_else (ch_isActive u) (sn_isActive r),
     sn_expiresAt := given (ch_expiresAt u) (sn_expiresAt r)\<rparr>"

text \<open>The claims of the tokens the code signs and the two secrets it signs with.\<close>

datatype claims =
    SessionClaims (sub: string) string int
  | PendingClaims (sub: string)
  | TrustedClaims (sub: string)

datatype secret = JWT_ACCESS_SECRET | JWT_REFRESH_SECRET

record cookie =
  ck_value :: string
  ck_httpOnly :: bool
  ck_secure :: bool
  ck_sameSite :: string
  ck_maxAge :: int

record 's auth_env =
  sessions :: "('s, session_row, new_session) delegate"
  argon2_hash :: "string \<Rightarrow> ('s, string) io"
  argon2_verify :: "string \<Rightarrow> string \<Rightarrow> ('s, bool) io"
  jwt_sign :: "secret \<Rightarrow> claims \<Rightarrow> ('s, string) io"
  jwt_verify :: "secret \<Rightarrow> string \<Rightarrow> ('s, claims) io"
  set_cookie :: "string \<Rightarrow> cookie \<Rightarrow> 's \<Rightarrow> 's"
  clear_cookie :: "string \<Rightarrow> 's \<Rightarrow> 's"
  emit_session_created :: "string \<Rightarrow> string option \<Rightarrow> ('s, unit) io"
  Date_now :: "'s \<Rightarrow> int"
  isProd :: bool
  REFRESH_GRACE_PERIOD_MS :: int

section \<open>SessionService\<close>

definition this_session :: "string \<Rightarrow> string \<Rightarrow> session_row \<Rightarrow> bool" where
  "this_session i userId r \<longleftrightarrow> sn_id r = i \<and> sn_userId r = userId"

definition session_create :: "'s auth_env \<Rightarrow> new_session \<Rightarrow> ('s, session_row) io" where
  "session_create E inp =
     seqM (create (sessions E) inp) (\<lambda>session.
     seqM (catchM (emit_session_created E (sn_id session) (ns_ipAddress inp)) (\<lambda>err. ret ())) (\<lambda>_.
     ret session))"

definition session_getAll ::
  "'s auth_env \<Rightarrow> string \<Rightarrow> ('s, (string \<times> string \<times> string option \<times> int \<times> int) list) io" where
  "session_getAll E userId =
     seqM (findMany (sessions E) (\<lambda>r. sn_userId r = userId) anyOrder) (\<lambda>rs.
     ret (map (\<lambda>r. (sn_id r, sn_userId r, sn_userAgent r, sn_createdAt r, sn_lastUsedAt r)) rs))"

definition session_findOne :: "'s auth_env \<Rightarrow> string \<Rightarrow> string \<Rightarrow> ('s, session_row) io" where
  "session_findOne E i userId =
     seqM (findFirst (sessions E) (this_session i userId)) (\<lambda>session. assertFound session ''Session'')"

definition session_update ::
  "'s auth_env \<Rightarrow> string \<Rightarrow> string \<Rightarrow> session_changes \<Rightarrow> ('s, session_row) io" where
  "session_update E i userId u =
     seqM (session_findOne E i userId) (\<lambda>_.
     update (sessions E) (this_session i userId) (apply_changes u))"

definition session_delete :: "'s auth_env \<Rightarrow> string \<Rightarrow> string \<Rightarrow> ('s, session_row) io" where
  "session_delete E i userId =
     seqM (session_findOne E i userId) (\<lambda>_. delete (sessions E) (this_session i userId))"

definition session_deleteAll :: "'s auth_env \<Rightarrow> string \<Rightarrow> ('s, nat) io" where
  "session_deleteAll E userId = deleteMany (sessions E) (\<lambda>r. sn_userId r = userId)"

section \<open>SessionTokenService\<close>

definition generateTokens :: "'s auth_env \<Rightarrow> string \<Rightarrow> string \<Rightarrow> int \<Rightarrow> ('s, string \<times> string) io" where
  "generateTokens E userId sessionId version =
     (let payload = SessionClaims userId sessionId version in
      seqM (jwt_sign E JWT_ACCESS_SECRET payload) (\<lambda>accessToken.
      seqM (jwt_sign E JWT_REFRESH_SECRET payload) (\<lambda>refreshToken.
      ret (accessToken, refreshToken))))"

definition lax_cookie :: "'s auth_env \<Rightarrow> string \<Rightarrow> int \<Rightarrow> cookie" where
  "lax_cookie E v age = \<lparr>ck_value = v, ck_httpOnly = True, ck_secure = isProd E,
     ck_sameSite = ''lax'', ck_maxAge = age\<rparr>"

definition setTokenCookies :: "'s auth_env \<Rightarrow> string \<Rightarrow> string \<Rightarrow> ('s, unit) io" where
  "setTokenCookies E accessToken refreshToken =
     seqM (modifyM (set_cookie E ''access_token'' (lax_cookie E accessToken (15 * 60 * 1000)))) (\<lambda>_.
     modifyM (set_cookie E ''refresh_token'' (lax_cookie E refreshToken (7 * 24 * 60 * 60 * 1000))))"

definition clearTokenCookies :: "'s auth_env \<Rightarrow> ('s, unit) io" where
  "clearTokenCookies E = seqM (modifyM (clear_cookie E ''access_token'')) (\<lambda>_. modifyM (clear_cookie E ''refresh_token''))"

definition createSessionWithTokens ::
  "'s auth_env \<Rightarrow> string \<Rightarrow> string option \<Rightarrow> string option \<Rightarrow> ('s, session_row) io" where
  "createSessionWithTokens E userId userAgent ip =
     catchM
       (seqM (readM (Date_now E)) (\<lambda>now.
        seqM (session_create E \<lparr>ns_id = None, ns_userId = userId, ns_refreshToken = ''pending'',
                ns_userAgent = userAgent, ns_ipAddress = ip, ns_location = None, ns_isActive = None,
                ns_expiresAt = now + 7 * 24 * 60 * 60 * 1000\<rparr>) (\<lambda>session.
        seqM (generateTokens E userId (sn_id session) 0) (\<lambda>(accessToken, refreshToken).
        seqM (argon2_hash E refreshToken) (\<lambda>hashedRefresh.
        seqM (session_update E (sn_id session) userId
                (no_changes\<lparr>ch_refreshToken := Some hashedRefresh\<rparr>)) (\<lambda>_.
        seqM (setTokenCookies E accessToken refreshToken) (\<lambda>_.
        ret session)))))))
       (\<lambda>error. throw (BadRequestException ''There was an error creating the session.''))"

section \<open>Refreshing and logging out\<close>

definition auth_refresh ::
  "'s auth_env \<Rightarrow> string \<Rightarrow> string \<Rightarrow> int \<Rightarrow> string \<Rightarrow> ('s, string) io" where
  "auth_refresh E userId sessionId version refreshToken =
     catchM
       (seqM (orNull (session_findOne E sessionId userId)) (\<lambda>found.
        case found of
          None \<Rightarrow> throw (UnauthorizedException ''Session invalid or inactive'')
        | Some session \<Rightarrow>
          if \<not> sn_isActive session then throw (UnauthorizedException ''Session invalid or inactive'')
          else
            seqM (argon2_verify E (sn_refreshToken session) refreshToken) (\<lambda>isHashValid.
            if \<not> isHashValid then
              seqM (orNull (session_delete E sessionId userId)) (\<lambda>_.
              seqM (clearTokenCookies E) (\<lambda>_.
              throw (UnauthorizedException ''Invalid refresh token credentials. Session revoked.'')))
            else if sn_refreshTokenVersion session \<noteq> version then
              seqM (readM (Date_now E)) (\<lambda>now.
              let withinGrace = now - sn_lastUsedAt session \<le> REFRESH_GRACE_PERIOD_MS E in
              if withinGrace then
                throw (UnauthorizedException ''Concurrent request in progress. Retry syncing.'')
              else
                seqM (orNull (session_delete E sessionId userId)) (\<lambda>_.
                seqM (clearTokenCookies E) (\<lambda>_.
                throw (UnauthorizedException ''Security breach suspected. Session revoked.''))))
            else
              let nextVersion = version + 1 in
              seqM (generateTokens E userId sessionId nextVersion) (\<lambda>(accessToken, newRefresh).
              seqM (argon2_hash E newRefresh) (\<lambda>hashedRefresh.
              seqM (session_update E sessionId userId
                      (no_changes\<lparr>ch_refreshToken := Some hashedRefresh,
                                  ch_refreshTokenVersion := Some nextVersion\<rparr>)) (\<lambda>_.
              seqM (setTokenCookies E accessToken newRefresh) (\<lambda>_.
              ret ''Tokens refreshed'')))))))
       (\<lambda>error. case error of
          UnauthorizedException m \<Rightarrow> throw (UnauthorizedException m)
        | _ \<Rightarrow> throw (BadRequestException ''There was an error refreshing tokens.''))"

definition auth_logout :: "'s auth_env \<Rightarrow> string \<Rightarrow> string \<Rightarrow> ('s, string) io" where
  "auth_logout E userId sessionId =
     catchM
       (seqM (session_delete E sessionId userId) (\<lambda>_.
        seqM (clearTokenCookies E) (\<lambda>_.
        ret ''Logged out successfully'')))
       (\<lambda>error. throw (BadRequestException ''There was an error logging out.''))"

text \<open>The access check of every protected route, \<open>JwtStrategy.validate\<close>: the session must exist
  and be active.\<close>

definition jwt_validate :: "'s auth_env \<Rightarrow> string \<Rightarrow> string \<Rightarrow> ('s, string \<times> string) io" where
  "jwt_validate E userId sessionId =
     seqM (session_findOne E sessionId userId) (\<lambda>session.
     if \<not> sn_isActive session then throw (UnauthorizedException ''Session expired or revoked'')
     else ret (userId, sessionId))"

text \<open>\<open>RefreshStrategy.validate\<close>, over the claims passport has verified and the cookie.\<close>

definition refresh_validate ::
  "string option \<Rightarrow> string \<Rightarrow> string \<Rightarrow> int option \<Rightarrow> exn + string \<times> string \<times> int \<times> string" where
  "refresh_validate cookieToken userId sessionId version =
     (case cookieToken of
        None \<Rightarrow> Inl (UnauthorizedException ''Refresh token not found'')
      | Some t \<Rightarrow> if t = '''' then Inl (UnauthorizedException ''Refresh token not found'')
                  else Inr (userId, sessionId, or_else version 0, t))"

section \<open>What the code relies on\<close>

text \<open>A new row: the data given, and the schema's defaults for what is not.\<close>

definition session_made :: "'s \<Rightarrow> new_session \<Rightarrow> session_row \<Rightarrow> bool" where
  "session_made s n r \<longleftrightarrow> (case ns_id n of None \<Rightarrow> True | Some i \<Rightarrow> sn_id r = i)
     \<and> sn_userId r = ns_userId n \<and> sn_refreshToken r = ns_refreshToken n
     \<and> sn_refreshTokenVersion r = 0 \<and> sn_userAgent r = ns_userAgent n
     \<and> sn_ipAddress r = ns_ipAddress n \<and> sn_location r = ns_location n
     \<and> sn_isActive r = or_else (ns_isActive n) True \<and> sn_expiresAt r = Some (ns_expiresAt n)"

text \<open>\<open>lastUsedAt\<close> is an \<open>@updatedAt\<close> column.\<close>

definition session_stamp :: "'s auth_env \<Rightarrow> 's \<Rightarrow> session_row \<Rightarrow> session_row" where
  "session_stamp E s r = r\<lparr>sn_lastUsedAt := Date_now E s\<rparr>"

text \<open>
  The laws of the surroundings: the session table is a table whose new rows get an identifier of
  their own; nothing else changes its rows;
  \<open>verify\<close> decides whether a text is the one a digest was made of, \<open>hash\<close> makes such a digest and a
  digest is of one text only; a token determines the claims it was signed for.
\<close>

text \<open>The surroundings answer: reads, digest checks and the deletion of an existing row succeed.\<close>

definition answers :: "'s auth_env \<Rightarrow> ('s \<Rightarrow> session_row set) \<Rightarrow> bool" where
  "answers E rows \<longleftrightarrow> (\<forall>P s. \<not> isl (fst (findFirst (sessions E) P s)))
     \<and> (\<forall>P s. (\<exists>r \<in> rows s. P r) \<longrightarrow> \<not> isl (fst (delete (sessions E) P s)))
     \<and> (\<forall>h p s. \<not> isl (fst (argon2_verify E h p s)))"

locale auth_ports =
  fixes E :: "'s auth_env"
    and rows :: "'s \<Rightarrow> session_row set"
    and of_text :: "string \<Rightarrow> string \<Rightarrow> bool"
  assumes tab: "table (sessions E) rows (\<lambda>_. ())
                  (\<lambda>s n r. session_made s n r \<and> sn_id r \<notin> sn_id ` rows s) (session_stamp E)"
    and hash_rows: "keeps rows (argon2_hash E p)"
    and verify_rows: "keeps rows (argon2_verify E h p)"
    and sign_rows: "keeps rows (jwt_sign E k c)"
    and jwt_verify_rows: "keeps rows (jwt_verify E k tok)"
    and emit_rows: "keeps rows (emit_session_created E i ip)"
    and set_cookie_rows: "rows (set_cookie E name ck s) = rows s"
    and clear_cookie_rows: "rows (clear_cookie E name s) = rows s"
    and hash_of: "argon2_hash E p s = (Inr h, t) \<Longrightarrow> of_text h p"
    and verify_of: "argon2_verify E h p s = (Inr b, t) \<Longrightarrow> b = of_text h p"
    and one_text: "of_text h p \<Longrightarrow> of_text h q \<Longrightarrow> p = q"
    and token_claims: "jwt_sign E k c s = (Inr tok, t) \<Longrightarrow> jwt_sign E k c' s' = (Inr tok, t') \<Longrightarrow> c = c'"
begin

lemmas tab_returns = table.returns[OF tab]
lemmas tab_throws = table.throws[OF tab]

lemma findFirst_keeps: "keeps rows (findFirst (sessions E) P)"
proof (rule keepsI)
  fix s r t assume "findFirst (sessions E) P s = (r, t)"
  then show "rows t = rows s"
    using tab_returns(1)[of P s] tab_throws(1)[of P s] by (cases r) auto
qed

lemma findOne_keeps [keeps_intros]: "keeps rows (session_findOne E i u)"
  unfolding session_findOne_def by (intro keeps_intros findFirst_keeps)

lemma findOne_returns:
  assumes "session_findOne E i u s = (Inr r, t)"
  shows "r \<in> rows s \<and> this_session i u r \<and> rows t = rows s"
proof -
  from assms have "findFirst (sessions E) (this_session i u) s = (Inr (Some r), t)"
    by (auto simp: session_findOne_def io_inv)
  from tab_returns(1)[OF this] show ?thesis by simp
qed

lemma update_returns:
  assumes "session_update E i u ch s = (Inr r, t)"
  shows "\<exists>x \<in> rows s. \<exists>n. this_session i u x \<and> r = (apply_changes ch x)\<lparr>sn_lastUsedAt := n\<rparr>
           \<and> rows t = insert r (rows s - {x})"
proof -
  from assms obtain y s1 where f: "session_findOne E i u s = (Inr y, s1)"
    and up: "update (sessions E) (this_session i u) (apply_changes ch) s1 = (Inr r, t)"
    by (auto simp: session_update_def io_inv)
  then show ?thesis
    using tab_returns(8)[OF up] findOne_returns[OF f] by (auto simp: session_stamp_def)
qed

lemma update_throws:
  assumes "session_update E i u ch s = (Inl e, t)"
  shows "rows t = rows s"
  using assms keepsD[OF findOne_keeps] tab_throws(8)
  by (auto simp: session_update_def io_inv)

lemma delete_returns:
  assumes "session_delete E i u s = (Inr r, t)"
  shows "r \<in> rows s \<and> this_session i u r \<and> rows t = rows s - {r}"
proof -
  from assms obtain y s1 where f: "session_findOne E i u s = (Inr y, s1)"
    and up: "delete (sessions E) (this_session i u) s1 = (Inr r, t)"
    by (auto simp: session_delete_def io_inv)
  then show ?thesis using tab_returns(10)[OF up] findOne_returns[OF f] by simp
qed

lemma delete_throws:
  assumes "session_delete E i u s = (Inl e, t)"
  shows "rows t = rows s"
  using assms keepsD[OF findOne_keeps] tab_throws(10)
  by (auto simp: session_delete_def io_inv)

lemma frames [keeps_intros]:
  "keeps rows (argon2_hash E p)" "keeps rows (argon2_verify E h p)" "keeps rows (jwt_sign E k c)"
  "keeps rows (jwt_verify E k tok)" "keeps rows (modifyM (set_cookie E name ck))"
  "keeps rows (modifyM (clear_cookie E name))"
  using hash_rows verify_rows sign_rows jwt_verify_rows
  by (auto intro: keeps_modifyM simp: set_cookie_rows clear_cookie_rows)

lemma cookies_keep [keeps_intros]:
  "keeps rows (setTokenCookies E a r)" "keeps rows (clearTokenCookies E)"
  unfolding setTokenCookies_def clearTokenCookies_def by (intro keeps_intros)+

lemma generateTokens_keeps [keeps_intros]: "keeps rows (generateTokens E u i v)"
  unfolding generateTokens_def Let_def by (intro keeps_intros)

lemma generateTokens_returns:
  assumes "generateTokens E u i v s = (Inr (a, r), t)"
  shows "rows t = rows s \<and> (\<exists>s1 s2. jwt_sign E JWT_REFRESH_SECRET (SessionClaims u i v) s1 = (Inr r, s2))"
  using keepsD[OF generateTokens_keeps assms] assms
  by (auto simp: generateTokens_def Let_def io_inv)

lemma refresh_returns:
  assumes "auth_refresh E u i ver tok s = (Inr msg, t)" and "inj_on sn_id (rows s)"
  shows "\<exists>ss ss' new. ss \<in> rows s \<and> this_session i u ss \<and> sn_isActive ss
     \<and> of_text (sn_refreshToken ss) tok \<and> sn_refreshTokenVersion ss = ver
     \<and> of_text (sn_refreshToken ss') new
     \<and> (\<exists>s1 s2. jwt_sign E JWT_REFRESH_SECRET (SessionClaims u i (ver + 1)) s1 = (Inr new, s2))
     \<and> ss' = ss\<lparr>sn_refreshToken := sn_refreshToken ss', sn_refreshTokenVersion := ver + 1,
                sn_lastUsedAt := sn_lastUsedAt ss'\<rparr>
     \<and> rows t = insert ss' (rows s - {ss})"
proof -
  from assms(1) obtain ss s1 s2 a new s3 h s4 r s5 where
      f: "session_findOne E i u s = (Inr ss, s1)" and act: "sn_isActive ss"
    and v: "argon2_verify E (sn_refreshToken ss) tok s1 = (Inr True, s2)"
    and ver: "sn_refreshTokenVersion ss = ver"
    and g: "generateTokens E u i (ver + 1) s2 = (Inr (a, new), s3)"
    and h: "argon2_hash E new s3 = (Inr h, s4)"
    and up: "session_update E i u (no_changes\<lparr>ch_refreshToken := Some h,
               ch_refreshTokenVersion := Some (ver + 1)\<rparr>) s4 = (Inr r, s5)"
    and c: "setTokenCookies E a new s5 = (Inr (), t)"
    by (auto simp: auth_refresh_def io_inv Let_def split: option.splits if_splits exn.splits)
  note ss = findOne_returns[OF f]
  have s4: "rows s4 = rows s"
    using ss keepsD[OF frames(2) v] generateTokens_returns[OF g] keepsD[OF frames(1) h] by simp
  from update_returns[OF up] obtain x n where x: "x \<in> rows s" "this_session i u x"
    and r: "r = (apply_changes (no_changes\<lparr>ch_refreshToken := Some h,
               ch_refreshTokenVersion := Some (ver + 1)\<rparr>) x)\<lparr>sn_lastUsedAt := n\<rparr>"
    and rows: "rows s5 = insert r (rows s - {x})"
    unfolding s4 by blast
  have "x = ss" using inj_onD[OF assms(2)] x ss by (simp add: this_session_def)
  moreover have "rows t = rows s5" by (rule keepsD[OF cookies_keep(1) c])
  moreover have "of_text (sn_refreshToken ss) tok" using verify_of[OF v] by simp
  ultimately show ?thesis
    using ss act ver rows r hash_of[OF h] generateTokens_returns[OF g]
    by (intro exI[of _ ss] exI[of _ r] exI[of _ new])
       (auto simp: apply_changes_def no_changes_def)
qed

text \<open>A session that is not there passes no check.\<close>

lemma ended_session:
  assumes "i \<notin> sn_id ` rows s"
  shows "jwt_validate E u i s \<noteq> (Inr x, t)" and "auth_refresh E u i ver tok s \<noteq> (Inr m, t)"
proof -
  have none: "session_findOne E i u s \<noteq> (Inr r, s1)" for r s1
    using findOne_returns[of i u s r s1] assms by (auto simp: this_session_def)
  then show "jwt_validate E u i s \<noteq> (Inr x, t)" by (auto simp: jwt_validate_def seqM_Inr)
  show "auth_refresh E u i ver tok s \<noteq> (Inr m, t)"
    using none by (auto simp: auth_refresh_def io_inv split: option.splits if_splits exn.splits)
qed

lemma total:
  assumes "answers E rows"
  shows "\<exists>q t. findFirst (sessions E) P s = (Inr q, t)"
    and "\<exists>x \<in> rows s. P x \<Longrightarrow> \<exists>r t. delete (sessions E) P s = (Inr r, t)"
    and "\<exists>b t. argon2_verify E h p s = (Inr b, t)"
  using assms io_returns[of "findFirst (sessions E) P" s] io_returns[of "delete (sessions E) P" s]
    io_returns[of "argon2_verify E h p" s]
  by (simp_all add: answers_def)

lemma findOne_total:
  assumes "answers E rows" and "inj_on sn_id (rows s)" and "ss \<in> rows s" and "this_session i u ss"
  shows "\<exists>t. session_findOne E i u s = (Inr ss, t) \<and> rows t = rows s"
proof -
  obtain q t where q: "findFirst (sessions E) (this_session i u) s = (Inr q, t)"
    using total(1)[OF assms(1)] by blast
  from tab_returns(1)[OF q] assms(3,4) obtain x where "q = Some x" "x \<in> rows s" "this_session i u x"
    and t: "rows t = rows s" by (auto split: option.splits)
  moreover from this have "x = ss" using inj_onD[OF assms(2)] assms(3,4) by (simp add: this_session_def)
  ultimately show ?thesis using q t by (simp add: session_findOne_def seqM_def ret_def)
qed

lemma delete_total:
  assumes "answers E rows" and "inj_on sn_id (rows s)" and "ss \<in> rows s" and "this_session i u ss"
  shows "\<exists>t. session_delete E i u s = (Inr ss, t) \<and> rows t = rows s - {ss}"
proof -
  obtain s1 where f: "session_findOne E i u s = (Inr ss, s1)" "rows s1 = rows s"
    using findOne_total[OF assms] by blast
  have "\<exists>x \<in> rows s1. this_session i u x" using assms(3,4) f(2) by blast
  then obtain r t where d: "delete (sessions E) (this_session i u) s1 = (Inr r, t)"
    using total(2)[OF assms(1)] by blast
  from tab_returns(10)[OF d] f(2) have "r \<in> rows s" "this_session i u r" "rows t = rows s - {r}" by auto
  moreover from this have "r = ss" using inj_onD[OF assms(2)] assms(3,4) by (simp add: this_session_def)
  ultimately show ?thesis using f(1) d by (simp add: session_delete_def seqM_def)
qed

lemma refresh_superseded:
  assumes "answers E rows" and "inj_on sn_id (rows s)" and "ss \<in> rows s" and "this_session i u ss"
    and "sn_isActive ss" and "\<not> of_text (sn_refreshToken ss) tok"
  shows "\<exists>t. auth_refresh E u i ver tok s
           = (Inl (UnauthorizedException ''Invalid refresh token credentials. Session revoked.''), t)
         \<and> rows t = rows s - {ss}"
proof -
  obtain s1 where f: "session_findOne E i u s = (Inr ss, s1)" and s1: "rows s1 = rows s"
    using findOne_total[OF assms(1-4)] by blast
  obtain b s2 where v: "argon2_verify E (sn_refreshToken ss) tok s1 = (Inr b, s2)"
    using total(3)[OF assms(1)] by blast
  have b: "b = False" using verify_of[OF v] assms(6) by simp
  have s2: "rows s2 = rows s" using keepsD[OF frames(2) v] s1 by simp
  then obtain s3 where d: "session_delete E i u s2 = (Inr ss, s3)" and s3: "rows s3 = rows s - {ss}"
    using delete_total[OF assms(1), of s2 ss i u] assms(2-4) by auto
  obtain s4 where c: "clearTokenCookies E s3 = (Inr (), s4)"
    by (auto simp: clearTokenCookies_def seqM_def modifyM_def)
  have n: "orNull (session_findOne E i u) s = (Inr (Some ss), s1)"
    "orNull (session_delete E i u) s2 = (Inr (Some ss), s3)"
    using f d by (simp_all add: orNull_iff)
  have "auth_refresh E u i ver tok s
      = (Inl (UnauthorizedException ''Invalid refresh token credentials. Session revoked.''), s4)"
    using n v c assms(5) b
    by (simp add: auth_refresh_def catchM_def seqM_def throw_def Let_def)
  then show ?thesis using keepsD[OF cookies_keep(2) c] s3 by simp
qed

text \<open>A refresh token that was used is dead, and using it again ends the session.\<close>

lemma refresh_reuse:
  assumes "answers E rows" and "inj_on sn_id (rows s)"
    and "jwt_sign E JWT_REFRESH_SECRET (SessionClaims u i ver) s0 = (Inr tok, s0')"
    and "auth_refresh E u i ver tok s = (Inr msg, t)" and "rows t' = rows t"
  shows "\<exists>t''. auth_refresh E u i ver' tok t'
           = (Inl (UnauthorizedException ''Invalid refresh token credentials. Session revoked.''), t'')
         \<and> (\<forall>r \<in> rows t''. \<not> this_session i u r)"
proof -
  from refresh_returns[OF assms(4,2)] obtain ss ss' new s1 s2 where
      ss: "ss \<in> rows s" "this_session i u ss" "sn_isActive ss"
    and new: "of_text (sn_refreshToken ss') new"
      "jwt_sign E JWT_REFRESH_SECRET (SessionClaims u i (ver + 1)) s1 = (Inr new, s2)"
    and eq: "ss' = ss\<lparr>sn_refreshToken := sn_refreshToken ss', sn_refreshTokenVersion := ver + 1,
                sn_lastUsedAt := sn_lastUsedAt ss'\<rparr>"
    and rows: "rows t = insert ss' (rows s - {ss})" by blast
  have same: "sn_id ss' = sn_id ss" "sn_userId ss' = sn_userId ss" "sn_isActive ss' = sn_isActive ss"
    by (subst eq, simp)+
  have "tok \<noteq> new" using token_claims[OF assms(3)] new(2) by fastforce
  then have stale: "\<not> of_text (sn_refreshToken ss') tok" using one_text new(1) by blast
  have inj: "inj_on sn_id (rows t')"
    unfolding assms(5) rows using assms(2) ss(1) same(1) by (auto simp: inj_on_def)
  have own: "this_session i u ss'" using ss(2) same by (simp add: this_session_def)
  have mem: "ss' \<in> rows t'" using rows assms(5) by simp
  from refresh_superseded[OF assms(1) inj mem own _ stale] ss(3) same(3)
  obtain t'' where "auth_refresh E u i ver' tok t'
      = (Inl (UnauthorizedException ''Invalid refresh token credentials. Session revoked.''), t'')"
    and "rows t'' = rows t' - {ss'}" by auto
  moreover have "\<not> this_session i u r" if "r \<in> rows t' - {ss'}" for r
    using inj_onD[OF inj, of r ss'] that mem own by (auto simp: this_session_def)
  ultimately show ?thesis by blast
qed

text \<open>What fails changes at most the one session it is about, and no call of a user's touches
  another user's sessions.\<close>

definition others :: "string \<Rightarrow> 's \<Rightarrow> session_row set" where
  "others u s = {r \<in> rows s. sn_userId r \<noteq> u}"

lemma keeps_others: "keeps rows m \<Longrightarrow> keeps (others u) m"
  by (auto simp: keeps_def others_def)

lemma keeps_others_IO:
  assumes "\<And>s e t. m s = (Inl e, t) \<Longrightarrow> rows t = rows s"
    and "\<And>s x t. m s = (Inr x, t) \<Longrightarrow> others u t = others u s"
  shows "keeps (others u) m"
proof (rule keepsI)
  fix s r t assume "m s = (r, t)"
  then show "others u t = others u s" using assms by (cases r) (auto simp: others_def)
qed

lemma update_others: "keeps (others u) (session_update E i u ch)"
proof (rule keeps_others_IO)
  fix s r t assume "session_update E i u ch s = (Inr r, t)"
  from update_returns[OF this] show "others u t = others u s"
    by (auto simp: others_def this_session_def apply_changes_def)
qed (rule update_throws)

lemma delete_others: "keeps (others u) (session_delete E i u)"
proof (rule keeps_others_IO)
  fix s r t assume "session_delete E i u s = (Inr r, t)"
  from delete_returns[OF this] show "others u t = others u s"
    by (auto simp: others_def this_session_def)
qed (rule delete_throws)

lemma deleteAll_others: "keeps (others u) (session_deleteAll E u)"
  unfolding session_deleteAll_def
proof (rule keeps_others_IO)
  fix s k t assume "deleteMany (sessions E) (\<lambda>r. sn_userId r = u) s = (Inr k, t)"
  from tab_returns(11)[OF this] show "others u t = others u s" by (auto simp: others_def)
qed (use tab_throws(11) in blast)

lemma create_others:
  assumes "ns_userId n = u"
  shows "keeps (others u) (session_create E n)"
proof -
  have c: "keeps (others u) (create (sessions E) n)"
  proof (rule keeps_others_IO)
    fix s r t assume "create (sessions E) n s = (Inr r, t)"
    from tab_returns(5)[OF this] show "others u t = others u s"
      using assms by (auto simp: others_def session_made_def)
  qed (use tab_throws(5) in blast)
  have "keeps (others u) (emit_session_created E i ip)" for i ip
    by (rule keeps_others[OF emit_rows])
  with c show ?thesis unfolding session_create_def by (intro keeps_intros)
qed

lemmas others_frames = frames[THEN keeps_others] cookies_keep[THEN keeps_others]
  generateTokens_keeps[THEN keeps_others] findOne_keeps[THEN keeps_others]

lemma refresh_others: "keeps (others u) (auth_refresh E u i ver tok)"
proof -
  have "keeps (others u) (case e of UnauthorizedException m \<Rightarrow> throw (UnauthorizedException m)
      | _ \<Rightarrow> throw (BadRequestException msg))" for e msg
    by (cases e) (auto intro: keeps_intros)
  then show ?thesis unfolding auth_refresh_def Let_def
    by (intro keeps_intros others_frames update_others delete_others keeps_option keeps_pair)
qed

lemma logout_others: "keeps (others u) (auth_logout E u i)"
  unfolding auth_logout_def by (intro keeps_intros others_frames delete_others)

lemma createSession_others: "keeps (others u) (createSessionWithTokens E u ua ip)"
  unfolding createSessionWithTokens_def
  by (intro keeps_intros others_frames update_others create_others keeps_pair) simp

lemma createSession_throws:
  "createSessionWithTokens E u ua ip s = (Inl e, t)
   \<Longrightarrow> e = BadRequestException ''There was an error creating the session.''"
  by (auto simp: createSessionWithTokens_def io_inv)

lemma create_returns:
  assumes "session_create E n s = (Inr r, t)"
  shows "session_made s n r \<and> sn_id r \<notin> sn_id ` rows s \<and> rows t = insert r (rows s)"
proof -
  from assms obtain s1 q where c: "create (sessions E) n s = (Inr r, s1)"
    and e: "catchM (emit_session_created E (sn_id r) (ns_ipAddress n)) (\<lambda>_. ret ()) s1 = (Inr q, t)"
    by (auto simp: session_create_def seqM_Inr io_prim_iff)
  have "keeps rows (catchM (emit_session_created E (sn_id r) (ns_ipAddress n)) (\<lambda>_. ret ()))"
    by (intro keeps_intros emit_rows)
  from keepsD[OF this e] tab_returns(5)[OF c] show ?thesis by simp
qed

lemma createSession_returns:
  assumes "createSessionWithTokens E u ua ip s = (Inr r, t)" and "inj_on sn_id (rows s)"
  shows "\<exists>r' new. r' \<notin> rows s \<and> rows t = insert r' (rows s)
     \<and> sn_id r' = sn_id r \<and> sn_userId r' = u \<and> sn_isActive r' \<and> sn_refreshTokenVersion r' = 0
     \<and> of_text (sn_refreshToken r') new
     \<and> (\<exists>s1 s2. jwt_sign E JWT_REFRESH_SECRET (SessionClaims u (sn_id r) 0) s1 = (Inr new, s2))"
proof -
  from assms(1) obtain n s1 a new s2 h s3 y s4 where
      c: "session_create E n s = (Inr r, s1)"
    and n: "ns_userId n = u" "ns_isActive n = None" "ns_id n = None"
    and g: "generateTokens E u (sn_id r) 0 s1 = (Inr (a, new), s2)"
    and h: "argon2_hash E new s2 = (Inr h, s3)"
    and up: "session_update E (sn_id r) u (no_changes\<lparr>ch_refreshToken := Some h\<rparr>) s3 = (Inr y, s4)"
    and k: "setTokenCookies E a new s4 = (Inr (), t)"
    by (auto simp: createSessionWithTokens_def io_inv)
  note made = create_returns[OF c]
  have s3: "rows s3 = insert r (rows s)"
    using made generateTokens_returns[OF g] keepsD[OF frames(1) h] by simp
  from update_returns[OF up] obtain x m where x: "x \<in> insert r (rows s)" "sn_id x = sn_id r"
    and y: "y = (apply_changes (no_changes\<lparr>ch_refreshToken := Some h\<rparr>) x)\<lparr>sn_lastUsedAt := m\<rparr>"
    and rows: "rows s4 = insert y (insert r (rows s) - {x})"
    unfolding s3 this_session_def by blast
  have "x = r" using x made by (metis image_eqI insertE)
  moreover have "r \<notin> rows s" using made by blast
  ultimately have "rows t = insert y (rows s)"
    using keepsD[OF cookies_keep(1) k] rows by simp
  moreover have id: "sn_id y = sn_id r" using y \<open>x = r\<close> by (simp add: apply_changes_def)
  moreover have "y \<notin> rows s" using id made by (metis image_eqI)
  ultimately show ?thesis
    using y \<open>x = r\<close> made n hash_of[OF h] generateTokens_returns[OF g]
    by (intro exI[of _ y] exI[of _ new])
       (auto simp: apply_changes_def no_changes_def session_made_def)
qed

end

section \<open>A concrete surrounding\<close>

text \<open>A state with its session rows, the response's cookies and a clock; tokens and digests that can
  be told apart. It has the laws, and the witnesses run in it, or in a record that extends it.\<close>

record session_world =
  dw_sessions :: "session_row list"
  dw_cookies :: "(string \<times> cookie) list"
  dw_clock :: int

fun quoted :: "string \<Rightarrow> string" where
  "quoted [] = ''.''"
| "quoted (c # cs) = CHR ''_'' # c # quoted cs"

lemma quoted_inj: "quoted a @ x = quoted b @ y \<longleftrightarrow> a = b \<and> x = y"
proof (induction a arbitrary: b)
  case Nil
  then show ?case by (cases b) auto
next
  case (Cons c a)
  then show ?case by (cases b) auto
qed

fun demo_token :: "secret \<Rightarrow> claims \<Rightarrow> string" where
  "demo_token k (SessionClaims u i v) = ''S'' @ quoted u @ quoted i
     @ (if v < 0 then ''-'' else ''+'') @ replicate (nat \<bar>v\<bar>) CHR ''1''"
| "demo_token k (PendingClaims u) = ''P'' @ quoted u"
| "demo_token k (TrustedClaims u) = ''T'' @ quoted u"

lemma demo_token_inj: "demo_token k c = demo_token k c' \<Longrightarrow> c = c'"
proof (cases c; cases c')
  fix u i v u' i' v'
  assume c: "c = SessionClaims u i v" "c' = SessionClaims u' i' v'" and eq: "demo_token k c = demo_token k c'"
  then have "u = u'" "i = i'" and
    n: "(if v < 0 then ''-'' else ''+'') @ replicate (nat \<bar>v\<bar>) CHR ''1''
       = (if v' < 0 then ''-'' else ''+'') @ replicate (nat \<bar>v'\<bar>) CHR ''1''"
    by (simp_all add: quoted_inj)
  from n have "(v < 0) = (v' < 0)" and "nat \<bar>v\<bar> = nat \<bar>v'\<bar>"
    by (auto simp: replicate_eq_replicate split: if_splits)
  then have "v = v'" by (auto simp: abs_if split: if_splits)
  with c \<open>u = u'\<close> \<open>i = i'\<close> show "c = c'" by simp
qed (auto simp: quoted_inj[of _ "[]" _ "[]", simplified])

definition demo_row :: "'x session_world_scheme \<Rightarrow> nat \<Rightarrow> new_session \<Rightarrow> session_row" where
  "demo_row s k n =
     \<lparr>sn_id = or_else (ns_id n) (replicate (length (dw_sessions s) + k) CHR ''s''),
      sn_userId = ns_userId n, sn_refreshToken = ns_refreshToken n, sn_refreshTokenVersion = 0,
      sn_userAgent = ns_userAgent n, sn_ipAddress = ns_ipAddress n, sn_location = ns_location n,
      sn_isActive = or_else (ns_isActive n) True, sn_expiresAt = Some (ns_expiresAt n),
      sn_createdAt = dw_clock s, sn_lastUsedAt = dw_clock s\<rparr>"

definition demo_env :: "'x session_world_scheme auth_env" where
  "demo_env =
     \<lparr>sessions = list_delegate dw_sessions (\<lambda>rs s. s\<lparr>dw_sessions := rs\<rparr>) demo_row
        (\<lambda>s r. r\<lparr>sn_lastUsedAt := dw_clock s\<rparr>) (\<lambda>r r'. sn_id r = sn_id r'),
      argon2_hash = (\<lambda>p. ret (''argon2:'' @ p)),
      argon2_verify = (\<lambda>h p. ret (h = ''argon2:'' @ p)),
      jwt_sign = (\<lambda>k c. ret (demo_token k c)),
      jwt_verify = (\<lambda>k tok. if k = JWT_REFRESH_SECRET \<and> tok = demo_token k (SessionClaims ''mallory'' ''s9'' 0)
        then ret (SessionClaims ''mallory'' ''s9'' 0) else throw (UnauthorizedException ''jwt'')),
      set_cookie = (\<lambda>name ck s. s\<lparr>dw_cookies := (name, ck) # dw_cookies s\<rparr>),
      clear_cookie = (\<lambda>name s. s\<lparr>dw_cookies := filter (\<lambda>(n, _). n \<noteq> name) (dw_cookies s)\<rparr>),
      emit_session_created = (\<lambda>i ip. ret ()),
      Date_now = dw_clock, isProd = False, REFRESH_GRACE_PERIOD_MS = 2000\<rparr>"

definition demo_rows :: "'x session_world_scheme \<Rightarrow> session_row set" where
  "demo_rows s = set (dw_sessions s)"

definition demo_digest :: "string \<Rightarrow> string \<Rightarrow> bool" where
  "demo_digest h p \<longleftrightarrow> h = ''argon2:'' @ p"

interpretation demo: auth_ports demo_env demo_rows demo_digest
proof (rule auth_ports.intro, goal_cases)
  case 1
  have t: "table (sessions demo_env) (\<lambda>s. set (dw_sessions s)) (\<lambda>_. ())
      (\<lambda>s n r. (\<exists>i. r = demo_row s i n) \<and> (\<forall>x \<in> set (dw_sessions s). \<not> sn_id r = sn_id x))
      (\<lambda>s r. r\<lparr>sn_lastUsedAt := dw_clock s\<rparr>)"
    unfolding demo_env_def auth_env.simps by (rule list_delegate_table) simp_all
  have st: "session_stamp demo_env = (\<lambda>s r. r\<lparr>sn_lastUsedAt := dw_clock s\<rparr>)"
    by (simp add: session_stamp_def demo_env_def fun_eq_iff)
  have rw: "demo_rows = (\<lambda>s. set (dw_sessions s))" by (simp add: demo_rows_def fun_eq_iff)
  show ?case unfolding st rw
    by (rule table_weaken[OF t]) (auto simp: session_made_def demo_row_def split: option.splits)
next
  case (12 k c s tok t c' s' t')
  then show ?case using demo_token_inj by (auto simp: demo_env_def ret_def)
qed (auto simp: demo_env_def demo_rows_def demo_digest_def ret_def throw_def intro: keeps_prim)

lemma demo_answers: "answers demo_env demo_rows"
  by (auto simp: answers_def demo_env_def demo_rows_def list_delegate_def ret_def
           dest: find_None_iff[THEN iffD1] split: option.splits)

section \<open>Properties\<close>

definition demo_tok :: string where
  "demo_tok = demo_token JWT_REFRESH_SECRET (SessionClaims ''ana'' ''s1'' 0)"

definition demo_world :: session_world where
  "demo_world = \<lparr>dw_sessions =
     [\<lparr>sn_id = ''s1'', sn_userId = ''ana'', sn_refreshToken = ''argon2:'' @ demo_tok,
       sn_refreshTokenVersion = 0, sn_userAgent = None, sn_ipAddress = None, sn_location = None,
       sn_isActive = True, sn_expiresAt = Some 700, sn_createdAt = 100, sn_lastUsedAt = 100\<rparr>,
      \<lparr>sn_id = ''s2'', sn_userId = ''bob'', sn_refreshToken = ''argon2:x'',
       sn_refreshTokenVersion = 4, sn_userAgent = None, sn_ipAddress = None, sn_location = None,
       sn_isActive = True, sn_expiresAt = Some 700, sn_createdAt = 90, sn_lastUsedAt = 95\<rparr>],
     dw_cookies = [], dw_clock = 100\<rparr>"

lemma demo_world_inj: "inj_on sn_id (demo_rows demo_world)"
  by (auto simp: demo_rows_def demo_world_def)

text \<open>C13. A refresh that succeeds was asked for with the token of a session of that user that
  exists, is active and is at the token's version; it moves exactly that session to the next version
  and to the digest of a new token signed for that version, and changes nothing else of any
  session but when it was last used.\<close>

theorem refresh_rotates:
  assumes "auth_ports E rows of_text" and "inj_on sn_id (rows s)"
    and "auth_refresh E u i ver tok s = (Inr msg, t)"
  shows "\<exists>ss ss' new. ss \<in> rows s \<and> this_session i u ss \<and> sn_isActive ss
     \<and> of_text (sn_refreshToken ss) tok \<and> sn_refreshTokenVersion ss = ver
     \<and> of_text (sn_refreshToken ss') new
     \<and> (\<exists>s1 s2. jwt_sign E JWT_REFRESH_SECRET (SessionClaims u i (ver + 1)) s1 = (Inr new, s2))
     \<and> ss' = ss\<lparr>sn_refreshToken := sn_refreshToken ss', sn_refreshTokenVersion := ver + 1,
                sn_lastUsedAt := sn_lastUsedAt ss'\<rparr>
     \<and> rows t = insert ss' (rows s - {ss})"
  by (rule auth_ports.refresh_returns[OF assms(1,3,2)])

lemma demo_refresh_run:
  "auth_refresh demo_env ''ana'' ''s1'' 0 demo_tok demo_world
   = (Inr ''Tokens refreshed'', snd (auth_refresh demo_env ''ana'' ''s1'' 0 demo_tok demo_world))"
proof -
  have "fst (auth_refresh demo_env ''ana'' ''s1'' 0 demo_tok demo_world) = Inr ''Tokens refreshed''"
    by code_simp
  then show ?thesis by (metis prod.collapse)
qed

theorem refresh_rotates_witness:
  "\<exists>ss' \<in> demo_rows (snd (auth_refresh demo_env ''ana'' ''s1'' 0 demo_tok demo_world)).
     sn_refreshTokenVersion ss' = 1"
proof -
  from refresh_rotates[OF demo.auth_ports_axioms demo_world_inj demo_refresh_run]
  obtain ss ss' where "demo_rows (snd (auth_refresh demo_env ''ana'' ''s1'' 0 demo_tok demo_world))
        = insert ss' (demo_rows demo_world - {ss})"
    and eq: "ss' = ss\<lparr>sn_refreshToken := sn_refreshToken ss', sn_refreshTokenVersion := 0 + 1,
                sn_lastUsedAt := sn_lastUsedAt ss'\<rparr>"
    by (elim exE conjE) (rule that)
  moreover have "sn_refreshTokenVersion ss' = 1" using arg_cong[OF eq, of sn_refreshTokenVersion] by simp
  ultimately show ?thesis by blast
qed

text \<open>C4. A refresh token works once. On a database that answers, presented again after a refresh that succeeded with it, at
  whatever version is claimed and however little time has passed, it is refused and the session is
  deleted: the grace period of \<open>refresh\<close> is never reached with a superseded token, because the
  digest is compared first and only the newest token matches it.\<close>

theorem refresh_token_reuse:
  assumes "auth_ports E rows of_text" and "answers E rows" and "inj_on sn_id (rows s)"
    and "jwt_sign E JWT_REFRESH_SECRET (SessionClaims u i ver) s0 = (Inr tok, s0')"
    and "auth_refresh E u i ver tok s = (Inr msg, t)"
  shows "\<exists>t'. auth_refresh E u i ver' tok t
           = (Inl (UnauthorizedException ''Invalid refresh token credentials. Session revoked.''), t')
         \<and> (\<forall>r \<in> rows t'. \<not> this_session i u r)"
  by (rule auth_ports.refresh_reuse[OF assms(1-5) refl])

theorem refresh_token_reuse_witness:
  "let t = snd (auth_refresh demo_env ''ana'' ''s1'' 0 demo_tok demo_world)
   in Date_now demo_env t - 100 \<le> REFRESH_GRACE_PERIOD_MS demo_env
      \<and> (\<exists>t'. auth_refresh demo_env ''ana'' ''s1'' 0 demo_tok t
           = (Inl (UnauthorizedException ''Invalid refresh token credentials. Session revoked.''), t')
         \<and> (\<forall>r \<in> demo_rows t'. \<not> this_session ''s1'' ''ana'' r))"
proof -
  have sign: "jwt_sign demo_env JWT_REFRESH_SECRET (SessionClaims ''ana'' ''s1'' 0) demo_world
      = (Inr demo_tok, demo_world)"
    by (simp add: demo_env_def demo_tok_def ret_def)
  have "Date_now demo_env (snd (auth_refresh demo_env ''ana'' ''s1'' 0 demo_tok demo_world)) - 100
      \<le> REFRESH_GRACE_PERIOD_MS demo_env" by code_simp
  with refresh_token_reuse[OF demo.auth_ports_axioms demo_answers demo_world_inj sign demo_refresh_run]
  show ?thesis by (simp add: Let_def)
qed

text \<open>C14. Nothing a user does with a session (opening one, refreshing, logging out, deleting one or
  all) touches a session of another user, whether it succeeds or not.\<close>

theorem sessions_isolated:
  assumes "auth_ports E rows of_text"
  shows "\<forall>m \<in> {void (auth_refresh E u i ver tok), void (auth_logout E u i),
                  void (createSessionWithTokens E u ua ip), void (session_update E i u ch),
                  void (session_delete E i u), void (session_deleteAll E u)}.
           keeps (\<lambda>s. {r \<in> rows s. sn_userId r \<noteq> u}) m"
proof -
  have "keeps (auth_ports.others rows u) (void m)" if "keeps (auth_ports.others rows u) m" for m :: "('a, 'x) io"
    using that unfolding void_def by (intro keeps_intros)
  then have "keeps (\<lambda>s. {r \<in> rows s. sn_userId r \<noteq> u}) (void m)"
    if "keeps (auth_ports.others rows u) m" for m :: "('a, 'x) io"
    using that by (simp add: auth_ports.others_def[OF assms, abs_def])
  note v = this
  show ?thesis
    using v[OF auth_ports.refresh_others[OF assms]] v[OF auth_ports.logout_others[OF assms]]
      v[OF auth_ports.createSession_others[OF assms]] v[OF auth_ports.update_others[OF assms]]
      v[OF auth_ports.delete_others[OF assms]] v[OF auth_ports.deleteAll_others[OF assms]]
    by blast
qed

theorem sessions_isolated_witness:
  "{r \<in> demo_rows (snd (auth_logout demo_env ''ana'' ''s1'' demo_world)). sn_userId r \<noteq> ''ana''}
   = {r \<in> demo_rows demo_world. sn_userId r \<noteq> ''ana''}"
proof -
  have "void (auth_logout demo_env ''ana'' ''s1'') \<in>
      {void (auth_refresh demo_env ''ana'' ''s1'' 0 ''''), void (auth_logout demo_env ''ana'' ''s1''),
       void (createSessionWithTokens demo_env ''ana'' None None),
       void (session_update demo_env ''s1'' ''ana'' no_changes),
       void (session_delete demo_env ''s1'' ''ana''), void (session_deleteAll demo_env ''ana'')}"
    by blast
  from bspec[OF sessions_isolated[OF demo.auth_ports_axioms] this]
  have "keeps (\<lambda>s. {r \<in> demo_rows s. sn_userId r \<noteq> ''ana''}) (void (auth_logout demo_env ''ana'' ''s1''))" .
  moreover have "void (auth_logout demo_env ''ana'' ''s1'') demo_world
      = (Inr (), snd (auth_logout demo_env ''ana'' ''s1'' demo_world))"
    by code_simp
  ultimately show ?thesis by (rule keepsD)
qed

text \<open>C15. Logging out removes the session, that one row and no other, and ends it for every later request: in
  whatever state the requests that follow find the sessions, others opened, refreshed or closed, as long as the
  identifier has not been given to a new one, an access token of the session no longer passes the route guard
  and no refresh token of it refreshes, for whichever user and version it is presented.\<close>

theorem logout_revokes:
  assumes "auth_ports E rows of_text" and "inj_on sn_id (rows s)"
    and "auth_logout E u i s = (Inr msg, t)"
  shows "(\<exists>ses \<in> rows s. this_session i u ses \<and> rows t = rows s - {ses}) \<and> i \<notin> sn_id ` rows t
       \<and> (\<forall>v. i \<notin> sn_id ` rows v \<longrightarrow>
            (\<forall>u' x v'. jwt_validate E u' i v \<noteq> (Inr x, v'))
          \<and> (\<forall>u' ver tok m v'. auth_refresh E u' i ver tok v \<noteq> (Inr m, v')))"
proof -
  note P = assms(1)
  from assms(3) obtain r s1 where d: "session_delete E i u s = (Inr r, s1)"
    and c: "clearTokenCookies E s1 = (Inr (), t)" by (auto simp: auth_logout_def io_inv)
  have rows: "r \<in> rows s" "this_session i u r" "rows t = rows s - {r}"
    using auth_ports.delete_returns[OF P d] keepsD[OF auth_ports.cookies_keep(2)[OF P] c] by simp_all
  have "i \<notin> sn_id ` rows t" unfolding rows(3)
    using inj_onD[OF assms(2), of _ r] rows(1,2) by (auto simp: this_session_def)
  moreover have "jwt_validate E u' i v \<noteq> (Inr x, v')" "auth_refresh E u' i ver tok v \<noteq> (Inr m, v')"
    if "i \<notin> sn_id ` rows v" for v u' x v' ver tok m
    using auth_ports.ended_session[OF P that] by blast+
  ultimately show ?thesis using rows by blast
qed

text \<open>Ana logs out and Eve logs in.\<close>

theorem logout_revokes_witness:
  "let t = snd (auth_logout demo_env ''ana'' ''s1'' demo_world);
       v = snd (createSessionWithTokens demo_env ''eve'' None None t)
   in demo_rows v \<noteq> {} \<and> (\<forall>x v'. jwt_validate demo_env ''ana'' ''s1'' v \<noteq> (Inr x, v'))
      \<and> (\<forall>tok m v'. auth_refresh demo_env ''ana'' ''s1'' 0 tok v \<noteq> (Inr m, v'))"
proof -
  let ?t = "snd (auth_logout demo_env ''ana'' ''s1'' demo_world)"
  let ?v = "snd (createSessionWithTokens demo_env ''eve'' None None ?t)"
  have "fst (auth_logout demo_env ''ana'' ''s1'' demo_world) = Inr ''Logged out successfully''"
    by code_simp
  then have m: "auth_logout demo_env ''ana'' ''s1'' demo_world = (Inr ''Logged out successfully'', ?t)"
    by (metis prod.collapse)
  have v: "''s1'' \<notin> set (map sn_id (dw_sessions ?v)) \<and> ''eve'' \<in> set (map sn_userId (dw_sessions ?v))" by code_simp
  then have gone: "''s1'' \<notin> sn_id ` demo_rows ?v" and some: "demo_rows ?v \<noteq> {}" by (auto simp: demo_rows_def)
  note ended = logout_revokes[OF demo.auth_ports_axioms demo_world_inj m, THEN conjunct2, THEN conjunct2,
      THEN spec[of _ ?v], THEN mp, OF gone]
  show ?thesis unfolding Let_def by (intro conjI allI some ended[THEN conjunct1, rule_format] ended[THEN conjunct2, rule_format])
qed

text \<open>Opening a session either fails with one error, or adds one row and changes no other: the
  row is the user's, active, at version 0, and holds the digest of a refresh token signed for that
  very session and version.\<close>

theorem createSession_opens_one:
  assumes "auth_ports E rows of_text" and "inj_on sn_id (rows s)"
    and "createSessionWithTokens E u ua ip s = (res, t)"
  shows "case res of
      Inl e \<Rightarrow> e = BadRequestException ''There was an error creating the session.''
    | Inr r \<Rightarrow> \<exists>r' new. r' \<notin> rows s \<and> rows t = insert r' (rows s)
        \<and> sn_id r' = sn_id r \<and> sn_userId r' = u \<and> sn_isActive r' \<and> sn_refreshTokenVersion r' = 0
        \<and> of_text (sn_refreshToken r') new
        \<and> (\<exists>s1 s2. jwt_sign E JWT_REFRESH_SECRET (SessionClaims u (sn_id r) 0) s1 = (Inr new, s2))"
proof (cases res)
  case (Inl e)
  then show ?thesis using auth_ports.createSession_throws[OF assms(1)] assms(3) by auto
next
  case (Inr r)
  show ?thesis unfolding Inr sum.case
    by (rule auth_ports.createSession_returns[OF assms(1) assms(3)[unfolded Inr] assms(2)])
qed

theorem createSession_opens_one_witness:
  "\<exists>r'. r' \<notin> demo_rows demo_world \<and> sn_userId r' = ''eve''
     \<and> demo_rows (snd (createSessionWithTokens demo_env ''eve'' None None demo_world))
       = insert r' (demo_rows demo_world)"
proof -
  let ?m = "createSessionWithTokens demo_env ''eve'' None None demo_world"
  have "\<not> isl (fst ?m)" by code_simp
  then obtain r t where r: "?m = (Inr r, t)" using io_returns[of "createSessionWithTokens demo_env ''eve'' None None"] by blast
  from createSession_opens_one[OF demo.auth_ports_axioms demo_world_inj r]
  obtain r' where "r' \<notin> demo_rows demo_world" "demo_rows t = insert r' (demo_rows demo_world)"
    "sn_userId r' = ''eve''" by (simp, elim exE conjE) (rule that)
  then show ?thesis using r by auto
qed

end
