(* ===== verification/Users.thy ===== *)
theory Users
  imports Table
begin

text \<open>
  \<open>UsersService\<close> (\<open>src/src/modules/users/users.service.ts\<close>) over the user table and the digest
  function: creation with an email no other user has, partial updates, lookups and what of a row is
  shown to clients. \<open>user_ports\<close> is what the callers of the service rely on.
\<close>

section \<open>Data\<close>

datatype userStatus = ACTIVE | INACTIVE | DRAFT | BLOCKED
datatype authProvider = LOCAL | GOOGLE | FACEBOOK | APPLE
datatype role = CUSTOMER | SUPPORT | ADMIN

record user_row =
  us_id :: string
  us_name :: "string option"
  us_lastName :: "string option"
  us_avatar :: "string option"
  us_email :: string
  us_backupEmail :: "string option"
  us_phone :: "string option"
  us_password :: "string option"
  us_country :: "string option"
  us_language :: "string option"
  us_emailConfirm :: bool
  us_backupEmailConfirm :: bool
  us_phoneConfirm :: bool
  us_twoFactorEnabled :: bool
  us_twoFactorSecret :: "string option"
  us_status :: userStatus
  us_authProvider :: authProvider
  us_role :: role
  us_createdAt :: int
  us_updatedAt :: int

text \<open>\<open>CreateUserInterface\<close>, and \<open>UpdateUserInterface\<close> without its \<open>id\<close>: \<open>None\<close> is \<open>undefined\<close>.\<close>

record user_data =
  ud_name :: "string option"
  ud_lastName :: "string option"
  ud_avatar :: "string option"
  ud_email :: "string option"
  ud_backupEmail :: "string option"
  ud_phone :: "string option"
  ud_password :: "string option"
  ud_country :: "string option"
  ud_language :: "string option"
  ud_emailConfirm :: "bool option"
  ud_backupEmailConfirm :: "bool option"
  ud_phoneConfirm :: "bool option"
  ud_twoFactorEnabled :: "bool option"
  ud_twoFactorSecret :: "string option"
  ud_status :: "userStatus option"
  ud_authProvider :: "authProvider option"

definition no_user_data :: user_data where
  "no_user_data = \<lparr>ud_name = None, ud_lastName = None, ud_avatar = None, ud_email = None,
     ud_backupEmail = None, ud_phone = None, ud_password = None, ud_country = None, ud_language = None,
     ud_emailConfirm = None, ud_backupEmailConfirm = None, ud_phoneConfirm = None,
     ud_twoFactorEnabled = None, ud_twoFactorSecret = None, ud_status = None, ud_authProvider = None\<rparr>"

text \<open>The columns \<open>safeSelect\<close> names: neither the password nor the second factor's secret.\<close>

record safe_user =
  sf_id :: string
  sf_name :: "string option"
  sf_lastName :: "string option"
  sf_avatar :: "string option"
  sf_email :: string
  sf_backupEmail :: "string option"
  sf_phone :: "string option"
  sf_country :: "string option"
  sf_language :: "string option"
  sf_emailConfirm :: bool
  sf_backupEmailConfirm :: bool
  sf_phoneConfirm :: bool
  sf_twoFactorEnabled :: bool
  sf_status :: userStatus
  sf_authProvider :: authProvider
  sf_createdAt :: int
  sf_updatedAt :: int

definition safeSelect :: "user_row \<Rightarrow> safe_user" where
  "safeSelect r = \<lparr>sf_id = us_id r, sf_name = us_name r, sf_lastName = us_lastName r,
     sf_avatar = us_avatar r, sf_email = us_email r, sf_backupEmail = us_backupEmail r,
     sf_phone = us_phone r, sf_country = us_country r, sf_language = us_language r,
     sf_emailConfirm = us_emailConfirm r, sf_backupEmailConfirm = us_backupEmailConfirm r,
     sf_phoneConfirm = us_phoneConfirm r, sf_twoFactorEnabled = us_twoFactorEnabled r,
     sf_status = us_status r, sf_authProvider = us_authProvider r,
     sf_createdAt = us_createdAt r, sf_updatedAt = us_updatedAt r\<rparr>"

record 's user_env =
  users :: "('s, user_row, user_data) delegate"
  password_hash :: "string \<Rightarrow> ('s, string) io"
  users_now :: "'s \<Rightarrow> int"

section \<open>The service\<close>

definition validateEmail :: "'s user_env \<Rightarrow> string \<Rightarrow> ('s, unit) io" where
  "validateEmail U email =
     seqM (findFirst (users U) (\<lambda>r. us_email r = email)) (\<lambda>user.
     case user of None \<Rightarrow> ret () | Some _ \<Rightarrow> throw (BadRequestException ''Email already exists''))"

text \<open>\<open>if (password)\<close> and \<open>password && \<dots>\<close>: the empty string is not hashed; on an update it is stored
  as it is.\<close>

definition users_create :: "'s user_env \<Rightarrow> user_data \<Rightarrow> string \<Rightarrow> ('s, safe_user) io" where
  "users_create U d email =
     seqM (validateEmail U email) (\<lambda>_.
     seqM (case ud_password d of
             None \<Rightarrow> ret None
           | Some p \<Rightarrow> if p = '''' then ret None
                       else seqM (password_hash U p) (\<lambda>h. ret (Some h))) (\<lambda>hashedPassword.
     seqM (create (users U) (d\<lparr>ud_email := Some email, ud_password := hashedPassword\<rparr>)) (\<lambda>row.
     ret (safeSelect row))))"

definition matches_where :: "string option \<Rightarrow> string option \<Rightarrow> user_row \<Rightarrow> bool" where
  "matches_where i email r \<longleftrightarrow> (case i of None \<Rightarrow> True | Some x \<Rightarrow> us_id r = x)
     \<and> (case email of None \<Rightarrow> True | Some x \<Rightarrow> us_email r = x)"

definition users_findOne :: "'s user_env \<Rightarrow> string option \<Rightarrow> string option \<Rightarrow> ('s, user_row) io" where
  "users_findOne U i email =
     seqM (findFirst (users U) (matches_where i email)) (\<lambda>user. assertFound user ''User'')"

definition user_changes :: "user_data \<Rightarrow> user_row \<Rightarrow> user_row" where
  "user_changes d r = r\<lparr>
     us_name := given (ud_name d) (us_name r), us_lastName := given (ud_lastName d) (us_lastName r),
     us_avatar := given (ud_avatar d) (us_avatar r), us_email := or_else (ud_email d) (us_email r),
     us_backupEmail := given (ud_backupEmail d) (us_backupEmail r),
     us_phone := given (ud_phone d) (us_phone r), us_password := given (ud_password d) (us_password r),
     us_country := given (ud_country d) (us_country r),
     us_language := given (ud_language d) (us_language r),
     us_emailConfirm := or_else (ud_emailConfirm d) (us_emailConfirm r),
     us_backupEmailConfirm := or_else (ud_backupEmailConfirm d) (us_backupEmailConfirm r),
     us_phoneConfirm := or_else (ud_phoneConfirm d) (us_phoneConfirm r),
     us_twoFactorEnabled := or_else (ud_twoFactorEnabled d) (us_twoFactorEnabled r),
     us_twoFactorSecret := given (ud_twoFactorSecret d) (us_twoFactorSecret r),
     us_status := or_else (ud_status d) (us_status r),
     us_authProvider := or_else (ud_authProvider d) (us_authProvider r)\<rparr>"

text \<open>\<open>update\<close>, with what it writes besides the digest as a function on the row; the second form is for
  data that holds no \<open>null\<close>.\<close>

definition users_update_by ::
  "'s user_env \<Rightarrow> string \<Rightarrow> string option \<Rightarrow> string option \<Rightarrow> (string option \<Rightarrow> user_row \<Rightarrow> user_row)
   \<Rightarrow> ('s, safe_user) io" where
  "users_update_by U i email password changes =
     seqM (users_findOne U (Some i) None) (\<lambda>_.
     seqM (case email of
             None \<Rightarrow> ret ()
           | Some e \<Rightarrow> if e = '''' then ret () else validateEmail U e) (\<lambda>_.
     seqM (case password of
             None \<Rightarrow> ret None
           | Some p \<Rightarrow> if p = '''' then ret (Some '''')
                       else seqM (password_hash U p) (\<lambda>h. ret (Some h))) (\<lambda>digest.
     seqM (update (users U) (\<lambda>r. us_id r = i) (changes digest)) (\<lambda>row.
     ret (safeSelect row)))))"

definition users_update :: "'s user_env \<Rightarrow> string \<Rightarrow> user_data \<Rightarrow> ('s, safe_user) io" where
  "users_update U i d =
     users_update_by U i (ud_email d) (ud_password d) (\<lambda>digest. user_changes (d\<lparr>ud_password := digest\<rparr>))"

text \<open>\<open>twoFactorSecret\<close> may be left alone (\<open>None\<close>), cleared (\<open>Some None\<close>) or set.\<close>

definition users_updateTwoFactor ::
  "'s user_env \<Rightarrow> string \<Rightarrow> bool option \<Rightarrow> string option option \<Rightarrow> ('s, unit) io" where
  "users_updateTwoFactor U i enabled sec =
     seqM (update (users U) (\<lambda>r. us_id r = i)
             (\<lambda>r. r\<lparr>us_twoFactorEnabled := or_else enabled (us_twoFactorEnabled r),
                    us_twoFactorSecret := or_else sec (us_twoFactorSecret r)\<rparr>)) (\<lambda>_. ret ())"

definition users_delete :: "'s user_env \<Rightarrow> string \<Rightarrow> ('s, unit) io" where
  "users_delete U i =
     seqM (users_findOne U (Some i) None) (\<lambda>_.
     seqM (delete (users U) (\<lambda>r. us_id r = i)) (\<lambda>_. ret ()))"

section \<open>What the code relies on\<close>

text \<open>A new row: the data given and the schema's defaults.\<close>

definition user_made :: "user_data \<Rightarrow> user_row \<Rightarrow> bool" where
  "user_made d r \<longleftrightarrow> us_email r = or_else (ud_email d) (us_email r)
     \<and> us_name r = ud_name d \<and> us_lastName r = ud_lastName d \<and> us_avatar r = ud_avatar d
     \<and> us_backupEmail r = ud_backupEmail d \<and> us_phone r = ud_phone d \<and> us_password r = ud_password d
     \<and> us_country r = Some (or_else (ud_country d) ''AR'')
     \<and> us_language r = Some (or_else (ud_language d) ''es-ES'')
     \<and> us_emailConfirm r = or_else (ud_emailConfirm d) False
     \<and> us_backupEmailConfirm r = or_else (ud_backupEmailConfirm d) False
     \<and> us_phoneConfirm r = or_else (ud_phoneConfirm d) False
     \<and> us_twoFactorEnabled r = or_else (ud_twoFactorEnabled d) False
     \<and> us_twoFactorSecret r = ud_twoFactorSecret d
     \<and> us_status r = or_else (ud_status d) ACTIVE
     \<and> us_authProvider r = or_else (ud_authProvider d) LOCAL \<and> us_role r = CUSTOMER"

text \<open>\<open>@updatedAt\<close>.\<close>

definition user_stamp :: "'s user_env \<Rightarrow> 's \<Rightarrow> user_row \<Rightarrow> user_row" where
  "user_stamp U s r = r\<lparr>us_updatedAt := users_now U s\<rparr>"

locale user_ports =
  fixes U :: "'s user_env" and urows :: "'s \<Rightarrow> user_row set" and uother :: "'s \<Rightarrow> 'o"
    and udigest :: "string \<Rightarrow> string \<Rightarrow> bool"
  assumes utab: "table (users U) urows uother
      (\<lambda>s d r. user_made d r \<and> us_id r \<notin> us_id ` urows s) (user_stamp U)"
    and uhash_keeps: "keeps urows (password_hash U p)" "keeps uother (password_hash U p)"
    and uhash_of: "password_hash U p s = (Inr h, t) \<Longrightarrow> udigest h p"
begin

lemmas utab_returns = table.returns[OF utab]
lemmas utab_throws = table.throws[OF utab]
lemmas utab_frames = table.frames[OF utab]

lemma ufind_keeps: "keeps urows (findFirst (users U) P)"
proof (rule keepsI)
  fix s r t assume "findFirst (users U) P s = (r, t)"
  then show "urows t = urows s"
    using utab_returns(1)[of P s] utab_throws(1)[of P s] by (cases r) auto
qed

lemma ufindOne_keeps: "keeps urows (users_findOne U i e)" "keeps uother (users_findOne U i e)"
  unfolding users_findOne_def by (intro keeps_intros ufind_keeps utab_frames)+

lemma ufindOne_returns:
  assumes "users_findOne U i e s = (Inr r, t)"
  shows "r \<in> urows s \<and> matches_where i e r \<and> urows t = urows s \<and> uother t = uother s"
proof -
  from assms have "findFirst (users U) (matches_where i e) s = (Inr (Some r), t)"
    by (auto simp: users_findOne_def io_inv)
  from utab_returns(1)[OF this] show ?thesis by simp
qed

lemma validateEmail_keeps: "keeps urows (validateEmail U e)" "keeps uother (validateEmail U e)"
  unfolding validateEmail_def by (intro keeps_intros ufind_keeps utab_frames keeps_option)+

lemma validateEmail_returns:
  assumes "validateEmail U e s = (Inr (), t)"
  shows "(\<forall>r \<in> urows s. us_email r \<noteq> e) \<and> urows t = urows s"
proof -
  from assms have "findFirst (users U) (\<lambda>r. us_email r = e) s = (Inr None, t)"
    by (auto simp: validateEmail_def io_inv split: option.splits)
  from utab_returns(1)[OF this] show ?thesis by simp
qed

lemma hash_case_keeps:
  "keeps urows (case q of None \<Rightarrow> ret None | Some p \<Rightarrow> if p = '''' then ret d
                 else seqM (password_hash U p) (\<lambda>h. ret (Some h)))"
  by (intro keeps_intros keeps_option uhash_keeps)

lemma users_create_returns:
  assumes "users_create U d e s = (Inr x, t)"
  shows "\<exists>row. x = safeSelect row \<and> us_email row = e \<and> us_id row \<notin> us_id ` urows s
     \<and> (\<forall>r \<in> urows s. us_email r \<noteq> e) \<and> urows t = insert row (urows s)
     \<and> (\<forall>p. ud_password d = Some p \<longrightarrow> p \<noteq> '''' \<longrightarrow> (\<exists>h. us_password row = Some h \<and> udigest h p))"
proof -
  from assms obtain s1 q s2 row where v: "validateEmail U e s = (Inr (), s1)"
    and h: "(case ud_password d of None \<Rightarrow> ret None | Some p \<Rightarrow> if p = '''' then ret None
              else seqM (password_hash U p) (\<lambda>h. ret (Some h))) s1 = (Inr q, s2)"
    and c: "create (users U) (d\<lparr>ud_email := Some e, ud_password := q\<rparr>) s2 = (Inr row, t)"
    and x: "x = safeSelect row"
    by (auto simp: users_create_def seqM_Inr io_prim_iff)
  have s2: "urows s2 = urows s"
    using keepsD[OF hash_case_keeps h] validateEmail_returns[OF v] by simp
  have q: "\<exists>h. q = Some h \<and> udigest h p" if "ud_password d = Some p" "p \<noteq> ''''" for p
    using h that uhash_of by (auto simp: seqM_Inr io_prim_iff)
  show ?thesis
    using utab_returns(5)[OF c] x s2 validateEmail_returns[OF v] q
    by (intro exI[of _ row]) (auto simp: user_made_def)
qed

lemma email_case_keeps:
  "keeps urows (case q of None \<Rightarrow> ret () | Some e \<Rightarrow> if e = '''' then ret () else validateEmail U e)"
  "keeps uother (case q of None \<Rightarrow> ret () | Some e \<Rightarrow> if e = '''' then ret () else validateEmail U e)"
  by (intro keeps_intros keeps_option validateEmail_keeps)+

lemma users_update_by_returns:
  assumes "users_update_by U i email password f s = (Inr x, t)"
  shows "\<exists>r0 r q now. r0 \<in> urows s \<and> us_id r0 = i \<and> r = (f q r0)\<lparr>us_updatedAt := now\<rparr>
     \<and> x = safeSelect r \<and> urows t = insert r (urows s - {r0})
     \<and> (\<forall>e. email = Some e \<longrightarrow> e \<noteq> '''' \<longrightarrow> (\<forall>r \<in> urows s. us_email r \<noteq> e))
     \<and> (\<forall>p. password = Some p \<longrightarrow> p \<noteq> '''' \<longrightarrow> (\<exists>h. q = Some h \<and> udigest h p))
     \<and> (password = None \<longrightarrow> q = None)"
proof -
  from assms obtain y s1 s2 q s3 r where g: "users_findOne U (Some i) None s = (Inr y, s1)"
    and v: "(case email of None \<Rightarrow> ret () | Some e \<Rightarrow> if e = '''' then ret () else validateEmail U e) s1
            = (Inr (), s2)"
    and h: "(case password of None \<Rightarrow> ret None | Some p \<Rightarrow> if p = '''' then ret (Some '''')
              else seqM (password_hash U p) (\<lambda>h. ret (Some h))) s2 = (Inr q, s3)"
    and u: "update (users U) (\<lambda>r. us_id r = i) (f q) s3 = (Inr r, t)"
    and x: "x = safeSelect r"
    by (auto simp: users_update_by_def seqM_Inr io_prim_iff)
  have s1: "urows s1 = urows s" using ufindOne_returns[OF g] by simp
  from keepsD[OF email_case_keeps(1) v] have s2: "urows s2 = urows s1" .
  have s3: "urows s3 = urows s" using keepsD[OF hash_case_keeps h] s1 s2 by simp
  have E: "\<forall>e. email = Some e \<longrightarrow> e \<noteq> '''' \<longrightarrow> (\<forall>r \<in> urows s. us_email r \<noteq> e)"
    using v s1 by (auto dest!: validateEmail_returns) blast
  have P: "\<forall>p. password = Some p \<longrightarrow> p \<noteq> '''' \<longrightarrow> (\<exists>h. q = Some h \<and> udigest h p)"
    and N: "password = None \<longrightarrow> q = None"
    using h uhash_of by (auto simp: seqM_Inr io_prim_iff)
  from utab_returns(8)[OF u] s3 obtain r0 now where "r0 \<in> urows s" "us_id r0 = i"
    "r = (f q r0)\<lparr>us_updatedAt := now\<rparr>" "urows t = insert r (urows s - {r0})"
    by (auto simp: user_stamp_def)
  then show ?thesis using E P N x
    by (intro exI[of _ r0] exI[of _ r] exI[of _ q] exI[of _ now] conjI) simp_all
qed

lemmas users_update_returns =
  users_update_by_returns[where email = "ud_email d" and password = "ud_password d"
    and f = "\<lambda>digest. user_changes (d\<lparr>ud_password := digest\<rparr>)" for d, folded users_update_def]

end

end
