(* ===== verification/Authentication.thy ===== *)
theory Authentication
  imports Sessions Users
begin

text \<open>
  \<open>register\<close>, \<open>login\<close> and the OAuth logins of \<open>AuthService\<close> (\<open>src/src/modules/auth/auth.service.ts\<close>),
  over the session and user services.
\<close>

section \<open>Registering and logging in\<close>

datatype login_result =
    LoggedIn string string "string option"
  | RequiresTwoFactor

definition auth_register ::
  "'s auth_env \<Rightarrow> 's user_env \<Rightarrow> user_data \<Rightarrow> string \<Rightarrow> string option \<Rightarrow> string option
   \<Rightarrow> ('s, login_result) io" where
  "auth_register E U dto email userAgent ip =
     seqM (users_create U dto email) (\<lambda>user.
     seqM (createSessionWithTokens E (sf_id user) userAgent ip) (\<lambda>_.
     ret (LoggedIn (sf_id user) (sf_email user) (sf_name user))))"

text \<open>\<open>trusted\<close> is the request's \<open>trusted_device\<close> cookie. The first result of the inner computation
  is \<open>None\<close> where the source's empty \<open>catch\<close> falls through to the second factor.\<close>

definition auth_login ::
  "'s auth_env \<Rightarrow> 's user_env \<Rightarrow> string \<Rightarrow> string \<Rightarrow> string option \<Rightarrow> string option \<Rightarrow> string option
   \<Rightarrow> ('s, login_result) io" where
  "auth_login E U email password trusted userAgent ip =
     seqM (users_findOne U None (Some email)) (\<lambda>user.
     case truthy (us_password user) of
       None \<Rightarrow> throw (UnauthorizedException
         ''No password set. Sign in with your OAuth provider or use 'Forgot Password' to set one.'')
     | Some digest \<Rightarrow>
         seqM (argon2_verify E digest password) (\<lambda>isValid.
         if \<not> isValid then throw (UnauthorizedException ''Invalid credentials'')
         else if us_twoFactorEnabled user then
           seqM (case truthy trusted of
                   None \<Rightarrow> ret None
                 | Some isTrusted \<Rightarrow>
                     orNull (seqM (jwt_verify E JWT_REFRESH_SECRET isTrusted) (\<lambda>_.
                             seqM (createSessionWithTokens E (us_id user) userAgent ip) (\<lambda>_.
                             ret (LoggedIn (us_id user) (us_email user) (us_name user)))))) (\<lambda>done.
           case done of
             Some r \<Rightarrow> ret r
           | None \<Rightarrow>
               seqM (jwt_sign E JWT_ACCESS_SECRET (PendingClaims (us_id user))) (\<lambda>pendingToken.
               seqM (modifyM (set_cookie E ''two_factor_pending''
                       (lax_cookie E pendingToken (5 * 60 * 1000)))) (\<lambda>_.
               ret RequiresTwoFactor)))
         else
           seqM (createSessionWithTokens E (us_id user) userAgent ip) (\<lambda>_.
           ret (LoggedIn (us_id user) (us_email user) (us_name user)))))"

text \<open>\<open>provider.toLowerCase()\<close>.\<close>

fun provider_name :: "authProvider \<Rightarrow> string" where
  "provider_name LOCAL = ''local''"
| "provider_name GOOGLE = ''google''"
| "provider_name FACEBOOK = ''facebook''"
| "provider_name APPLE = ''apple''"

record oauth_user =
  oa_email :: string
  oa_name :: "string option"
  oa_lastName :: "string option"
  oa_avatar :: "string option"

definition oauthLogin ::
  "'s auth_env \<Rightarrow> 's user_env \<Rightarrow> oauth_user \<Rightarrow> authProvider \<Rightarrow> string option \<Rightarrow> string option
   \<Rightarrow> ('s, login_result) io" where
  "oauthLogin E U oa provider userAgent ip =
     catchM
       (seqM (orNull (users_findOne U None (Some (oa_email oa)))) (\<lambda>existingUser.
        seqM (case existingUser of
                None \<Rightarrow>
                  seqM (users_create U
                    (no_user_data\<lparr>ud_name := oa_name oa, ud_lastName := oa_lastName oa,
                       ud_avatar := oa_avatar oa, ud_authProvider := Some provider,
                       ud_emailConfirm := Some True\<rparr>) (oa_email oa)) (\<lambda>newUser.
                  ret (sf_id newUser))
              | Some u \<Rightarrow> ret (us_id u)) (\<lambda>userId.
        seqM (createSessionWithTokens E userId userAgent ip) (\<lambda>_.
        ret (LoggedIn userId (oa_email oa)
               (case existingUser of None \<Rightarrow> oa_name oa | Some u \<Rightarrow> us_name u))))))
       (\<lambda>error. throw (BadRequestException
          (''There was an error with '' @ provider_name provider @ '' login.'')))"

definition googleLogin ::
  "'s auth_env \<Rightarrow> 's user_env \<Rightarrow> oauth_user \<Rightarrow> string option \<Rightarrow> string option \<Rightarrow> ('s, login_result) io"
where
  "googleLogin E U g userAgent ip = oauthLogin E U g GOOGLE userAgent ip"

definition appleLogin ::
  "'s auth_env \<Rightarrow> 's user_env \<Rightarrow> oauth_user \<Rightarrow> string option \<Rightarrow> string option \<Rightarrow> ('s, login_result) io"
where
  "appleLogin E U a userAgent ip = oauthLogin E U (a\<lparr>oa_avatar := None\<rparr>) APPLE userAgent ip"

section \<open>What a login shows\<close>

text \<open>The two services over one database: the session table and the user table are different
  tables, and what the token side does leaves the users alone.\<close>

locale login_ports = auth_ports E rows of_text + user_ports U urows rows of_text
  for E :: "'s auth_env" and U :: "'s user_env" and rows urows of_text
begin

lemma login_returns:
  assumes "auth_login E U email password trusted ua ip s = (Inr res, t)"
    and "truthy trusted = None" and "inj_on sn_id (rows s)"
  shows "\<exists>user \<in> urows s. \<exists>digest. us_email user = email \<and> us_password user = Some digest
     \<and> of_text digest password
     \<and> (if us_twoFactorEnabled user then res = RequiresTwoFactor \<and> rows t = rows s
        else res = LoggedIn (us_id user) (us_email user) (us_name user)
             \<and> (\<exists>r. sn_userId r = us_id user \<and> sn_isActive r \<and> rows t = insert r (rows s)))"
proof -
  from assms(1) obtain user s1 digest s2 where
      f: "users_findOne U None (Some email) s = (Inr user, s1)"
    and d: "truthy (us_password user) = Some digest"
    and v: "argon2_verify E digest password s1 = (Inr True, s2)"
    by (auto simp: auth_login_def io_inv split: option.splits if_splits)
  note user = ufindOne_returns[OF f]
  have digest: "us_password user = Some digest" "of_text digest password"
    using d verify_of[OF v] by (auto simp: truthy_def split: option.splits if_splits)
  have s2: "rows s2 = rows s" using user keepsD[OF verify_rows v] by simp
  show ?thesis
  proof (cases "us_twoFactorEnabled user")
    case True
    then obtain tok s3 where j: "jwt_sign E JWT_ACCESS_SECRET (PendingClaims (us_id user)) s2 = (Inr tok, s3)"
      and c: "modifyM (set_cookie E ''two_factor_pending'' (lax_cookie E tok (5 * 60 * 1000))) s3 = (Inr (), t)"
      and res: "res = RequiresTwoFactor"
      using assms(1,2) f d v by (auto simp: auth_login_def seqM_Inr io_prim_iff)
    have "rows t = rows s" using keepsD[OF sign_rows j] keepsD[OF frames(5) c] s2 by simp
    then show ?thesis using True res user digest by (auto simp: matches_where_def)
  next
    case False
    then obtain r where c: "createSessionWithTokens E (us_id user) ua ip s2 = (Inr r, t)"
      and res: "res = LoggedIn (us_id user) (us_email user) (us_name user)"
      using assms(1) f d v by (auto simp: auth_login_def seqM_Inr io_prim_iff)
    have "inj_on sn_id (rows s2)" using assms(3) s2 by simp
    from createSession_returns[OF c this] s2 obtain r' where
      "sn_userId r' = us_id user" "sn_isActive r'" "rows t = insert r' (rows s)" by auto
    then show ?thesis using False res user digest by (auto simp: matches_where_def)
  qed
qed

end

text \<open>The demonstration world with users.\<close>

record login_world = session_world +
  lw_users :: "user_row list"

definition demo_user_row :: "'x login_world_scheme \<Rightarrow> nat \<Rightarrow> user_data \<Rightarrow> user_row" where
  "demo_user_row s k d =
     \<lparr>us_id = replicate (length (lw_users s) + k) CHR ''u'', us_name = ud_name d,
      us_lastName = ud_lastName d, us_avatar = ud_avatar d, us_email = or_else (ud_email d) '''',
      us_backupEmail = ud_backupEmail d, us_phone = ud_phone d, us_password = ud_password d,
      us_country = Some (or_else (ud_country d) ''AR''),
      us_language = Some (or_else (ud_language d) ''es-ES''),
      us_emailConfirm = or_else (ud_emailConfirm d) False,
      us_backupEmailConfirm = or_else (ud_backupEmailConfirm d) False,
      us_phoneConfirm = or_else (ud_phoneConfirm d) False,
      us_twoFactorEnabled = or_else (ud_twoFactorEnabled d) False,
      us_twoFactorSecret = ud_twoFactorSecret d, us_status = or_else (ud_status d) ACTIVE,
      us_authProvider = or_else (ud_authProvider d) LOCAL, us_role = CUSTOMER,
      us_createdAt = dw_clock s, us_updatedAt = dw_clock s\<rparr>"

definition demo_users :: "'x login_world_scheme user_env" where
  "demo_users =
     \<lparr>users = list_delegate lw_users (\<lambda>rs s. s\<lparr>lw_users := rs\<rparr>) demo_user_row
        (\<lambda>s r. r\<lparr>us_updatedAt := dw_clock s\<rparr>)
        (\<lambda>r r'. us_id r = us_id r' \<or> us_email r = us_email r'),
      password_hash = (\<lambda>p. ret (''argon2:'' @ p)), users_now = dw_clock\<rparr>"

definition demo_urows :: "'x login_world_scheme \<Rightarrow> user_row set" where
  "demo_urows s = set (lw_users s)"

lemma demo_user_stamp: "user_stamp demo_users = (\<lambda>s r. r\<lparr>us_updatedAt := dw_clock s\<rparr>)"
  by (simp add: user_stamp_def demo_users_def fun_eq_iff)

interpretation demo_login: login_ports demo_env demo_users
  "demo_rows :: 'x login_world_scheme \<Rightarrow> session_row set" demo_urows demo_digest
proof (intro login_ports.intro demo.auth_ports_axioms user_ports.intro, goal_cases)
  case 1
  have t: "table (users demo_users) (\<lambda>s. set (lw_users s)) demo_rows
      (\<lambda>s n r. (\<exists>i. r = demo_user_row s i n)
         \<and> (\<forall>x \<in> set (lw_users s). \<not> (us_id r = us_id x \<or> us_email r = us_email x)))
      (\<lambda>s r. r\<lparr>us_updatedAt := dw_clock s\<rparr>)"
    unfolding demo_users_def user_env.simps by (rule list_delegate_table) (simp_all add: demo_rows_def)
  have rw: "demo_urows = (\<lambda>s. set (lw_users s))" by (simp add: demo_urows_def fun_eq_iff)
  show ?case unfolding rw demo_user_stamp
    by (rule table_weaken[OF t]) (auto simp: user_made_def demo_user_row_def)
qed (auto simp: demo_users_def ret_def demo_digest_def intro: keeps_prim)

section \<open>Properties\<close>

definition demo_user :: user_row where
  "demo_user = \<lparr>us_id = ''u1'', us_name = Some ''Ana'', us_lastName = None, us_avatar = None,
     us_email = ''ana@x'', us_backupEmail = None, us_phone = None, us_password = Some ''argon2:pw'',
     us_country = None, us_language = None, us_emailConfirm = True, us_backupEmailConfirm = False,
     us_phoneConfirm = False, us_twoFactorEnabled = True, us_twoFactorSecret = Some ''k'',
     us_status = ACTIVE, us_authProvider = LOCAL, us_role = CUSTOMER, us_createdAt = 0, us_updatedAt = 0\<rparr>"

definition demo_login_world :: login_world where
  "demo_login_world = \<lparr>dw_sessions = [], dw_cookies = [], dw_clock = 5, lw_users = [demo_user]\<rparr>"

text \<open>C19. A login without a trusted-device cookie returns only for an email of a user with that
  password; a user with two-factor authentication gets no session but the request for the second
  factor, any other exactly one session of their own.\<close>

theorem login_needs_second_factor:
  assumes "login_ports E U rows urows of_text" and "inj_on sn_id (rows s)"
    and "truthy trusted = None" and "auth_login E U email password trusted ua ip s = (Inr res, t)"
  shows "\<exists>user \<in> urows s. \<exists>digest. us_email user = email \<and> us_password user = Some digest
     \<and> of_text digest password
     \<and> (if us_twoFactorEnabled user then res = RequiresTwoFactor \<and> rows t = rows s
        else res = LoggedIn (us_id user) (us_email user) (us_name user)
             \<and> (\<exists>r. sn_userId r = us_id user \<and> sn_isActive r \<and> rows t = insert r (rows s)))"
  by (rule login_ports.login_returns[OF assms(1,4,3,2)])

theorem login_needs_second_factor_witness:
  "\<exists>user \<in> demo_urows demo_login_world. us_email user = ''ana@x'' \<and> us_twoFactorEnabled user
     \<and> demo_rows (snd (auth_login demo_env demo_users ''ana@x'' ''pw'' None None None demo_login_world))
       = demo_rows demo_login_world"
proof -
  let ?m = "auth_login demo_env demo_users ''ana@x'' ''pw'' None None None"
  have "fst (?m demo_login_world) = Inr RequiresTwoFactor" by code_simp
  then have m: "?m demo_login_world = (Inr RequiresTwoFactor, snd (?m demo_login_world))"
    by (metis prod.collapse)
  have inj: "inj_on sn_id (demo_rows demo_login_world)" by (simp add: demo_rows_def demo_login_world_def)
  have "truthy None = None" by (simp add: truthy_def)
  from login_needs_second_factor[OF demo_login.login_ports_axioms inj this m]
  show ?thesis by (auto split: if_splits)
qed

text \<open>C21. The trusted-device check looks only at the signature: with a correct password, a cookie
  holding any token signed with the refresh secret opens a session without the second factor,
  whatever its claims, another user's subject and an ordinary refresh token included.\<close>

theorem trusted_device_any_claims:
  assumes "users_findOne U None (Some email) s = (Inr user, s1)"
    and "truthy (us_password user) = Some digest" and "us_twoFactorEnabled user"
    and "argon2_verify E digest password s1 = (Inr True, s2)"
    and "truthy (Some tok) = Some tok" and "jwt_verify E JWT_REFRESH_SECRET tok s2 = (Inr c, s3)"
    and "createSessionWithTokens E (us_id user) ua ip s3 = (Inr r, t)"
  shows "auth_login E U email password (Some tok) ua ip s
       = (Inr (LoggedIn (us_id user) (us_email user) (us_name user)), t)"
proof -
  have "orNull (seqM (jwt_verify E JWT_REFRESH_SECRET tok) (\<lambda>_.
          seqM (createSessionWithTokens E (us_id user) ua ip) (\<lambda>_.
          ret (LoggedIn (us_id user) (us_email user) (us_name user))))) s2
      = (Inr (Some (LoggedIn (us_id user) (us_email user) (us_name user))), t)"
    using assms(6,7) by (simp add: orNull_iff seqM_Inr io_prim_iff)
  then show ?thesis
    using assms(1-5) by (simp add: auth_login_def seqM_def ret_def)
qed

theorem trusted_device_any_claims_witness:
  "fst (auth_login demo_env demo_users ''ana@x'' ''pw''
          (Some (demo_token JWT_REFRESH_SECRET (SessionClaims ''mallory'' ''s9'' 0))) None None demo_login_world)
   = Inr (LoggedIn ''u1'' ''ana@x'' (Some ''Ana''))"
proof -
  let ?w = demo_login_world and ?tok = "demo_token JWT_REFRESH_SECRET (SessionClaims ''mallory'' ''s9'' 0)"
  have f: "users_findOne demo_users None (Some ''ana@x'') ?w = (Inr demo_user, ?w)" by code_simp
  have p: "truthy (us_password demo_user) = Some ''argon2:pw''" by code_simp
  have e: "us_twoFactorEnabled demo_user" by code_simp
  have v: "argon2_verify demo_env ''argon2:pw'' ''pw'' ?w = (Inr True, ?w)"
    by (simp add: demo_env_def ret_def)
  have t: "truthy (Some ?tok) = Some ?tok" by code_simp
  have j: "jwt_verify demo_env JWT_REFRESH_SECRET ?tok ?w = (Inr (SessionClaims ''mallory'' ''s9'' 0), ?w)"
    by (simp add: demo_env_def ret_def)
  have "\<not> isl (fst (createSessionWithTokens demo_env (us_id demo_user) None None ?w))" by code_simp
  then obtain r u where c: "createSessionWithTokens demo_env (us_id demo_user) None None ?w = (Inr r, u)"
    using io_returns[of "createSessionWithTokens demo_env (us_id demo_user) None None"] by blast
  show ?thesis
    using trusted_device_any_claims[OF f p e v t j c] by (simp add: demo_user_def)
qed

end
