(* ===== verification/Two_Factor.thy ===== *)
theory Two_Factor
  imports Authentication
begin

text \<open>
  \<open>TwoFactorService\<close> (\<open>src/src/modules/auth/two-factor.service.ts\<close>): the rate limiter it keeps in
  memory, the backup codes and the verification that opens a session. One-time passwords
  (\<open>otplib\<close>), QR codes and random bytes are parameters.
\<close>

section \<open>The rate limiter of the second factor\<close>

definition RATE_LIMIT_MAX :: nat where "RATE_LIMIT_MAX = 5"
definition RATE_LIMIT_WINDOW :: int where "RATE_LIMIT_WINDOW = 15 * 60 * 1000"

type_synonym rate_limit_map = "string \<Rightarrow> int list option"

definition isRateLimited :: "int \<Rightarrow> string \<Rightarrow> rate_limit_map \<Rightarrow> bool \<times> rate_limit_map" where
  "isRateLimited now userId m =
     (let attempts = or_else (m userId) [];
          recent = filter (\<lambda>t. now - t < RATE_LIMIT_WINDOW) attempts
      in (RATE_LIMIT_MAX \<le> length recent, m(userId := Some recent)))"

definition recordAttempt :: "int \<Rightarrow> string \<Rightarrow> rate_limit_map \<Rightarrow> rate_limit_map" where
  "recordAttempt now userId m = m(userId := Some (or_else (m userId) [] @ [now]))"

text \<open>What \<open>verifyTwoFactor\<close> does with the map: the check, and the record of the attempt when the
  check passed.\<close>

definition limiter_step :: "int \<Rightarrow> string \<Rightarrow> rate_limit_map \<Rightarrow> bool \<times> rate_limit_map" where
  "limiter_step now userId m =
     (case isRateLimited now userId m of
        (True, m') \<Rightarrow> (False, m')
      | (False, m') \<Rightarrow> (True, recordAttempt now userId m'))"

text \<open>The attempts of a sequence (time and user, in order of time) the limiter lets through.\<close>

fun let_through :: "(int \<times> string) list \<Rightarrow> rate_limit_map \<Rightarrow> (int \<times> string) list" where
  "let_through [] m = []"
| "let_through ((now, u) # rest) m =
     (case limiter_step now u m of
        (True, m') \<Rightarrow> (now, u) # let_through rest m'
      | (False, m') \<Rightarrow> let_through rest m')"

definition times_of :: "string \<Rightarrow> (int \<times> string) list \<Rightarrow> int list" where
  "times_of u xs = map fst (filter (\<lambda>(t, v). v = u) xs)"

definition within :: "string \<Rightarrow> int \<Rightarrow> (int \<times> string) list \<Rightarrow> int list" where
  "within u t0 xs = filter (\<lambda>t. t0 - RATE_LIMIT_WINDOW < t \<and> t \<le> t0) (times_of u xs)"

abbreviation recent :: "int \<Rightarrow> int list \<Rightarrow> int list" where
  "recent now ts \<equiv> filter (\<lambda>t. now - RATE_LIMIT_WINDOW < t) ts"

text \<open>\<open>log\<close> is what has been let through so far: the map of a user holds the recent part of it.\<close>

definition limiter_inv :: "(int \<times> string) list \<Rightarrow> rate_limit_map \<Rightarrow> int \<Rightarrow> bool" where
  "limiter_inv log m now \<longleftrightarrow>
     (\<forall>u t0. length (within u t0 log) \<le> RATE_LIMIT_MAX)
     \<and> (\<forall>u. recent now (or_else (m u) []) = recent now (times_of u log))"

lemma recent_later: "now \<le> now' \<Longrightarrow> recent now xs = recent now ys \<Longrightarrow> recent now' xs = recent now' ys"
proof -
  assume le: "now \<le> now'" and eq: "recent now xs = recent now ys"
  have "recent now' zs = recent now' (recent now zs)" for zs
    using le by (auto intro: filter_cong)
  then show ?thesis using eq by metis
qed

lemma times_of_snoc: "times_of v (log @ [(now, u)]) = times_of v log @ (if v = u then [now] else [])"
  by (simp add: times_of_def)

lemma limiter_step_eq:
  "limiter_step now u m =
     (let r = recent now (or_else (m u) [])
      in if RATE_LIMIT_MAX \<le> length r then (False, m(u := Some r))
         else (True, m(u := Some (r @ [now]))))"
proof -
  have "(now - t < RATE_LIMIT_WINDOW) = (now - RATE_LIMIT_WINDOW < t)" for t by auto
  then show ?thesis
    by (simp add: limiter_step_def isRateLimited_def recordAttempt_def Let_def)
qed

lemma limiter_inv_step:
  assumes "limiter_inv log m now" and "now \<le> now'" and "limiter_step now' u m = (ok, m')"
  shows "limiter_inv (if ok then log @ [(now', u)] else log) m' now'"
proof -
  have bound: "length (within v t0 log) \<le> RATE_LIMIT_MAX" for v t0
    using assms(1) by (simp add: limiter_inv_def)
  have keep: "recent now' (or_else (m v) []) = recent now' (times_of v log)" for v
    using assms(1,2) recent_later unfolding limiter_inv_def by blast
  let ?r = "recent now' (or_else (m u) [])"
  have rr: "recent now' ?r = ?r" by simp
  show ?thesis
  proof (cases ok)
    case False
    then have "m' = m(u := Some ?r)" using assms(3) by (auto simp: limiter_step_eq Let_def split: if_splits)
    then show ?thesis using False bound keep by (simp add: limiter_inv_def)
  next
    case True
    then have m': "m' = m(u := Some (?r @ [now']))" and few: "length ?r < RATE_LIMIT_MAX"
      using assms(3) by (auto simp: limiter_step_eq Let_def split: if_splits)
    have "length (within v t0 (log @ [(now', u)])) \<le> RATE_LIMIT_MAX" for v t0
    proof (cases "v = u \<and> t0 - RATE_LIMIT_WINDOW < now' \<and> now' \<le> t0")
      case True
      have "within u t0 log = filter (\<lambda>t. t0 - RATE_LIMIT_WINDOW < t \<and> t \<le> t0) (recent now' (times_of u log))"
        unfolding within_def filter_filter using True by (intro filter_cong) auto
      then have "length (within u t0 log) \<le> length ?r"
        unfolding keep[of u] by (metis length_filter_le)
      then show ?thesis using True few by (simp add: within_def times_of_snoc)
    next
      case False
      then have "within v t0 (log @ [(now', u)]) = within v t0 log"
        by (auto simp: within_def times_of_snoc)
      then show ?thesis using bound by simp
    qed
    moreover have "recent now' (or_else (m' v) []) = recent now' (times_of v (log @ [(now', u)]))" for v
      using keep by (simp add: m' times_of_snoc)
    ultimately show ?thesis using True by (simp add: limiter_inv_def)
  qed
qed

lemma let_through_inv:
  assumes "limiter_inv log m now" and "sorted (now # map fst xs)"
  shows "length (within u t0 (log @ let_through xs m)) \<le> RATE_LIMIT_MAX"
  using assms
proof (induction xs m arbitrary: log now rule: let_through.induct)
  case (1 m)
  then show ?case by (simp add: limiter_inv_def)
next
  case (2 now' v rest m)
  obtain ok m' where st: "limiter_step now' v m = (ok, m')" by (cases "limiter_step now' v m")
  have inv: "limiter_inv (if ok then log @ [(now', v)] else log) m' now'"
    using limiter_inv_step[OF 2(3) _ st] 2(4) by simp
  have sorted: "sorted (now' # map fst rest)" using 2(4) by simp
  show ?case
  proof (cases ok)
    case True
    have "length (within u t0 ((log @ [(now', v)]) @ let_through rest m')) \<le> RATE_LIMIT_MAX"
      using 2(1)[where log = "log @ [(now', v)]", OF _ _ _ sorted] st True inv by fastforce
    then show ?thesis using st True by simp
  next
    case False
    have "length (within u t0 (log @ let_through rest m')) \<le> RATE_LIMIT_MAX"
      using 2(2)[OF _ _ _ sorted] st False inv by auto
    then show ?thesis using st False by simp
  qed
qed

section \<open>Backup codes\<close>

definition BACKUP_CODE_LENGTH :: nat where "BACKUP_CODE_LENGTH = 8"
definition BACKUP_CODE_COUNT :: nat where "BACKUP_CODE_COUNT = 10"
definition TRUSTED_DEVICE_DAYS :: int where "TRUSTED_DEVICE_DAYS = 30"

record code_row =
  bc_id :: string
  bc_userId :: string
  bc_code :: string
  bc_usedAt :: "int option"

record 's two_factor_env =
  codes :: "('s, code_row, string \<times> string) delegate"
  generateSecret :: "('s, string) io"
  qrOf :: "string \<Rightarrow> string \<Rightarrow> ('s, string) io"
  verifyOTP :: "string \<Rightarrow> string \<Rightarrow> ('s, bool) io"
  randomBase64url :: "('s, string) io"

definition to_upper :: "char \<Rightarrow> char" where
  "to_upper c = (let n = of_char c :: nat in if 97 \<le> n \<and> n \<le> 122 then char_of (n - 32) else c)"

text \<open>\<open>randomBytes(6).toString("base64url")\<close> is the parameter; the rest of the chain is the code's.\<close>

definition backup_code_of :: "string \<Rightarrow> string" where
  "backup_code_of raw =
     take BACKUP_CODE_LENGTH (map to_upper (filter (\<lambda>c. c \<noteq> CHR ''-'' \<and> c \<noteq> CHR ''_'') raw))"

definition generateBackupCode :: "'s two_factor_env \<Rightarrow> ('s, string) io" where
  "generateBackupCode T = seqM (randomBase64url T) (\<lambda>raw. ret (backup_code_of raw))"

primrec generate_codes :: "'s two_factor_env \<Rightarrow> nat \<Rightarrow> string list \<Rightarrow> ('s, string list) io" where
  "generate_codes T 0 acc = ret acc"
| "generate_codes T (Suc k) acc =
     seqM (generateBackupCode T) (\<lambda>c. generate_codes T k (acc @ [c]))"

primrec hashBackupCodes :: "'s auth_env \<Rightarrow> string list \<Rightarrow> ('s, string list) io" where
  "hashBackupCodes E [] = ret []"
| "hashBackupCodes E (c # cs) =
     seqM (argon2_hash E c) (\<lambda>h. seqM (hashBackupCodes E cs) (\<lambda>hs. ret (h # hs)))"

definition newBackupCodes ::
  "'s auth_env \<Rightarrow> 's two_factor_env \<Rightarrow> string \<Rightarrow> ('s, string list) io" where
  "newBackupCodes E T userId =
     seqM (generate_codes T BACKUP_CODE_COUNT []) (\<lambda>cs.
     seqM (hashBackupCodes E cs) (\<lambda>hashed.
     seqM (createMany (codes T) (map (\<lambda>h. (userId, h)) hashed)) (\<lambda>_.
     ret cs)))"

definition regenerateBackupCodes ::
  "'s auth_env \<Rightarrow> 's two_factor_env \<Rightarrow> string \<Rightarrow> ('s, string list) io" where
  "regenerateBackupCodes E T userId =
     seqM (deleteMany (codes T) (\<lambda>r. bc_userId r = userId)) (\<lambda>_. newBackupCodes E T userId)"

section \<open>Turning the second factor on and off\<close>

definition generateTwoFactor ::
  "'s user_env \<Rightarrow> 's two_factor_env \<Rightarrow> string \<Rightarrow> ('s, string \<times> string) io" where
  "generateTwoFactor U T userId =
     seqM (users_findOne U (Some userId) None) (\<lambda>user.
     seqM (generateSecret T) (\<lambda>sec.
     seqM (qrOf T (us_email user) sec) (\<lambda>qrCode.
     seqM (users_updateTwoFactor U userId None (Some (Some sec))) (\<lambda>_.
     ret (qrCode, sec)))))"

definition enableTwoFactor ::
  "'s auth_env \<Rightarrow> 's user_env \<Rightarrow> 's two_factor_env \<Rightarrow> string \<Rightarrow> string \<Rightarrow> ('s, string \<times> string list) io"
where
  "enableTwoFactor E U T userId code =
     seqM (users_findOne U (Some userId) None) (\<lambda>user.
     case truthy (us_twoFactorSecret user) of
       None \<Rightarrow> throw (BadRequestException ''Call /auth/2fa/generate first'')
     | Some sec \<Rightarrow>
         seqM (verifyOTP T code sec) (\<lambda>valid.
         if \<not> valid then throw (UnauthorizedException ''Invalid two-factor code'')
         else
           seqM (users_updateTwoFactor U userId (Some True) None) (\<lambda>_.
           seqM (newBackupCodes E T userId) (\<lambda>cs.
           ret (''Two-factor authentication enabled'', cs)))))"

definition disableTwoFactor ::
  "'s user_env \<Rightarrow> 's two_factor_env \<Rightarrow> string \<Rightarrow> string \<Rightarrow> ('s, string) io" where
  "disableTwoFactor U T userId code =
     seqM (users_findOne U (Some userId) None) (\<lambda>user.
     case (us_twoFactorEnabled user, truthy (us_twoFactorSecret user)) of
       (True, Some sec) \<Rightarrow>
         seqM (verifyOTP T code sec) (\<lambda>valid.
         if \<not> valid then throw (UnauthorizedException ''Invalid two-factor code'')
         else
           seqM (users_updateTwoFactor U userId (Some False) (Some None)) (\<lambda>_.
           seqM (deleteMany (codes T) (\<lambda>r. bc_userId r = userId)) (\<lambda>_.
           ret ''Two-factor authentication disabled'')))
     | _ \<Rightarrow> throw (BadRequestException ''Two-factor is not enabled''))"

section \<open>Verifying\<close>

text \<open>The service's own field beside the world its calls act on.\<close>

record 'w two_factor_state =
  rateLimitMap :: rate_limit_map
  tf_world :: 'w

definition on_world :: "('w, 'a) io \<Rightarrow> ('w two_factor_state, 'a) io" where
  "on_world m s = (case m (tf_world s) of (r, w) \<Rightarrow> (r, s\<lparr>tf_world := w\<rparr>))"

fun try_codes ::
  "'s auth_env \<Rightarrow> 's two_factor_env \<Rightarrow> string \<Rightarrow> code_row list \<Rightarrow> ('s, bool) io" where
  "try_codes E T code [] = ret False"
| "try_codes E T code (bc # rest) =
     seqM (argon2_verify E (bc_code bc) code) (\<lambda>ok.
     if ok then
       seqM (readM (Date_now E)) (\<lambda>now.
       seqM (update (codes T) (\<lambda>r. bc_id r = bc_id bc) (\<lambda>r. r\<lparr>bc_usedAt := Some now\<rparr>)) (\<lambda>_.
       ret True))
     else try_codes E T code rest)"

definition check_second_factor ::
  "'s auth_env \<Rightarrow> 's two_factor_env \<Rightarrow> string \<Rightarrow> string \<Rightarrow> string \<Rightarrow> ('s, unit) io" where
  "check_second_factor E T userId sec code =
     (if length code = BACKUP_CODE_LENGTH then
        seqM (findMany (codes T) (\<lambda>r. bc_userId r = userId \<and> bc_usedAt r = None) anyOrder) (\<lambda>backupCodes.
        seqM (try_codes E T code backupCodes) (\<lambda>matched.
        if \<not> matched then throw (UnauthorizedException ''Invalid backup code'') else ret ()))
      else
        seqM (verifyOTP T code sec) (\<lambda>valid.
        if \<not> valid then throw (UnauthorizedException ''Invalid two-factor code'') else ret ()))"

definition verifyTwoFactor ::
  "'w auth_env \<Rightarrow> 'w user_env \<Rightarrow> 'w two_factor_env \<Rightarrow> string \<Rightarrow> string \<Rightarrow> string option \<Rightarrow> string option
   \<Rightarrow> ('w two_factor_state, login_result) io" where
  "verifyTwoFactor E U T userId code userAgent ip =
     seqM (on_world (users_findOne U (Some userId) None)) (\<lambda>user.
     case (us_twoFactorEnabled user, truthy (us_twoFactorSecret user)) of
       (True, Some sec) \<Rightarrow>
         seqM (\<lambda>s. case isRateLimited (Date_now E (tf_world s)) userId (rateLimitMap s) of
                  (b, m) \<Rightarrow> (Inr b, s\<lparr>rateLimitMap := m\<rparr>)) (\<lambda>limited.
         if limited then
           throw (HttpException 429 ''Too many 2FA attempts. Try again in 15 minutes.'')
         else
           seqM (modifyM (\<lambda>s. s\<lparr>rateLimitMap :=
                   recordAttempt (Date_now E (tf_world s)) userId (rateLimitMap s)\<rparr>)) (\<lambda>_.
           seqM (on_world (check_second_factor E T userId sec code)) (\<lambda>_.
           seqM (on_world (modifyM (clear_cookie E ''two_factor_pending''))) (\<lambda>_.
           seqM (on_world (createSessionWithTokens E (us_id user) userAgent ip)) (\<lambda>_.
           seqM (on_world (jwt_sign E JWT_REFRESH_SECRET (TrustedClaims userId))) (\<lambda>trustedToken.
           seqM (on_world (modifyM (set_cookie E ''trusted_device''
                   (lax_cookie E trustedToken (TRUSTED_DEVICE_DAYS * 24 * 60 * 60 * 1000))))) (\<lambda>_.
           ret (LoggedIn (us_id user) (us_email user) (us_name user))))))))) 
     | _ \<Rightarrow> throw (BadRequestException ''Two-factor is not enabled''))"

section \<open>What the backup codes guarantee\<close>

definition code_made :: "string \<times> string \<Rightarrow> code_row \<Rightarrow> bool" where
  "code_made n r \<longleftrightarrow> bc_userId r = fst n \<and> bc_code r = snd n \<and> bc_usedAt r = None"

text \<open>The unused codes of a user with a digest of the text.\<close>

definition matching :: "(string \<Rightarrow> string \<Rightarrow> bool) \<Rightarrow> string \<Rightarrow> string \<Rightarrow> code_row set \<Rightarrow> code_row set" where
  "matching of_text u code R = {r \<in> R. bc_userId r = u \<and> bc_usedAt r = None \<and> of_text (bc_code r) code}"

text \<open>A history of a text: the checks of it for a user, with the number of those that passed, and between them whatever
  else happens to the codes that gives the user no further code of this text.\<close>

inductive code_history ::
  "'s auth_env \<Rightarrow> 's two_factor_env \<Rightarrow> ('s \<Rightarrow> code_row set) \<Rightarrow> (string \<Rightarrow> string \<Rightarrow> bool) \<Rightarrow> string \<Rightarrow> string
   \<Rightarrow> 's \<Rightarrow> nat \<Rightarrow> 's \<Rightarrow> bool"
  for E T crows of_text u code where
  over: "code_history E T crows of_text u code s 0 s"
| passed: "check_second_factor E T u sec code s = (Inr (), t) \<Longrightarrow> code_history E T crows of_text u code t k v
    \<Longrightarrow> code_history E T crows of_text u code s (Suc k) v"
| refused: "check_second_factor E T u sec code s = (Inl e, t) \<Longrightarrow> code_history E T crows of_text u code t k v
    \<Longrightarrow> code_history E T crows of_text u code s k v"
| elsewhere: "matching of_text u code (crows t) \<subseteq> matching of_text u code (crows s) \<Longrightarrow> inj_on bc_id (crows t)
    \<Longrightarrow> code_history E T crows of_text u code t k v \<Longrightarrow> code_history E T crows of_text u code s k v"

locale backup_codes =
  fixes E :: "'s auth_env" and T :: "'s two_factor_env" and crows :: "'s \<Rightarrow> code_row set"
    and of_text :: "string \<Rightarrow> string \<Rightarrow> bool"
  assumes ctab: "table (codes T) crows (\<lambda>_. ())
      (\<lambda>s n r. code_made n r \<and> bc_id r \<notin> bc_id ` crows s) (\<lambda>s r. r)"
    and cverify_keeps: "keeps crows (argon2_verify E h p)"
    and cverify_of: "argon2_verify E h p s = (Inr b, t) \<Longrightarrow> b = of_text h p"
begin

lemmas ctab_returns = table.returns[OF ctab]
lemmas ctab_throws = table.throws[OF ctab]

lemma try_codes_returns:
  assumes "try_codes E T code bcs s = (Inr b, t)" and "set bcs \<subseteq> crows s" and "inj_on bc_id (crows s)"
  shows "if b then \<exists>bc \<in> set bcs. \<exists>n. of_text (bc_code bc) code
             \<and> crows t = insert (bc\<lparr>bc_usedAt := Some n\<rparr>) (crows s - {bc})
         else (\<forall>bc \<in> set bcs. \<not> of_text (bc_code bc) code) \<and> crows t = crows s"
  using assms
proof (induction bcs arbitrary: s)
  case Nil
  then show ?case by (auto simp: io_prim_iff)
next
  case (Cons bc rest)
  from Cons.prems(1) obtain ok s1 where v: "argon2_verify E (bc_code bc) code s = (Inr ok, s1)"
    and rest: "(if ok then seqM (readM (Date_now E)) (\<lambda>now.
        seqM (update (codes T) (\<lambda>r. bc_id r = bc_id bc) (\<lambda>r. r\<lparr>bc_usedAt := Some now\<rparr>)) (\<lambda>_. ret True))
      else try_codes E T code rest) s1 = (Inr b, t)"
    by (auto simp: seqM_Inr)
  have s1: "crows s1 = crows s" by (rule keepsD[OF cverify_keeps v])
  have ok: "ok = of_text (bc_code bc) code" by (rule cverify_of[OF v])
  show ?case
  proof (cases ok)
    case True
    then obtain n r where u: "update (codes T) (\<lambda>r. bc_id r = bc_id bc) (\<lambda>r. r\<lparr>bc_usedAt := Some n\<rparr>) s1 = (Inr r, t)"
      and b: "b = True" using rest by (auto simp: seqM_Inr io_prim_iff)
    from ctab_returns(8)[OF u] s1 obtain x where x: "x \<in> crows s" "bc_id x = bc_id bc"
      "crows t = insert (x\<lparr>bc_usedAt := Some n\<rparr>) (crows s - {x})" by auto
    have "x = bc" using inj_onD[OF Cons.prems(3)] x Cons.prems(2) by simp
    then show ?thesis using True ok b x by auto
  next
    case False
    then have "try_codes E T code rest s1 = (Inr b, t)" using rest by simp
    from Cons.IH[OF this] Cons.prems(2,3) s1 False ok show ?thesis by (auto split: if_splits)
  qed
qed

lemma backup_code_returns:
  assumes "check_second_factor E T u sec code s = (Inr (), t)" and "length code = 8"
    and "inj_on bc_id (crows s)"
  shows "\<exists>bc \<in> crows s. \<exists>n. bc_userId bc = u \<and> bc_usedAt bc = None \<and> of_text (bc_code bc) code
     \<and> crows t = insert (bc\<lparr>bc_usedAt := Some n\<rparr>) (crows s - {bc})"
proof -
  from assms(1,2) obtain bcs s1 where
      f: "findMany (codes T) (\<lambda>r. bc_userId r = u \<and> bc_usedAt r = None) anyOrder s = (Inr bcs, s1)"
    and tr: "try_codes E T code bcs s1 = (Inr True, t)"
    by (auto simp: check_second_factor_def BACKUP_CODE_LENGTH_def io_inv split: if_splits)
  from ctab_returns(2)[OF f] have bcs: "set bcs = {r \<in> crows s. bc_userId r = u \<and> bc_usedAt r = None}"
    and s1: "crows s1 = crows s" by auto
  have "set bcs \<subseteq> crows s1" "inj_on bc_id (crows s1)" using bcs s1 assms(3) by auto
  from try_codes_returns[OF tr this] bcs s1 show ?thesis by auto
qed

lemma try_codes_throws: "try_codes E T code bcs s = (Inl e, t) \<Longrightarrow> crows t = crows s"
proof (induction bcs arbitrary: s)
  case (Cons bc rest)
  obtain ok s1 where v: "argon2_verify E (bc_code bc) code s = (ok, s1)"
    by (cases "argon2_verify E (bc_code bc) code s")
  have s1: "crows s1 = crows s" by (rule keepsD[OF cverify_keeps v])
  from Cons.prems v consider "t = s1" | "try_codes E T code rest s1 = (Inl e, t)"
    | n where "update (codes T) (\<lambda>r. bc_id r = bc_id bc) (\<lambda>r. r\<lparr>bc_usedAt := Some n\<rparr>) s1 = (Inl e, t)"
    by (auto simp: io_inv split: if_splits)
  then show ?case
  proof cases
    case 2
    then show ?thesis using Cons.IH s1 by simp
  next
    case 3
    then show ?thesis using ctab_throws(8) s1 by metis
  qed (simp add: s1)
qed (simp add: io_inv)

text \<open>A check of a text as long as a backup code that does not pass changes no code.\<close>

lemma backup_code_refused:
  assumes "check_second_factor E T u sec code s = (Inl e, t)" and "length code = 8" and "inj_on bc_id (crows s)"
  shows "crows t = crows s"
proof -
  from assms(1,2) consider "findMany (codes T) (\<lambda>r. bc_userId r = u \<and> bc_usedAt r = None) anyOrder s = (Inl e, t)"
    | bcs s1 q where "findMany (codes T) (\<lambda>r. bc_userId r = u \<and> bc_usedAt r = None) anyOrder s = (Inr bcs, s1)"
      "try_codes E T code bcs s1 = (q, t)" "q = Inl e \<or> q = Inr False"
    by (auto simp: check_second_factor_def BACKUP_CODE_LENGTH_def io_inv split: if_splits)
  then show ?thesis
  proof cases
    case 1
    then show ?thesis using ctab_throws(2) by metis
  next
    case 2
    from ctab_returns(2)[OF 2(1)] have bcs: "set bcs \<subseteq> crows s1" and s1: "crows s1 = crows s" by auto
    show ?thesis
    proof (cases q)
      case (Inl x)
      then show ?thesis using try_codes_throws 2(2) s1 by metis
    next
      case (Inr b)
      then show ?thesis using try_codes_returns[of code bcs s1 b t] 2(2,3) bcs s1 assms(3) by simp
    qed
  qed
qed

text \<open>Each check that passes takes one of the unused codes of the text away, so there are no more of them than such codes.\<close>

lemma code_history_bound:
  assumes "code_history E T crows of_text u code s k v" and "length code = 8" and "inj_on bc_id (crows s)"
    and "finite (matching of_text u code (crows s))"
  shows "k \<le> card (matching of_text u code (crows s))"
  using assms
proof (induction rule: code_history.induct)
  case (passed sec s t k v)
  from backup_code_returns[OF passed(1,4,5)] obtain bc n where bc: "bc \<in> matching of_text u code (crows s)"
    and rows: "crows t = insert (bc\<lparr>bc_usedAt := Some n\<rparr>) (crows s - {bc})" by (auto simp: matching_def)
  have "inj_on bc_id (crows t)" unfolding rows
    using passed(5) bc by (auto simp: inj_on_def matching_def)
  moreover have m: "matching of_text u code (crows t) = matching of_text u code (crows s) - {bc}"
  proof -
    let ?used = "bc\<lparr>bc_usedAt := Some n\<rparr>"
    have used: "bc_usedAt ?used \<noteq> None" by simp
    then have "?used \<notin> matching of_text u code (crows t)" unfolding matching_def by blast
    moreover have "?used \<noteq> bc" using used bc unfolding matching_def by force
    ultimately show ?thesis using rows by (auto simp: matching_def simp del: code_row.update_convs)
  qed
  ultimately have "k \<le> card (matching of_text u code (crows s) - {bc})" using passed by simp
  moreover have "0 < card (matching of_text u code (crows s))" using bc passed(6) card_gt_0_iff by blast
  ultimately show ?case using bc by (simp add: card_Diff_singleton)
next
  case (refused sec s e t k v)
  then show ?case using backup_code_refused[OF refused(1,4,5)] by simp
next
  case (elsewhere t s k v)
  then have "k \<le> card (matching of_text u code (crows t))" using finite_subset by blast
  also have "\<dots> \<le> card (matching of_text u code (crows s))" using elsewhere by (simp add: card_mono)
  finally show ?case .
qed simp

end

text \<open>The demonstration world with backup codes.\<close>

record second_factor_world = login_world +
  tw_codes :: "code_row list"

definition demo_code_row :: "'x second_factor_world_scheme \<Rightarrow> nat \<Rightarrow> string \<times> string \<Rightarrow> code_row" where
  "demo_code_row s k n = \<lparr>bc_id = replicate (length (tw_codes s) + k) CHR ''b'', bc_userId = fst n,
     bc_code = snd n, bc_usedAt = None\<rparr>"

definition demo_two_factor :: "'x second_factor_world_scheme two_factor_env" where
  "demo_two_factor =
     \<lparr>codes = list_delegate tw_codes (\<lambda>rs s. s\<lparr>tw_codes := rs\<rparr>) demo_code_row (\<lambda>s r. r)
        (\<lambda>r r'. bc_id r = bc_id r' \<or> bc_userId r = bc_userId r' \<and> bc_code r = bc_code r'),
      generateSecret = ret ''k'', qrOf = (\<lambda>email sec. ret ''qr''),
      verifyOTP = (\<lambda>token sec. ret (token = ''123456'')),
      randomBase64url = ret ''ab-DEfg9''\<rparr>"

definition demo_crows :: "'x second_factor_world_scheme \<Rightarrow> code_row set" where
  "demo_crows s = set (tw_codes s)"

interpretation demo_codes: backup_codes demo_env demo_two_factor
  "demo_crows :: 'x second_factor_world_scheme \<Rightarrow> code_row set" demo_digest
proof (rule backup_codes.intro, goal_cases)
  case 1
  have t: "table (codes demo_two_factor) (\<lambda>s. set (tw_codes s)) (\<lambda>_. ())
      (\<lambda>s n r. (\<exists>i. r = demo_code_row s i n) \<and> (\<forall>x \<in> set (tw_codes s).
         \<not> (bc_id r = bc_id x \<or> bc_userId r = bc_userId x \<and> bc_code r = bc_code x))) (\<lambda>s r. r)"
    unfolding demo_two_factor_def two_factor_env.simps by (rule list_delegate_table) simp_all
  have rw: "demo_crows = (\<lambda>s. set (tw_codes s))" by (simp add: demo_crows_def fun_eq_iff)
  show ?case unfolding rw
  proof (rule table_weaken[OF t], elim conjE exE, intro conjI)
    fix s :: "'x second_factor_world_scheme" and n r i assume r: "r = demo_code_row s i n"
      and new: "\<forall>x\<in>set (tw_codes s). \<not> (bc_id r = bc_id x \<or> bc_userId r = bc_userId x \<and> bc_code r = bc_code x)"
    show "code_made n r" by (simp add: r code_made_def demo_code_row_def)
    show "bc_id r \<notin> bc_id ` set (tw_codes s)" using new by blast
  qed
qed (auto simp: demo_env_def ret_def demo_digest_def intro: keeps_prim)

section \<open>Properties\<close>

definition demo_code :: code_row where
  "demo_code = \<lparr>bc_id = ''c1'', bc_userId = ''u1'', bc_code = ''argon2:ABCDEFGH'', bc_usedAt = None\<rparr>"

definition demo_second_factor_world :: second_factor_world where
  "demo_second_factor_world = \<lparr>dw_sessions = [], dw_cookies = [], dw_clock = 5, lw_users = [demo_user],
     tw_codes = [demo_code]\<rparr>"



text \<open>Some backup codes cannot be used: when the random text has a \<open>-\<close> or \<open>_\<close>, which the code
  removes, the backup code handed to the user is shorter than eight characters, and the check then
  takes it for a one-time password and never looks at the stored backup codes.\<close>

theorem short_backup_code_unusable:
  assumes "length raw = 8" and "\<exists>c \<in> set raw. c = CHR ''-'' \<or> c = CHR ''_''"
  shows "length (backup_code_of raw) < BACKUP_CODE_LENGTH
       \<and> check_second_factor E T u sec (backup_code_of raw)
         = seqM (verifyOTP T (backup_code_of raw) sec) (\<lambda>valid.
             if \<not> valid then throw (UnauthorizedException ''Invalid two-factor code'') else ret ())"
proof -
  obtain c where "c \<in> set raw" and "\<not> (c \<noteq> CHR ''-'' \<and> c \<noteq> CHR ''_'')" using assms(2) by blast
  then have "length (filter (\<lambda>c. c \<noteq> CHR ''-'' \<and> c \<noteq> CHR ''_'') raw) < length raw"
    by (rule length_filter_less)
  then have "length (backup_code_of raw) < BACKUP_CODE_LENGTH"
    using assms(1) by (simp add: backup_code_of_def BACKUP_CODE_LENGTH_def)
  then show ?thesis by (simp add: check_second_factor_def)
qed

theorem short_backup_code_unusable_witness:
  "backup_code_of ''ab-DEfg9'' = ''ABDEFG9'' \<and> length (backup_code_of ''ab-DEfg9'') < BACKUP_CODE_LENGTH"
proof
  show "backup_code_of ''ab-DEfg9'' = ''ABDEFG9''" by code_simp
  show "length (backup_code_of ''ab-DEfg9'') < BACKUP_CODE_LENGTH"
    by (rule short_backup_code_unusable[of "''ab-DEfg9''", THEN conjunct1]) simp_all
qed

text \<open>C23. The rate limiter holds: of the second-factor attempts of a user, at most five are let
  through to the code check in any window of fifteen minutes, for any sequence of attempts of any
  users in the order of time.\<close>

theorem rate_limit_holds:
  assumes "sorted (map fst xs)"
  shows "length (within u t0 (let_through xs (\<lambda>_. None))) \<le> RATE_LIMIT_MAX"
proof (cases xs)
  case Nil
  then show ?thesis by (simp add: within_def times_of_def)
next
  case (Cons x rest)
  have inv: "limiter_inv [] (\<lambda>_. None) (fst x)"
    by (simp add: limiter_inv_def within_def times_of_def)
  have "sorted (fst x # map fst xs)" using assms Cons by auto
  from let_through_inv[OF inv this, of u t0] show ?thesis by simp
qed

theorem rate_limit_holds_witness:
  "let xs = map (\<lambda>k. (1000 * int k, ''u'')) [0..<8]
   in length (let_through xs (\<lambda>_. None)) = 5
      \<and> length (within ''u'' 7000 (let_through xs (\<lambda>_. None))) \<le> RATE_LIMIT_MAX"
proof -
  let ?xs = "map (\<lambda>k. (1000 * int k, ''u'')) [0..<8]"
  have "sorted (map fst ?xs)" by code_simp
  from rate_limit_holds[OF this] have "length (within ''u'' 7000 (let_through ?xs (\<lambda>_. None))) \<le> RATE_LIMIT_MAX" .
  moreover have "length (let_through ?xs (\<lambda>_. None)) = 5" by code_simp
  ultimately show ?thesis by simp
qed

end
