(* ===== verification/Recovery.thy ===== *)
theory Recovery
  imports Authentication Decimal_Text
begin

text \<open>
  \<open>TokensService\<close> (\<open>src/src/modules/tokens/tokens.service.ts\<close>) over the cache it is injected with, and
  \<open>PasswordRecoveryService\<close> (\<open>src/src/modules/auth/password-recovery.service.ts\<close>) over it and the user
  service. The cache, the random number and the mailer are parameters; \<open>recovery_ports\<close> is what is
  relied on.
\<close>

section \<open>One-time tokens\<close>

datatype tokenType =
  CONFIRM_EMAIL | CONFIRM_BACKUP_EMAIL | CONFIRM_PHONE | CONFIRM_BACKUP_PHONE | RECOVERY_PASSWORD | TWO_FACTOR

fun tokenType_name :: "tokenType \<Rightarrow> string" where
  "tokenType_name CONFIRM_EMAIL = ''confirm_email''"
| "tokenType_name CONFIRM_BACKUP_EMAIL = ''confirm_backup_email''"
| "tokenType_name CONFIRM_PHONE = ''confirm_phone''"
| "tokenType_name CONFIRM_BACKUP_PHONE = ''confirm_backup_phone''"
| "tokenType_name RECOVERY_PASSWORD = ''recovery_password''"
| "tokenType_name TWO_FACTOR = ''two_factor''"

record token_payload =
  tp_userId :: string
  tp_type :: tokenType
  tp_token :: string

record 's token_env =
  cache_set :: "string \<Rightarrow> token_payload \<Rightarrow> int \<Rightarrow> ('s, unit) io"
  cache_get :: "string \<Rightarrow> ('s, token_payload option) io"
  cache_del :: "string \<Rightarrow> ('s, unit) io"
  random900000 :: "('s, nat) io"
  sendEmail :: "string \<Rightarrow> string \<Rightarrow> string \<Rightarrow> ('s, unit) io"

text \<open>\<open>Math.floor(100000 + Math.random() * 900000).toString()\<close>; the parameter is the whole part of
  \<open>Math.random() * 900000\<close>.\<close>

definition randomToken :: "'s token_env \<Rightarrow> ('s, string) io" where
  "randomToken K = seqM (random900000 K) (\<lambda>n. ret (show_nat (100000 + n)))"

definition getKey :: "tokenType \<Rightarrow> string \<Rightarrow> string" where
  "getKey type userId = ''token'' @ tokenType_name type @ '':user:'' @ userId"

definition generateToken :: "'s token_env \<Rightarrow> string \<Rightarrow> tokenType \<Rightarrow> int option \<Rightarrow> ('s, string) io" where
  "generateToken K userId type ttl =
     catchM
       (seqM (randomToken K) (\<lambda>token.
        seqM (cache_set K (getKey type userId)
                \<lparr>tp_userId = userId, tp_type = type, tp_token = token\<rparr> (or_else ttl 900000)) (\<lambda>_.
        ret token)))
       (\<lambda>error. throw (BadRequestException (''Failed to generate '' @ tokenType_name type @ '' token'')))"

definition validateToken :: "'s token_env \<Rightarrow> string \<Rightarrow> tokenType \<Rightarrow> string \<Rightarrow> ('s, token_payload) io" where
  "validateToken K userId type token =
     catchM
       (seqM (cache_get K (getKey type userId)) (\<lambda>payload.
        case payload of
          None \<Rightarrow> throw (UnauthorizedException ''Invalid or expired token'')
        | Some p \<Rightarrow> if tp_token p \<noteq> token then throw (UnauthorizedException ''Invalid or expired token'')
                    else ret p))
       (\<lambda>error. case error of
          UnauthorizedException m \<Rightarrow> throw (UnauthorizedException m)
        | _ \<Rightarrow> throw (BadRequestException (''Failed to validate '' @ tokenType_name type @ '' token'')))"

definition revokeToken :: "'s token_env \<Rightarrow> string \<Rightarrow> tokenType \<Rightarrow> ('s, bool) io" where
  "revokeToken K userId type =
     catchM
       (seqM (cache_del K (getKey type userId)) (\<lambda>_. ret True))
       (\<lambda>error. throw (BadRequestException (''Failed to revoke '' @ tokenType_name type @ '' token'')))"

section \<open>Password recovery\<close>

definition recovery_subject :: string where
  "recovery_subject = ''PayFlow '' @ [CHR 0xE2, CHR 0x80, CHR 0x94] @ '' Recuperaci'' @ [CHR 0xC3, CHR 0xB3]
     @ ''n de contrase'' @ [CHR 0xC3, CHR 0xB1] @ ''a''"

definition recovery_html :: "string \<Rightarrow> string" where
  "recovery_html code = ''<p>Tu c'' @ [CHR 0xC3, CHR 0xB3] @ ''digo de recuperaci'' @ [CHR 0xC3, CHR 0xB3]
     @ ''n es: <strong>'' @ code @ ''</strong></p><p>Expira en 10 minutos.</p>''"

definition forgotPassword :: "'s user_env \<Rightarrow> 's token_env \<Rightarrow> string \<Rightarrow> ('s, string) io" where
  "forgotPassword U K email =
     seqM (orNull (users_findOne U None (Some email))) (\<lambda>user.
     seqM (case user of
             None \<Rightarrow> ret ()
           | Some u \<Rightarrow>
               seqM (generateToken K (us_id u) RECOVERY_PASSWORD (Some 600000)) (\<lambda>code.
               sendEmail K email recovery_subject (recovery_html code))) (\<lambda>_.
     ret ''If the email exists, you will receive a recovery code''))"

definition verifyOtp :: "'s user_env \<Rightarrow> 's token_env \<Rightarrow> string \<Rightarrow> string \<Rightarrow> ('s, bool) io" where
  "verifyOtp U K email code =
     seqM (users_findOne U None (Some email)) (\<lambda>user.
     seqM (validateToken K (us_id user) RECOVERY_PASSWORD code) (\<lambda>_.
     ret True))"

definition resetPassword ::
  "'s user_env \<Rightarrow> 's token_env \<Rightarrow> string \<Rightarrow> string \<Rightarrow> string \<Rightarrow> ('s, string) io" where
  "resetPassword U K email code password =
     seqM (users_findOne U None (Some email)) (\<lambda>user.
     seqM (validateToken K (us_id user) RECOVERY_PASSWORD code) (\<lambda>_.
     seqM (users_update U (us_id user) (no_user_data\<lparr>ud_password := Some password\<rparr>)) (\<lambda>_.
     seqM (revokeToken K (us_id user) RECOVERY_PASSWORD) (\<lambda>_.
     ret ''Password updated successfully''))))"

section \<open>What the code relies on\<close>

text \<open>The cache as a map \<open>live\<close> of the entries not yet expired: a read sees it, a deletion removes
  the entry, and none of them touches a user. An entry may also expire at any call.\<close>

definition fewer :: "(string \<Rightarrow> token_payload option) \<Rightarrow> (string \<Rightarrow> token_payload option) \<Rightarrow> bool" where
  "fewer m m' \<longleftrightarrow> (\<forall>k. m' k = None \<or> m' k = m k)"

lemma fewer_trans: "fewer a b \<Longrightarrow> fewer b c \<Longrightarrow> fewer a c"
  unfolding fewer_def by metis

locale recovery_ports = user_ports U urows live udigest
  for U :: "'s user_env" and urows and live :: "'s \<Rightarrow> string \<Rightarrow> token_payload option" and udigest +
  fixes K :: "'s token_env"
  assumes get_live: "cache_get K k s = (Inr p, t) \<Longrightarrow> p = live t k"
    and get_fewer: "cache_get K k s = (rg, t) \<Longrightarrow> fewer (live s) (live t)"
    and del_dead: "cache_del K k s = (Inr u, t) \<Longrightarrow> live t k = None"
    and del_fewer: "cache_del K k s = (rd, t) \<Longrightarrow> fewer (live s) (live t)"
    and cache_users: "keeps urows (cache_set K k payload ttl)" "keeps urows (cache_get K k)"
      "keeps urows (cache_del K k)" "keeps urows (random900000 K)" "keeps urows (sendEmail K a b c)"
begin

lemma validate_returns:
  assumes "validateToken K u ty code s = (Inr p, t)"
  shows "live s (getKey ty u) = Some p \<and> tp_token p = code \<and> urows t = urows s
       \<and> fewer (live s) (live t)"
proof -
  from assms have g: "cache_get K (getKey ty u) s = (Inr (Some p), t)" and c: "tp_token p = code"
    by (auto simp: validateToken_def io_inv split: option.splits if_splits exn.splits)
  have "live t (getKey ty u) = Some p" using get_live[OF g] by simp
  moreover have f: "fewer (live s) (live t)" by (rule get_fewer[OF g])
  ultimately have "live s (getKey ty u) = Some p" unfolding fewer_def by (metis option.distinct(1))
  then show ?thesis using c f keepsD[OF cache_users(2) g] by simp
qed

lemma validate_keeps: "keeps urows (validateToken K u ty code)"
proof -
  have "keeps urows (case e of UnauthorizedException m \<Rightarrow> throw (UnauthorizedException m)
      | _ \<Rightarrow> throw (BadRequestException msg))" for e msg
    by (cases e) (auto intro: keeps_intros)
  then show ?thesis unfolding validateToken_def
    by (intro keeps_intros cache_users keeps_option)
qed

lemma users_update_live: "keeps live (users_update U i d)"
proof -
  have "keeps live (case ud_password d of None \<Rightarrow> ret None | Some p \<Rightarrow> if p = '''' then ret (Some '''')
                       else seqM (password_hash U p) (\<lambda>h. ret (Some h)))"
    by (intro keeps_intros keeps_option uhash_keeps)
  moreover have "keeps live (case ud_email d of None \<Rightarrow> ret ()
      | Some e \<Rightarrow> if e = '''' then ret () else validateEmail U e)"
    by (intro keeps_intros keeps_option validateEmail_keeps)
  ultimately show ?thesis unfolding users_update_def users_update_by_def
    by (intro keeps_intros ufindOne_keeps utab_frames)
qed

lemma reset_returns:
  assumes "resetPassword U K email code password s = (Inr msg, t)" and "password \<noteq> ''''"
  shows "\<exists>u h p. u \<in> urows s \<and> us_email u = email
     \<and> live s (getKey RECOVERY_PASSWORD (us_id u)) = Some p \<and> tp_token p = code
     \<and> udigest h password
     \<and> (inj_on us_id (urows s) \<longrightarrow>
          (\<exists>now. urows t = insert (u\<lparr>us_password := Some h, us_updatedAt := now\<rparr>) (urows s - {u})))
     \<and> live t (getKey RECOVERY_PASSWORD (us_id u)) = None"
proof -
  from assms(1) obtain u s1 p s2 x s3 b where f: "users_findOne U None (Some email) s = (Inr u, s1)"
    and v: "validateToken K (us_id u) RECOVERY_PASSWORD code s1 = (Inr p, s2)"
    and w: "users_update U (us_id u) (no_user_data\<lparr>ud_password := Some password\<rparr>) s2 = (Inr x, s3)"
    and d: "revokeToken K (us_id u) RECOVERY_PASSWORD s3 = (Inr b, t)"
    by (auto simp: resetPassword_def io_inv)
  note u = ufindOne_returns[OF f] and v' = validate_returns[OF v]
  have s2: "urows s2 = urows s" using u v' by simp
  from users_update_returns[OF w] obtain r0 r q now where r0: "r0 \<in> urows s2" "us_id r0 = us_id u"
    and r: "r = (user_changes (no_user_data\<lparr>ud_password := Some password, ud_password := q\<rparr>) r0)\<lparr>us_updatedAt := now\<rparr>"
    and rows: "urows s3 = insert r (urows s2 - {r0})"
    and q: "\<forall>p. ud_password (no_user_data\<lparr>ud_password := Some password\<rparr>) = Some p \<longrightarrow> p \<noteq> '''' \<longrightarrow>
              (\<exists>h. q = Some h \<and> udigest h p)"
    by (elim exE conjE) (rule that)
  from q assms(2) obtain h where h: "q = Some h" "udigest h password" by auto
  from d have dd: "cache_del K (getKey RECOVERY_PASSWORD (us_id u)) s3 = (Inr (), t)"
    by (auto simp: revokeToken_def io_inv)
  have "r = r0\<lparr>us_password := Some h, us_updatedAt := now\<rparr>" by (simp add: r h user_changes_def no_user_data_def)
  moreover have "r0 = u" if "inj_on us_id (urows s)" using inj_onD[OF that] r0 u s2 by blast
  moreover have "urows t = urows s3" by (rule keepsD[OF cache_users(3) dd])
  ultimately have rows': "inj_on us_id (urows s) \<longrightarrow>
      (\<exists>now. urows t = insert (u\<lparr>us_password := Some h, us_updatedAt := now\<rparr>) (urows s - {u}))"
    using rows s2 by metis
  have "live s (getKey RECOVERY_PASSWORD (us_id u)) = Some p" "tp_token p = code"
    using v' u by simp_all
  then show ?thesis
    using u h(2) rows' del_dead[OF dd] unfolding matches_where_def option.case
    by (intro exI[of _ u] exI[of _ h] exI[of _ p]) simp
qed

end

section \<open>A concrete surrounding\<close>

record recovery_world = login_world +
  rw_cache :: "(string \<times> token_payload) list"
  rw_mail :: "(string \<times> string \<times> string) list"

definition demo_tokens :: "'x recovery_world_scheme token_env" where
  "demo_tokens =
     \<lparr>cache_set = (\<lambda>k p ttl. modifyM (\<lambda>s. s\<lparr>rw_cache := (k, p) # rw_cache s\<rparr>)),
      cache_get = (\<lambda>k. readM (\<lambda>s. map_of (rw_cache s) k)),
      cache_del = (\<lambda>k. modifyM (\<lambda>s. s\<lparr>rw_cache := filter (\<lambda>(k', _). k' \<noteq> k) (rw_cache s)\<rparr>)),
      random900000 = ret 23456,
      sendEmail = (\<lambda>a b c. modifyM (\<lambda>s. s\<lparr>rw_mail := (a, b, c) # rw_mail s\<rparr>))\<rparr>"

definition demo_live :: "'x recovery_world_scheme \<Rightarrow> string \<Rightarrow> token_payload option" where
  "demo_live s = map_of (rw_cache s)"

lemma map_of_filter_key:
  "map_of (filter (\<lambda>(k', _). k' \<noteq> k) xs) j = (if j = k then None else map_of xs j)"
  by (induction xs) auto

interpretation demo_recovery: recovery_ports demo_users
  "demo_urows :: 'x recovery_world_scheme \<Rightarrow> user_row set" demo_live demo_digest demo_tokens
proof (intro recovery_ports.intro user_ports.intro recovery_ports_axioms.intro, goal_cases)
  case 1
  have t: "table (users demo_users) (\<lambda>s. set (lw_users s)) demo_live
      (\<lambda>s n r. (\<exists>i. r = demo_user_row s i n)
         \<and> (\<forall>x \<in> set (lw_users s). \<not> (us_id r = us_id x \<or> us_email r = us_email x)))
      (\<lambda>s r. r\<lparr>us_updatedAt := dw_clock s\<rparr>)"
    unfolding demo_users_def user_env.simps by (rule list_delegate_table) (simp_all add: demo_live_def)
  have rw: "demo_urows = (\<lambda>s. set (lw_users s))" by (simp add: demo_urows_def fun_eq_iff)
  show ?case unfolding rw demo_user_stamp
    by (rule table_weaken[OF t]) (auto simp: user_made_def demo_user_row_def)
qed (auto simp: demo_users_def demo_tokens_def demo_live_def demo_digest_def fewer_def ret_def readM_def
       modifyM_def map_of_filter_key demo_urows_def keeps_def)

section \<open>Properties\<close>

text \<open>C24. A password is reset only by whoever holds the live recovery code of that email's user;
  exactly that user's password changes, to a digest of the new one (with the time of the update), and the code is used up: a
  second reset for that email, with the same or any other code, is refused.\<close>

theorem reset_needs_live_code:
  assumes "recovery_ports U urows live udigest K" and "password \<noteq> ''''"
    and "inj_on us_id (urows s)" and "inj_on us_email (urows s)"
    and "resetPassword U K email code password s = (Inr msg, t)"
  shows "(\<exists>u h p now. u \<in> urows s \<and> us_email u = email
     \<and> live s (getKey RECOVERY_PASSWORD (us_id u)) = Some p \<and> tp_token p = code
     \<and> udigest h password
     \<and> urows t = insert (u\<lparr>us_password := Some h, us_updatedAt := now\<rparr>) (urows s - {u}))
     \<and> (\<nexists>m t'. resetPassword U K email code' password' t = (Inr m, t'))"
proof -
  note P = assms(1)
  have uP: "user_ports U urows live udigest" using P by (simp add: recovery_ports_def)
  from recovery_ports.reset_returns[OF P assms(5,2)] assms(3) obtain u h p now where
      u: "u \<in> urows s" "us_email u = email" "live s (getKey RECOVERY_PASSWORD (us_id u)) = Some p"
        "tp_token p = code" "udigest h password"
    and rows: "urows t = insert (u\<lparr>us_password := Some h, us_updatedAt := now\<rparr>) (urows s - {u})"
    and dead: "live t (getKey RECOVERY_PASSWORD (us_id u)) = None" by blast
  have "\<nexists>m t'. resetPassword U K email code' password' t = (Inr m, t')"
  proof
    assume "\<exists>m t'. resetPassword U K email code' password' t = (Inr m, t')"
    then obtain v s1 q s2 where f: "users_findOne U None (Some email) t = (Inr v, s1)"
      and val: "validateToken K (us_id v) RECOVERY_PASSWORD code' s1 = (Inr q, s2)"
      by (auto simp: resetPassword_def seqM_Inr)
    have v: "v \<in> urows t" "us_email v = email" "live s1 = live t"
      using user_ports.ufindOne_returns[OF uP f] by (simp_all add: matches_where_def)
    have "us_id v = us_id u"
    proof (cases "v = u\<lparr>us_password := Some h, us_updatedAt := now\<rparr>")
      case False
      then have "v \<in> urows s" "v \<noteq> u" using v(1) rows by auto
      then show ?thesis using inj_onD[OF assms(4)] u(1,2) v(2) by blast
    qed simp
    then have "live s1 (getKey RECOVERY_PASSWORD (us_id v)) = None" using dead v(3) by simp
    then show False using recovery_ports.validate_returns[OF P val] by simp
  qed
  then show ?thesis using u rows by blast
qed

definition demo_recovery_world :: recovery_world where
  "demo_recovery_world = \<lparr>dw_sessions = [], dw_cookies = [], dw_clock = 5, lw_users = [demo_user],
     rw_cache = [(getKey RECOVERY_PASSWORD ''u1'',
        \<lparr>tp_userId = ''u1'', tp_type = RECOVERY_PASSWORD, tp_token = ''123456''\<rparr>)], rw_mail = []\<rparr>"

theorem reset_needs_live_code_witness:
  "let t = snd (resetPassword demo_users demo_tokens ''ana@x'' ''123456'' ''new-password'' demo_recovery_world)
   in map us_password (lw_users t) = [Some ''argon2:new-password'']
      \<and> (\<nexists>m t'. resetPassword demo_users demo_tokens ''ana@x'' ''123456'' ''again-again'' t = (Inr m, t'))"
proof -
  let ?m = "resetPassword demo_users demo_tokens ''ana@x'' ''123456'' ''new-password'' demo_recovery_world"
  have "fst ?m = Inr ''Password updated successfully''" by code_simp
  then have m: "?m = (Inr ''Password updated successfully'', snd ?m)" by (metis prod.collapse)
  have inj: "inj_on us_id (demo_urows demo_recovery_world)" "inj_on us_email (demo_urows demo_recovery_world)"
    by (simp_all add: demo_urows_def demo_recovery_world_def)
  have "map us_password (lw_users (snd ?m)) = [Some ''argon2:new-password'']" by code_simp
  with reset_needs_live_code[OF demo_recovery.recovery_ports_axioms _ inj m] show ?thesis
    by (simp add: Let_def)
qed

end
