(* ===== verification/Kyc.thy ===== *)
theory Kyc
  imports Table
begin

text \<open>
  \<open>KycService\<close> (\<open>kyc.service.ts\<close>) and \<open>KycGuard\<close>: the status of a user's identity check, the timer
  that approves a submission on its own, and the route guard of the money operations. The state is
  the world the database lives in and the timers \<open>setTimeout\<close> has running. \<open>kyc_step\<close> is one request
  or one timer going off, \<open>kyc_ports\<close> what the code relies on.
\<close>

section \<open>Rows and parameters\<close>

datatype kycStatus = PENDING | IN_REVIEW | APPROVED | REJECTED

fun kycStatus_name :: "kycStatus \<Rightarrow> string" where
  "kycStatus_name PENDING = ''PENDING''"
| "kycStatus_name IN_REVIEW = ''IN_REVIEW''"
| "kycStatus_name APPROVED = ''APPROVED''"
| "kycStatus_name REJECTED = ''REJECTED''"

datatype kycReviewAction = Approve | Reject

record kyc_row =
  ky_id :: string
  ky_userId :: string
  ky_status :: kycStatus
  ky_documentType :: "string option"
  ky_submittedAt :: "int option"
  ky_reviewedAt :: "int option"
  ky_createdAt :: int
  ky_updatedAt :: int

record 'w kyc_env =
  kycs :: "('w, kyc_row, string \<times> kycStatus) delegate"
  kyc_now :: "'w \<Rightarrow> int"

record 'w kyc_state =
  kyc_timers :: "(int \<times> string) list"
  kyc_world :: 'w

definition kyc_db :: "('w, 'a) io \<Rightarrow> ('w kyc_state, 'a) io" where
  "kyc_db = zoom kyc_world (\<lambda>w s. s\<lparr>kyc_world := w\<rparr>)"

section \<open>The service\<close>

definition SUBMITTABLE_STATES :: "kycStatus list" where "SUBMITTABLE_STATES = [PENDING, REJECTED]"
definition AUTO_APPROVE_DELAY_MS :: int where "AUTO_APPROVE_DELAY_MS = 30000"

definition kyc_of :: "string \<Rightarrow> kyc_row \<Rightarrow> bool" where
  "kyc_of userId r \<longleftrightarrow> ky_userId r = userId"

definition kyc_getStatus :: "'w kyc_env \<Rightarrow> string \<Rightarrow> ('w, kyc_row) io" where
  "kyc_getStatus K userId =
     seqM (findFirst (kycs K) (kyc_of userId)) (\<lambda>existing.
     case existing of Some r \<Rightarrow> ret r | None \<Rightarrow> create (kycs K) (userId, PENDING))"

definition kyc_submit :: "'w kyc_env \<Rightarrow> string \<Rightarrow> string \<Rightarrow> ('w kyc_state, kyc_row) io" where
  "kyc_submit K userId documentType =
     seqM (kyc_db (kyc_getStatus K userId)) (\<lambda>kyc.
     if ky_status kyc \<notin> set SUBMITTABLE_STATES then
       throw (BadRequestException (''Cannot submit KYC from status '' @ kycStatus_name (ky_status kyc)))
     else
       seqM (kyc_db (readM (kyc_now K))) (\<lambda>now.
       seqM (kyc_db (update (kycs K) (kyc_of userId)
               (\<lambda>r. r\<lparr>ky_status := IN_REVIEW, ky_documentType := Some documentType,
                      ky_submittedAt := Some now, ky_reviewedAt := None\<rparr>))) (\<lambda>result.
       seqM (modifyM (\<lambda>s. s\<lparr>kyc_timers :=
               kyc_timers s @ [(kyc_now K (kyc_world s) + AUTO_APPROVE_DELAY_MS, userId)]\<rparr>)) (\<lambda>_.
       ret result))))"

definition kyc_autoApprove :: "'w kyc_env \<Rightarrow> string \<Rightarrow> ('w, unit) io" where
  "kyc_autoApprove K userId =
     seqM (findFirst (kycs K) (kyc_of userId)) (\<lambda>kyc.
     case kyc of None \<Rightarrow> ret ()
     | Some r \<Rightarrow>
         if ky_status r \<noteq> IN_REVIEW then ret ()
         else
           seqM (readM (kyc_now K)) (\<lambda>now.
           seqM (update (kycs K) (kyc_of userId)
                   (\<lambda>r. r\<lparr>ky_status := APPROVED, ky_reviewedAt := Some now\<rparr>)) (\<lambda>_.
           ret ())))"

definition kyc_review :: "'w kyc_env \<Rightarrow> string \<Rightarrow> kycReviewAction \<Rightarrow> ('w, kyc_row) io" where
  "kyc_review K userId action =
     seqM (kyc_getStatus K userId) (\<lambda>kyc.
     if ky_status kyc \<noteq> IN_REVIEW then
       throw (BadRequestException (''Cannot review KYC from status '' @ kycStatus_name (ky_status kyc)))
     else
       seqM (readM (kyc_now K)) (\<lambda>now.
       update (kycs K) (kyc_of userId)
         (\<lambda>r. r\<lparr>ky_status := (if action = Approve then APPROVED else REJECTED),
                ky_reviewedAt := Some now\<rparr>)))"

text \<open>\<open>KycGuard.canActivate\<close>, after the access check has set the user of the request.\<close>

definition kyc_canActivate :: "'w kyc_env \<Rightarrow> string \<Rightarrow> ('w, bool) io" where
  "kyc_canActivate K userId =
     seqM (findFirst (kycs K) (kyc_of userId)) (\<lambda>kyc.
     if (case kyc of None \<Rightarrow> True | Some r \<Rightarrow> ky_status r \<noteq> APPROVED) then
       throw (ForbiddenException ''KYC verification required to perform this action'')
     else ret True)"

section \<open>One request, or one timer\<close>

text \<open>The methods of the service, for the user a route calls them with (\<open>Kyc_Api\<close>), and the timers.\<close>

datatype kyc_event = Asked string | Submitted string string | Reviewed string kycReviewAction | Fired string | Elsewhere

inductive kyc_step ::
  "'w kyc_env \<Rightarrow> ('w \<Rightarrow> kyc_row set) \<Rightarrow> 'w kyc_state \<Rightarrow> kyc_event \<Rightarrow> 'w kyc_state \<Rightarrow> bool"
  for K rows where
  asked: "kyc_db (kyc_getStatus K u) s = (r, t) \<Longrightarrow> kyc_step K rows s (Asked u) t"
| submitted: "kyc_submit K u d s = (r, t) \<Longrightarrow> kyc_step K rows s (Submitted u d) t"
| reviewed: "kyc_db (kyc_review K u a) s = (r, t) \<Longrightarrow> kyc_step K rows s (Reviewed u a) t"
| fired: "(due, u) \<in> set (kyc_timers s) \<Longrightarrow> due \<le> kyc_now K (kyc_world s)
    \<Longrightarrow> kyc_db (kyc_autoApprove K u) s = (r, t)
    \<Longrightarrow> kyc_step K rows s (Fired u) (t\<lparr>kyc_timers := remove1 (due, u) (kyc_timers t)\<rparr>)"
| elsewhere: "rows w = rows (kyc_world s) \<Longrightarrow> kyc_now K (kyc_world s) \<le> kyc_now K w
    \<Longrightarrow> kyc_step K rows s Elsewhere (s\<lparr>kyc_world := w\<rparr>)"

inductive kyc_steps ::
  "'w kyc_env \<Rightarrow> ('w \<Rightarrow> kyc_row set) \<Rightarrow> 'w kyc_state \<Rightarrow> kyc_event list \<Rightarrow> 'w kyc_state \<Rightarrow> bool"
  for K rows where
  none: "kyc_steps K rows s [] s"
| more: "kyc_step K rows s e t \<Longrightarrow> kyc_steps K rows t es u \<Longrightarrow> kyc_steps K rows s (e # es) u"

section \<open>The lifecycle of a row\<close>

text \<open>What a row of each status holds, and the moves between two rows of a user. A request moves only
  the row of its own user.\<close>

definition kyc_wf :: "kyc_row \<Rightarrow> bool" where
  "kyc_wf r \<longleftrightarrow> (ky_status r = PENDING) = (ky_submittedAt r = None)
     \<and> (ky_documentType r = None) = (ky_submittedAt r = None)
     \<and> (ky_reviewedAt r \<noteq> None) = (ky_status r \<in> {APPROVED, REJECTED})"

definition kyc_good :: "kyc_row set \<Rightarrow> bool" where
  "kyc_good R \<longleftrightarrow> inj_on ky_userId R \<and> (\<forall>r \<in> R. kyc_wf r)"

fun kyc_edge :: "kyc_event \<Rightarrow> kyc_row \<Rightarrow> kyc_row \<Rightarrow> bool" where
  "kyc_edge (Submitted u d) r r' \<longleftrightarrow> ky_userId r = u \<and> ky_status r \<in> {PENDING, REJECTED}
     \<and> ky_status r' = IN_REVIEW \<and> ky_documentType r' = Some d"
| "kyc_edge (Reviewed u a) r r' \<longleftrightarrow> ky_userId r = u \<and> ky_status r = IN_REVIEW
     \<and> ky_status r' = (if a = Approve then APPROVED else REJECTED)
     \<and> ky_documentType r' = ky_documentType r \<and> ky_submittedAt r' = ky_submittedAt r"
| "kyc_edge (Fired u) r r' \<longleftrightarrow> ky_userId r = u \<and> ky_status r = IN_REVIEW \<and> ky_status r' = APPROVED
     \<and> ky_documentType r' = ky_documentType r \<and> ky_submittedAt r' = ky_submittedAt r"
| "kyc_edge _ r r' \<longleftrightarrow> False"

definition kyc_moves :: "kyc_event \<Rightarrow> kyc_row set \<Rightarrow> kyc_row set \<Rightarrow> bool" where
  "kyc_moves e R R' \<longleftrightarrow>
     (\<forall>r \<in> R. \<exists>r' \<in> R'. ky_id r' = ky_id r \<and> ky_userId r' = ky_userId r \<and> (r' = r \<or> kyc_edge e r r'))
   \<and> (\<forall>r' \<in> R'. (\<exists>r \<in> R. ky_userId r = ky_userId r') \<or> ky_status r' \<in> {PENDING, IN_REVIEW})"

lemma kyc_moves_refl: "kyc_moves e R R"
  by (auto simp: kyc_moves_def)

lemma kyc_goodI: "inj_on ky_userId R \<Longrightarrow> (\<And>r. r \<in> R \<Longrightarrow> kyc_wf r) \<Longrightarrow> kyc_good R"
  by (simp add: kyc_good_def)

lemma kyc_goodD:
  assumes "kyc_good R"
  shows "r \<in> R \<Longrightarrow> kyc_wf r" "r \<in> R \<Longrightarrow> r' \<in> R \<Longrightarrow> ky_userId r = ky_userId r' \<Longrightarrow> r = r'"
  using assms by (auto simp: kyc_good_def dest: inj_onD)

lemma kyc_good_add:
  assumes "kyc_good R" and "\<forall>x \<in> R. ky_userId x \<noteq> ky_userId r" and "kyc_wf r" and "ky_status r = PENDING"
  shows "kyc_good (insert r R) \<and> kyc_moves e R (insert r R)"
  using assms by (auto simp: kyc_good_def kyc_moves_def)

lemma kyc_good_put:
  assumes "kyc_good R" and "x \<in> R" and "kyc_wf y" and "ky_userId y = ky_userId x"
  shows "kyc_good (insert y (R - {x}))"
proof (rule kyc_goodI)
  show "inj_on ky_userId (insert y (R - {x}))"
    using assms(1,2,4) unfolding kyc_good_def by (auto simp: inj_on_def)
  show "kyc_wf r" if "r \<in> insert y (R - {x})" for r using that assms(3) kyc_goodD(1)[OF assms(1)] by blast
qed

lemma kyc_moves_put:
  assumes "x \<in> R" and "ky_userId y = ky_userId x" and "ky_id y = ky_id x" and "kyc_edge e x y"
  shows "kyc_moves e R (insert y (R - {x}))"
  unfolding kyc_moves_def
proof
  show "\<forall>r \<in> R. \<exists>r' \<in> insert y (R - {x}). ky_id r' = ky_id r \<and> ky_userId r' = ky_userId r
      \<and> (r' = r \<or> kyc_edge e r r')"
  proof
    fix r assume "r \<in> R"
    then show "\<exists>r' \<in> insert y (R - {x}). ky_id r' = ky_id r \<and> ky_userId r' = ky_userId r
      \<and> (r' = r \<or> kyc_edge e r r')" using assms(2-4) by (cases "r = x") auto
  qed
qed (use assms(1,2) in auto)

text \<open>A first submission makes the row and moves it in one request.\<close>

lemma kyc_moves_new:
  assumes "\<forall>r \<in> R. ky_userId r \<noteq> ky_userId x" and "ky_status y \<in> {PENDING, IN_REVIEW}"
  shows "kyc_moves e R (insert y (insert x R - {x}))"
proof -
  have "insert y (insert x R - {x}) = insert y R" using assms(1) by blast
  moreover have "ky_id r = ky_id r \<and> ky_userId r = ky_userId r \<and> (r = r \<or> kyc_edge e r r)" for r by simp
  ultimately show ?thesis unfolding kyc_moves_def using assms(2) by blast
qed

section \<open>What the service relies on\<close>

definition kyc_made :: "string \<times> kycStatus \<Rightarrow> kyc_row \<Rightarrow> bool" where
  "kyc_made n r \<longleftrightarrow> ky_userId r = fst n \<and> ky_status r = snd n \<and> ky_documentType r = None
     \<and> ky_submittedAt r = None \<and> ky_reviewedAt r = None"

definition kyc_stamp :: "'w kyc_env \<Rightarrow> 'w \<Rightarrow> kyc_row \<Rightarrow> kyc_row" where
  "kyc_stamp K s r = r\<lparr>ky_updatedAt := kyc_now K s\<rparr>"

lemma kyc_stamp_simps [simp]:
  "ky_id (kyc_stamp K s r) = ky_id r" "ky_userId (kyc_stamp K s r) = ky_userId r"
  "ky_status (kyc_stamp K s r) = ky_status r" "ky_documentType (kyc_stamp K s r) = ky_documentType r"
  "ky_submittedAt (kyc_stamp K s r) = ky_submittedAt r" "ky_reviewedAt (kyc_stamp K s r) = ky_reviewedAt r"
  by (simp_all add: kyc_stamp_def)

locale kyc_ports =
  fixes K :: "'w kyc_env" and krows :: "'w \<Rightarrow> kyc_row set"
  assumes ktab: "table (kycs K) krows (\<lambda>_. ()) (\<lambda>s n r. kyc_made n r) (kyc_stamp K)"
begin

lemmas ktab_returns = table.returns[OF ktab]
lemmas ktab_throws = table.throws[OF ktab]

lemma find_returns:
  assumes "findFirst (kycs K) (kyc_of u) s = (Inr q, t)"
  shows "krows t = krows s"
    and "case q of None \<Rightarrow> (\<forall>r \<in> krows s. ky_userId r \<noteq> u) | Some r \<Rightarrow> r \<in> krows s \<and> ky_userId r = u"
  using ktab_returns(1)[OF assms] by (auto simp: kyc_of_def split: option.splits)

text \<open>\<open>getStatus\<close> gives the user's row, made as \<open>PENDING\<close> if there was none.\<close>

lemma getStatus_returns:
  assumes "kyc_getStatus K u s = (Inr r, t)" and "kyc_good (krows s)"
  shows "r \<in> krows t" "ky_userId r = u" "kyc_good (krows t)" "kyc_moves e (krows s) (krows t)"
    and "krows t = krows s \<or> krows t = insert r (krows s) \<and> ky_status r = PENDING
           \<and> (\<forall>x \<in> krows s. ky_userId x \<noteq> u)"
proof -
  from assms(1) obtain q s1 where f: "findFirst (kycs K) (kyc_of u) s = (Inr q, s1)"
    and g: "(case q of Some r \<Rightarrow> ret r | None \<Rightarrow> create (kycs K) (u, PENDING)) s1 = (Inr r, t)"
    by (auto simp: kyc_getStatus_def seqM_Inr)
  note found = find_returns[OF f]
  have "(r \<in> krows t \<and> ky_userId r = u \<and> kyc_good (krows t) \<and> kyc_moves e (krows s) (krows t))
      \<and> (krows t = krows s \<or> krows t = insert r (krows s) \<and> ky_status r = PENDING
           \<and> (\<forall>x \<in> krows s. ky_userId x \<noteq> u))"
  proof (cases q)
    case (Some x)
    then have "x = r" "t = s1" using g by (auto simp: io_prim_iff)
    then show ?thesis using Some found assms(2) kyc_moves_refl by simp
  next
    case None
    then have cr: "create (kycs K) (u, PENDING) s1 = (Inr r, t)" using g by simp
    from ktab_returns(5)[OF cr] found(1)
    have made: "kyc_made (u, PENDING) r" and rows: "krows t = insert r (krows s)" by auto
    have no: "\<forall>x \<in> krows s. ky_userId x \<noteq> ky_userId r" using found(2) None made by (simp add: kyc_made_def)
    have "kyc_wf r" "ky_status r = PENDING" "ky_userId r = u" using made by (simp_all add: kyc_made_def kyc_wf_def)
    then show ?thesis using kyc_good_add[OF assms(2) no, of e] rows no by simp
  qed
  then show "r \<in> krows t" "ky_userId r = u" "kyc_good (krows t)" "kyc_moves e (krows s) (krows t)"
    and "krows t = krows s \<or> krows t = insert r (krows s) \<and> ky_status r = PENDING
           \<and> (\<forall>x \<in> krows s. ky_userId x \<noteq> u)" by blast+
qed

lemma getStatus_throws:
  assumes "kyc_getStatus K u s = (Inl e, t)"
  shows "krows t = krows s"
proof -
  from assms consider "findFirst (kycs K) (kyc_of u) s = (Inl e, t)"
    | q s1 where "findFirst (kycs K) (kyc_of u) s = (Inr q, s1)"
      "(case q of Some r \<Rightarrow> ret r | None \<Rightarrow> create (kycs K) (u, PENDING)) s1 = (Inl e, t)"
    by (auto simp: kyc_getStatus_def seqM_Inl)
  then show ?thesis
  proof cases
    case 1
    then show ?thesis using ktab_throws(1) by blast
  next
    case 2
    then have "create (kycs K) (u, PENDING) s1 = (Inl e, t)"
      by (cases q) (auto simp: io_prim_iff)
    then show ?thesis using ktab_throws(5) find_returns(1)[OF 2(1)] by metis
  qed
qed

lemma put_returns:
  assumes "update (kycs K) (kyc_of u) f s = (Inr y, t)" and "kyc_good (krows s)" and "x \<in> krows s"
    and "ky_userId x = u"
  shows "y = kyc_stamp K s (f x)" "krows t = insert y (krows s - {x})"
proof -
  from ktab_returns(8)[OF assms(1)] obtain x' where x': "x' \<in> krows s" "ky_userId x' = u"
    "y = kyc_stamp K s (f x')" "krows t = insert y (krows s - {x'})"
    by (auto simp: kyc_of_def)
  have "x' = x" using kyc_goodD(2)[OF assms(2) x'(1) assms(3)] x'(2) assms(4) by simp
  then show "y = kyc_stamp K s (f x)" "krows t = insert y (krows s - {x})" using x' by simp_all
qed

end

context kyc_ports
begin

text \<open>The update after \<open>getStatus\<close>: whatever its outcome, the table is well formed and moved as the
  request says.\<close>

lemma decided:
  assumes got: "kyc_getStatus K u s = (Inr r, s1)" and good: "kyc_good (krows s)"
    and up: "update (kycs K) (kyc_of u) f s1 = (q, t)"
    and edge: "kyc_edge e r (kyc_stamp K s1 (f r))" and wf: "kyc_wf (f r)"
    and same: "ky_id (f r) = ky_id r" "ky_userId (f r) = ky_userId r"
    and fresh: "ky_status r = PENDING \<Longrightarrow> ky_status (f r) = IN_REVIEW"
  shows "kyc_good (krows t) \<and> kyc_moves e (krows s) (krows t)"
proof (cases q)
  case (Inl x)
  then show ?thesis using ktab_throws(8)[OF up[unfolded Inl]] getStatus_returns(3,4)[OF got good] by simp
next
  case (Inr y)
  note r = getStatus_returns[OF got good]
  note put = put_returns[OF up[unfolded Inr] r(3) r(1,2)]
  have "kyc_wf y" using wf put(1) by (simp add: kyc_wf_def)
  then have "kyc_good (krows t)" unfolding put(2)
    using kyc_good_put[OF r(3,1)] put(1) same by simp
  moreover have "kyc_moves e (krows s) (krows t)"
    using r(5)
  proof
    assume "krows s1 = krows s"
    then show ?thesis unfolding put(2) using kyc_moves_put[of r "krows s" y e] r(1) put(1) same edge by simp
  next
    assume new: "krows s1 = insert r (krows s) \<and> ky_status r = PENDING \<and> (\<forall>x \<in> krows s. ky_userId x \<noteq> u)"
    then have "ky_status y \<in> {PENDING, IN_REVIEW}" using fresh put(1) by simp
    then show ?thesis unfolding put(2) using kyc_moves_new[of "krows s" r y e] new r(2) by simp
  qed
  ultimately show ?thesis ..
qed

lemma getStatus_law:
  assumes "kyc_getStatus K u s = (q, t)" and "kyc_good (krows s)"
  shows "kyc_good (krows t) \<and> kyc_moves e (krows s) (krows t)"
proof (cases q)
  case (Inl x)
  then show ?thesis using getStatus_throws[of u s x t] assms kyc_moves_refl by simp
next
  case (Inr r)
  then show ?thesis using getStatus_returns(3,4)[of u s r t] assms by simp
qed

lemma review_law:
  assumes "kyc_review K u a s = (q, t)" and "kyc_good (krows s)"
  shows "kyc_good (krows t) \<and> kyc_moves (Reviewed u a) (krows s) (krows t)"
proof -
  obtain g s1 where got: "kyc_getStatus K u s = (g, s1)" by (cases "kyc_getStatus K u s")
  note law = getStatus_law[OF got assms(2), of "Reviewed u a"]
  show ?thesis
  proof (cases g)
    case (Inl x)
    then have "t = s1" using assms(1) got by (simp add: kyc_review_def seqM_def)
    then show ?thesis using law by simp
  next
    case (Inr r)
    let ?f = "\<lambda>r. r\<lparr>ky_status := (if a = Approve then APPROVED else REJECTED),
                     ky_reviewedAt := Some (kyc_now K s1)\<rparr>"
    show ?thesis
    proof (cases "ky_status r = IN_REVIEW")
      case False
      then have "t = s1" using assms(1) got Inr by (simp add: kyc_review_def seqM_def throw_def)
      then show ?thesis using law by simp
    next
      case True
      then have up: "update (kycs K) (kyc_of u) ?f s1 = (q, t)"
        using assms(1) got Inr by (simp add: kyc_review_def seqM_def readM_def)
      note r = getStatus_returns[OF got[unfolded Inr] assms(2)]
      have "kyc_wf r" using kyc_goodD(1)[OF r(3,1)] .
      then show ?thesis using decided[OF got[unfolded Inr] assms(2) up, of "Reviewed u a"] True r(2)
        by (simp add: kyc_wf_def)
    qed
  qed
qed

lemma submit_law:
  assumes "kyc_submit K u d s = (q, t)" and "kyc_good (krows (kyc_world s))"
  shows "kyc_good (krows (kyc_world t)) \<and> kyc_moves (Submitted u d) (krows (kyc_world s)) (krows (kyc_world t))"
proof -
  let ?w = "kyc_world s"
  obtain g w1 where got: "kyc_getStatus K u ?w = (g, w1)" by (cases "kyc_getStatus K u ?w")
  note law = getStatus_law[OF got assms(2), of "Submitted u d"]
  show ?thesis
  proof (cases g)
    case (Inl x)
    then have "kyc_world t = w1" using assms(1) got by (auto simp: kyc_submit_def seqM_def kyc_db_def zoom_def)
    then show ?thesis using law by simp
  next
    case (Inr r)
    let ?f = "\<lambda>r. r\<lparr>ky_status := IN_REVIEW, ky_documentType := Some d,
                     ky_submittedAt := Some (kyc_now K w1), ky_reviewedAt := None\<rparr>"
    obtain p w2 where up: "update (kycs K) (kyc_of u) ?f w1 = (p, w2)"
      by (cases "update (kycs K) (kyc_of u) ?f w1")
    show ?thesis
    proof (cases "ky_status r \<in> {PENDING, REJECTED}")
      case False
      then have "kyc_world t = w1" using assms(1) got Inr
        by (auto simp: kyc_submit_def seqM_def kyc_db_def zoom_def throw_def SUBMITTABLE_STATES_def)
      then show ?thesis using law by simp
    next
      case True
      then have t: "kyc_world t = w2" using assms(1) got Inr up
        by (cases p) (auto simp: kyc_submit_def seqM_def kyc_db_def zoom_def readM_def modifyM_def ret_def
            SUBMITTABLE_STATES_def)
      note r = getStatus_returns[OF got[unfolded Inr] assms(2)]
      show ?thesis unfolding t
        using decided[OF got[unfolded Inr] assms(2) up, of "Submitted u d"] True r(2)
        by (simp add: kyc_wf_def)
    qed
  qed
qed

lemma autoApprove_law:
  assumes "kyc_autoApprove K u s = (q, t)" and "kyc_good (krows s)"
  shows "kyc_good (krows t) \<and> kyc_moves (Fired u) (krows s) (krows t)"
proof -
  obtain g s1 where got: "findFirst (kycs K) (kyc_of u) s = (g, s1)" by (cases "findFirst (kycs K) (kyc_of u) s")
  have rows: "krows s1 = krows s" using got ktab_throws(1) find_returns(1) by (cases g) blast+
  have idle: "t = s1 \<Longrightarrow> ?thesis" using rows assms(2) kyc_moves_refl by simp
  show ?thesis
  proof (cases "\<exists>r. g = Inr (Some r) \<and> ky_status r = IN_REVIEW")
    case False
    then have "t = s1" using assms(1) got
      by (cases g) (auto simp: kyc_autoApprove_def seqM_def ret_def split: option.splits)
    then show ?thesis by (rule idle)
  next
    case True
    then obtain r where g: "g = Inr (Some r)" and rev: "ky_status r = IN_REVIEW" by blast
    let ?f = "\<lambda>r. r\<lparr>ky_status := APPROVED, ky_reviewedAt := Some (kyc_now K s1)\<rparr>"
    obtain p s2 where up: "update (kycs K) (kyc_of u) ?f s1 = (p, s2)"
      by (cases "update (kycs K) (kyc_of u) ?f s1")
    then have t: "t = s2" using assms(1) got g rev
      by (cases p) (auto simp: kyc_autoApprove_def seqM_def readM_def ret_def)
    have st: "kyc_getStatus K u s = (Inr r, s1)" using got g by (simp add: kyc_getStatus_def seqM_def ret_def)
    note r = getStatus_returns[OF st assms(2)]
    have "kyc_wf r" using kyc_goodD(1)[OF r(3,1)] .
    then show ?thesis unfolding t
      using decided[OF st assms(2) up, of "Fired u"] rev r(2) by (simp add: kyc_wf_def)
  qed
qed

lemma step_law:
  assumes "kyc_step K krows s e t" and "kyc_good (krows (kyc_world s))"
  shows "kyc_good (krows (kyc_world t)) \<and> kyc_moves e (krows (kyc_world s)) (krows (kyc_world t))"
  using assms
proof cases
  case (asked u r)
  then show ?thesis using getStatus_law[of u "kyc_world s"] assms(2)
    by (auto simp: kyc_db_def zoom_iff)
next
  case (submitted u d r)
  then show ?thesis using submit_law assms(2) by blast
next
  case (reviewed u a r)
  then show ?thesis using review_law[of u a "kyc_world s"] assms(2)
    by (auto simp: kyc_db_def zoom_iff)
next
  case (fired due u r t')
  then show ?thesis using autoApprove_law[of u "kyc_world s"] assms(2)
    by (auto simp: kyc_db_def zoom_iff)
next
  case (elsewhere w)
  then show ?thesis using assms(2) kyc_moves_refl by simp
qed

text \<open>An approved row stays as it is.\<close>

lemma steps_law:
  assumes "kyc_steps K krows s es t" and "kyc_good (krows (kyc_world s))"
  shows "kyc_good (krows (kyc_world t))
    \<and> (\<forall>r \<in> krows (kyc_world s). ky_status r = APPROVED \<longrightarrow> r \<in> krows (kyc_world t))"
  using assms
proof (induction rule: kyc_steps.induct)
  case (none s)
  then show ?case by simp
next
  case (more s e t es u)
  have law: "kyc_good (krows (kyc_world t))" "kyc_moves e (krows (kyc_world s)) (krows (kyc_world t))"
    using step_law[OF more(1,4)] by blast+
  have "r \<in> krows (kyc_world t)" if "r \<in> krows (kyc_world s)" "ky_status r = APPROVED" for r
  proof -
    obtain r' where "r' \<in> krows (kyc_world t)" "r' = r \<or> kyc_edge e r r'"
      using law(2) \<open>r \<in> krows (kyc_world s)\<close> unfolding kyc_moves_def by blast
    moreover have "\<not> kyc_edge e r r'" using \<open>ky_status r = APPROVED\<close> by (cases e) auto
    ultimately show ?thesis by blast
  qed
  then show ?case using more.IH[OF law(1)] by blast
qed

lemma guard_iff:
  assumes "kyc_canActivate K u s = (q, t)" and "kyc_good (krows s)"
  shows "krows t = krows s" and "q = Inr b \<Longrightarrow> b \<and> (\<exists>r \<in> krows s. ky_userId r = u \<and> ky_status r = APPROVED)"
proof -
  obtain g s1 where got: "findFirst (kycs K) (kyc_of u) s = (g, s1)" by (cases "findFirst (kycs K) (kyc_of u) s")
  have rows: "krows s1 = krows s" using got ktab_throws(1) find_returns(1) by (cases g) blast+
  have "t = s1" using assms(1) got
    by (cases g) (auto simp: kyc_canActivate_def seqM_def throw_def ret_def split: if_splits)
  then show "krows t = krows s" using rows by simp
  assume "q = Inr b"
  then obtain r where "g = Inr (Some r)" "ky_status r = APPROVED" "b"
    using assms(1) got
    by (cases g) (auto simp: kyc_canActivate_def seqM_def throw_def ret_def split: if_splits option.splits)
  then show "b \<and> (\<exists>r \<in> krows s. ky_userId r = u \<and> ky_status r = APPROVED)"
    using find_returns(2)[OF got[unfolded \<open>g = Inr (Some r)\<close>]] by auto
qed

end

section \<open>When the database answers\<close>

definition kyc_answers :: "'w kyc_env \<Rightarrow> ('w \<Rightarrow> kyc_row set) \<Rightarrow> bool" where
  "kyc_answers K krows \<longleftrightarrow> (\<forall>P s. \<not> isl (fst (findFirst (kycs K) P s)))
     \<and> (\<forall>P f s. (\<exists>r \<in> krows s. P r) \<longrightarrow> \<not> isl (fst (update (kycs K) P f s)))
     \<and> (\<forall>u s. (\<forall>r \<in> krows s. ky_userId r \<noteq> u) \<longrightarrow> \<not> isl (fst (create (kycs K) (u, PENDING) s)))"

lemma not_isl_pair: "\<not> isl (fst p) \<Longrightarrow> \<exists>x t. p = (Inr x, t)"
  by (cases p; cases "fst p") auto

context kyc_ports
begin

lemma find_there:
  assumes "kyc_answers K krows" and "kyc_good (krows s)" and "r \<in> krows s" and "ky_userId r = u"
  shows "\<exists>t. findFirst (kycs K) (kyc_of u) s = (Inr (Some r), t) \<and> krows t = krows s"
proof -
  from assms(1) obtain q t where f: "findFirst (kycs K) (kyc_of u) s = (Inr q, t)"
    unfolding kyc_answers_def by (meson not_isl_pair)
  note found = find_returns[OF f]
  from found(2) assms(3,4) obtain x where "q = Some x" "x \<in> krows s" "ky_userId x = u"
    by (cases q) auto
  moreover have "x = r" using kyc_goodD(2)[OF assms(2) \<open>x \<in> krows s\<close> assms(3)] assms(4) \<open>ky_userId x = u\<close> by simp
  ultimately show ?thesis using f found(1) by blast
qed

lemma put_there:
  assumes "kyc_answers K krows" and "kyc_good (krows s)" and "r \<in> krows s" and "ky_userId r = u"
  shows "\<exists>t. update (kycs K) (kyc_of u) f s = (Inr (kyc_stamp K s (f r)), t)
          \<and> krows t = insert (kyc_stamp K s (f r)) (krows s - {r})"
proof -
  have "\<exists>r \<in> krows s. kyc_of u r" using assms(3,4) by (auto simp: kyc_of_def)
  with assms(1) obtain y t where up: "update (kycs K) (kyc_of u) f s = (Inr y, t)"
    unfolding kyc_answers_def by (meson not_isl_pair)
  from put_returns[OF up assms(2-4)] up show ?thesis by blast
qed

lemma getStatus_answers:
  assumes "kyc_answers K krows" and "kyc_good (krows s)"
  shows "\<exists>r t. kyc_getStatus K u s = (Inr r, t)"
proof -
  from assms(1) obtain q t where f: "findFirst (kycs K) (kyc_of u) s = (Inr q, t)"
    unfolding kyc_answers_def by (meson not_isl_pair)
  note found = find_returns[OF f]
  show ?thesis
  proof (cases q)
    case (Some r)
    then show ?thesis using f by (simp add: kyc_getStatus_def seqM_def ret_def)
  next
    case None
    then have "\<forall>r \<in> krows t. ky_userId r \<noteq> u" using found by simp
    with assms(1) obtain y t' where "create (kycs K) (u, PENDING) t = (Inr y, t')"
      unfolding kyc_answers_def by (meson not_isl_pair)
    then show ?thesis using f None by (simp add: kyc_getStatus_def seqM_def)
  qed
qed

lemma submit_answers:
  assumes ans: "kyc_answers K krows" and good: "kyc_good (krows (kyc_world s))"
    and st: "\<forall>r \<in> krows (kyc_world s). ky_userId r = u \<longrightarrow> ky_status r \<in> {PENDING, REJECTED}"
  shows "\<exists>r t. kyc_submit K u d s = (Inr r, t) \<and> r \<in> krows (kyc_world t) \<and> ky_userId r = u
     \<and> ky_status r = IN_REVIEW \<and> kyc_good (krows (kyc_world t))"
proof -
  obtain r w1 where got: "kyc_getStatus K u (kyc_world s) = (Inr r, w1)"
    using getStatus_answers[OF ans good] by blast
  note r = getStatus_returns[OF got good]
  have sub: "ky_status r \<in> set SUBMITTABLE_STATES"
    using r(1,2,5) st by (auto simp: SUBMITTABLE_STATES_def)
  let ?f = "\<lambda>r. r\<lparr>ky_status := IN_REVIEW, ky_documentType := Some d,
                   ky_submittedAt := Some (kyc_now K w1), ky_reviewedAt := None\<rparr>"
  obtain w2 where up: "update (kycs K) (kyc_of u) ?f w1 = (Inr (kyc_stamp K w1 (?f r)), w2)"
    and rows: "krows w2 = insert (kyc_stamp K w1 (?f r)) (krows w1 - {r})"
    using put_there[OF ans r(3,1,2), of ?f] by blast
  let ?t = "s\<lparr>kyc_world := w2, kyc_timers := kyc_timers s @ [(kyc_now K w2 + AUTO_APPROVE_DELAY_MS, u)]\<rparr>"
  have run: "kyc_submit K u d s = (Inr (kyc_stamp K w1 (?f r)), ?t)"
    using got sub up
    by (simp add: kyc_submit_def seqM_def kyc_db_def zoom_def readM_def modifyM_def ret_def)
  show ?thesis
    using run submit_law[OF run good] rows r(2) by (intro exI[of _ "kyc_stamp K w1 (?f r)"] exI[of _ ?t]) simp
qed

lemma review_answers:
  assumes ans: "kyc_answers K krows" and good: "kyc_good (krows s)" and r: "r \<in> krows s" "ky_userId r = u"
    and rev: "ky_status r = IN_REVIEW"
  shows "\<exists>y t. kyc_review K u Approve s = (Inr y, t) \<and> y \<in> krows t \<and> ky_userId y = u
     \<and> ky_status y = APPROVED \<and> kyc_good (krows t)"
proof -
  obtain s1 where f: "findFirst (kycs K) (kyc_of u) s = (Inr (Some r), s1)" and rows1: "krows s1 = krows s"
    using find_there[OF ans good r] by blast
  let ?f = "\<lambda>r. r\<lparr>ky_status := (if Approve = Approve then APPROVED else REJECTED),
                  ky_reviewedAt := Some (kyc_now K s1)\<rparr>"
  obtain t where up: "update (kycs K) (kyc_of u) ?f s1 = (Inr (kyc_stamp K s1 (?f r)), t)"
    and rows: "krows t = insert (kyc_stamp K s1 (?f r)) (krows s1 - {r})"
    using put_there[OF ans _ _ r(2), of s1 ?f] good r(1) rows1 by auto
  have run: "kyc_review K u Approve s = (Inr (kyc_stamp K s1 (?f r)), t)"
    using f rev up by (simp add: kyc_review_def kyc_getStatus_def seqM_def readM_def ret_def)
  show ?thesis using run review_law[OF run good] rows r(2)
    by (intro exI[of _ "kyc_stamp K s1 (?f r)"] exI[of _ t]) simp
qed

lemma autoApprove_answers:
  assumes ans: "kyc_answers K krows" and good: "kyc_good (krows s)" and r: "r \<in> krows s" "ky_userId r = u"
    and rev: "ky_status r = IN_REVIEW"
  shows "\<exists>y t. kyc_autoApprove K u s = (Inr (), t) \<and> y \<in> krows t
     \<and> ky_userId y = u \<and> ky_status y = APPROVED \<and> ky_submittedAt y = ky_submittedAt r"
proof -
  obtain s1 where f: "findFirst (kycs K) (kyc_of u) s = (Inr (Some r), s1)" and rows1: "krows s1 = krows s"
    using find_there[OF ans good r] by blast
  let ?f = "\<lambda>r. r\<lparr>ky_status := APPROVED, ky_reviewedAt := Some (kyc_now K s1)\<rparr>"
  obtain t where up: "update (kycs K) (kyc_of u) ?f s1 = (Inr (kyc_stamp K s1 (?f r)), t)"
    and rows: "krows t = insert (kyc_stamp K s1 (?f r)) (krows s1 - {r})"
    using put_there[OF ans _ _ r(2), of s1 ?f] good r(1) rows1 by auto
  have "kyc_autoApprove K u s = (Inr (), t)"
    using f rev up by (simp add: kyc_autoApprove_def seqM_def readM_def ret_def)
  then show ?thesis using rows r(2) by (intro exI[of _ "kyc_stamp K s1 (?f r)"] exI[of _ t]) simp
qed

lemma guard_passes:
  assumes ans: "kyc_answers K krows" and good: "kyc_good (krows s)" and r: "r \<in> krows s" "ky_userId r = u"
    and app: "ky_status r = APPROVED"
  shows "\<exists>t. kyc_canActivate K u s = (Inr True, t)"
  using find_there[OF ans good r] app by (auto simp: kyc_canActivate_def seqM_def ret_def)

end

section \<open>A concrete database\<close>

record demo_kyc =
  dk_rows :: "kyc_row list"
  dk_clock :: int

definition demo_kyc_row :: "demo_kyc \<Rightarrow> nat \<Rightarrow> string \<times> kycStatus \<Rightarrow> kyc_row" where
  "demo_kyc_row s k n = \<lparr>ky_id = replicate (length (dk_rows s) + k) CHR ''k'', ky_userId = fst n,
     ky_status = snd n, ky_documentType = None, ky_submittedAt = None, ky_reviewedAt = None,
     ky_createdAt = dk_clock s, ky_updatedAt = dk_clock s\<rparr>"

definition demo_kyc_env :: "demo_kyc kyc_env" where
  "demo_kyc_env = \<lparr>kycs = list_delegate dk_rows (\<lambda>rs s. s\<lparr>dk_rows := rs\<rparr>) demo_kyc_row
       (\<lambda>s r. r\<lparr>ky_updatedAt := dk_clock s\<rparr>) (\<lambda>r r'. ky_userId r = ky_userId r'),
     kyc_now = dk_clock\<rparr>"

definition demo_krows :: "demo_kyc \<Rightarrow> kyc_row set" where
  "demo_krows s = set (dk_rows s)"

interpretation demo_kyc: kyc_ports demo_kyc_env demo_krows
proof (rule kyc_ports.intro)
  have t: "table (kycs demo_kyc_env) (\<lambda>s. set (dk_rows s)) (\<lambda>_. ())
      (\<lambda>s n r. (\<exists>i. r = demo_kyc_row s i n) \<and> (\<forall>x \<in> set (dk_rows s). \<not> ky_userId r = ky_userId x))
      (\<lambda>s r. r\<lparr>ky_updatedAt := dk_clock s\<rparr>)"
    unfolding demo_kyc_env_def kyc_env.simps by (rule list_delegate_table) simp_all
  have st: "kyc_stamp demo_kyc_env = (\<lambda>s r. r\<lparr>ky_updatedAt := dk_clock s\<rparr>)"
    by (simp add: kyc_stamp_def demo_kyc_env_def fun_eq_iff)
  have rw: "demo_krows = (\<lambda>s. set (dk_rows s))" by (simp add: demo_krows_def fun_eq_iff)
  show "table (kycs demo_kyc_env) demo_krows (\<lambda>_. ()) (\<lambda>s n r. kyc_made n r) (kyc_stamp demo_kyc_env)"
    unfolding st rw by (rule table_weaken[OF t]) (auto simp: kyc_made_def demo_kyc_row_def)
qed

lemma demo_kyc_answers: "kyc_answers demo_kyc_env demo_krows"
  by (auto simp: kyc_answers_def demo_kyc_env_def demo_krows_def list_delegate_def list_insert_def
       list_replace_def demo_kyc_row_def list_ex_iff dest: find_None_iff[THEN iffD1] split: option.splits)
     (metis kyc_row.select_convs(2))

section \<open>Properties\<close>

definition demo_kyc_start :: "demo_kyc kyc_state" where
  "demo_kyc_start = \<lparr>kyc_timers = [], kyc_world = \<lparr>dk_rows = [], dk_clock = 0\<rparr>\<rparr>"

lemma demo_kyc_start_good: "kyc_good (demo_krows (kyc_world demo_kyc_start))"
  by (simp add: kyc_good_def demo_krows_def demo_kyc_start_def)

definition demo_at :: "int \<Rightarrow> demo_kyc kyc_state \<Rightarrow> demo_kyc kyc_state" where
  "demo_at n s = s\<lparr>kyc_world := (kyc_world s)\<lparr>dk_clock := n\<rparr>\<rparr>"

text \<open>Submitted at 0, rejected at 28 s, submitted again at 29 s; it is now 30 s.\<close>

definition demo_resubmitted :: "demo_kyc kyc_state" where
  "demo_resubmitted =
     (let s1 = snd (kyc_submit demo_kyc_env ''ana'' ''DNI'' demo_kyc_start);
          s2 = snd (kyc_db (kyc_review demo_kyc_env ''ana'' Reject) (demo_at 28000 s1));
          s3 = snd (kyc_submit demo_kyc_env ''ana'' ''PASSPORT'' (demo_at 29000 s2))
      in demo_at 30000 s3)"

text \<open>C25. One request or timer moves a user's identity check only along its lifecycle: at most the row
  of that user changes, from pending or rejected to in review (a submission), or from in review to approved or
  rejected (a review, or the timer); rows are neither lost nor doubled, and every row stays well
  formed: submitted exactly when not pending, reviewed exactly when decided.\<close>

theorem kyc_lifecycle:
  assumes "kyc_ports K krows" and "kyc_good (krows (kyc_world s))" and "kyc_step K krows s e t"
  shows "kyc_good (krows (kyc_world t)) \<and> kyc_moves e (krows (kyc_world s)) (krows (kyc_world t))"
  by (rule kyc_ports.step_law[OF assms(1,3,2)])

theorem kyc_lifecycle_witness:
  "kyc_good (demo_krows (kyc_world (snd (kyc_submit demo_kyc_env ''ana'' ''DNI'' demo_kyc_start))))
   \<and> map ky_status (dk_rows (kyc_world (snd (kyc_submit demo_kyc_env ''ana'' ''DNI'' demo_kyc_start)))) = [IN_REVIEW]"
proof
  let ?r = "kyc_submit demo_kyc_env ''ana'' ''DNI'' demo_kyc_start"
  have "kyc_step demo_kyc_env demo_krows demo_kyc_start (Submitted ''ana'' ''DNI'') (snd ?r)"
    by (rule kyc_step.submitted[of _ _ _ _ "fst ?r"]) simp
  from kyc_lifecycle[OF demo_kyc.kyc_ports_axioms demo_kyc_start_good this]
  show "kyc_good (demo_krows (kyc_world (snd ?r)))" ..
  show "map ky_status (dk_rows (kyc_world (snd ?r))) = [IN_REVIEW]" by code_simp
qed

text \<open>C26. An approval is final: whatever requests and timers follow, by whomever, an approved row stays
  as it is, and the guard of the money routes, which lets nobody pass without an approved row, can
  only fail for that user by an error of the database.\<close>

theorem kyc_approved_final:
  assumes "kyc_ports K krows" and "kyc_good (krows (kyc_world s))"
    and "kyc_steps K krows s es t"
    and "r \<in> krows (kyc_world s)" and "ky_userId r = u" and "ky_status r = APPROVED"
  shows "r \<in> krows (kyc_world t)
    \<and> (kyc_answers K krows \<longrightarrow> (\<exists>w. kyc_canActivate K u (kyc_world t) = (Inr True, w)))
    \<and> (\<forall>u' b w. kyc_canActivate K u' (kyc_world t) = (Inr b, w)
         \<longrightarrow> (\<exists>r' \<in> krows (kyc_world t). ky_userId r' = u' \<and> ky_status r' = APPROVED))"
proof -
  have good: "kyc_good (krows (kyc_world t))" and r: "r \<in> krows (kyc_world t)"
    using kyc_ports.steps_law[OF assms(1,3,2)] assms(4,6) by blast+
  show ?thesis
    using r kyc_ports.guard_passes[OF assms(1) _ good r assms(5,6)]
      kyc_ports.guard_iff(2)[OF assms(1) _ good] by blast
qed

definition demo_approved :: "demo_kyc kyc_state" where
  "demo_approved = snd (kyc_db (kyc_review demo_kyc_env ''ana'' Approve)
     (snd (kyc_submit demo_kyc_env ''ana'' ''DNI'' demo_kyc_start)))"

theorem kyc_approved_final_witness:
  "\<exists>w. kyc_canActivate demo_kyc_env ''ana''
     (kyc_world (snd (kyc_submit demo_kyc_env ''ana'' ''PASSPORT'' demo_approved))) = (Inr True, w)"
proof -
  let ?r = "kyc_submit demo_kyc_env ''ana'' ''PASSPORT'' demo_approved"
  obtain r where rows: "dk_rows (kyc_world demo_approved) = [r]" and r: "ky_userId r = ''ana''" "ky_status r = APPROVED"
    "ky_submittedAt r \<noteq> None" "ky_documentType r \<noteq> None" "ky_reviewedAt r \<noteq> None"
  proof -
    have "length (dk_rows (kyc_world demo_approved)) = 1" by code_simp
    moreover have "ky_userId (hd (dk_rows (kyc_world demo_approved))) = ''ana''" by code_simp
    moreover have "ky_status (hd (dk_rows (kyc_world demo_approved))) = APPROVED" by code_simp
    moreover have "ky_submittedAt (hd (dk_rows (kyc_world demo_approved))) = Some 0" by code_simp
    moreover have "ky_documentType (hd (dk_rows (kyc_world demo_approved))) = Some ''DNI''" by code_simp
    moreover have "ky_reviewedAt (hd (dk_rows (kyc_world demo_approved))) = Some 0" by code_simp
    ultimately show ?thesis using that by (cases "dk_rows (kyc_world demo_approved)") auto
  qed
  have good: "kyc_good (demo_krows (kyc_world demo_approved))"
    using r by (auto simp: kyc_good_def kyc_wf_def demo_krows_def rows)
  have "kyc_step demo_kyc_env demo_krows demo_approved (Submitted ''ana'' ''PASSPORT'') (snd ?r)"
    by (rule kyc_step.submitted[of _ _ _ _ "fst ?r"]) simp
  then have steps: "kyc_steps demo_kyc_env demo_krows demo_approved [Submitted ''ana'' ''PASSPORT''] (snd ?r)"
    by (rule kyc_steps.more) (rule kyc_steps.none)
  have "r \<in> demo_krows (kyc_world demo_approved)" by (simp add: demo_krows_def rows)
  from kyc_approved_final[OF demo_kyc.kyc_ports_axioms good steps this r(1,2)] demo_kyc_answers
  show ?thesis by blast
qed

text \<open>A timer approves whatever is in review when it goes off, the submission it was set for or a
  later one: the time of the submission it approves is not looked at.\<close>

theorem kyc_timer_any_submission:
  assumes "kyc_ports K krows" and "kyc_answers K krows" and "kyc_good (krows (kyc_world s))"
    and "(due, u) \<in> set (kyc_timers s)" and "due \<le> kyc_now K (kyc_world s)"
    and "r \<in> krows (kyc_world s)" and "ky_userId r = u" and "ky_status r = IN_REVIEW"
  shows "\<exists>t y. kyc_step K krows s (Fired u) t \<and> y \<in> krows (kyc_world t) \<and> ky_userId y = u
     \<and> ky_status y = APPROVED \<and> ky_submittedAt y = ky_submittedAt r"
proof -
  obtain y w where 1: "kyc_autoApprove K u (kyc_world s) = (Inr (), w)" and y: "y \<in> krows w"
    "ky_userId y = u" "ky_status y = APPROVED" "ky_submittedAt y = ky_submittedAt r"
    using kyc_ports.autoApprove_answers[OF assms(1-3,6-8)] by blast
  have "kyc_db (kyc_autoApprove K u) s = (Inr (), s\<lparr>kyc_world := w\<rparr>)"
    using 1 by (simp add: kyc_db_def zoom_def)
  from kyc_step.fired[OF assms(4,5) this, of krows] y show ?thesis
    by (intro exI[of _ "(s\<lparr>kyc_world := w\<rparr>)\<lparr>kyc_timers := remove1 (due, u) (kyc_timers (s\<lparr>kyc_world := w\<rparr>))\<rparr>"]
              exI[of _ y]) simp
qed

theorem kyc_timer_any_submission_witness:
  "\<exists>t y. kyc_step demo_kyc_env demo_krows demo_resubmitted (Fired ''ana'') t
     \<and> y \<in> demo_krows (kyc_world t) \<and> ky_userId y = ''ana''
     \<and> ky_status y = APPROVED \<and> ky_submittedAt y = Some 29000"
proof -
  let ?rs = "dk_rows (kyc_world demo_resubmitted)"
  have "length ?rs = 1" "ky_userId (hd ?rs) = ''ana''" "ky_status (hd ?rs) = IN_REVIEW"
    "ky_submittedAt (hd ?rs) = Some 29000" "ky_documentType (hd ?rs) = Some ''PASSPORT''" "ky_reviewedAt (hd ?rs) = None"
    by code_simp+
  then obtain r where rows: "?rs = [r]" and r: "ky_userId r = ''ana''" "ky_status r = IN_REVIEW"
    "ky_submittedAt r = Some 29000" "ky_documentType r = Some ''PASSPORT''" "ky_reviewedAt r = None"
    by (cases ?rs) auto
  have good: "kyc_good (demo_krows (kyc_world demo_resubmitted))"
    using r by (auto simp: kyc_good_def kyc_wf_def demo_krows_def rows)
  have tm: "kyc_timers demo_resubmitted = [(30000, ''ana''), (59000, ''ana'')]" by code_simp
  have now: "kyc_now demo_kyc_env (kyc_world demo_resubmitted) = 30000" by code_simp
  have "r \<in> demo_krows (kyc_world demo_resubmitted)" by (simp add: demo_krows_def rows)
  from kyc_timer_any_submission[OF demo_kyc.kyc_ports_axioms demo_kyc_answers good _ _ this r(1,2), of 30000]
  show ?thesis by (simp add: tm now r(3))
qed

end
