(* ===== verification/Idempotency.thy ===== *)
theory Idempotency
  imports Table
begin

text \<open>
  \<open>IdempotencyGuard\<close> (\<open>idempotency.guard.ts\<close>), the interceptor of the money routes that answers a
  repeated request from its first response, and the job that deletes old records
  (\<open>idempotency-cleanup.service.ts\<close>). The handler of the route is a parameter; a response body is its
  JSON text. The insert of the record is started when the handler's value goes out and is not awaited (a
  \<open>tap(async ...)\<close>): the request returns with the insert among those under way, \<open>idem_started\<close>, and
  \<open>idem_settle\<close> is the database answering it, at any later time. \<open>idem_run\<close> is whatever happens to the
  records in between, and \<open>idem_ports\<close> is what the code relies on.
\<close>

section \<open>Rows and parameters\<close>

record idem_row =
  ir_key :: string
  ir_userId :: string
  ir_route :: string
  ir_response :: string
  ir_statusCode :: nat
  ir_createdAt :: int

record new_idem =
  ni_key :: string
  ni_userId :: string
  ni_route :: string
  ni_response :: string
  ni_statusCode :: nat

record idem_request =
  iq_key :: "string option"
  iq_userId :: "string option"
  iq_path :: "string option"
  iq_url :: string

record 's idem_env =
  idem_records :: "('s, idem_row, new_idem) delegate"
  idem_now :: "'s \<Rightarrow> int"
  res_status :: "'s \<Rightarrow> nat"
  set_res_status :: "nat \<Rightarrow> 's \<Rightarrow> 's"
  idem_started :: "'s \<Rightarrow> new_idem list"
  set_started :: "new_idem list \<Rightarrow> 's \<Rightarrow> 's"

section \<open>The interceptor\<close>

definition IDEMPOTENCY_TTL_MS :: int where "IDEMPOTENCY_TTL_MS = 24 * 60 * 60 * 1000"

definition idem_of :: "string \<Rightarrow> idem_row \<Rightarrow> bool" where
  "idem_of key r \<longleftrightarrow> ir_key r = key"

text \<open>The lookup: the cached response, with its status set on the response, or nothing.\<close>

definition idem_lookup :: "'s idem_env \<Rightarrow> string \<Rightarrow> ('s, string option) io" where
  "idem_lookup E key =
     seqM (findFirst (idem_records E) (idem_of key)) (\<lambda>cached.
     case cached of
       None \<Rightarrow> ret None
     | Some c \<Rightarrow>
         seqM (readM (idem_now E)) (\<lambda>now.
         let age = now - ir_createdAt c in
         if age > IDEMPOTENCY_TTL_MS then
           seqM (orNull (delete (idem_records E) (idem_of key))) (\<lambda>_. ret None)
         else
           seqM (modifyM (set_res_status E (ir_statusCode c))) (\<lambda>_.
           ret (Some (ir_response c)))))"

text \<open>The handler, and the insert of what it returned, started with the status of the response; then the
  insert's settling, its error caught.\<close>

definition idem_handle :: "'s idem_env \<Rightarrow> idem_request \<Rightarrow> string \<Rightarrow> ('s, string) io \<Rightarrow> ('s, string) io" where
  "idem_handle E rq key handle =
     seqM handle (\<lambda>data.
     seqM (readM (res_status E)) (\<lambda>statusCode.
     seqM (modifyM (\<lambda>s. set_started E (idem_started E s @
       [\<lparr>ni_key = key, ni_userId = or_else (iq_userId rq) '''', ni_route = or_else (iq_path rq) (iq_url rq),
         ni_response = data, ni_statusCode = statusCode\<rparr>]) s)) (\<lambda>_.
     ret data)))"

definition idem_settle :: "'s idem_env \<Rightarrow> new_idem \<Rightarrow> ('s, idem_row option) io" where
  "idem_settle E n =
     seqM (modifyM (\<lambda>s. set_started E (remove1 n (idem_started E s)) s)) (\<lambda>_.
     orNull (create (idem_records E) n))"

definition idem_intercept :: "'s idem_env \<Rightarrow> idem_request \<Rightarrow> ('s, string) io \<Rightarrow> ('s, string) io" where
  "idem_intercept E rq handle =
     (case truthy (iq_key rq) of
        None \<Rightarrow> handle
      | Some key \<Rightarrow>
          seqM (idem_lookup E key) (\<lambda>cached.
          case cached of Some response \<Rightarrow> ret response | None \<Rightarrow> idem_handle E rq key handle))"

section \<open>The cleanup job\<close>

definition idem_cleanup :: "'s idem_env \<Rightarrow> ('s, unit) io" where
  "idem_cleanup E =
     seqM (readM (idem_now E)) (\<lambda>now.
     let cutoff = now - IDEMPOTENCY_TTL_MS in
     catchM (seqM (deleteMany (idem_records E) (\<lambda>r. ir_createdAt r < cutoff)) (\<lambda>count. ret ()))
       (\<lambda>error. ret ()))"

section \<open>What happens to the records\<close>

text \<open>Requests, with whatever handlers, inserts that settle, cleanups, and anything else that leaves the
  records; the clock does not go back.\<close>

inductive idem_run :: "'s idem_env \<Rightarrow> ('s \<Rightarrow> idem_row set) \<Rightarrow> 's \<Rightarrow> 's \<Rightarrow> bool"
  for E irows where
  no_step: "idem_run E irows s s"
| request: "idem_run E irows s t \<Longrightarrow> keeps irows handle \<Longrightarrow> idem_intercept E rq handle t = (x, u)
    \<Longrightarrow> idem_now E t \<le> idem_now E u \<Longrightarrow> idem_run E irows s u"
| settles: "idem_run E irows s t \<Longrightarrow> n \<in> set (idem_started E t) \<Longrightarrow> idem_settle E n t = (q, u)
    \<Longrightarrow> idem_now E t \<le> idem_now E u \<Longrightarrow> idem_run E irows s u"
| cleans: "idem_run E irows s t \<Longrightarrow> idem_cleanup E t = (c, u)
    \<Longrightarrow> idem_now E t \<le> idem_now E u \<Longrightarrow> idem_run E irows s u"
| elsewhere: "idem_run E irows s t \<Longrightarrow> irows u = irows t
    \<Longrightarrow> idem_now E t \<le> idem_now E u \<Longrightarrow> idem_run E irows s u"

text \<open>A record answers for its key, from a state on: as long as it is at most a day old, a request with the
  key runs no handler and returns what is recorded, or fails with its lookup.\<close>

definition replays :: "'s idem_env \<Rightarrow> ('s \<Rightarrow> idem_row set) \<Rightarrow> ('s \<Rightarrow> 'w) \<Rightarrow> idem_row \<Rightarrow> 's \<Rightarrow> bool" where
  "replays E irows work r s \<longleftrightarrow> (\<forall>t rq handle x u. idem_run E irows s t
     \<longrightarrow> idem_now E t - ir_createdAt r \<le> IDEMPOTENCY_TTL_MS \<longrightarrow> truthy (iq_key rq) = Some (ir_key r)
     \<longrightarrow> idem_intercept E rq handle t = (x, u)
     \<longrightarrow> work u = work t \<and> irows u = irows t
       \<and> (case fst (findFirst (idem_records E) (idem_of (ir_key r)) t) of
            Inl e \<Rightarrow> x = Inl e
          | Inr _ \<Rightarrow> x = Inr (ir_response r) \<and> res_status E u = ir_statusCode r))"

section \<open>What the interceptor relies on\<close>

definition idem_made :: "int \<Rightarrow> new_idem \<Rightarrow> idem_row \<Rightarrow> bool" where
  "idem_made now n r \<longleftrightarrow> ir_key r = ni_key n \<and> ir_userId r = ni_userId n \<and> ir_route r = ni_route n
     \<and> ir_response r = ni_response n \<and> ir_statusCode r = ni_statusCode n \<and> ir_createdAt r = now"

text \<open>\<open>work\<close> is what the handlers act on; setting the status of a response and the calls on the
  records leave it alone.\<close>

locale idem_ports =
  fixes E :: "'s idem_env" and irows :: "'s \<Rightarrow> idem_row set" and work :: "'s \<Rightarrow> 'w"
  assumes itab: "table (idem_records E) irows work
      (\<lambda>s n r. idem_made (idem_now E s) n r \<and> ir_key r \<notin> ir_key ` irows s) (\<lambda>s r. r)"
    and status_rows: "irows (set_res_status E c s) = irows s"
    and status_work: "work (set_res_status E c s) = work s"
    and status_set: "res_status E (set_res_status E c s) = c"
    and find_now: "findFirst (idem_records E) P s = (r, t) \<Longrightarrow> idem_now E t = idem_now E s"
    and started_rows: "irows (set_started E ns s) = irows s"
    and started_work: "work (set_started E ns s) = work s"
    and started_now: "idem_now E (set_started E ns s) = idem_now E s"
    and started_status: "res_status E (set_started E ns s) = res_status E s"
    and started_set: "idem_started E (set_started E ns s) = ns"
begin

lemmas itab_returns = table.returns[OF itab]
lemmas itab_throws = table.throws[OF itab]

lemma orNull_rows:
  assumes "orNull m s = (q, t)"
  shows "\<exists>r. m s = (r, t) \<and> \<not> isl q"
  using assms by (auto simp: orNull_iff)

text \<open>A live record answers: the lookup gives its response and status, and nothing else happens.\<close>

lemma lookup_live:
  assumes "idem_lookup E key s = (Inr q, t)" and "inj_on ir_key (irows s)"
    and "r \<in> irows s" and "ir_key r = key" and "idem_now E s - ir_createdAt r \<le> IDEMPOTENCY_TTL_MS"
  shows "q = Some (ir_response r) \<and> irows t = irows s \<and> work t = work s \<and> res_status E t = ir_statusCode r"
proof -
  from assms(1) obtain c s1 where f: "findFirst (idem_records E) (idem_of key) s = (Inr c, s1)"
    and rest: "(case c of None \<Rightarrow> ret None
     | Some c \<Rightarrow> seqM (readM (idem_now E)) (\<lambda>now.
         let age = now - ir_createdAt c in
         if age > IDEMPOTENCY_TTL_MS then seqM (orNull (delete (idem_records E) (idem_of key))) (\<lambda>_. ret None)
         else seqM (modifyM (set_res_status E (ir_statusCode c))) (\<lambda>_. ret (Some (ir_response c))))) s1 = (Inr q, t)"
    by (auto simp: idem_lookup_def seqM_Inr)
  from itab_returns(1)[OF f] have same: "irows s1 = irows s" "work s1 = work s" by simp_all
  from itab_returns(1)[OF f] assms(3,4) obtain x where x: "c = Some x" "x \<in> irows s" "ir_key x = key"
    by (cases c) (auto simp: idem_of_def)
  have "x = r" using inj_onD[OF assms(2)] x(2,3) assms(3,4) by simp
  then have "q = Some (ir_response r)" "t = set_res_status E (ir_statusCode r) s1"
    using rest x(1) assms(5) find_now[OF f] by (auto simp: seqM_def readM_def modifyM_def ret_def)
  then show ?thesis using same status_rows status_work status_set by simp
qed

text \<open>Without one, nothing of the handlers' world changes and no record of the key is left.\<close>

lemma lookup_miss:
  assumes "idem_lookup E key s = (Inr None, t)"
  shows "work t = work s"
proof -
  from assms obtain c s1 where f: "findFirst (idem_records E) (idem_of key) s = (Inr c, s1)"
    and rest: "(case c of None \<Rightarrow> ret None
     | Some c \<Rightarrow> seqM (readM (idem_now E)) (\<lambda>now.
         let age = now - ir_createdAt c in
         if age > IDEMPOTENCY_TTL_MS then seqM (orNull (delete (idem_records E) (idem_of key))) (\<lambda>_. ret None)
         else seqM (modifyM (set_res_status E (ir_statusCode c))) (\<lambda>_. ret (Some (ir_response c))))) s1 = (Inr None, t)"
    by (auto simp: idem_lookup_def seqM_Inr)
  have s1: "work s1 = work s" using itab_returns(1)[OF f] by simp
  show ?thesis
  proof (cases c)
    case None
    then show ?thesis using rest s1 by (auto simp: io_prim_iff)
  next
    case (Some x)
    then obtain n where "orNull (delete (idem_records E) (idem_of key)) s1 = (Inr n, t)"
      using rest by (auto simp: seqM_Inr io_prim_iff split: if_splits)
    from orNull_rows[OF this] obtain r where d: "delete (idem_records E) (idem_of key) s1 = (r, t)" by blast
    then have "work t = work s1" using itab_returns(10) itab_throws(10) by (cases r) blast+
    then show ?thesis using s1 by simp
  qed
qed

text \<open>A hit is the response of a record, with its status.\<close>

lemma lookup_hit:
  assumes "idem_lookup E key s = (Inr (Some b), t)"
  shows "\<exists>r \<in> irows t. ir_key r = key \<and> ir_response r = b \<and> work t = work s \<and> res_status E t = ir_statusCode r"
proof -
  from assms obtain c s1 where f: "findFirst (idem_records E) (idem_of key) s = (Inr c, s1)"
    and rest: "(case c of None \<Rightarrow> ret None
     | Some c \<Rightarrow> seqM (readM (idem_now E)) (\<lambda>now.
         let age = now - ir_createdAt c in
         if age > IDEMPOTENCY_TTL_MS then seqM (orNull (delete (idem_records E) (idem_of key))) (\<lambda>_. ret None)
         else seqM (modifyM (set_res_status E (ir_statusCode c))) (\<lambda>_. ret (Some (ir_response c))))) s1 = (Inr (Some b), t)"
    by (auto simp: idem_lookup_def seqM_Inr)
  obtain r where r: "c = Some r" using rest by (cases c) (simp_all add: ret_def)
  have "b = ir_response r \<and> t = set_res_status E (ir_statusCode r) s1"
    using rest[unfolded r] by (auto simp: seqM_Inr io_prim_iff Let_def split: if_splits)
  then show ?thesis using itab_returns(1)[OF f] r status_rows status_work status_set by (auto simp: idem_of_def)
qed

text \<open>What a lookup does to the records: at most the expired one of the key goes.\<close>

lemma lookup_rows:
  assumes "idem_lookup E key s = (q, t)" and "inj_on ir_key (irows s)"
  shows "irows t = irows s \<or> (\<exists>y \<in> irows s. IDEMPOTENCY_TTL_MS < idem_now E s - ir_createdAt y \<and> irows t = irows s - {y})"
proof -
  obtain c s1 where f: "findFirst (idem_records E) (idem_of key) s = (c, s1)"
    by (cases "findFirst (idem_records E) (idem_of key) s")
  then have rows: "irows s1 = irows s" and now: "idem_now E s1 = idem_now E s"
    using itab_returns(1) itab_throws(1) find_now by (cases c; blast)+
  consider "irows t = irows s1"
    | x k where "c = Inr (Some x)" "IDEMPOTENCY_TTL_MS < idem_now E s1 - ir_createdAt x"
        "delete (idem_records E) (idem_of key) s1 = (k, t)"
  proof (cases c)
    case (Inl e)
    then show ?thesis using assms(1) f that(1) by (simp add: idem_lookup_def seqM_def)
  next
    case c: (Inr found)
    show ?thesis
    proof (cases found)
      case None
      then show ?thesis using assms(1) f c that(1) by (simp add: idem_lookup_def seqM_def ret_def)
    next
      case (Some x)
      then have run: "(if IDEMPOTENCY_TTL_MS < idem_now E s1 - ir_createdAt x
          then seqM (orNull (delete (idem_records E) (idem_of key))) (\<lambda>_. ret None) s1
          else (Inr (Some (ir_response x)), set_res_status E (ir_statusCode x) s1)) = (q, t)"
        using assms(1) f c by (simp add: idem_lookup_def seqM_def ret_def readM_def modifyM_def split: if_splits)
      show ?thesis
      proof (cases "IDEMPOTENCY_TTL_MS < idem_now E s1 - ir_createdAt x")
        case True
        obtain k s2 where d: "delete (idem_records E) (idem_of key) s1 = (k, s2)"
          by (cases "delete (idem_records E) (idem_of key) s1")
        then have "t = s2" using run True by (cases k) (simp_all add: seqM_def orNull_def catchM_def ret_def)
        then show ?thesis using that(2) c Some True d by blast
      next
        case False
        then show ?thesis using run that(1) status_rows by auto
      qed
    qed
  qed
  then show ?thesis
  proof cases
    case 1
    then show ?thesis using rows by simp
  next
    case 2
    show ?thesis
    proof (cases k)
      case (Inl e)
      then show ?thesis using itab_throws(10)[OF 2(3)[unfolded Inl]] rows by simp
    next
      case (Inr y)
      have x: "x \<in> irows s" "ir_key x = key" using itab_returns(1)[OF f[unfolded 2(1)]] by (auto simp: idem_of_def)
      have y: "y \<in> irows s" "ir_key y = key" "irows t = irows s - {y}"
        using itab_returns(10)[OF 2(3)[unfolded Inr]] rows by (auto simp: idem_of_def)
      have "x = y" using inj_onD[OF assms(2), of x y] x y by simp
      then show ?thesis using 2(2) now y by auto
    qed
  qed
qed

text \<open>After the handler: its value goes out, and the insert of its record is under way.\<close>

lemma handle_returns:
  assumes "idem_handle E rq key handle s = (Inr d, t)"
  shows "\<exists>s1. handle s = (Inr d, s1) \<and> work t = work s1 \<and> irows t = irows s1 \<and> res_status E t = res_status E s1
    \<and> (\<exists>n. ni_key n = key \<and> ni_response n = d \<and> ni_statusCode n = res_status E t
         \<and> idem_started E t = idem_started E s1 @ [n])"
proof -
  from assms obtain s1 where "handle s = (Inr d, s1)"
    and "t = set_started E (idem_started E s1 @ [\<lparr>ni_key = key, ni_userId = or_else (iq_userId rq) '''',
        ni_route = or_else (iq_path rq) (iq_url rq), ni_response = d, ni_statusCode = res_status E s1\<rparr>]) s1"
    by (auto simp: idem_handle_def seqM_Inr io_prim_iff)
  then show ?thesis using started_rows started_work started_status started_set by auto
qed

lemma handle_rows: "keeps irows handle \<Longrightarrow> keeps irows (idem_handle E rq key handle)"
  unfolding idem_handle_def by (intro keeps_seqM keeps_modifyM started_rows keeps_prim)

text \<open>The insert settles: the record is there, stored now, or it was refused.\<close>

lemma settle_returns:
  assumes "idem_settle E n s = (q, t)"
  shows "work t = work s \<and> (case q of
      Inr (Some r) \<Rightarrow> idem_made (idem_now E s) n r \<and> ir_key r \<notin> ir_key ` irows s \<and> irows t = insert r (irows s)
    | _ \<Rightarrow> irows t = irows s)"
proof -
  let ?s = "set_started E (remove1 n (idem_started E s)) s"
  have s: "irows ?s = irows s" "work ?s = work s" "idem_now E ?s = idem_now E s"
    using started_rows started_work started_now by simp_all
  obtain c u where c: "create (idem_records E) n ?s = (c, u)" by (cases "create (idem_records E) n ?s")
  show ?thesis
  proof (cases c)
    case (Inl e)
    then have "q = Inr None" "t = u" using assms c by (simp_all add: idem_settle_def seqM_def modifyM_def orNull_def catchM_def ret_def)
    then show ?thesis using itab_throws(5)[OF c[unfolded Inl]] s by simp
  next
    case (Inr r)
    then have "q = Inr (Some r)" "t = u" using assms c by (simp_all add: idem_settle_def seqM_def modifyM_def orNull_def catchM_def ret_def)
    then show ?thesis using itab_returns(5)[OF c[unfolded Inr]] s by simp
  qed
qed

lemma cleanup_returns:
  assumes "idem_cleanup E s = (r, t)"
  shows "r = Inr () \<and> work t = work s
    \<and> (irows t = irows s \<or> irows t = {x \<in> irows s. idem_now E s - ir_createdAt x \<le> IDEMPOTENCY_TTL_MS})"
proof -
  obtain q s1 where d: "deleteMany (idem_records E)
      (\<lambda>r. ir_createdAt r < idem_now E s - IDEMPOTENCY_TTL_MS) s = (q, s1)"
    by (cases "deleteMany (idem_records E) (\<lambda>r. ir_createdAt r < idem_now E s - IDEMPOTENCY_TTL_MS) s")
  then have rt: "r = Inr () \<and> t = s1" using assms
    by (cases q) (auto simp: idem_cleanup_def seqM_def readM_def catchM_def ret_def)
  show ?thesis
  proof (cases q)
    case (Inl e)
    then show ?thesis using itab_throws(11)[OF d[unfolded Inl]] rt by simp
  next
    case (Inr k)
    have "{x \<in> irows s. \<not> ir_createdAt x < idem_now E s - IDEMPOTENCY_TTL_MS}
        = {x \<in> irows s. idem_now E s - ir_createdAt x \<le> IDEMPOTENCY_TTL_MS}" by auto
    then show ?thesis using itab_returns(11)[OF d[unfolded Inr]] rt by simp
  qed
qed

end

section \<open>When the database answers\<close>

definition idem_answers :: "'s idem_env \<Rightarrow> ('s \<Rightarrow> idem_row set) \<Rightarrow> bool" where
  "idem_answers E irows \<longleftrightarrow> (\<forall>P s. \<not> isl (fst (findFirst (idem_records E) P s)))
     \<and> (\<forall>P s. (\<exists>r \<in> irows s. P r) \<longrightarrow> \<not> isl (fst (delete (idem_records E) P s)))
     \<and> (\<forall>n s. ni_key n \<notin> ir_key ` irows s \<longrightarrow> \<not> isl (fst (create (idem_records E) n s)))"

lemma io_answer: "\<not> isl (fst (m s)) \<Longrightarrow> \<exists>x t. m s = (Inr x, t)"
  by (cases "m s"; cases "fst (m s)") auto

lemma idem_answersD:
  assumes "idem_answers E irows"
  shows "\<exists>x t. findFirst (idem_records E) P s = (Inr x, t)"
    and "\<exists>r \<in> irows s. P r \<Longrightarrow> \<exists>x t. delete (idem_records E) P s = (Inr x, t)"
    and "ni_key n \<notin> ir_key ` irows s \<Longrightarrow> \<exists>x t. create (idem_records E) n s = (Inr x, t)"
  using assms by (simp_all add: idem_answers_def io_answer)

context idem_ports
begin

lemma lookup_answers:
  assumes ans: "idem_answers E irows" and inj: "inj_on ir_key (irows s)"
  shows "\<exists>q t. idem_lookup E key s = (Inr q, t) \<and> inj_on ir_key (irows t)
    \<and> (q = None \<longrightarrow> key \<notin> ir_key ` irows t)
    \<and> (\<forall>d. q = Some d \<longrightarrow> (\<exists>r \<in> irows t. ir_key r = key \<and> ir_response r = d))"
proof -
  obtain c s1 where f: "findFirst (idem_records E) (idem_of key) s = (Inr c, s1)"
    using idem_answersD(1)[OF ans] by blast
  have rows: "irows s1 = irows s" using itab_returns(1)[OF f] by simp
  show ?thesis
  proof (cases c)
    case None
    then have "idem_lookup E key s = (Inr None, s1)" using f by (simp add: idem_lookup_def seqM_def ret_def)
    then show ?thesis using itab_returns(1)[OF f] None inj by (auto simp: idem_of_def)
  next
    case (Some x)
    then have x: "x \<in> irows s" "ir_key x = key" using itab_returns(1)[OF f] by (auto simp: idem_of_def)
    show ?thesis
    proof (cases "idem_now E s1 - ir_createdAt x > IDEMPOTENCY_TTL_MS")
      case True
      have "\<exists>r \<in> irows s1. idem_of key r" using x rows by (auto simp: idem_of_def)
      then obtain y s2 where d: "delete (idem_records E) (idem_of key) s1 = (Inr y, s2)"
        using idem_answersD(2)[OF ans] by blast
      have "idem_lookup E key s = (Inr None, s2)" using f Some True d
        by (simp add: idem_lookup_def seqM_def readM_def orNull_def catchM_def ret_def)
      moreover have y: "y \<in> irows s" "ir_key y = key" "irows s2 = irows s - {y}"
        using itab_returns(10)[OF d] rows by (auto simp: idem_of_def)
      have "key \<notin> ir_key ` irows s2" unfolding y(3) using inj y(1,2) by (auto dest: inj_onD)
      moreover have "inj_on ir_key (irows s2)" unfolding y(3) using inj by (rule inj_on_diff)
      ultimately show ?thesis by blast
    next
      case False
      have "idem_lookup E key s = (Inr (Some (ir_response x)), set_res_status E (ir_statusCode x) s1)"
        using f Some False by (simp add: idem_lookup_def seqM_def readM_def modifyM_def ret_def)
      then show ?thesis using x rows status_rows inj by auto
    qed
  qed
qed

text \<open>A request, whatever its handler does elsewhere, removes at most an expired record.\<close>

lemma intercept_rows:
  assumes "idem_intercept E rq handle s = (x, t)" and "keeps irows handle" and inj: "inj_on ir_key (irows s)"
  shows "irows t = irows s \<or> (\<exists>y \<in> irows s. IDEMPOTENCY_TTL_MS < idem_now E s - ir_createdAt y \<and> irows t = irows s - {y})"
proof (cases "truthy (iq_key rq)")
  case None
  then show ?thesis using assms(1) keepsD[OF assms(2)] by (simp add: idem_intercept_def)
next
  case (Some key)
  obtain q s1 where l: "idem_lookup E key s = (q, s1)" by (cases "idem_lookup E key s")
  have "irows t = irows s1"
  proof (cases q)
    case (Inl e)
    then show ?thesis using assms(1) Some l by (simp add: idem_intercept_def seqM_def)
  next
    case (Inr c)
    then show ?thesis using assms(1) Some l keepsD[OF handle_rows[OF assms(2)]]
      by (cases c) (simp_all add: idem_intercept_def seqM_def ret_def)
  qed
  then show ?thesis using lookup_rows[OF l inj] by simp
qed

text \<open>A live record stays, and stays the only one of its key.\<close>

lemma settle_rows:
  assumes "idem_settle E n s = (q, t)"
  shows "irows t = irows s \<or> (\<exists>r. ir_key r \<notin> ir_key ` irows s \<and> irows t = insert r (irows s))"
proof (cases "\<exists>r. q = Inr (Some r)")
  case True
  then obtain r where "q = Inr (Some r)" by blast
  with settle_returns[OF assms] show ?thesis by auto
next
  case False
  with settle_returns[OF assms] show ?thesis by (cases q) (simp_all split: option.splits)
qed

lemma inj_without: "inj_on ir_key R \<Longrightarrow> R' = R \<or> (\<exists>y \<in> R. P y \<and> R' = R - {y}) \<Longrightarrow> inj_on ir_key R'"
  by (elim disjE bexE conjE) (simp_all add: inj_on_diff)

lemma inj_with: "inj_on ir_key R \<Longrightarrow> R' = R \<or> (\<exists>r. ir_key r \<notin> ir_key ` R \<and> R' = insert r R) \<Longrightarrow> inj_on ir_key R'"
  by (elim disjE exE conjE) (simp, simp, blast)

lemma run_inj:
  assumes "idem_run E irows s t" and "inj_on ir_key (irows s)"
  shows "inj_on ir_key (irows t)"
  using assms
proof (induction rule: idem_run.induct)
  case (request s t handle rq x u)
  have i: "inj_on ir_key (irows t)" using request by simp
  show ?case by (rule inj_without[OF i intercept_rows[OF request(3,2) i]])
next
  case (settles s t n q u)
  have "inj_on ir_key (irows t)" using settles by simp
  then show ?case using settle_rows[OF settles(3)] by (rule inj_with)
next
  case (cleans s t c u)
  have "inj_on ir_key (irows t)" using cleans by simp
  moreover have "irows u \<subseteq> irows t" using cleanup_returns[OF cleans(2)] by auto
  ultimately show ?case by (rule inj_on_subset)
qed simp_all

lemma run_keeps_live:
  assumes "idem_run E irows s t" and "inj_on ir_key (irows s)" and "r \<in> irows s"
    and "idem_now E t - ir_createdAt r \<le> IDEMPOTENCY_TTL_MS"
  shows "r \<in> irows t"
  using assms
proof (induction rule: idem_run.induct)
  case (request s t handle rq x u)
  have live: "idem_now E t - ir_createdAt r \<le> IDEMPOTENCY_TTL_MS" using request.hyps(4) request.prems(3) by linarith
  then have "r \<in> irows t" using request.IH request.prems by blast
  moreover have "y \<noteq> r" if "IDEMPOTENCY_TTL_MS < idem_now E t - ir_createdAt y" for y using that live by auto
  moreover note intercept_rows[OF request.hyps(3,2) run_inj[OF request.hyps(1) request.prems(1)]]
  ultimately show ?case by blast
next
  case (settles s t n q u)
  have "idem_now E t - ir_createdAt r \<le> IDEMPOTENCY_TTL_MS" using settles.hyps(4) settles.prems(3) by linarith
  then have "r \<in> irows t" using settles.IH settles.prems by blast
  with settle_rows[OF settles.hyps(3)] show ?case by (elim disjE exE conjE) simp_all
next
  case (cleans s t c u)
  have live: "idem_now E t - ir_createdAt r \<le> IDEMPOTENCY_TTL_MS" using cleans.hyps(3) cleans.prems(3) by linarith
  then have "r \<in> irows t" using cleans.IH cleans.prems by blast
  with cleanup_returns[OF cleans.hyps(2)] live show ?case by (elim conjE disjE) simp_all
next
  case (elsewhere s t u)
  have "idem_now E t - ir_createdAt r \<le> IDEMPOTENCY_TTL_MS" using elsewhere.hyps(3) elsewhere.prems(3) by linarith
  then show ?case using elsewhere.IH elsewhere.prems elsewhere.hyps(2) by simp
qed

lemma live_replays:
  assumes inj: "inj_on ir_key (irows s)" and r: "r \<in> irows s"
  shows "replays E irows work r s"
  unfolding replays_def
proof (intro allI impI)
  fix t rq handle x u
  assume run: "idem_run E irows s t" and live: "idem_now E t - ir_createdAt r \<le> IDEMPOTENCY_TTL_MS"
    and key: "truthy (iq_key rq) = Some (ir_key r)" and step: "idem_intercept E rq handle t = (x, u)"
  have r': "inj_on ir_key (irows t)" "r \<in> irows t" using run_keeps_live[OF run inj r live] run_inj[OF run inj] by simp_all
  obtain c t1 where f: "findFirst (idem_records E) (idem_of (ir_key r)) t = (c, t1)"
    by (cases "findFirst (idem_records E) (idem_of (ir_key r)) t")
  show "work u = work t \<and> irows u = irows t
       \<and> (case fst (findFirst (idem_records E) (idem_of (ir_key r)) t) of
            Inl e \<Rightarrow> x = Inl e
          | Inr _ \<Rightarrow> x = Inr (ir_response r) \<and> res_status E u = ir_statusCode r)"
  proof (cases c)
    case (Inl e)
    then have "x = Inl e" "u = t1" using step key f by (simp_all add: idem_intercept_def idem_lookup_def seqM_def)
    then show ?thesis using f Inl itab_throws(1)[OF f[unfolded Inl]] by simp
  next
    case (Inr found)
    obtain y where y: "found = Some y" "y \<in> irows t" "ir_key y = ir_key r"
      using itab_returns(1)[OF f[unfolded Inr]] r' by (cases found) (auto simp: idem_of_def)
    have "y = r" using inj_onD[OF r'(1)] y r' by simp
    then have l: "idem_lookup E (ir_key r) t = (Inr (Some (ir_response r)), set_res_status E (ir_statusCode r) t1)"
      using f Inr y(1) live find_now[OF f] by (simp add: idem_lookup_def seqM_def readM_def modifyM_def ret_def)
    then have "x = Inr (ir_response r)" "u = set_res_status E (ir_statusCode r) t1"
      using step key by (simp_all add: idem_intercept_def seqM_def ret_def)
    then show ?thesis using lookup_live[OF l r'(1,2) refl live] f Inr by simp
  qed
qed

text \<open>The insert stores its data, and its record answers from then on.\<close>

lemma settled_replays:
  assumes run: "idem_run E irows s1 s2" and step: "idem_settle E n s2 = (q, s3)" and inj: "inj_on ir_key (irows s1)"
  shows "work s3 = work s2 \<and> (case q of
      Inr (Some r) \<Rightarrow> ir_key r = ni_key n \<and> ir_response r = ni_response n \<and> ir_statusCode r = ni_statusCode n
        \<and> ir_createdAt r = idem_now E s2 \<and> irows s3 = insert r (irows s2) \<and> replays E irows work r s3
    | _ \<Rightarrow> irows s3 = irows s2)"
proof (cases "\<exists>r. q = Inr (Some r)")
  case True
  then obtain r where r: "q = Inr (Some r)" by blast
  from settle_returns[OF step[unfolded r]] have made: "idem_made (idem_now E s2) n r" "ir_key r \<notin> ir_key ` irows s2"
    "irows s3 = insert r (irows s2)" "work s3 = work s2" by simp_all
  have "inj_on ir_key (irows s3)" by (rule inj_with[OF run_inj[OF run inj]]) (use made in blast)
  then show ?thesis using live_replays[of s3 r] made r by (simp add: idem_made_def)
next
  case False
  then show ?thesis using settle_returns[OF step] by (auto split: sum.splits option.splits)
qed

lemma intercept_starts:
  assumes inj: "inj_on ir_key (irows s)" and rows: "keeps irows handle"
    and key: "truthy (iq_key rq) = Some key" and run: "idem_intercept E rq handle s = (Inr d, t)"
  shows "inj_on ir_key (irows t)
    \<and> ((\<exists>r \<in> irows t. ir_key r = key \<and> ir_response r = d \<and> work t = work s \<and> res_status E t = ir_statusCode r)
     \<or> (\<exists>n \<in> set (idem_started E t). ni_key n = key \<and> ni_response n = d \<and> ni_statusCode n = res_status E t))"
proof -
  have i: "inj_on ir_key (irows t)" by (rule inj_without[OF inj intercept_rows[OF run rows inj]])
  from run key obtain q s1 where l: "idem_lookup E key s = (Inr q, s1)"
    and rest: "(case q of Some response \<Rightarrow> ret response | None \<Rightarrow> idem_handle E rq key handle) s1 = (Inr d, t)"
    by (auto simp: idem_intercept_def seqM_Inr)
  show ?thesis
  proof (cases q)
    case None
    then have "idem_handle E rq key handle s1 = (Inr d, t)" using rest by simp
    from handle_returns[OF this] obtain s2 n where "idem_started E t = idem_started E s2 @ [n]"
      and n: "ni_key n = key" "ni_response n = d" "ni_statusCode n = res_status E t" by blast
    then have "n \<in> set (idem_started E t)" by simp
    then show ?thesis using i n by blast
  next
    case (Some b)
    then have t: "b = d" "t = s1" using rest by (simp_all add: ret_def)
    from lookup_hit[OF l[unfolded Some]] show ?thesis using i t by blast
  qed
qed

end

section \<open>A concrete surrounding\<close>

text \<open>The world of the demonstration handlers is a counter of the times one of them ran.\<close>

record idem_world =
  iw_rows :: "idem_row list"
  iw_clock :: int
  iw_status :: nat
  iw_runs :: nat
  iw_started :: "new_idem list"

definition demo_idem_row :: "idem_world \<Rightarrow> nat \<Rightarrow> new_idem \<Rightarrow> idem_row" where
  "demo_idem_row s k n = \<lparr>ir_key = ni_key n, ir_userId = ni_userId n, ir_route = ni_route n,
     ir_response = ni_response n, ir_statusCode = ni_statusCode n, ir_createdAt = iw_clock s\<rparr>"

definition demo_idem :: "idem_world idem_env" where
  "demo_idem = \<lparr>idem_records = list_delegate iw_rows (\<lambda>rs s. s\<lparr>iw_rows := rs\<rparr>) demo_idem_row (\<lambda>s r. r)
       (\<lambda>r r'. ir_key r = ir_key r'),
     idem_now = iw_clock, res_status = iw_status, set_res_status = (\<lambda>c s. s\<lparr>iw_status := c\<rparr>),
     idem_started = iw_started, set_started = (\<lambda>ns s. s\<lparr>iw_started := ns\<rparr>)\<rparr>"

definition demo_irows :: "idem_world \<Rightarrow> idem_row set" where
  "demo_irows s = set (iw_rows s)"

interpretation demo_idem: idem_ports demo_idem demo_irows iw_runs
proof (rule idem_ports.intro, goal_cases)
  case 1
  have t: "table (idem_records demo_idem) (\<lambda>s. set (iw_rows s)) iw_runs
      (\<lambda>s n r. (\<exists>i. r = demo_idem_row s i n) \<and> (\<forall>x \<in> set (iw_rows s). \<not> ir_key r = ir_key x)) (\<lambda>s r. r)"
    unfolding demo_idem_def idem_env.simps by (rule list_delegate_table) simp_all
  have rw: "demo_irows = (\<lambda>s. set (iw_rows s))" by (simp add: demo_irows_def fun_eq_iff)
  show ?case unfolding rw
    by (rule table_weaken[OF t]) (auto simp: idem_made_def demo_idem_row_def demo_idem_def)
next
  case (5 P s r t)
  then show ?case by (auto simp: demo_idem_def list_delegate_def)
qed (simp_all add: demo_idem_def demo_irows_def)

lemma demo_idem_answers: "idem_answers demo_idem demo_irows"
  by (auto simp: idem_answers_def demo_idem_def demo_irows_def list_delegate_def list_insert_def
       demo_idem_row_def list_ex_iff image_iff dest: find_None_iff[THEN iffD1] split: option.splits)
     (metis idem_row.select_convs(1))

definition demo_handler :: "string \<Rightarrow> (idem_world, string) io" where
  "demo_handler d = seqM (modifyM (\<lambda>s. s\<lparr>iw_runs := iw_runs s + 1, iw_status := 201\<rparr>)) (\<lambda>_. ret d)"

definition demo_idem_start :: idem_world where
  "demo_idem_start = \<lparr>iw_rows = [], iw_clock = 0, iw_status = 200, iw_runs = 0, iw_started = []\<rparr>"

definition demo_post :: "string \<Rightarrow> idem_request" where
  "demo_post u = \<lparr>iq_key = Some ''k1'', iq_userId = Some u, iq_path = Some ''/wallet/deposit'', iq_url = ''''\<rparr>"

section \<open>Properties\<close>

text \<open>C28. A repeated key is answered from a recorded response. A request with a key that has returned either
  was answered by a record of the key, without running its handler, or has started the insert of its
  response and its status. Whatever happens before that insert settles (other requests, inserts and
  cleanups, and time), it is refused and leaves the records, or it stores the response under the key. From
  then on, or from the answer on, whatever happens and for as long as the record is at most a day old, no
  request with the key runs its handler: it returns the recorded body with the recorded status, or
  fails with its lookup, whatever the handler, the route and the user are: neither of the latter is
  compared.\<close>

theorem idempotent_replay:
  assumes "idem_ports E irows work" and "inj_on ir_key (irows s)"
    and "keeps irows handle" and "truthy (iq_key rq) = Some key"
    and "idem_intercept E rq handle s = (Inr d, s1)"
  shows "(\<exists>r \<in> irows s1. ir_key r = key \<and> ir_response r = d \<and> work s1 = work s \<and> res_status E s1 = ir_statusCode r
       \<and> replays E irows work r s1)
   \<or> (\<exists>n \<in> set (idem_started E s1). ni_key n = key \<and> ni_response n = d \<and> ni_statusCode n = res_status E s1
       \<and> (\<forall>s2 q s3. idem_run E irows s1 s2 \<longrightarrow> idem_settle E n s2 = (q, s3) \<longrightarrow>
            work s3 = work s2 \<and> (case q of
                Inr (Some r) \<Rightarrow> ir_key r = key \<and> ir_response r = d \<and> ir_statusCode r = res_status E s1
                  \<and> ir_createdAt r = idem_now E s2 \<and> irows s3 = insert r (irows s2) \<and> replays E irows work r s3
              | _ \<Rightarrow> irows s3 = irows s2)))"
proof -
  from idem_ports.intercept_starts[OF assms] have inj: "inj_on ir_key (irows s1)"
    and "(\<exists>r \<in> irows s1. ir_key r = key \<and> ir_response r = d \<and> work s1 = work s \<and> res_status E s1 = ir_statusCode r)
     \<or> (\<exists>n \<in> set (idem_started E s1). ni_key n = key \<and> ni_response n = d \<and> ni_statusCode n = res_status E s1)"
    by blast+
  then consider r where "r \<in> irows s1" "ir_key r = key" "ir_response r = d" "work s1 = work s" "res_status E s1 = ir_statusCode r"
    | n where "n \<in> set (idem_started E s1)" "ni_key n = key" "ni_response n = d" "ni_statusCode n = res_status E s1"
    by blast
  then show ?thesis
  proof cases
    case 1
    then show ?thesis using idem_ports.live_replays[OF assms(1) inj 1(1)] by blast
  next
    case 2
    have "work s3 = work s2 \<and> (case q of
                Inr (Some r) \<Rightarrow> ir_key r = key \<and> ir_response r = d \<and> ir_statusCode r = res_status E s1
                  \<and> ir_createdAt r = idem_now E s2 \<and> irows s3 = insert r (irows s2) \<and> replays E irows work r s3
              | _ \<Rightarrow> irows s3 = irows s2)"
      if "idem_run E irows s1 s2" "idem_settle E n s2 = (q, s3)" for s2 q s3
      using idem_ports.settled_replays[OF assms(1) that inj] 2(2-4) by (auto split: sum.splits option.splits)
    then show ?thesis using 2 by blast
  qed
qed

theorem idempotent_replay_witness:
  "let s1 = snd (idem_intercept demo_idem (demo_post ''ana'') (demo_handler ''tx-1'') demo_idem_start);
       early = idem_intercept demo_idem (demo_post ''bob'') (demo_handler ''tx-2'') s1;
       s3 = snd (idem_settle demo_idem (hd (iw_started s1)) s1);
       late = idem_intercept demo_idem (demo_post ''bob'') (demo_handler ''tx-2'') (s3\<lparr>iw_clock := 86400000\<rparr>)
   in fst early = Inr ''tx-2'' \<and> iw_runs (snd early) = 2 \<and> fst late = Inr ''tx-1'' \<and> iw_runs (snd late) = 1"
proof -
  let ?m = "idem_intercept demo_idem (demo_post ''ana'') (demo_handler ''tx-1'') demo_idem_start"
  let ?early = "idem_intercept demo_idem (demo_post ''bob'') (demo_handler ''tx-2'') (snd ?m)"
  let ?n = "hd (iw_started (snd ?m))"
  let ?q = "idem_settle demo_idem ?n (snd ?m)"
  let ?day = "(snd ?q)\<lparr>iw_clock := 86400000\<rparr>"
  let ?late = "idem_intercept demo_idem (demo_post ''bob'') (demo_handler ''tx-2'') ?day"
  have early: "fst ?early = Inr ''tx-2''" "iw_runs (snd ?early) = 2" by code_simp+
  have "fst ?m = Inr ''tx-1''" by code_simp
  then have m: "?m = (Inr ''tx-1'', snd ?m)" by (metis prod.collapse)
  have key: "truthy (iq_key (demo_post u)) = Some ''k1''" for u by (simp add: demo_post_def truthy_def)
  have h: "keeps demo_irows (demo_handler d)" for d
    by (simp add: keeps_def demo_handler_def demo_irows_def seqM_def modifyM_def ret_def)
  have inj: "inj_on ir_key (demo_irows demo_idem_start)" by (simp add: demo_irows_def demo_idem_start_def)
  have started: "iw_rows (snd ?m) = [] \<and> length (iw_started (snd ?m)) = 1" by code_simp
  have settled: "(case fst ?q of Inr (Some r) \<Rightarrow> ir_createdAt r = 0 | _ \<Rightarrow> False) \<and> iw_clock (snd ?q) = 0
      \<and> iw_runs (snd ?q) = 1" by code_simp
  then obtain r where r: "fst ?q = Inr (Some r)" "ir_createdAt r = 0" by (auto split: sum.splits option.splits)
  then have q: "?q = (Inr (Some r), snd ?q)" by (metis prod.collapse)
  have "demo_irows (snd ?m) = {}" using started by (simp add: demo_irows_def)
  with idempotent_replay[OF demo_idem.idem_ports_axioms inj h key m] obtain n
    where n: "n \<in> set (idem_started demo_idem (snd ?m))" and
      stored: "\<forall>s2 q s3. idem_run demo_idem demo_irows (snd ?m) s2 \<longrightarrow> idem_settle demo_idem n s2 = (q, s3) \<longrightarrow>
            iw_runs s3 = iw_runs s2 \<and> (case q of
                Inr (Some r) \<Rightarrow> ir_key r = ''k1'' \<and> ir_response r = ''tx-1''
                  \<and> ir_statusCode r = res_status demo_idem (snd ?m) \<and> ir_createdAt r = idem_now demo_idem s2
                  \<and> demo_irows s3 = insert r (demo_irows s2) \<and> replays demo_idem demo_irows iw_runs r s3
              | _ \<Rightarrow> demo_irows s3 = demo_irows s2)" by blast
  have "n = ?n" using n started by (cases "iw_started (snd ?m)") (auto simp: demo_idem_def)
  with stored[rule_format, OF idem_run.no_step, of "Inr (Some r)" "snd ?q"] q
  have "replays demo_idem demo_irows iw_runs r (snd ?q) \<and> ir_key r = ''k1'' \<and> ir_response r = ''tx-1''" by simp
  moreover have "idem_run demo_idem demo_irows (snd ?q) ?day"
    by (rule idem_run.elsewhere[OF idem_run.no_step]) (use settled in \<open>simp_all add: demo_irows_def demo_idem_def\<close>)
  moreover have "idem_now demo_idem ?day - ir_createdAt r \<le> IDEMPOTENCY_TTL_MS"
    using r(2) by (simp add: demo_idem_def IDEMPOTENCY_TTL_MS_def)
  ultimately have "iw_runs (snd ?late) = iw_runs ?day
      \<and> (case fst (findFirst (idem_records demo_idem) (idem_of ''k1'') ?day) of
           Inl e \<Rightarrow> fst ?late = Inl e | Inr _ \<Rightarrow> fst ?late = Inr ''tx-1'' \<and> res_status demo_idem (snd ?late) = ir_statusCode r)"
    using key[of "''bob''"] unfolding replays_def by (metis prod.collapse)
  then have "iw_runs (snd ?late) = 1" "fst ?late = Inr ''tx-1''"
    using settled by (simp_all add: demo_idem_def list_delegate_def)
  then show ?thesis using early by (simp add: Let_def)
qed

text \<open>C29. The key does not stop two requests at the same time: when both have looked up a key that is
  not recorded before either has answered, both handlers run, one after the other.\<close>

theorem concurrent_requests_both_run:
  assumes "idem_ports E irows work" and "idem_answers E irows" and "inj_on ir_key (irows s)"
    and "idem_lookup E key s = (Inr None, s1)"
    and "idem_lookup E key s1 = (Inr q, s2)"
    and "idem_handle E rq key handle (s2 :: 's) = (Inr d, s3)"
    and "idem_handle E rq' key handle' s3 = (Inr d', s4)"
  shows "q = None \<and> work s2 = work s
    \<and> (\<exists>t t'. handle s2 = (Inr d, t) \<and> work s3 = work t \<and> handle' s3 = (Inr d', t') \<and> work s4 = work t')"
proof -
  obtain q0 t0 where l1: "idem_lookup E key s = (Inr q0, t0)" "inj_on ir_key (irows t0)"
    "q0 = None \<longrightarrow> key \<notin> ir_key ` irows t0"
    using idem_ports.lookup_answers[OF assms(1-3)] by blast
  then have s1: "inj_on ir_key (irows s1)" "key \<notin> ir_key ` irows s1" using assms(4) by simp_all
  obtain f t1 where f: "findFirst (idem_records E) (idem_of key) s1 = (Inr f, t1)"
    using idem_answersD(1)[OF assms(2)] by blast
  have "f = None"
    using idem_ports.itab_returns(1)[OF assms(1) f] s1(2) by (cases f) (auto simp: idem_of_def)
  then have q: "q = None" using assms(5) f by (simp add: idem_lookup_def seqM_def ret_def)
  have "work s2 = work s"
    using idem_ports.lookup_miss[OF assms(1,4)] idem_ports.lookup_miss[OF assms(1) assms(5)[unfolded q]] by simp
  then show ?thesis
    using q idem_ports.handle_returns[OF assms(1,6)] idem_ports.handle_returns[OF assms(1,7)] by blast
qed

theorem concurrent_requests_both_run_witness:
  "let s2 = snd (idem_lookup demo_idem ''k1'' (snd (idem_lookup demo_idem ''k1'' demo_idem_start)));
       s3 = snd (idem_handle demo_idem (demo_post ''ana'') ''k1'' (demo_handler ''tx-1'') s2);
       s4 = snd (idem_handle demo_idem (demo_post ''ana'') ''k1'' (demo_handler ''tx-2'') s3)
   in (\<exists>t. demo_handler ''tx-2'' s3 = (Inr ''tx-2'', t) \<and> iw_runs s4 = iw_runs t) \<and> iw_runs s4 = 2"
proof -
  let ?l1 = "idem_lookup demo_idem ''k1'' demo_idem_start"
  let ?l2 = "idem_lookup demo_idem ''k1'' (snd ?l1)"
  let ?h1 = "idem_handle demo_idem (demo_post ''ana'') ''k1'' (demo_handler ''tx-1'') (snd ?l2)"
  let ?h2 = "idem_handle demo_idem (demo_post ''ana'') ''k1'' (demo_handler ''tx-2'') (snd ?h1)"
  have "fst ?l1 = Inr None" "fst ?l2 = Inr None" "fst ?h1 = Inr ''tx-1''" "fst ?h2 = Inr ''tx-2''" by code_simp+
  then have runs: "?l1 = (Inr None, snd ?l1)" "?l2 = (Inr None, snd ?l2)" "?h1 = (Inr ''tx-1'', snd ?h1)"
    "?h2 = (Inr ''tx-2'', snd ?h2)" by (metis prod.collapse)+
  have inj: "inj_on ir_key (demo_irows demo_idem_start)" by (simp add: demo_irows_def demo_idem_start_def)
  have two: "iw_runs (snd ?h2) = 2" by code_simp
  from concurrent_requests_both_run[OF demo_idem.idem_ports_axioms demo_idem_answers inj runs] two
  show ?thesis unfolding Let_def by blast
qed

end
