(* ===== verification/Webhook.thy ===== *)
theory Webhook
  imports Table Ports
begin

text \<open>
  \<open>WebhookService\<close> (\<open>webhook.service.ts\<close>): an event is sent to every active endpoint, and a delivery
  that fails is tried again by a timer; and the operations of \<open>webhook.controller.ts\<close> on the
  endpoints. The state is the world of the database and the network, and the timers \<open>setTimeout\<close> has
  running; \<open>webhook_fire\<close> is one of them going off. \<open>fetch\<close>, the HMAC, the clock's ISO text and the
  tables are parameters, \<open>webhook_ports\<close> is what the code relies on.
\<close>

section \<open>Rows and parameters\<close>

record endpoint_row =
  ep_id :: string
  ep_url :: string
  ep_secret :: string
  ep_active :: bool
  ep_createdAt :: int

record delivery_row =
  wd_id :: string
  wd_endpointId :: string
  wd_event :: string
  wd_payload :: string
  wd_status :: string
  wd_attempts :: nat
  wd_responseStatus :: "nat option"
  wd_nextRetryAt :: "int option"
  wd_createdAt :: int

record new_delivery =
  nd_endpointId :: string
  nd_event :: string
  nd_payload :: string
  nd_status :: string
  nd_attempts :: nat

text \<open>The answer of \<open>fetch\<close>: \<open>response.status\<close>; \<open>response.ok\<close> is a status from 200 to 299.\<close>

record 'w webhook_env =
  endpoints :: "('w, endpoint_row, string \<times> string) delegate"
  deliveries :: "('w, delivery_row, new_delivery) delegate"
  fetch_post :: "string \<Rightarrow> string \<Rightarrow> string \<Rightarrow> ('w, nat) io"
  hmac_sha256 :: "string \<Rightarrow> string \<Rightarrow> string"
  wh_now :: "'w \<Rightarrow> int"
  toISOString :: "int \<Rightarrow> string"
  wh_randomUUID :: "('w, string) io"

record retry =
  rt_endpointId :: string
  rt_url :: string
  rt_secret :: string
  rt_event :: string
  rt_payload :: string
  rt_attempt :: nat

record 'w webhook_state =
  wh_timers :: "(int \<times> retry) list"
  wh_world :: 'w

definition wh_db :: "('w, 'a) io \<Rightarrow> ('w webhook_state, 'a) io" where
  "wh_db = zoom wh_world (\<lambda>w s. s\<lparr>wh_world := w\<rparr>)"

section \<open>The payload\<close>

definition hex_digit :: "nat \<Rightarrow> char" where
  "hex_digit n = (if n < 10 then char_of (48 + n) else char_of (87 + n))"

text \<open>\<open>JSON.stringify\<close> of a string, and of the object the service sends.\<close>

definition json_char :: "char \<Rightarrow> string" where
  "json_char c = (let n = of_char c :: nat in
     if n = 34 then [char_of (92 :: nat), char_of (34 :: nat)]
     else if n = 92 then [char_of (92 :: nat), char_of (92 :: nat)]
     else if n = 8 then char_of (92 :: nat) # ''b''
     else if n = 9 then char_of (92 :: nat) # ''t''
     else if n = 10 then char_of (92 :: nat) # ''n''
     else if n = 12 then char_of (92 :: nat) # ''f''
     else if n = 13 then char_of (92 :: nat) # ''r''
     else if n < 32 then char_of (92 :: nat) # ''u00'' @ [hex_digit (n div 16), hex_digit (n mod 16)]
     else [c])"

definition json_string :: "string \<Rightarrow> string" where
  "json_string s = [char_of (34 :: nat)] @ concat (map json_char s) @ [char_of (34 :: nat)]"

definition json_field :: "string \<Rightarrow> string \<Rightarrow> string" where
  "json_field name v = json_string name @ '':'' @ v"

fun event_type :: "webhook_event \<Rightarrow> string" where
  "event_type (DepositConfirmed d) = ''deposit.confirmed''"
| "event_type (WithdrawCompleted d) = ''withdraw.completed''"
| "event_type (TransferCompleted d) = ''transfer.completed''"

fun event_payload :: "webhook_event \<Rightarrow> webhook_event_data" where
  "event_payload (DepositConfirmed d) = d"
| "event_payload (WithdrawCompleted d) = d"
| "event_payload (TransferCompleted d) = d"

definition json_event :: "webhook_event \<Rightarrow> string \<Rightarrow> string" where
  "json_event e timestamp = (let d = event_payload e in
     ''{'' @ json_field ''event'' (json_string (event_type e)) @ '','' @
     json_field ''data''
       (''{'' @ json_field ''walletId'' (json_string (we_walletId d)) @ '','' @
        json_field ''userId'' (json_string (we_userId d)) @ '','' @
        json_field ''amount'' (json_string (we_amount d)) @ '','' @
        json_field ''currency'' (json_string (we_currency d)) @ '','' @
        json_field ''transactionId'' (json_string (we_transactionId d)) @ ''}'') @ '','' @
     json_field ''timestamp'' (json_string timestamp) @ ''}'')"

section \<open>The service\<close>

definition WEBHOOK_MAX_ATTEMPTS :: nat where "WEBHOOK_MAX_ATTEMPTS = 3"

definition retry_delays :: "int list" where "retry_delays = [60000, 300000, 900000]"

text \<open>\<open>delays[attempt - 1] ?? 900_000\<close>.\<close>

definition retry_delay :: "nat \<Rightarrow> int" where
  "retry_delay attempt =
     (if 1 \<le> attempt \<and> attempt - 1 < length retry_delays then retry_delays ! (attempt - 1) else 900000)"

definition scheduleRetry :: "'w webhook_env \<Rightarrow> retry \<Rightarrow> ('w webhook_state, unit) io" where
  "scheduleRetry E rt =
     seqM (wh_db (readM (wh_now E))) (\<lambda>now.
     let delay = retry_delay (rt_attempt rt); nextRetryAt = now + delay in
     seqM (orNull (wh_db (updateMany (deliveries E)
       (\<lambda>r. wd_endpointId r = rt_endpointId rt \<and> wd_event r = rt_event rt \<and> wd_payload r = rt_payload rt
            \<and> wd_status r = ''failed'')
       (\<lambda>r. r\<lparr>wd_nextRetryAt := Some nextRetryAt\<rparr>)))) (\<lambda>_.
     modifyM (\<lambda>s. s\<lparr>wh_timers := wh_timers s @ [(wh_now E (wh_world s) + delay, rt)]\<rparr>)))"

definition again :: "retry \<Rightarrow> retry" where
  "again rt = rt\<lparr>rt_attempt := rt_attempt rt + 1\<rparr>"

definition deliver :: "'w webhook_env \<Rightarrow> retry \<Rightarrow> ('w webhook_state, unit) io" where
  "deliver E rt =
     seqM (wh_db (create (deliveries E) \<lparr>nd_endpointId = rt_endpointId rt, nd_event = rt_event rt,
        nd_payload = rt_payload rt, nd_status = ''pending'', nd_attempts = rt_attempt rt\<rparr>)) (\<lambda>delivery.
     catchM
       (seqM (wh_db (fetch_post E (rt_url rt) (hmac_sha256 E (rt_secret rt) (rt_payload rt)) (rt_payload rt))) (\<lambda>status.
        let ok = 200 \<le> status \<and> status \<le> 299 in
        seqM (wh_db (update (deliveries E) (\<lambda>r. wd_id r = wd_id delivery)
          (\<lambda>r. r\<lparr>wd_status := (if ok then ''delivered'' else ''failed''), wd_attempts := rt_attempt rt + 1,
                 wd_responseStatus := Some status\<rparr>))) (\<lambda>_.
        if \<not> ok \<and> rt_attempt rt + 1 < WEBHOOK_MAX_ATTEMPTS then scheduleRetry E (again rt) else ret ())))
       (\<lambda>error.
        seqM (wh_db (update (deliveries E) (\<lambda>r. wd_id r = wd_id delivery)
          (\<lambda>r. r\<lparr>wd_status := ''failed'', wd_attempts := rt_attempt rt + 1\<rparr>))) (\<lambda>_.
        if rt_attempt rt + 1 < WEBHOOK_MAX_ATTEMPTS then scheduleRetry E (again rt) else ret ())))"

primrec deliver_all :: "'w webhook_env \<Rightarrow> string \<Rightarrow> string \<Rightarrow> endpoint_row list \<Rightarrow> ('w webhook_state, unit) io"
where
  "deliver_all E event payload [] = ret ()"
| "deliver_all E event payload (endpoint # rest) =
     seqM (deliver E \<lparr>rt_endpointId = ep_id endpoint, rt_url = ep_url endpoint, rt_secret = ep_secret endpoint,
        rt_event = event, rt_payload = payload, rt_attempt = 0\<rparr>) (\<lambda>_.
     deliver_all E event payload rest)"

definition webhook_dispatch :: "'w webhook_env \<Rightarrow> webhook_event \<Rightarrow> ('w webhook_state, unit) io" where
  "webhook_dispatch E event =
     seqM (wh_db (findMany (endpoints E) ep_active anyOrder)) (\<lambda>eps.
     if eps = [] then ret ()
     else
       seqM (wh_db (readM (wh_now E))) (\<lambda>now.
       deliver_all E (event_type event) (json_event event (toISOString E now)) eps))"

text \<open>A timer goes off: it is gone, and its delivery is made, whatever comes of it.\<close>

inductive webhook_fire :: "'w webhook_env \<Rightarrow> 'w webhook_state \<Rightarrow> 'w webhook_state \<Rightarrow> bool" for E where
  fire: "wh_timers s = before @ (due, rt) # after \<Longrightarrow> due \<le> wh_now E (wh_world s)
    \<Longrightarrow> deliver E rt (s\<lparr>wh_timers := before @ after\<rparr>) = (r, t) \<Longrightarrow> webhook_fire E s t"

text \<open>Any number of timers, and whatever else the world does in between that leaves the deliveries alone.\<close>

inductive webhook_run ::
  "'w webhook_env \<Rightarrow> ('w \<Rightarrow> delivery_row set) \<Rightarrow> 'w webhook_state \<Rightarrow> nat \<Rightarrow> 'w webhook_state \<Rightarrow> bool"
  for E rows where
  stop: "webhook_run E rows s 0 s"
| timer: "webhook_fire E s t \<Longrightarrow> webhook_run E rows t n u \<Longrightarrow> webhook_run E rows s (Suc n) u"
| pass: "rows w = rows (wh_world s) \<Longrightarrow> webhook_run E rows (s\<lparr>wh_world := w\<rparr>) n u \<Longrightarrow> webhook_run E rows s n u"

section \<open>The endpoints\<close>

definition createEndpoint :: "'w webhook_env \<Rightarrow> string \<Rightarrow> ('w, string \<times> string \<times> string) io" where
  "createEndpoint E url =
     seqM (wh_randomUUID E) (\<lambda>secret.
     seqM (create (endpoints E) (url, secret)) (\<lambda>endpoint.
     ret (ep_id endpoint, ep_url endpoint, ep_secret endpoint)))"

definition listEndpoints :: "'w webhook_env \<Rightarrow> ('w, (string \<times> string \<times> bool \<times> int) list) io" where
  "listEndpoints E =
     seqM (findMany (endpoints E) (\<lambda>r. True) anyOrder) (\<lambda>rs.
     ret (map (\<lambda>r. (ep_id r, ep_url r, ep_active r, ep_createdAt r)) rs))"

definition deleteEndpoint :: "'w webhook_env \<Rightarrow> string \<Rightarrow> ('w, unit) io" where
  "deleteEndpoint E i = void (delete (endpoints E) (\<lambda>r. ep_id r = i))"

definition listDeliveries ::
  "'w webhook_env \<Rightarrow> string \<Rightarrow> ('w, (string \<times> string \<times> string \<times> nat \<times> nat option \<times> int) list) io" where
  "listDeliveries E i =
     seqM (findMany (deliveries E) (\<lambda>r. wd_endpointId r = i) (\<lambda>a b. wd_createdAt b \<le> wd_createdAt a)) (\<lambda>rs.
     ret (map (\<lambda>r. (wd_id r, wd_event r, wd_status r, wd_attempts r, wd_responseStatus r, wd_createdAt r)) rs))"

section \<open>Counting deliveries\<close>

text \<open>The identifiers of the delivery rows of an endpoint, and what the timers that are running may
  still add to them.\<close>

definition delivery_ids :: "string \<Rightarrow> delivery_row set \<Rightarrow> string set" where
  "delivery_ids e R = wd_id ` {r \<in> R. wd_endpointId r = e}"

definition grows :: "nat \<Rightarrow> 'a set \<Rightarrow> 'a set \<Rightarrow> bool" where
  "grows k A B \<longleftrightarrow> (\<exists>N. finite N \<and> card N \<le> k \<and> B \<subseteq> A \<union> N)"

lemma grows_refl [simp]: "grows k A A"
  unfolding grows_def by (intro exI[of _ "{}"]) simp

lemma grows_one: "B \<subseteq> insert x A \<Longrightarrow> grows 1 A B"
  unfolding grows_def by (intro exI[of _ "{x}"]) auto

lemma grows_trans:
  assumes "grows k A B" and "grows l B C"
  shows "grows (k + l) A C"
proof -
  from assms obtain M N where M: "finite M" "card M \<le> k" "B \<subseteq> A \<union> M" and N: "finite N" "card N \<le> l" "C \<subseteq> B \<union> N"
    unfolding grows_def by blast
  have "card (M \<union> N) \<le> k + l" using card_Un_le[of M N] M(2) N(2) by simp
  then show ?thesis unfolding grows_def using M(1,3) N(1,3) by (intro exI[of _ "M \<union> N"]) auto
qed

lemma grows_mono: "grows k A B \<Longrightarrow> k \<le> l \<Longrightarrow> grows l A B"
  unfolding grows_def by (meson order_trans)

definition attempts_left :: "retry \<Rightarrow> nat" where
  "attempts_left rt = WEBHOOK_MAX_ATTEMPTS - rt_attempt rt"

definition potential :: "(retry \<Rightarrow> bool) \<Rightarrow> (int \<times> retry) list \<Rightarrow> nat" where
  "potential P ts = sum_list (map (attempts_left \<circ> snd) (filter (P \<circ> snd) ts))"

lemma potential_append [simp]: "potential P (xs @ ys) = potential P xs + potential P ys"
  by (simp add: potential_def)

lemma potential_Nil [simp]: "potential P [] = 0"
  by (simp add: potential_def)

lemma potential_Cons [simp]:
  "potential P (x # xs) = (if P (snd x) then attempts_left (snd x) else 0) + potential P xs"
  by (simp add: potential_def)

definition timers_ok :: "(int \<times> retry) list \<Rightarrow> bool" where
  "timers_ok ts \<longleftrightarrow> (\<forall>x \<in> set ts. rt_attempt (snd x) < WEBHOOK_MAX_ATTEMPTS)"

text \<open>What one delivery may add to the timers: nothing, or the next attempt.\<close>

definition adds_retry :: "retry \<Rightarrow> (int \<times> retry) list \<Rightarrow> (int \<times> retry) list \<Rightarrow> bool" where
  "adds_retry rt ts ts' \<longleftrightarrow> ts' = ts
     \<or> (\<exists>due. ts' = ts @ [(due, again rt)] \<and> rt_attempt rt + 1 < WEBHOOK_MAX_ATTEMPTS)"

lemma adds_retry_potential:
  assumes "adds_retry rt ts ts'" and "rt_attempt rt < WEBHOOK_MAX_ATTEMPTS"
    and inv: "\<And>x. P (again x) = P x"
  shows "potential P ts' + (if P rt then 1 else 0) \<le> potential P ts + (if P rt then attempts_left rt else 0)"
  using assms(1)
proof -
  have "attempts_left rt = Suc (attempts_left (again rt))"
    using assms(2) by (simp add: attempts_left_def again_def)
  then show ?thesis using assms(1) inv[of rt] by (auto simp: adds_retry_def)
qed

lemma adds_retry_ok: "adds_retry rt ts ts' \<Longrightarrow> timers_ok ts \<Longrightarrow> timers_ok ts'"
  by (auto simp: adds_retry_def timers_ok_def again_def)

section \<open>What the service relies on\<close>

definition delivery_made :: "new_delivery \<Rightarrow> delivery_row \<Rightarrow> bool" where
  "delivery_made n r \<longleftrightarrow> wd_endpointId r = nd_endpointId n \<and> wd_event r = nd_event n
     \<and> wd_payload r = nd_payload n \<and> wd_status r = nd_status n \<and> wd_attempts r = nd_attempts n
     \<and> wd_responseStatus r = None \<and> wd_nextRetryAt r = None"

definition endpoint_made :: "string \<times> string \<Rightarrow> endpoint_row \<Rightarrow> bool" where
  "endpoint_made n r \<longleftrightarrow> ep_url r = fst n \<and> ep_secret r = snd n \<and> ep_active r"

locale webhook_ports =
  fixes E :: "'w webhook_env" and drows :: "'w \<Rightarrow> delivery_row set" and erows :: "'w \<Rightarrow> endpoint_row set"
  assumes dtab: "table (deliveries E) drows (\<lambda>_. ()) (\<lambda>s n r. delivery_made n r) (\<lambda>s r. r)"
    and etab: "table (endpoints E) erows (\<lambda>_. ()) (\<lambda>s n r. endpoint_made n r \<and> ep_id r \<notin> ep_id ` erows s) (\<lambda>s r. r)"
    and find_deliveries: "keeps drows (findMany (endpoints E) P le)"
    and fetch_deliveries: "keeps drows (fetch_post E url sig body)"
begin

lemmas dtab_returns = table.returns[OF dtab]
lemmas dtab_throws = table.throws[OF dtab]
lemmas etab_returns = table.returns[OF etab]

abbreviation ids :: "'w webhook_state \<Rightarrow> string \<Rightarrow> string set" where
  "ids s e \<equiv> delivery_ids e (drows (wh_world s))"

lemma db_timers: "keeps wh_timers (wh_db m)"
  by (auto simp: keeps_def wh_db_def zoom_def split: prod.splits)

lemma db_ids:
  assumes "keeps (\<lambda>w e. delivery_ids e (drows w)) m"
  shows "keeps ids (wh_db m)"
proof (rule keepsI)
  fix s r t assume "wh_db m s = (r, t)"
  then obtain w where m: "m (wh_world s) = (r, w)" and t: "t = s\<lparr>wh_world := w\<rparr>"
    by (auto simp: wh_db_def zoom_iff)
  show "ids t = ids s" using keepsD[OF assms m] by (simp add: t)
qed

lemma rows_ids: "keeps drows m \<Longrightarrow> keeps (\<lambda>w e. delivery_ids e (drows w)) m"
  by (simp add: keeps_def)

text \<open>An update that leaves identifiers and endpoints alone keeps the identifiers of every endpoint.\<close>

lemma ids_put:
  "x \<in> R \<Longrightarrow> wd_id y = wd_id x \<Longrightarrow> wd_endpointId y = wd_endpointId x
   \<Longrightarrow> delivery_ids e (insert y (R - {x})) = delivery_ids e R"
  unfolding delivery_ids_def by (auto simp: image_iff) metis

lemma ids_map:
  "(\<And>x. wd_id (f x) = wd_id x \<and> wd_endpointId (f x) = wd_endpointId x) \<Longrightarrow> delivery_ids e (f ` R) = delivery_ids e R"
  unfolding delivery_ids_def by (force simp: image_iff)

lemma update_ids:
  assumes "\<And>r. wd_id (f r) = wd_id r \<and> wd_endpointId (f r) = wd_endpointId r"
  shows "keeps (\<lambda>w e. delivery_ids e (drows w)) (update (deliveries E) P f)"
proof (rule keepsI)
  fix s r t assume u: "update (deliveries E) P f s = (r, t)"
  show "(\<lambda>e. delivery_ids e (drows t)) = (\<lambda>e. delivery_ids e (drows s))"
  proof (cases r)
    case (Inl e)
    then show ?thesis using dtab_throws(8)[OF u[unfolded Inl]] by simp
  next
    case (Inr y)
    from dtab_returns(8)[OF u[unfolded Inr]] obtain x where "x \<in> drows s" "y = f x" "drows t = insert y (drows s - {x})"
      by blast
    then show ?thesis using ids_put[of x "drows s" y] assms by (auto simp: fun_eq_iff)
  qed
qed

lemma updateMany_ids:
  assumes "\<And>r. wd_id (f r) = wd_id r \<and> wd_endpointId (f r) = wd_endpointId r"
  shows "keeps (\<lambda>w e. delivery_ids e (drows w)) (updateMany (deliveries E) P f)"
proof (rule keepsI)
  fix s r t assume u: "updateMany (deliveries E) P f s = (r, t)"
  show "(\<lambda>e. delivery_ids e (drows t)) = (\<lambda>e. delivery_ids e (drows s))"
  proof (cases r)
    case (Inl e)
    then show ?thesis using dtab_throws(9)[OF u[unfolded Inl]] by simp
  next
    case (Inr k)
    then have "drows t = (\<lambda>r. if P r then f r else r) ` drows s" using dtab_returns(9)[OF u[unfolded Inr]] by simp
    then show ?thesis using ids_map[of "\<lambda>r. if P r then f r else r"] assms by (simp add: fun_eq_iff)
  qed
qed

lemma scheduleRetry_ids: "keeps ids (scheduleRetry E rt)"
  unfolding scheduleRetry_def Let_def
  by (intro keeps_intros db_ids keeps_prim updateMany_ids keeps_modifyM) simp_all

lemma scheduleRetry_timers:
  assumes "scheduleRetry E rt s = (r, t)"
  shows "\<exists>due. wh_timers t = wh_timers s @ [(due, rt)] \<and> r = Inr ()"
proof -
  let ?up = "\<lambda>n. orNull (wh_db (updateMany (deliveries E)
       (\<lambda>r. wd_endpointId r = rt_endpointId rt \<and> wd_event r = rt_event rt \<and> wd_payload r = rt_payload rt
            \<and> wd_status r = ''failed'') (\<lambda>r. r\<lparr>wd_nextRetryAt := Some n\<rparr>)))"
  define n where "n = wh_now E (wh_world s) + retry_delay (rt_attempt rt)"
  obtain q s1 where u: "?up n s = (q, s1)" by (cases "?up n s")
  have "wh_timers s1 = wh_timers s" by (rule keepsD[OF keeps_orNull[OF db_timers] u])
  moreover obtain x where "q = Inr x" using u by (auto simp: orNull_iff)
  moreover have "wh_db (readM (wh_now E)) s = (Inr (wh_now E (wh_world s)), s)"
    by (simp add: wh_db_def zoom_def readM_def)
  ultimately show ?thesis using assms u
    unfolding scheduleRetry_def Let_def n_def by (auto simp: seqM_def modifyM_def)
qed

end

context webhook_ports
begin

text \<open>What follows the insert of a delivery row: no new row, and at most one retry.\<close>

definition tries :: "retry \<Rightarrow> ('w webhook_state, 'a) io \<Rightarrow> bool" where
  "tries rt m \<longleftrightarrow> keeps ids m
     \<and> (\<forall>s r t. m s = (r, t) \<longrightarrow> adds_retry rt (wh_timers s) (wh_timers t))
     \<and> (\<forall>s e t. m s = (Inl e, t) \<longrightarrow> wh_timers t = wh_timers s)"

lemma triesD:
  assumes "tries rt m"
  shows "keeps ids m" "m s = (r, t) \<Longrightarrow> adds_retry rt (wh_timers s) (wh_timers t)"
    "m s = (Inl e, t) \<Longrightarrow> wh_timers t = wh_timers s"
  using assms unfolding tries_def by blast+

lemma triesI:
  assumes "keeps ids m" and "\<And>s r t. m s = (r, t) \<Longrightarrow> adds_retry rt (wh_timers s) (wh_timers t)"
    and "\<And>s e t. m s = (Inl e, t) \<Longrightarrow> wh_timers t = wh_timers s"
  shows "tries rt m"
  using assms unfolding tries_def by blast

lemma adds_retry_refl: "adds_retry rt ts ts"
  by (simp add: adds_retry_def)

lemma tries_quiet:
  assumes "keeps ids m" and "keeps wh_timers m"
  shows "tries rt m"
proof (rule triesI[OF assms(1)])
  fix s r t assume "m s = (r, t)"
  from keepsD[OF assms(2) this] show "adds_retry rt (wh_timers s) (wh_timers t)" by (simp add: adds_retry_refl)
next
  fix s e t assume "m s = (Inl e, t)"
  from keepsD[OF assms(2) this] show "wh_timers t = wh_timers s" .
qed

lemma tries_retry:
  assumes "rt_attempt rt + 1 < WEBHOOK_MAX_ATTEMPTS"
  shows "tries rt (scheduleRetry E (again rt))"
proof (rule triesI[OF scheduleRetry_ids])
  fix s r t assume "scheduleRetry E (again rt) s = (r, t)"
  from scheduleRetry_timers[OF this] assms show "adds_retry rt (wh_timers s) (wh_timers t)"
    unfolding adds_retry_def by blast
next
  fix s e t assume "scheduleRetry E (again rt) s = (Inl e, t)"
  from scheduleRetry_timers[OF this] show "wh_timers t = wh_timers s" by simp
qed

lemma tries_seq:
  assumes "keeps ids m" and "keeps wh_timers m" and f: "\<And>x. tries rt (f x)"
  shows "tries rt (seqM m f)"
proof (rule triesI)
  show "keeps ids (seqM m f)" using assms(1) triesD(1)[OF f] by (rule keeps_seqM)
next
  fix s r t assume run: "seqM m f s = (r, t)"
  obtain q s1 where m: "m s = (q, s1)" by (cases "m s")
  have s1: "wh_timers s1 = wh_timers s" by (rule keepsD[OF assms(2) m])
  show "adds_retry rt (wh_timers s) (wh_timers t)"
  proof (cases q)
    case (Inl e)
    then have "t = s1" using run m by (auto simp: seqM_def)
    then show ?thesis using s1 by (simp add: adds_retry_refl)
  next
    case (Inr x)
    then have "f x s1 = (r, t)" using run m by (simp add: seqM_def)
    from triesD(2)[OF f this] s1 show ?thesis by simp
  qed
next
  fix s e t assume "seqM m f s = (Inl e, t)"
  then consider "m s = (Inl e, t)" | x s1 where "m s = (Inr x, s1)" "f x s1 = (Inl e, t)"
    by (auto simp: seqM_Inl)
  then show "wh_timers t = wh_timers s"
  proof cases
    case 1
    then show ?thesis by (rule keepsD[OF assms(2)])
  next
    case 2
    then show ?thesis using keepsD[OF assms(2) 2(1)] triesD(3)[OF f 2(2)] by simp
  qed
qed

lemma tries_catch:
  assumes m: "tries rt m" and h: "\<And>e. tries rt (h e)"
  shows "tries rt (catchM m h)"
proof (rule triesI)
  show "keeps ids (catchM m h)" using triesD(1)[OF m] triesD(1)[OF h] by (rule keeps_catchM)
next
  fix s r t assume run: "catchM m h s = (r, t)"
  obtain q s1 where ms: "m s = (q, s1)" by (cases "m s")
  show "adds_retry rt (wh_timers s) (wh_timers t)"
  proof (cases q)
    case (Inl e)
    then have "h e s1 = (r, t)" using run ms by (simp add: catchM_def)
    from triesD(2)[OF h this] triesD(3)[OF m ms[unfolded Inl]] show ?thesis by simp
  next
    case (Inr x)
    then have "t = s1" using run ms by (simp add: catchM_def)
    then show ?thesis using triesD(2)[OF m ms] by simp
  qed
next
  fix s e t assume "catchM m h s = (Inl e, t)"
  then obtain e' s1 where 1: "m s = (Inl e', s1)" "h e' s1 = (Inl e, t)" by (auto simp: catchM_Inl)
  show "wh_timers t = wh_timers s" using triesD(3)[OF m 1(1)] triesD(3)[OF h 1(2)] by simp
qed

lemma tries_if:
  "(b \<Longrightarrow> tries rt m) \<Longrightarrow> (\<not> b \<Longrightarrow> tries rt n) \<Longrightarrow> tries rt (if b then m else n)"
  by simp

lemma tries_ret: "tries rt (ret x)"
  by (intro tries_quiet keeps_prim)

lemma deliver_law:
  assumes "deliver E rt s = (r, t)"
  shows "grows (if rt_endpointId rt = e then 1 else 0) (ids s e) (ids t e)"
    and "adds_retry rt (wh_timers s) (wh_timers t)"
proof -
  let ?n = "\<lparr>nd_endpointId = rt_endpointId rt, nd_event = rt_event rt,
        nd_payload = rt_payload rt, nd_status = ''pending'', nd_attempts = rt_attempt rt\<rparr>"
  let ?ok = "\<lambda>st. 200 \<le> st \<and> st \<le> (299 :: nat)"
  let ?tail = "\<lambda>delivery. catchM
       (seqM (wh_db (fetch_post E (rt_url rt) (hmac_sha256 E (rt_secret rt) (rt_payload rt)) (rt_payload rt))) (\<lambda>status.
        seqM (wh_db (update (deliveries E) (\<lambda>r. wd_id r = wd_id delivery)
          (\<lambda>r. r\<lparr>wd_status := (if ?ok status then ''delivered'' else ''failed''), wd_attempts := rt_attempt rt + 1,
                 wd_responseStatus := Some status\<rparr>))) (\<lambda>_.
        if \<not> ?ok status \<and> rt_attempt rt + 1 < WEBHOOK_MAX_ATTEMPTS then scheduleRetry E (again rt) else ret ())))
       (\<lambda>error.
        seqM (wh_db (update (deliveries E) (\<lambda>r. wd_id r = wd_id delivery)
          (\<lambda>r. r\<lparr>wd_status := ''failed'', wd_attempts := rt_attempt rt + 1\<rparr>))) (\<lambda>_.
        if rt_attempt rt + 1 < WEBHOOK_MAX_ATTEMPTS then scheduleRetry E (again rt) else ret ()))"
  have tail: "tries rt (?tail delivery)" for delivery
    by (intro tries_catch tries_seq tries_if tries_ret tries_retry db_timers db_ids update_ids rows_ids
          fetch_deliveries) simp_all
  obtain q s1 where c: "wh_db (create (deliveries E) ?n) s = (q, s1)"
    by (cases "wh_db (create (deliveries E) ?n) s")
  then obtain w where cw: "create (deliveries E) ?n (wh_world s) = (q, w)" and s1: "s1 = s\<lparr>wh_world := w\<rparr>"
    by (auto simp: wh_db_def zoom_iff)
  have "grows (if rt_endpointId rt = e then 1 else 0) (ids s e) (ids t e)
      \<and> adds_retry rt (wh_timers s) (wh_timers t)"
  proof (cases q)
    case (Inl x)
    then have t: "t = s1" using assms c by (auto simp: deliver_def seqM_def)
    have "drows w = drows (wh_world s)" using dtab_throws(5)[OF cw[unfolded Inl]] by simp
    then show ?thesis by (simp add: t s1 adds_retry_def)
  next
    case (Inr d)
    have run: "?tail d s1 = (r, t)" using assms c Inr by (simp add: deliver_def seqM_def Let_def)
    have "adds_retry rt (wh_timers s1) (wh_timers t)" by (rule triesD(2)[OF tail run])
    moreover have same: "ids t e = ids s1 e" using keepsD[OF triesD(1)[OF tail] run] by (rule fun_cong)
    moreover have "drows w = insert d (drows (wh_world s))" "wd_endpointId d = rt_endpointId rt"
      using dtab_returns(5)[OF cw[unfolded Inr]] by (simp_all add: delivery_made_def)
    then have "if rt_endpointId rt = e then ids s1 e \<subseteq> insert (wd_id d) (ids s e) else ids s1 e = ids s e"
      by (auto simp: s1 delivery_ids_def)
    then have "grows (if rt_endpointId rt = e then 1 else 0) (ids s e) (ids s1 e)"
      using grows_one[of "ids s1 e" "wd_id d" "ids s e"] by (simp split: if_splits)
    ultimately show ?thesis by (simp only: same) (simp add: s1)
  qed
  then show "grows (if rt_endpointId rt = e then 1 else 0) (ids s e) (ids t e)"
    and "adds_retry rt (wh_timers s) (wh_timers t)" by blast+
qed

end

context webhook_ports
begin

abbreviation for_endpoint :: "string \<Rightarrow> retry \<Rightarrow> bool" where
  "for_endpoint e rt \<equiv> rt_endpointId rt = e"

lemma deliver_potential:
  assumes "deliver E rt s = (r, t)" and "rt_attempt rt < WEBHOOK_MAX_ATTEMPTS" and "timers_ok (wh_timers s)"
  shows "timers_ok (wh_timers t)"
    and "potential (for_endpoint e) (wh_timers t) + (if for_endpoint e rt then 1 else 0)
      \<le> potential (for_endpoint e) (wh_timers s) + (if for_endpoint e rt then attempts_left rt else 0)"
    and "potential (\<lambda>_. True) (wh_timers t) + 1 \<le> potential (\<lambda>_. True) (wh_timers s) + attempts_left rt"
proof -
  note add = deliver_law(2)[OF assms(1)]
  show "timers_ok (wh_timers t)" by (rule adds_retry_ok[OF add assms(3)])
  show "potential (for_endpoint e) (wh_timers t) + (if for_endpoint e rt then 1 else 0)
      \<le> potential (for_endpoint e) (wh_timers s) + (if for_endpoint e rt then attempts_left rt else 0)"
    by (rule adds_retry_potential[OF add assms(2)]) (simp add: again_def)
  show "potential (\<lambda>_. True) (wh_timers t) + 1 \<le> potential (\<lambda>_. True) (wh_timers s) + attempts_left rt"
    using adds_retry_potential[OF add assms(2), of "\<lambda>_. True"] by simp
qed

lemma deliver_all_law:
  assumes "deliver_all E event payload eps s = (r, t)" and "timers_ok (wh_timers s)"
  shows "timers_ok (wh_timers t)
    \<and> grows (length (filter (\<lambda>ep. ep_id ep = e) eps)) (ids s e) (ids t e)
    \<and> potential (for_endpoint e) (wh_timers t)
        \<le> potential (for_endpoint e) (wh_timers s) + 2 * length (filter (\<lambda>ep. ep_id ep = e) eps)
    \<and> potential (\<lambda>_. True) (wh_timers t) \<le> potential (\<lambda>_. True) (wh_timers s) + 2 * length eps"
  using assms
proof (induction eps arbitrary: s)
  case Nil
  then show ?case by (simp add: io_prim_iff)
next
  case (Cons ep eps)
  let ?rt = "\<lparr>rt_endpointId = ep_id ep, rt_url = ep_url ep, rt_secret = ep_secret ep,
        rt_event = event, rt_payload = payload, rt_attempt = 0\<rparr>"
  obtain q s1 where d: "deliver E ?rt s = (q, s1)" by (cases "deliver E ?rt s")
  have a0: "rt_attempt ?rt < WEBHOOK_MAX_ATTEMPTS" "attempts_left ?rt = 3"
    by (simp_all add: WEBHOOK_MAX_ATTEMPTS_def attempts_left_def)
  note law = deliver_potential[OF d a0(1) Cons.prems(2)]
  have one: "potential (for_endpoint e) (wh_timers s1)
      \<le> potential (for_endpoint e) (wh_timers s) + (if ep_id ep = e then 2 else 0)"
    using law(2)[of e] a0(2) by (simp split: if_splits)
  have all: "potential (\<lambda>_. True) (wh_timers s1) \<le> potential (\<lambda>_. True) (wh_timers s) + 2"
    using law(3) a0(2) by simp
  have g: "grows (if ep_id ep = e then 1 else 0) (ids s e) (ids s1 e)" using deliver_law(1)[OF d, of e] by simp
  show ?case
  proof (cases q)
    case (Inl x)
    then have "t = s1" using Cons.prems(1) d by (simp add: seqM_def)
    then show ?thesis using law(1) one all g
      by (auto simp: grows_mono[of 0] split: if_splits intro: grows_mono)
  next
    case (Inr x)
    then have "deliver_all E event payload eps s1 = (r, t)" using Cons.prems(1) d by (simp add: seqM_def)
    note ih = Cons.IH[OF this law(1)]
    have "grows (if ep_id ep = e then 1 else 0) (ids s e) (ids s1 e)" by (rule g)
    from grows_trans[OF this conjunct1[OF conjunct2[OF ih]]] ih one all show ?thesis
      by (auto split: if_splits)
  qed
qed

lemma run_law:
  assumes "webhook_run E drows s n u" and "timers_ok (wh_timers s)"
  shows "grows (potential (for_endpoint e) (wh_timers s)) (ids s e) (ids u e)
       \<and> n \<le> potential (\<lambda>_. True) (wh_timers s)"
  using assms
proof (induction rule: webhook_run.induct)
  case (stop s)
  then show ?case by simp
next
  case (timer s t n u)
  from timer(1) obtain before due rt after r where ts: "wh_timers s = before @ (due, rt) # after"
    and d: "deliver E rt (s\<lparr>wh_timers := before @ after\<rparr>) = (r, t)"
    by (cases rule: webhook_fire.cases) blast
  have ok: "rt_attempt rt < WEBHOOK_MAX_ATTEMPTS" "timers_ok (before @ after)"
    using timer.prems by (auto simp: ts timers_ok_def)
  then have ok': "timers_ok (wh_timers (s\<lparr>wh_timers := before @ after\<rparr>))" by simp
  note law = deliver_potential[OF d ok(1) ok']
  have g: "grows (if for_endpoint e rt then 1 else 0) (ids s e) (ids t e)"
    using deliver_law(1)[OF d, of e] by simp
  have g': "grows (potential (for_endpoint e) (wh_timers t)) (ids t e) (ids u e)"
    and n: "n \<le> potential (\<lambda>_. True) (wh_timers t)"
    using timer.IH[OF law(1)] by blast+
  have "grows ((if for_endpoint e rt then 1 else 0) + potential (for_endpoint e) (wh_timers t))
      (ids s e) (ids u e)" by (rule grows_trans[OF g g'])
  then have "grows (potential (for_endpoint e) (wh_timers s)) (ids s e) (ids u e)"
    by (rule grows_mono) (use law(2)[of e] in \<open>simp add: ts split: if_splits\<close>)
  then show ?case using n law(3) by (simp add: ts)
next
  case (pass w s n u)
  then show ?case by simp
qed

lemma filter_key_le1: "inj_on f (set xs) \<Longrightarrow> distinct xs \<Longrightarrow> length (filter (\<lambda>x. f x = k) xs) \<le> 1"
proof (induction xs)
  case (Cons x xs)
  have "filter (\<lambda>y. f y = k) xs = []" if "f x = k"
    using Cons.prems that by (auto simp: filter_empty_conv inj_on_def)
  then show ?case using Cons by (auto simp: inj_on_def)
qed simp

lemma dispatch_law:
  assumes "webhook_dispatch E event s = (r, t)" and "wh_timers s = []" and "inj_on ep_id (erows (wh_world s))"
  shows "timers_ok (wh_timers t) \<and> grows 1 (ids s e) (ids t e)
    \<and> potential (for_endpoint e) (wh_timers t) \<le> 2
    \<and> potential (\<lambda>_. True) (wh_timers t) \<le> 2 * card {ep \<in> erows (wh_world s). ep_active ep}"
proof -
  let ?A = "{ep \<in> erows (wh_world s). ep_active ep}"
  obtain q s1 where f: "wh_db (findMany (endpoints E) ep_active anyOrder) s = (q, s1)"
    by (cases "wh_db (findMany (endpoints E) ep_active anyOrder) s")
  then obtain w where fw: "findMany (endpoints E) ep_active anyOrder (wh_world s) = (q, w)"
    and s1: "s1 = s\<lparr>wh_world := w\<rparr>" by (auto simp: wh_db_def zoom_iff)
  have "drows w = drows (wh_world s)" by (rule keepsD[OF find_deliveries fw])
  then have ids1: "ids s1 e = ids s e" by (simp add: s1)
  have ok1: "timers_ok (wh_timers s1)" "wh_timers s1 = []" using assms(2) by (simp_all add: s1 timers_ok_def)
  show ?thesis
  proof (cases q)
    case (Inl x)
    then have "t = s1" using assms(1) f by (simp add: webhook_dispatch_def seqM_def)
    then show ?thesis using ids1 ok1 by simp
  next
    case (Inr eps)
    have eps: "set eps = ?A" "distinct eps"
      using etab_returns(2)[OF fw[unfolded Inr]] by auto
    then have len: "length eps = card ?A" using distinct_card by metis
    show ?thesis
    proof (cases "eps = []")
      case True
      then have "t = s1" using assms(1) f Inr by (simp add: webhook_dispatch_def seqM_def ret_def)
      then show ?thesis using ids1 ok1 by simp
    next
      case False
      obtain payload where run: "deliver_all E (event_type event) payload eps s1 = (r, t)"
        using assms(1) f Inr False
        by (simp add: webhook_dispatch_def seqM_def wh_db_def zoom_def readM_def s1)
      have "inj_on ep_id (set eps)" using assms(3) eps(1) by (auto intro: inj_on_subset)
      then have one: "length (filter (\<lambda>ep. ep_id ep = e) eps) \<le> 1"
        using eps(2) by (rule filter_key_le1)
      note law = deliver_all_law[OF run ok1(1), of e]
      have "grows 1 (ids s1 e) (ids t e)" using law one by (blast intro: grows_mono)
      then show ?thesis using law one ok1(2) ids1 len by simp
    qed
  qed
qed

end

section \<open>A concrete surrounding\<close>

text \<open>A network that answers every post with the status it holds.\<close>

record webhook_world =
  ww_endpoints :: "endpoint_row list"
  ww_deliveries :: "delivery_row list"
  ww_status :: nat
  ww_clock :: int

definition demo_delivery_row :: "webhook_world \<Rightarrow> nat \<Rightarrow> new_delivery \<Rightarrow> delivery_row" where
  "demo_delivery_row s k n = \<lparr>wd_id = replicate (length (ww_deliveries s) + k) CHR ''d'',
     wd_endpointId = nd_endpointId n, wd_event = nd_event n, wd_payload = nd_payload n,
     wd_status = nd_status n, wd_attempts = nd_attempts n, wd_responseStatus = None, wd_nextRetryAt = None,
     wd_createdAt = ww_clock s\<rparr>"

definition demo_endpoint_row :: "webhook_world \<Rightarrow> nat \<Rightarrow> string \<times> string \<Rightarrow> endpoint_row" where
  "demo_endpoint_row s k n = \<lparr>ep_id = replicate (length (ww_endpoints s) + k) CHR ''e'',
     ep_url = fst n, ep_secret = snd n, ep_active = True, ep_createdAt = ww_clock s\<rparr>"

definition demo_webhook :: "webhook_world webhook_env" where
  "demo_webhook = \<lparr>
     endpoints = list_delegate ww_endpoints (\<lambda>rs s. s\<lparr>ww_endpoints := rs\<rparr>) demo_endpoint_row (\<lambda>s r. r)
       (\<lambda>r r'. ep_id r = ep_id r'),
     deliveries = list_delegate ww_deliveries (\<lambda>rs s. s\<lparr>ww_deliveries := rs\<rparr>) demo_delivery_row (\<lambda>s r. r)
       (\<lambda>r r'. wd_id r = wd_id r'),
     fetch_post = (\<lambda>url sig body. readM ww_status),
     hmac_sha256 = (\<lambda>key body. key @ body), wh_now = ww_clock,
     toISOString = (\<lambda>n. ''1970-01-01T00:00:00.000Z''), wh_randomUUID = ret ''uuid''\<rparr>"

definition demo_drows :: "webhook_world \<Rightarrow> delivery_row set" where
  "demo_drows s = set (ww_deliveries s)"

definition demo_erows :: "webhook_world \<Rightarrow> endpoint_row set" where
  "demo_erows s = set (ww_endpoints s)"

interpretation demo_webhook: webhook_ports demo_webhook demo_drows demo_erows
proof (rule webhook_ports.intro, goal_cases)
  case 1
  have t: "table (deliveries demo_webhook) (\<lambda>s. set (ww_deliveries s)) (\<lambda>_. ())
      (\<lambda>s n r. (\<exists>i. r = demo_delivery_row s i n) \<and> (\<forall>x \<in> set (ww_deliveries s). \<not> wd_id r = wd_id x)) (\<lambda>s r. r)"
    unfolding demo_webhook_def webhook_env.simps by (rule list_delegate_table) simp_all
  have rw: "demo_drows = (\<lambda>s. set (ww_deliveries s))" by (simp add: demo_drows_def fun_eq_iff)
  show ?case unfolding rw
    by (rule table_weaken[OF t]) (auto simp: delivery_made_def demo_delivery_row_def)
next
  case 2
  have t: "table (endpoints demo_webhook) (\<lambda>s. set (ww_endpoints s)) (\<lambda>_. ())
      (\<lambda>s n r. (\<exists>i. r = demo_endpoint_row s i n) \<and> (\<forall>x \<in> set (ww_endpoints s). \<not> ep_id r = ep_id x)) (\<lambda>s r. r)"
    unfolding demo_webhook_def webhook_env.simps by (rule list_delegate_table) simp_all
  have rw: "demo_erows = (\<lambda>s. set (ww_endpoints s))" by (simp add: demo_erows_def fun_eq_iff)
  show ?case unfolding rw
    by (rule table_weaken[OF t]) (auto simp: endpoint_made_def demo_endpoint_row_def)
next
  case (3 P le)
  show ?case by (simp add: keeps_def demo_webhook_def list_delegate_def)
next
  case (4 url sig body)
  show ?case by (simp add: demo_webhook_def keeps_prim)
qed

section \<open>Properties\<close>

definition demo_hooks :: "webhook_world webhook_state" where
  "demo_hooks = \<lparr>wh_timers = [], wh_world = \<lparr>ww_endpoints =
       [\<lparr>ep_id = ''shop'', ep_url = ''http://shop'', ep_secret = ''k'', ep_active = True, ep_createdAt = 0\<rparr>],
     ww_deliveries = [], ww_status = 503, ww_clock = 0\<rparr>\<rparr>"

definition demo_event :: webhook_event where
  "demo_event = DepositConfirmed \<lparr>we_walletId = ''w'', we_userId = ''u'', we_amount = ''1'',
     we_currency = ''USD'', we_transactionId = ''t''\<rparr>"

text \<open>The first timer goes off, when its time has come.\<close>

definition demo_next :: "webhook_world webhook_state \<Rightarrow> webhook_world webhook_state" where
  "demo_next s = snd (deliver demo_webhook (snd (hd (wh_timers s)))
     (s\<lparr>wh_world := (wh_world s)\<lparr>ww_clock := fst (hd (wh_timers s))\<rparr>, wh_timers := tl (wh_timers s)\<rparr>))"

lemma demo_next_run:
  assumes "wh_timers s \<noteq> []" and "webhook_run demo_webhook demo_drows (demo_next s) n u"
  shows "webhook_run demo_webhook demo_drows s (Suc n) u"
proof -
  obtain due rt rest where ts: "wh_timers s = (due, rt) # rest" using assms(1) by (cases "wh_timers s") auto
  let ?s = "s\<lparr>wh_world := (wh_world s)\<lparr>ww_clock := due\<rparr>\<rparr>"
  let ?r = "deliver demo_webhook rt (?s\<lparr>wh_timers := [] @ rest\<rparr>)"
  have fire: "webhook_fire demo_webhook ?s (snd ?r)"
    by (rule webhook_fire.fire[of _ "[]" due rt rest _ "fst ?r"]) (simp_all add: ts demo_webhook_def)
  have "demo_next s = snd ?r" by (simp add: demo_next_def ts)
  then have "webhook_run demo_webhook demo_drows (snd ?r) n u" using assms(2) by simp
  with fire have "webhook_run demo_webhook demo_drows ?s (Suc n) u" by (rule webhook_run.timer)
  then show ?thesis by (rule webhook_run.pass[rotated]) (simp add: demo_drows_def)
qed

text \<open>C30. The retries end and are bounded: after one event is dispatched with no earlier retry pending, whatever the endpoints answer
  and whatever the database does, at most two timers go off for each endpoint that was active, and each
  endpoint gets at most three deliveries for the event.\<close>

theorem webhook_three_attempts:
  assumes "webhook_ports E drows erows" and "inj_on ep_id (erows (wh_world s))" and "wh_timers s = []"
    and "webhook_dispatch E event s = (r, t)" and "webhook_run E drows t n u"
  shows "n \<le> 2 * card {ep \<in> erows (wh_world s). ep_active ep}
    \<and> grows WEBHOOK_MAX_ATTEMPTS (delivery_ids e (drows (wh_world s))) (delivery_ids e (drows (wh_world u)))"
proof -
  note disp = webhook_ports.dispatch_law[OF assms(1,4,3,2), of e]
  note run = webhook_ports.run_law[OF assms(1,5) conjunct1[OF disp], of e]
  have "grows (1 + potential (\<lambda>rt. rt_endpointId rt = e) (wh_timers t))
      (delivery_ids e (drows (wh_world s))) (delivery_ids e (drows (wh_world u)))"
    using grows_trans disp run by blast
  then have "grows WEBHOOK_MAX_ATTEMPTS (delivery_ids e (drows (wh_world s))) (delivery_ids e (drows (wh_world u)))"
    by (rule grows_mono) (use disp in \<open>simp add: WEBHOOK_MAX_ATTEMPTS_def\<close>)
  then show ?thesis using disp run by linarith
qed

theorem webhook_three_attempts_witness:
  "let t = snd (webhook_dispatch demo_webhook demo_event demo_hooks); u = demo_next (demo_next t)
   in map wd_attempts (ww_deliveries (wh_world u)) = [1, 2, 3] \<and> wh_timers u = []
      \<and> grows 3 {} (delivery_ids ''shop'' (demo_drows (wh_world u)))"
proof -
  let ?d = "webhook_dispatch demo_webhook demo_event demo_hooks"
  let ?u = "demo_next (demo_next (snd ?d))"
  have "wh_timers (snd ?d) \<noteq> [] \<and> wh_timers (demo_next (snd ?d)) \<noteq> []" by code_simp
  then have run: "webhook_run demo_webhook demo_drows (snd ?d) (Suc (Suc 0)) ?u"
    using demo_next_run[OF _ demo_next_run[OF _ webhook_run.stop]] by blast
  have inj: "inj_on ep_id (demo_erows (wh_world demo_hooks))" and no: "wh_timers demo_hooks = []"
    by (simp_all add: demo_erows_def demo_hooks_def)
  from webhook_three_attempts[OF demo_webhook.webhook_ports_axioms inj no _ run, of demo_event "fst ?d" "''shop''"]
  have "grows 3 (delivery_ids ''shop'' (demo_drows (wh_world demo_hooks))) (delivery_ids ''shop'' (demo_drows (wh_world ?u)))"
    by (simp add: WEBHOOK_MAX_ATTEMPTS_def)
  moreover have "delivery_ids ''shop'' (demo_drows (wh_world demo_hooks)) = {}"
    by (simp add: delivery_ids_def demo_drows_def demo_hooks_def)
  moreover have "map wd_attempts (ww_deliveries (wh_world ?u)) = [1, 2, 3] \<and> wh_timers ?u = []" by code_simp
  ultimately show ?thesis by (simp add: Let_def)
qed

end
