(* ===== verification/Exchange.thy ===== *)
theory Exchange
  imports Prisma_Wallet
begin

text \<open>
  \<open>ExchangeService\<close> (\<open>exchange.service.ts\<close>) and the precision check it uses
  (\<open>validate-currency-precision.ts\<close>, \<open>get-decimal-places.ts\<close>). It works on the wallet rows of
  \<open>Prisma_Wallet\<close> directly. Prisma's \<open>Decimal\<close> is the type parameter \<open>'d\<close> with the operations the code
  calls, the two updates of a \<open>NUMERIC(20,8)\<close> column by a decimal among them; \<open>exchange_ports\<close> is what
  the code relies on.
\<close>

section \<open>Precision\<close>

definition isCurrencyEnum :: "string \<Rightarrow> bool" where
  "isCurrencyEnum v \<longleftrightarrow> v \<in> {''ARS'', ''USD'', ''USDT'', ''BRL''}"

definition getDecimalPlaces :: "string \<Rightarrow> nat" where
  "getDecimalPlaces c =
     or_else (map_of [(''ARS'', 2), (''USD'', 2), (''USDT'', 6), (''BRL'', 2)] c) 2"

text \<open>The second argument is \<open>amount.decimalPlaces()\<close>.\<close>

definition validateCurrencyPrecision :: "string \<Rightarrow> nat \<Rightarrow> exn + unit" where
  "validateCurrencyPrecision c decimalPlaces =
     (if \<not> isCurrencyEnum c then Inl (BadRequestException (''Unsupported currency: '' @ c))
      else
        let maxDecimals = getDecimalPlaces c in
        if decimalPlaces > maxDecimals then
          Inl (BadRequestException (c @ '' supports at most '' @ show_nat maxDecimals @ '' decimal places''))
        else Inr ())"

lemma precision_agrees: "getDecimalPlaces (currency_name c) = currencyDecimals c" "isCurrencyEnum (currency_name c)"
  by (cases c; simp add: getDecimalPlaces_def isCurrencyEnum_def)+

section \<open>Rows and parameters\<close>

record 'd rate_row =
  rr_id :: string
  rr_fromCurrency :: currency
  rr_toCurrency :: currency
  rr_rate :: 'd
  rr_date :: int

record 'd new_rate =
  nr_fromCurrency :: currency
  nr_toCurrency :: currency
  nr_rate :: 'd
  nr_date :: int

record 'd new_exchange =
  ne_walletId :: string
  ne_toWalletId :: string
  ne_type :: string
  ne_amount :: 'd
  ne_currency :: currency
  ne_status :: string
  ne_description :: string
  ne_metadata :: metadata

record exchange_input =
  ei_userId :: string
  ei_fromCurrency :: currency
  ei_toCurrency :: currency
  ei_amount :: string

record 'd exchange_result =
  xe_transaction :: tx_row
  xe_received :: 'd
  xe_rate :: 'd
  xe_toCurrency :: currency

record ('s, 'd) exchange_env =
  x_wallets :: "('s, wallet_row, new_wallet) delegate"
  x_rates :: "('s, 'd rate_row, 'd new_rate) delegate"
  x_insert :: "'d new_exchange \<Rightarrow> ('s, tx_row) io"
  x_transaction :: "('s, 'd exchange_result) io \<Rightarrow> ('s, 'd exchange_result) io"
  x_sleep :: "nat \<Rightarrow> 's \<Rightarrow> 's"
  x_now :: "'s \<Rightarrow> int"
  x_Decimal :: "string \<Rightarrow> exn + 'd"
  x_decimalPlaces :: "'d \<Rightarrow> nat"
  x_times :: "'d \<Rightarrow> 'd \<Rightarrow> 'd"
  x_toString :: "'d \<Rightarrow> string"
  balance_lessThan :: "int \<Rightarrow> 'd \<Rightarrow> bool"
  column_plus :: "int \<Rightarrow> 'd \<Rightarrow> int"
  column_minus :: "int \<Rightarrow> 'd \<Rightarrow> int"
  x_localeCompare :: "string \<Rightarrow> string \<Rightarrow> int"
  EXCHANGE_RATE_MAX_AGE_MS :: int

section \<open>The service\<close>

record leg =
  lg_wallet :: wallet_row
  lg_balance :: "int \<Rightarrow> int"

text \<open>The two legs, sorted by wallet id.\<close>

definition exchange_legs :: "('s, 'd) exchange_env \<Rightarrow> wallet_row \<Rightarrow> 'd \<Rightarrow> wallet_row \<Rightarrow> 'd \<Rightarrow> leg list" where
  "exchange_legs X source amount target received =
     (let a = \<lparr>lg_wallet = source, lg_balance = (\<lambda>b. column_minus X b amount)\<rparr>;
          b = \<lparr>lg_wallet = target, lg_balance = (\<lambda>b. column_plus X b received)\<rparr>
      in if x_localeCompare X (wr_id source) (wr_id target) > 0 then [b, a] else [a, b])"

primrec apply_legs :: "('s, 'd) exchange_env \<Rightarrow> leg list \<Rightarrow> ('s, unit) io" where
  "apply_legs X [] = ret ()"
| "apply_legs X (l # ls) =
     seqM (updateMany (x_wallets X)
             (\<lambda>r. wr_id r = wr_id (lg_wallet l) \<and> wr_version r = wr_version (lg_wallet l))
             (\<lambda>r. r\<lparr>wr_balance := lg_balance l (wr_balance r), wr_version := wr_version r + 1\<rparr>)) (\<lambda>count.
     if count = 0 then throw (ConflictException ''Optimistic lock conflict'') else apply_legs X ls)"

definition exchange_description :: "currency \<Rightarrow> currency \<Rightarrow> string" where
  "exchange_description from to = ''Conversi'' @ [CHR 0xC3, CHR 0xB3] @ ''n '' @ currency_name from
     @ '' '' @ [CHR 0xE2, CHR 0x86, CHR 0x92] @ '' '' @ currency_name to"

definition pair_name :: "currency \<Rightarrow> currency \<Rightarrow> string" where
  "pair_name from to = currency_name from @ ''/'' @ currency_name to"

definition newest_first :: "'d rate_row \<Rightarrow> 'd rate_row \<Rightarrow> bool" where
  "newest_first a b \<longleftrightarrow> rr_date b \<le> rr_date a"

definition rate_for :: "currency \<Rightarrow> currency \<Rightarrow> 'd rate_row \<Rightarrow> bool" where
  "rate_for from to r \<longleftrightarrow> rr_fromCurrency r = from \<and> rr_toCurrency r = to"

definition exchange_work ::
  "('s, 'd) exchange_env \<Rightarrow> exchange_input \<Rightarrow> 'd \<Rightarrow> ('s, 'd exchange_result) io" where
  "exchange_work X inp decimalAmount =
     (let from = ei_fromCurrency inp; to = ei_toCurrency inp in
      seqM (findFirst (x_wallets X) (userId_currency (ei_userId inp) from)) (\<lambda>sourceWallet.
      seqM (findFirst (x_wallets X) (userId_currency (ei_userId inp) to)) (\<lambda>targetWallet.
      seqM (findFirstBy (x_rates X) (rate_for from to) newest_first) (\<lambda>exchangeRate.
      seqM (assertFound sourceWallet (''Wallet '' @ currency_name from)) (\<lambda>source.
      seqM (assertFound targetWallet (''Wallet '' @ currency_name to)) (\<lambda>target.
      seqM (assertFound exchangeRate (''Exchange rate '' @ pair_name from to)) (\<lambda>row.
      seqM (readM (x_now X)) (\<lambda>now.
      let rateAge = now - rr_date row in
      if rateAge > EXCHANGE_RATE_MAX_AGE_MS X then
        throw (UnprocessableEntityException
          (''Exchange rate for '' @ pair_name from to @ '' is stale. Please retry.''))
      else if balance_lessThan X (wr_balance source) decimalAmount then
        throw (UnprocessableEntityException ''Insufficient balance'')
      else
        let rate = rr_rate row; received = x_times X decimalAmount rate in
        seqM (apply_legs X (exchange_legs X source decimalAmount target received)) (\<lambda>_.
        seqM (x_insert X
          \<lparr>ne_walletId = wr_id source, ne_toWalletId = wr_id target, ne_type = ''EXCHANGE'',
           ne_amount = decimalAmount, ne_currency = from, ne_status = ''COMPLETED'',
           ne_description = exchange_description from to,
           ne_metadata = [(''rate'', Some (x_toString X rate)), (''received'', Some (x_toString X received)),
                          (''toCurrency'', Some (currency_name to))]\<rparr>) (\<lambda>transaction.
        ret \<lparr>xe_transaction = transaction, xe_received = received, xe_rate = rate, xe_toCurrency = to\<rparr>))))))))))"

definition exchange_execute :: "('s, 'd) exchange_env \<Rightarrow> exchange_input \<Rightarrow> ('s, 'd exchange_result) io" where
  "exchange_execute X inp =
     (if ei_fromCurrency inp = ei_toCurrency inp then
        throw (BadRequestException ''Source and destination currency must differ'')
      else
        seqM (lift (x_Decimal X (ei_amount inp))) (\<lambda>decimalAmount.
        seqM (lift (validateCurrencyPrecision (currency_name (ei_fromCurrency inp))
                (x_decimalPlaces X decimalAmount))) (\<lambda>_.
        withOptimisticRetry (x_transaction X) (x_sleep X) (PlainError '''')
          (exchange_work X inp decimalAmount))))"

section \<open>What the service relies on\<close>

definition exchange_made :: "'d new_exchange \<Rightarrow> tx_row \<Rightarrow> bool" where
  "exchange_made n r \<longleftrightarrow> xr_walletId r = ne_walletId n \<and> xr_toWalletId r = Some (ne_toWalletId n)
     \<and> xr_type r = ne_type n \<and> xr_currency r = ne_currency n \<and> xr_status r = ne_status n
     \<and> xr_description r = Some (ne_description n) \<and> xr_metadata r = Some (ne_metadata n)"

definition rate_made :: "'d new_rate \<Rightarrow> 'd rate_row \<Rightarrow> bool" where
  "rate_made n r \<longleftrightarrow> rr_fromCurrency r = nr_fromCurrency n \<and> rr_toCurrency r = nr_toCurrency n
     \<and> rr_rate r = nr_rate n \<and> rr_date r = nr_date n"

text \<open>A wallet after a leg.\<close>

definition moved_by :: "(int \<Rightarrow> int) \<Rightarrow> wallet_row \<Rightarrow> wallet_row" where
  "moved_by f r = r\<lparr>wr_balance := f (wr_balance r), wr_version := wr_version r + 1\<rparr>"

text \<open>
  The wallets and the rates are tables, the transaction rows grow by the row inserted, a transaction
  that commits has run its function on the data as they were, one that fails has changed nothing, and
  pauses change no data.
\<close>

locale exchange_ports =
  fixes X :: "('s, 'd) exchange_env" and wrows :: "'s \<Rightarrow> wallet_row set" and rrows :: "'s \<Rightarrow> 'd rate_row set"
    and txlog :: "'s \<Rightarrow> tx_row list"
  assumes xwtab: "table (x_wallets X) wrows (\<lambda>s. (rrows s, txlog s))
      (\<lambda>s n r. wallet_made n r \<and> wr_id r \<notin> wr_id ` wrows s) (\<lambda>s r. r)"
    and xrtab: "table (x_rates X) rrows (\<lambda>s. (wrows s, txlog s)) (\<lambda>s n r. rate_made n r) (\<lambda>s r. r)"
    and xinsert: "settles txlog (\<lambda>s. (wrows s, rrows s)) (x_insert X n)
      (\<lambda>s r log. log = txlog s @ [r] \<and> exchange_made n r)"
    and xcommit: "x_transaction X m s = (Inr x, t) \<Longrightarrow>
      \<exists>s0 s1. wrows s0 = wrows s \<and> rrows s0 = rrows s \<and> txlog s0 = txlog s \<and> m s0 = (Inr x, s1)
            \<and> wrows t = wrows s1 \<and> rrows t = rrows s1 \<and> txlog t = txlog s1"
    and xrollback: "x_transaction X m s = (Inl e, t) \<Longrightarrow>
      wrows t = wrows s \<and> rrows t = rrows s \<and> txlog t = txlog s"
    and xpause: "wrows (x_sleep X i s) = wrows s \<and> rrows (x_sleep X i s) = rrows s \<and> txlog (x_sleep X i s) = txlog s"
begin

lemmas xw_returns = table.returns[OF xwtab]
lemmas xr_findFirstBy = table.findFirstBy_returns[OF xrtab]

lemma leg_returns:
  assumes "updateMany (x_wallets X) (\<lambda>r. wr_id r = wr_id w \<and> wr_version r = wr_version w)
      (\<lambda>r. r\<lparr>wr_balance := f (wr_balance r), wr_version := wr_version r + 1\<rparr>) s = (Inr k, t)"
    and "inj_on wr_id (wrows s)" and "w \<in> wrows s"
  shows "wrows t = insert (moved_by f w) (wrows s - {w})" "rrows t = rrows s" "txlog t = txlog s"
proof -
  let ?P = "\<lambda>r. wr_id r = wr_id w \<and> wr_version r = wr_version w"
  have "?P r \<longleftrightarrow> r = w" if "r \<in> wrows s" for r using inj_onD[OF assms(2)] that assms(3) by blast
  then have "(\<lambda>r. if ?P r then moved_by f r else r) ` wrows s = insert (moved_by f w) (wrows s - {w})"
    using assms(3) by (auto simp: image_iff)
  then show "wrows t = insert (moved_by f w) (wrows s - {w})"
    using xw_returns(9)[OF assms(1)] by (simp add: moved_by_def)
  show "rrows t = rrows s" "txlog t = txlog s" using xw_returns(9)[OF assms(1)] by auto
qed

end

lemma moved_by_simps [simp]:
  "wr_id (moved_by f w) = wr_id w" "wr_userId (moved_by f w) = wr_userId w"
  "wr_currency (moved_by f w) = wr_currency w" "wr_version (moved_by f w) = wr_version w + 1"
  "wr_balance (moved_by f w) = f (wr_balance w)"
  by (simp_all add: moved_by_def)

context exchange_ports
begin

lemma two_legs_return:
  assumes "apply_legs X [\<lparr>lg_wallet = a, lg_balance = f\<rparr>, \<lparr>lg_wallet = b, lg_balance = g\<rparr>] s = (Inr (), t)"
    and "inj_on wr_id (wrows s)" and "a \<in> wrows s" and "b \<in> wrows s" and "a \<noteq> b"
  shows "wrows t = insert (moved_by f a) (insert (moved_by g b) (wrows s - {a, b}))
     \<and> rrows t = rrows s \<and> txlog t = txlog s"
proof -
  from assms(1) obtain k s1 k' where
    1: "updateMany (x_wallets X) (\<lambda>r. wr_id r = wr_id a \<and> wr_version r = wr_version a)
      (\<lambda>r. r\<lparr>wr_balance := f (wr_balance r), wr_version := wr_version r + 1\<rparr>) s = (Inr k, s1)"
    and 2: "updateMany (x_wallets X) (\<lambda>r. wr_id r = wr_id b \<and> wr_version r = wr_version b)
      (\<lambda>r. r\<lparr>wr_balance := g (wr_balance r), wr_version := wr_version r + 1\<rparr>) s1 = (Inr k', t)"
    by (auto simp: seqM_Inr io_prim_iff split: if_splits)
  note l1 = leg_returns[OF 1 assms(2,3)]
  have inj: "inj_on wr_id (wrows s1)" unfolding l1(1) by (rule inj_on_put[OF assms(2,3)]) simp
  have ba: "wr_id b \<noteq> wr_id a" using inj_onD[OF assms(2) _ assms(4,3)] assms(5) by auto
  then have b: "b \<in> wrows s1" and nb: "b \<noteq> moved_by f a" using assms(4,5) by (auto simp: l1(1))
  note l2 = leg_returns[OF 2 inj b]
  have "wrows t = insert (moved_by g b) (insert (moved_by f a) (wrows s - {a}) - {b})"
    using l2(1) l1(1) by simp
  also have "insert (moved_by f a) (wrows s - {a}) - {b} = insert (moved_by f a) (wrows s - {a, b})"
    using nb by blast
  finally have "wrows t = insert (moved_by f a) (insert (moved_by g b) (wrows s - {a, b}))" by blast
  then show ?thesis using l1(2,3) l2(2,3) by simp
qed

lemma legs_return:
  assumes "apply_legs X (exchange_legs X a amount b received) s = (Inr (), t)"
    and "inj_on wr_id (wrows s)" and "a \<in> wrows s" and "b \<in> wrows s" and "a \<noteq> b"
  shows "wrows t = insert (moved_by (\<lambda>x. column_minus X x amount) a)
       (insert (moved_by (\<lambda>x. column_plus X x received) b) (wrows s - {a, b}))
     \<and> rrows t = rrows s \<and> txlog t = txlog s"
proof (cases "x_localeCompare X (wr_id a) (wr_id b) > 0")
  case True
  then have "wrows t = insert (moved_by (\<lambda>x. column_plus X x received) b)
       (insert (moved_by (\<lambda>x. column_minus X x amount) a) (wrows s - {b, a}))
     \<and> rrows t = rrows s \<and> txlog t = txlog s"
    using assms(1,5) by (intro two_legs_return assms(2-4)) (simp_all add: exchange_legs_def)
  moreover have "wrows s - {b, a} = wrows s - {a, b}" by blast
  ultimately show ?thesis by (simp add: insert_commute)
next
  case False
  then show ?thesis
    using assms(1,5) by (intro two_legs_return assms(2-4)) (simp_all add: exchange_legs_def)
qed

end

text \<open>What a committed exchange has done.\<close>

definition exchanged ::
  "('s, 'd) exchange_env \<Rightarrow> ('s \<Rightarrow> wallet_row set) \<Rightarrow> ('s \<Rightarrow> 'd rate_row set) \<Rightarrow> ('s \<Rightarrow> tx_row list)
   \<Rightarrow> exchange_input \<Rightarrow> 'd \<Rightarrow> 'd exchange_result \<Rightarrow> 's \<Rightarrow> 's \<Rightarrow> bool" where
  "exchanged X wrows rrows txlog inp amount res s t \<longleftrightarrow> (\<exists>a b rate tx.
     a \<in> wrows s \<and> userId_currency (ei_userId inp) (ei_fromCurrency inp) a
   \<and> b \<in> wrows s \<and> userId_currency (ei_userId inp) (ei_toCurrency inp) b
   \<and> rate \<in> rrows s \<and> rate_for (ei_fromCurrency inp) (ei_toCurrency inp) rate
   \<and> (\<forall>r \<in> rrows s. rate_for (ei_fromCurrency inp) (ei_toCurrency inp) r \<longrightarrow> rr_date r \<le> rr_date rate)
   \<and> xe_rate res = rr_rate rate \<and> xe_received res = x_times X amount (rr_rate rate)
   \<and> \<not> balance_lessThan X (wr_balance a) amount
   \<and> wrows t = insert (moved_by (\<lambda>x. column_minus X x amount) a)
       (insert (moved_by (\<lambda>x. column_plus X x (xe_received res)) b) (wrows s - {a, b}))
   \<and> rrows t = rrows s \<and> txlog t = txlog s @ [tx]
   \<and> xr_walletId tx = wr_id a \<and> xr_toWalletId tx = Some (wr_id b) \<and> xr_type tx = ''EXCHANGE''
   \<and> xe_transaction res = tx)"

lemma newest_first_total: "total_order newest_first"
  by (auto simp: total_order_def newest_first_def)

context exchange_ports
begin

lemma find_wallet:
  assumes "findFirst (x_wallets X) P s = (Inr (Some w), t)"
  shows "w \<in> wrows s" "P w" "wrows t = wrows s" "rrows t = rrows s" "txlog t = txlog s"
  using xw_returns(1)[OF assms] by auto

lemma work_returns:
  assumes run: "exchange_work X inp amount s = (Inr res, t)" and inj: "inj_on wr_id (wrows s)"
    and diff: "ei_fromCurrency inp \<noteq> ei_toCurrency inp"
  shows "exchanged X wrows rrows txlog inp amount res s t"
proof -
  let ?from = "ei_fromCurrency inp" and ?to = "ei_toCurrency inp" and ?u = "ei_userId inp"
  from run obtain a s1 b s2 rate s3 s4 tx where
      fa: "findFirst (x_wallets X) (userId_currency ?u ?from) s = (Inr (Some a), s1)"
    and fb: "findFirst (x_wallets X) (userId_currency ?u ?to) s1 = (Inr (Some b), s2)"
    and fr: "findFirstBy (x_rates X) (rate_for ?from ?to) newest_first s2 = (Inr (Some rate), s3)"
    and enough: "\<not> balance_lessThan X (wr_balance a) amount"
    and legs: "apply_legs X (exchange_legs X a amount b (x_times X amount (rr_rate rate))) s3 = (Inr (), s4)"
    and ins: "x_insert X \<lparr>ne_walletId = wr_id a, ne_toWalletId = wr_id b, ne_type = ''EXCHANGE'',
           ne_amount = amount, ne_currency = ?from, ne_status = ''COMPLETED'',
           ne_description = exchange_description ?from ?to,
           ne_metadata = [(''rate'', Some (x_toString X (rr_rate rate))),
             (''received'', Some (x_toString X (x_times X amount (rr_rate rate)))),
             (''toCurrency'', Some (currency_name ?to))]\<rparr> s4 = (Inr tx, t)"
    and res: "res = \<lparr>xe_transaction = tx, xe_received = x_times X amount (rr_rate rate), xe_rate = rr_rate rate,
           xe_toCurrency = ?to\<rparr>"
    by (auto simp: exchange_work_def Let_def seqM_Inr assertFound_iff io_prim_iff split: if_splits)
  note a = find_wallet[OF fa] and b = find_wallet[OF fb]
  have rate: "rate \<in> rrows s" "rate_for ?from ?to rate"
    "\<forall>r \<in> rrows s. rate_for ?from ?to r \<longrightarrow> rr_date r \<le> rr_date rate"
    and s3: "rrows s3 = rrows s" "wrows s3 = wrows s" "txlog s3 = txlog s"
    using xr_findFirstBy[OF fr newest_first_total] a(3-5) b(3-5) by (auto simp: newest_first_def)
  have ab: "a \<noteq> b" using a(2) b(2) diff by (auto simp: userId_currency_def)
  have mem: "a \<in> wrows s3" "b \<in> wrows s3" using a(1) b(1) a(3) s3 by simp_all
  note moved = legs_return[OF legs inj[folded s3(2)] mem ab]
  have "exchange_made \<lparr>ne_walletId = wr_id a, ne_toWalletId = wr_id b, ne_type = ''EXCHANGE'',
           ne_amount = amount, ne_currency = ?from, ne_status = ''COMPLETED'',
           ne_description = exchange_description ?from ?to,
           ne_metadata = [(''rate'', Some (x_toString X (rr_rate rate))),
             (''received'', Some (x_toString X (x_times X amount (rr_rate rate)))),
             (''toCurrency'', Some (currency_name ?to))]\<rparr> tx"
    and t: "txlog t = txlog s4 @ [tx]" "wrows t = wrows s4" "rrows t = rrows s4"
    using settles_Inr[OF xinsert ins] by auto
  then have tx: "xr_walletId tx = wr_id a" "xr_toWalletId tx = Some (wr_id b)" "xr_type tx = ''EXCHANGE''"
    by (simp_all add: exchange_made_def)
  have "wrows t = insert (moved_by (\<lambda>x. column_minus X x amount) a)
       (insert (moved_by (\<lambda>x. column_plus X x (xe_received res)) b) (wrows s - {a, b}))"
    unfolding t(2) res using moved s3(2) by simp
  moreover have "rrows t = rrows s" "txlog t = txlog s @ [tx]" using t moved s3 by simp_all
  moreover have "xe_rate res = rr_rate rate" "xe_received res = x_times X amount (rr_rate rate)"
    "xe_transaction res = tx" by (simp_all add: res)
  moreover have "b \<in> wrows s" using b(1) a(3) by simp
  ultimately show ?thesis unfolding exchanged_def using a(1,2) b(2) rate enough tx
    by - (intro exI[of _ a] exI[of _ b] exI[of _ rate] exI[of _ tx] conjI; assumption)
qed

lemma execute_cases:
  assumes "exchange_execute X inp s = (res, t)"
  shows "(wrows t = wrows s \<and> rrows t = rrows s \<and> txlog t = txlog s \<and> isl res)
       \<or> (\<exists>amount s0 s1 r. ei_fromCurrency inp \<noteq> ei_toCurrency inp \<and> x_Decimal X (ei_amount inp) = Inr amount
            \<and> x_decimalPlaces X amount \<le> currencyDecimals (ei_fromCurrency inp)
            \<and> wrows s0 = wrows s \<and> rrows s0 = rrows s \<and> txlog s0 = txlog s
            \<and> exchange_work X inp amount s0 = (Inr r, s1) \<and> res = Inr r
            \<and> wrows t = wrows s1 \<and> rrows t = rrows s1 \<and> txlog t = txlog s1)"
proof (cases "\<exists>amount. ei_fromCurrency inp \<noteq> ei_toCurrency inp \<and> x_Decimal X (ei_amount inp) = Inr amount
     \<and> x_decimalPlaces X amount \<le> currencyDecimals (ei_fromCurrency inp)")
  case False
  then have "t = s \<and> isl res"
    using assms by (cases "x_Decimal X (ei_amount inp)")
      (auto simp: exchange_execute_def throw_def lift_def seqM_def validateCurrencyPrecision_def
         precision_agrees Let_def split: if_splits)
  then show ?thesis by simp
next
  case True
  then obtain amount where ok: "ei_fromCurrency inp \<noteq> ei_toCurrency inp" "x_Decimal X (ei_amount inp) = Inr amount"
    "x_decimalPlaces X amount \<le> currencyDecimals (ei_fromCurrency inp)" by blast
  then have "withOptimisticRetry (x_transaction X) (x_sleep X) (PlainError '''') (exchange_work X inp amount) s = (res, t)"
    using assms by (simp add: exchange_execute_def lift_def seqM_def validateCurrencyPrecision_def precision_agrees)
  from retry_view[of "x_transaction X" "exchange_work X inp amount" "\<lambda>s. (wrows s, rrows s, txlog s)" "x_sleep X",
      OF _ _ this] xrollback xpause
  obtain s' where s': "wrows s' = wrows s" "rrows s' = rrows s" "txlog s' = txlog s"
    "x_transaction X (exchange_work X inp amount) s' = (res, t)" by auto
  show ?thesis
  proof (cases res)
    case (Inl e)
    then show ?thesis using xrollback[of "exchange_work X inp amount" s' e t] s' by simp
  next
    case (Inr r)
    then obtain s0 s1 where "wrows s0 = wrows s'" "rrows s0 = rrows s'" "txlog s0 = txlog s'"
      "exchange_work X inp amount s0 = (Inr r, s1)" "wrows t = wrows s1" "rrows t = rrows s1" "txlog t = txlog s1"
      using xcommit[of "exchange_work X inp amount" s' r t] s'(4) by blast
    then show ?thesis using ok s' Inr by metis
  qed
qed

end

lemma exchanged_cong:
  assumes "exchanged X wrows rrows txlog inp amount res s0 s1"
    and "wrows s0 = wrows s" "rrows s0 = rrows s" "txlog s0 = txlog s"
    and "wrows t = wrows s1" "rrows t = rrows s1" "txlog t = txlog s1"
  shows "exchanged X wrows rrows txlog inp amount res s t"
  using assms(1) unfolding exchanged_def assms(2-) .

section \<open>A concrete surrounding\<close>

text \<open>Decimals are whole numbers of \<open>10\<^sup>-\<^sup>8\<close>; a product keeps eight decimals.\<close>

record exchange_world =
  xd_wallets :: "wallet_row list"
  xd_rates :: "int rate_row list"
  xd_txs :: "tx_row list"
  xd_clock :: int

definition demo_xwallet_row :: "exchange_world \<Rightarrow> nat \<Rightarrow> new_wallet \<Rightarrow> wallet_row" where
  "demo_xwallet_row s k n = \<lparr>wr_id = replicate (length (xd_wallets s) + k) CHR ''w'',
     wr_userId = Some (nw_userId n), wr_currency = nw_currency n, wr_balance = nw_balance n,
     wr_version = nw_version n\<rparr>"

definition demo_rate_row :: "exchange_world \<Rightarrow> nat \<Rightarrow> int new_rate \<Rightarrow> int rate_row" where
  "demo_rate_row s k n = \<lparr>rr_id = replicate (length (xd_rates s) + k) CHR ''r'',
     rr_fromCurrency = nr_fromCurrency n, rr_toCurrency = nr_toCurrency n, rr_rate = nr_rate n, rr_date = nr_date n\<rparr>"

definition demo_xtx_row :: "exchange_world \<Rightarrow> int new_exchange \<Rightarrow> tx_row" where
  "demo_xtx_row s n = \<lparr>xr_id = replicate (length (xd_txs s)) CHR ''t'', xr_walletId = ne_walletId n,
     xr_toWalletId = Some (ne_toWalletId n), xr_type = ne_type n, xr_amount = ne_amount n,
     xr_currency = ne_currency n, xr_status = ne_status n, xr_description = Some (ne_description n),
     xr_category = None, xr_metadata = Some (ne_metadata n), xr_reversesTransactionId = None,
     xr_createdAt = xd_clock s\<rparr>"

definition demo_places :: "int \<Rightarrow> nat" where
  "demo_places u = hd (filter (\<lambda>k. u mod 10 ^ (8 - k) = 0) [0..<9])"

fun code_compare :: "string \<Rightarrow> string \<Rightarrow> int" where
  "code_compare [] [] = 0"
| "code_compare [] (b # bs) = - 1"
| "code_compare (a # as) [] = 1"
| "code_compare (a # as) (b # bs) = (if (of_char a :: nat) < of_char b then - 1
     else if (of_char b :: nat) < of_char a then 1 else code_compare as bs)"

lemma code_compare_anti: "code_compare a b = - code_compare b a"
  by (induction a b rule: code_compare.induct) auto

lemma code_compare_eq: "code_compare a b = 0 \<Longrightarrow> a = b"
  by (induction a b rule: code_compare.induct) (auto split: if_splits)

definition demo_exchange :: "(exchange_world, int) exchange_env" where
  "demo_exchange = \<lparr>
     x_wallets = list_delegate xd_wallets (\<lambda>rs s. s\<lparr>xd_wallets := rs\<rparr>) demo_xwallet_row (\<lambda>s r. r)
       (\<lambda>r r'. wr_id r = wr_id r'),
     x_rates = list_delegate xd_rates (\<lambda>rs s. s\<lparr>xd_rates := rs\<rparr>) demo_rate_row (\<lambda>s r. r)
       (\<lambda>r r'. rr_id r = rr_id r'),
     x_insert = (\<lambda>n s. (Inr (demo_xtx_row s n), s\<lparr>xd_txs := xd_txs s @ [demo_xtx_row s n]\<rparr>)),
     x_transaction = (\<lambda>m s. case m s of (Inr x, t) \<Rightarrow> (Inr x, t) | (Inl e, t) \<Rightarrow> (Inl e, s)),
     x_sleep = (\<lambda>_ s. s), x_now = xd_clock,
     x_Decimal = (\<lambda>t. Inr (units_of_text t)), x_decimalPlaces = demo_places,
     x_times = (\<lambda>a b. a * b div 10 ^ 8), x_toString = (\<lambda>u. toLedgerString (mk_money u USD)),
     balance_lessThan = (\<lambda>b d. b < d), column_plus = (+), column_minus = (-),
     x_localeCompare = code_compare,
     EXCHANGE_RATE_MAX_AGE_MS = 60000\<rparr>"

definition demo_xwrows :: "exchange_world \<Rightarrow> wallet_row set" where "demo_xwrows s = set (xd_wallets s)"
definition demo_rrows :: "exchange_world \<Rightarrow> int rate_row set" where "demo_rrows s = set (xd_rates s)"

interpretation demo_exchange: exchange_ports demo_exchange demo_xwrows demo_rrows xd_txs
proof (rule exchange_ports.intro, goal_cases)
  case 1
  have t: "table (x_wallets demo_exchange) (\<lambda>s. set (xd_wallets s)) (\<lambda>s. (demo_rrows s, xd_txs s))
      (\<lambda>s n r. (\<exists>i. r = demo_xwallet_row s i n) \<and> (\<forall>x \<in> set (xd_wallets s). \<not> wr_id r = wr_id x)) (\<lambda>s r. r)"
    unfolding demo_exchange_def exchange_env.simps by (rule list_delegate_table) (simp_all add: demo_rrows_def)
  have rw: "demo_xwrows = (\<lambda>s. set (xd_wallets s))" by (simp add: demo_xwrows_def fun_eq_iff)
  show ?case unfolding rw
    by (rule table_weaken[OF t]) (auto simp: wallet_made_def demo_xwallet_row_def)
next
  case 2
  have t: "table (x_rates demo_exchange) (\<lambda>s. set (xd_rates s)) (\<lambda>s. (demo_xwrows s, xd_txs s))
      (\<lambda>s n r. (\<exists>i. r = demo_rate_row s i n) \<and> (\<forall>x \<in> set (xd_rates s). \<not> rr_id r = rr_id x)) (\<lambda>s r. r)"
    unfolding demo_exchange_def exchange_env.simps by (rule list_delegate_table) (simp_all add: demo_xwrows_def)
  have rw: "demo_rrows = (\<lambda>s. set (xd_rates s))" by (simp add: demo_rrows_def fun_eq_iff)
  show ?case unfolding rw
    by (rule table_weaken[OF t]) (auto simp: rate_made_def demo_rate_row_def)
next
  case (3 n)
  show ?case by (simp add: settles_def demo_exchange_def demo_xtx_row_def exchange_made_def demo_xwrows_def demo_rrows_def)
next
  case (4 m s x t)
  then show ?case by (auto simp: demo_exchange_def split: prod.splits sum.splits)
next
  case (5 m s e t)
  then show ?case by (auto simp: demo_exchange_def split: prod.splits sum.splits)
qed (simp add: demo_exchange_def)

section \<open>Properties\<close>

text \<open>The rate is 1250 pesos for a dollar.\<close>

definition demo_market :: exchange_world where
  "demo_market = \<lparr>xd_wallets =
      [\<lparr>wr_id = ''w22'', wr_userId = Some ''ana'', wr_currency = USD, wr_balance = 500000000, wr_version = 7\<rparr>,
       \<lparr>wr_id = ''w1'', wr_userId = Some ''ana'', wr_currency = ARS, wr_balance = 0, wr_version = 1\<rparr>,
       \<lparr>wr_id = ''w333'', wr_userId = Some ''bob'', wr_currency = USD, wr_balance = 9, wr_version = 2\<rparr>],
     xd_rates = [\<lparr>rr_id = ''r1'', rr_fromCurrency = USD, rr_toCurrency = ARS, rr_rate = 100000000000, rr_date = 0\<rparr>,
       \<lparr>rr_id = ''r2'', rr_fromCurrency = USD, rr_toCurrency = ARS, rr_rate = 125000000000, rr_date = 50000\<rparr>],
     xd_txs = [], xd_clock = 100000\<rparr>"

definition demo_exchange_input :: exchange_input where
  "demo_exchange_input = \<lparr>ei_userId = ''ana'', ei_fromCurrency = USD, ei_toCurrency = ARS, ei_amount = ''2.5''\<rparr>"

text \<open>C31. An exchange is both legs or nothing: a request that fails leaves wallets, rates and
  transaction rows as they were; one that succeeds has debited the user's wallet in the one currency
  by the amount, which its balance covered, and credited the wallet in the other by the amount times the
  newest rate of the pair, each wallet one version further, has added one transaction row naming both,
  and has changed no other wallet.\<close>

theorem exchange_both_legs:
  assumes "exchange_ports X wrows rrows txlog" and "inj_on wr_id (wrows s)"
    and "exchange_execute X inp s = (res, t)"
  shows "case res of
      Inl e \<Rightarrow> wrows t = wrows s \<and> rrows t = rrows s \<and> txlog t = txlog s
    | Inr r \<Rightarrow> \<exists>amount. x_Decimal X (ei_amount inp) = Inr amount
        \<and> x_decimalPlaces X amount \<le> currencyDecimals (ei_fromCurrency inp)
        \<and> exchanged X wrows rrows txlog inp amount r s t"
  using exchange_ports.execute_cases[OF assms(1,3)]
proof (elim disjE exE conjE)
  assume "wrows t = wrows s" "rrows t = rrows s" "txlog t = txlog s" "isl res"
  then show ?thesis by (cases res) simp_all
next
  fix amount s0 s1 r
  assume diff: "ei_fromCurrency inp \<noteq> ei_toCurrency inp" and d: "x_Decimal X (ei_amount inp) = Inr amount"
    "x_decimalPlaces X amount \<le> currencyDecimals (ei_fromCurrency inp)"
    and s0: "wrows s0 = wrows s" "rrows s0 = rrows s" "txlog s0 = txlog s"
    and w: "exchange_work X inp amount s0 = (Inr r, s1)" and res: "res = Inr r"
    and t: "wrows t = wrows s1" "rrows t = rrows s1" "txlog t = txlog s1"
  have "exchanged X wrows rrows txlog inp amount r s t"
    using exchange_ports.work_returns[OF assms(1) w assms(2)[folded s0(1)] diff] s0 t by (rule exchanged_cong)
  then show ?thesis using d res by auto
qed

theorem exchange_both_legs_witness:
  "let m = exchange_execute demo_exchange demo_exchange_input demo_market
   in (\<exists>r. exchanged demo_exchange demo_xwrows demo_rrows xd_txs demo_exchange_input 250000000 r demo_market (snd m))
      \<and> map wr_balance (xd_wallets (snd m)) = [250000000, 312500000000, 9]"
proof -
  let ?m = "exchange_execute demo_exchange demo_exchange_input demo_market"
  have inj: "inj_on wr_id (demo_xwrows demo_market)" by (simp add: demo_xwrows_def demo_market_def)
  have "map wr_balance (xd_wallets (snd ?m)) = [250000000, 312500000000, 9]" by code_simp
  moreover have "\<not> isl (fst ?m)" by code_simp
  then obtain r where "?m = (Inr r, snd ?m)" by (cases ?m; cases "fst ?m") auto
  from exchange_both_legs[OF demo_exchange.exchange_ports_axioms inj this]
  have "\<exists>amount. x_Decimal demo_exchange (ei_amount demo_exchange_input) = Inr amount
     \<and> exchanged demo_exchange demo_xwrows demo_rrows xd_txs demo_exchange_input amount r demo_market (snd ?m)" by auto
  moreover have "x_Decimal demo_exchange (ei_amount demo_exchange_input) = Inr 250000000" by code_simp
  ultimately show ?thesis by (auto simp: Let_def)
qed

text \<open>Two exchanges in opposite directions between the same two wallets update them in the same
  order, so that neither waits for a row the other holds: the order is that of the identifiers.\<close>

theorem exchange_lock_order:
  assumes "\<forall>a b. x_localeCompare X a b > 0 \<longleftrightarrow> x_localeCompare X b a < 0"
    and "\<forall>a b. x_localeCompare X a b = 0 \<longrightarrow> a = b"
  shows "map (wr_id \<circ> lg_wallet) (exchange_legs X a amount b received)
       = map (wr_id \<circ> lg_wallet) (exchange_legs X b amount' a received')"
proof -
  have "x_localeCompare X (wr_id a) (wr_id b) > 0 \<longleftrightarrow> x_localeCompare X (wr_id b) (wr_id a) < 0"
    "x_localeCompare X (wr_id b) (wr_id a) = 0 \<longrightarrow> wr_id a = wr_id b"
    "x_localeCompare X (wr_id b) (wr_id a) > 0 \<longleftrightarrow> x_localeCompare X (wr_id a) (wr_id b) < 0"
    "x_localeCompare X (wr_id a) (wr_id b) = 0 \<longrightarrow> wr_id a = wr_id b"
    using assms by metis+
  then show ?thesis by (auto simp: exchange_legs_def Let_def)
qed

theorem exchange_lock_order_witness:
  "map (wr_id \<circ> lg_wallet) (exchange_legs demo_exchange (hd (xd_wallets demo_market)) 1 (xd_wallets demo_market ! 1) 2)
     = [''w1'', ''w22'']
   \<and> map (wr_id \<circ> lg_wallet) (exchange_legs demo_exchange (xd_wallets demo_market ! 1) 3 (hd (xd_wallets demo_market)) 4)
     = [''w1'', ''w22'']"
proof -
  let ?a = "hd (xd_wallets demo_market)" and ?b = "xd_wallets demo_market ! 1"
  have lc: "x_localeCompare demo_exchange = code_compare" by (simp add: demo_exchange_def)
  have "0 < code_compare a b \<longleftrightarrow> code_compare b a < 0" for a b using code_compare_anti[of a b] by linarith
  then have "map (wr_id \<circ> lg_wallet) (exchange_legs demo_exchange ?a 1 ?b 2)
     = map (wr_id \<circ> lg_wallet) (exchange_legs demo_exchange ?b 3 ?a 4)"
    by (intro exchange_lock_order) (simp_all add: lc code_compare_eq)
  moreover have "map (wr_id \<circ> lg_wallet) (exchange_legs demo_exchange ?a 1 ?b 2) = [''w1'', ''w22'']"
    by (simp add: exchange_legs_def lc demo_market_def)
  ultimately show ?thesis by simp
qed

section \<open>The rest of the wallet service\<close>

text \<open>The order of the values of a database enum is that of their declaration.\<close>

fun currency_rank :: "currency \<Rightarrow> nat" where
  "currency_rank ARS = 0"
| "currency_rank USD = 1"
| "currency_rank USDT = 2"
| "currency_rank BRL = 3"

definition getWallets :: "('s, wallet_row, new_wallet) delegate \<Rightarrow> string \<Rightarrow> ('s, wallet_row list) io" where
  "getWallets wallets userId =
     findMany wallets (\<lambda>r. wr_userId r = Some userId) (\<lambda>a b. currency_rank (wr_currency a) \<le> currency_rank (wr_currency b))"

definition wallet_exchange :: "('s, 'd) exchange_env \<Rightarrow> exchange_input \<Rightarrow> ('s, 'd exchange_result) io" where
  "wallet_exchange X inp = exchange_execute X inp"

end
