(* ===== verification/Http_Guards.thy ===== *)
theory Http_Guards
  imports Decimal_Text
begin

text \<open>
  What stands between a request and the handlers: the address a request is taken to come from
  (\<open>common/utils/ip.util.ts\<close>), the guards \<open>RecaptchaGuard\<close> and \<open>CsrfGuard\<close>, the \<open>validate\<close> functions of
  the passport strategies that need no table, and the filter that turns an exception into a
  response (\<open>http-exception.filter.ts\<close>). What is not the repository's code (Google's verification
  endpoint, \<open>csrf-csrf\<close>, the decoder of an id token) is a parameter.
\<close>

section \<open>The address of a request\<close>

datatype header = Single string | Several "string list"

record request =
  rq_forwardedFor :: "header option"
  rq_ip :: "string option"
  rq_remoteAddress :: "string option"
  rq_method :: string
  rq_url :: string
  rq_recaptchaToken :: "string option"

definition extractIp :: "request \<Rightarrow> string" where
  "extractIp req =
     (let forwardedStr = (case rq_forwardedFor req of
            None \<Rightarrow> None
          | Some (Several xs) \<Rightarrow> (case xs of [] \<Rightarrow> None | x # _ \<Rightarrow> Some x)
          | Some (Single x) \<Rightarrow> Some x)
      in case forwardedStr of Some x \<Rightarrow> x | None \<Rightarrow>
         case rq_ip req of Some x \<Rightarrow> x | None \<Rightarrow> or_else (rq_remoteAddress req) '''')"

text \<open>\<open>startsWith\<close>, the first \<open>replace\<close> of a text by another, \<open>split(".")\<close>, and \<open>parseInt(x, 10)\<close>
  (\<open>None\<close> is \<open>NaN\<close>) on a text of bytes.\<close>

definition startsWith :: "string \<Rightarrow> string \<Rightarrow> bool" where
  "startsWith p x \<longleftrightarrow> take (length p) x = p"

fun replaceFirst :: "string \<Rightarrow> string \<Rightarrow> string \<Rightarrow> string" where
  "replaceFirst p q [] = (if p = [] then q else [])"
| "replaceFirst p q (c # x) =
     (if startsWith p (c # x) then q @ drop (length p) (c # x) else c # replaceFirst p q x)"

fun split_dot :: "string \<Rightarrow> string list" where
  "split_dot [] = [[]]"
| "split_dot (c # x) =
     (if c = CHR ''.'' then [] # split_dot x else (c # hd (split_dot x)) # tl (split_dot x))"

definition is_space :: "char \<Rightarrow> bool" where
  "is_space c \<longleftrightarrow> of_char c \<in> {9, 10, 11, 12, 13, 32, 160 :: nat}"

definition parseInt10 :: "string \<Rightarrow> int option" where
  "parseInt10 x =
     (let y = dropWhile is_space x;
          neg = (y \<noteq> [] \<and> hd y = CHR ''-'');
          z = (if y \<noteq> [] \<and> hd y \<in> {CHR ''-'', CHR ''+''} then tl y else y);
          ds = takeWhile is_digit z
      in if ds = [] then None else Some ((if neg then -1 else 1) * int (digits_value ds)))"

definition isPrivateIp :: "string \<Rightarrow> bool" where
  "isPrivateIp ip =
     (let clean = replaceFirst ''::ffff:'' '''' ip in
      if clean \<in> {''127.0.0.1'', ''::1'', ''localhost''} then True
      else if startsWith ''10.'' clean \<or> startsWith ''192.168.'' clean then True
      else if startsWith ''172.'' clean then
        (case parseInt10 (split_dot clean ! 1) of
           None \<Rightarrow> False
         | Some second \<Rightarrow> second \<ge> 16 \<and> second \<le> 31)
      else False)"

section \<open>ReCAPTCHA\<close>

text \<open>The scores are JavaScript numbers: a type parameter, with the comparison the guard makes.
  \<open>siteverify\<close> is the call of Google's endpoint, which throws or answers.\<close>

record 'n recaptcha_answer =
  ra_success :: bool
  ra_score :: "'n option"

record ('s, 'n) recaptcha_env =
  recaptchaSecret :: "string option"
  recaptcha_threshold :: 'n
  isProduction :: bool
  score_zero :: 'n
  score_less :: "'n \<Rightarrow> 'n \<Rightarrow> bool"
  siteverify :: "string \<Rightarrow> string \<Rightarrow> string \<Rightarrow> ('s, 'n recaptcha_answer) io"

definition recaptcha_onModuleInit :: "('s, 'n) recaptcha_env \<Rightarrow> ('s, unit) io" where
  "recaptcha_onModuleInit E =
     (if truthy (recaptchaSecret E) = None \<and> isProduction E then
        throw (InternalServerErrorException ''ReCAPTCHA is misconfigured in production'')
      else ret ())"

definition recaptcha_canActivate :: "('s, 'n) recaptcha_env \<Rightarrow> request \<Rightarrow> ('s, bool) io" where
  "recaptcha_canActivate E req =
     (let ip = extractIp req in
      if isPrivateIp ip then ret True
      else case truthy (recaptchaSecret E) of None \<Rightarrow> ret True
      | Some secret \<Rightarrow>
          (case truthy (rq_recaptchaToken req) of
             None \<Rightarrow> throw (BadRequestException ''ReCAPTCHA token is required'')
           | Some token \<Rightarrow>
               catchM
                 (seqM (siteverify E secret token ip) (\<lambda>data.
                  if \<not> ra_success data
                     \<or> score_less E (or_else (ra_score data) (score_zero E)) (recaptcha_threshold E)
                  then throw (ForbiddenException ''Bot protection triggered. Request rejected.'')
                  else ret True))
                 (\<lambda>error. case error of
                    BadRequestException _ \<Rightarrow> throw error
                  | ForbiddenException _ \<Rightarrow> throw error
                  | _ \<Rightarrow> ret False)))"

section \<open>Cross-site request forgery\<close>

record csrf_env =
  CSRF_ENABLED :: bool
  validateRequest :: "request \<Rightarrow> bool"

text \<open>\<open>skip\<close> is what the reflector finds under \<open>SKIP_CSRF_KEY\<close> on the handler or its class.\<close>

definition csrf_canActivate :: "csrf_env \<Rightarrow> bool option \<Rightarrow> request \<Rightarrow> exn + bool" where
  "csrf_canActivate E skip req =
     (if \<not> CSRF_ENABLED E then Inr True
      else if skip = Some True then Inr True
      else if rq_method req \<in> {''GET'', ''HEAD'', ''OPTIONS''} then Inr True
      else if \<not> validateRequest E req then Inl (ForbiddenException ''Invalid CSRF token'')
      else Inr True)"

section \<open>The other strategies\<close>

text \<open>\<open>TwoFactorPendingStrategy.validate\<close>: the user of the token, whatever the token's \<open>type\<close>.\<close>

definition pending_validate :: "string \<Rightarrow> 'c \<Rightarrow> string" where
  "pending_validate sub type = sub"

record google_profile =
  gp_id :: string
  gp_givenName :: string
  gp_familyName :: string
  gp_emails :: "string list"
  gp_photos :: "string list"

record google_user =
  gu_googleId :: string
  gu_email :: string
  gu_name :: string
  gu_lastName :: string
  gu_avatar :: "string option"

definition google_validate :: "google_profile \<Rightarrow> exn + google_user" where
  "google_validate p =
     (case gp_emails p of
        [] \<Rightarrow> Inl (PlainError ''TypeError'')
      | email # _ \<Rightarrow> Inr \<lparr>gu_googleId = gp_id p, gu_email = email, gu_name = gp_givenName p,
          gu_lastName = gp_familyName p,
          gu_avatar = (case gp_photos p of [] \<Rightarrow> None | photo # _ \<Rightarrow> Some photo)\<rparr>)"

text \<open>The payload of an id token; \<open>None\<close> is a member that is absent.\<close>

record apple_claims =
  ac_sub :: "string option"
  ac_email :: "string option"

record apple_user =
  ap_appleId :: "string option"
  ap_email :: string
  ap_name :: "string option"
  ap_lastName :: "string option"

text \<open>\<open>decode\<close> is the base64url decoder and \<open>JSON.parse\<close>, which throw or return an object.\<close>

definition decodeIdToken :: "(string \<Rightarrow> exn + apple_claims) \<Rightarrow> string \<Rightarrow> apple_claims" where
  "decodeIdToken decode idToken =
     (let parts = split_dot idToken in
      if length parts < 2 then \<lparr>ac_sub = None, ac_email = None\<rparr>
      else case decode (parts ! 1) of
             Inr payload \<Rightarrow> payload
           | Inl _ \<Rightarrow> \<lparr>ac_sub = None, ac_email = None\<rparr>)"

text \<open>An absent \<open>sub\<close> reads \<open>undefined\<close> in the template of the address.\<close>

definition apple_validate ::
  "(string \<Rightarrow> exn + apple_claims) \<Rightarrow> (string \<times> string) option \<Rightarrow> string \<Rightarrow> apple_user" where
  "apple_validate decode appleProfile idToken =
     (let payload = decodeIdToken decode idToken in
      \<lparr>ap_appleId = ac_sub payload,
       ap_email = or_else (ac_email payload)
         (or_else (ac_sub payload) ''undefined'' @ ''@apple.privaterelay.appleid.com''),
       ap_name = map_option fst appleProfile, ap_lastName = map_option snd appleProfile\<rparr>)"

section \<open>The response to an exception\<close>

text \<open>The status of the NestJS exceptions; anything else is not an \<open>HttpException\<close>.\<close>

fun http_status :: "exn \<Rightarrow> (nat \<times> string) option" where
  "http_status (BadRequestException m) = Some (400, m)"
| "http_status (UnauthorizedException m) = Some (401, m)"
| "http_status (ForbiddenException m) = Some (403, m)"
| "http_status (NotFoundException m) = Some (404, m)"
| "http_status (ConflictException m) = Some (409, m)"
| "http_status (UnprocessableEntityException m) = Some (422, m)"
| "http_status (InternalServerErrorException m) = Some (500, m)"
| "http_status (HttpException n m) = Some (n, m)"
| "http_status _ = None"

record error_body =
  eb_statusCode :: nat
  eb_message :: string
  eb_path :: string
  eb_timestamp :: string

definition filter_catch :: "exn \<Rightarrow> request \<Rightarrow> string \<Rightarrow> error_body" where
  "filter_catch exception req timestamp =
     (let (status, message) = or_else (http_status exception) (500, ''Internal server error'')
      in \<lparr>eb_statusCode = status, eb_message = message, eb_path = rq_url req,
          eb_timestamp = timestamp\<rparr>)"

section \<open>Texts of digits and dots\<close>

lemma split_dot_not_Nil [simp]: "split_dot x \<noteq> []"
  by (cases x) simp_all

lemma split_dot_append: "CHR ''.'' \<notin> set x \<Longrightarrow> split_dot (x @ CHR ''.'' # y) = x # split_dot y"
  by (induction x) auto

lemma digits_no_dot: "all_digits x \<Longrightarrow> CHR ''.'' \<notin> set x" "all_digits x \<Longrightarrow> CHR '':'' \<notin> set x"
  by (induction x) (auto simp: is_digit_def)

lemma dot_prefix:
  "CHR ''.'' \<notin> set x \<Longrightarrow> CHR ''.'' \<notin> set p \<Longrightarrow>
   startsWith (p @ CHR ''.'' # q) (x @ CHR ''.'' # y) \<longleftrightarrow> x = p \<and> startsWith q y"
proof (induction p arbitrary: x)
  case Nil
  then show ?case by (cases x) (auto simp: startsWith_def)
next
  case (Cons c p)
  then show ?case by (cases x) (auto simp: startsWith_def)
qed

lemma show_nat_inj: "show_nat m = show_nat n \<longleftrightarrow> m = n"
  by (metis digits_value_show_nat)

definition dotted :: "nat \<Rightarrow> nat \<Rightarrow> nat \<Rightarrow> nat \<Rightarrow> string" where
  "dotted a b c d = show_nat a @ CHR ''.'' # show_nat b @ CHR ''.'' # show_nat c @ CHR ''.'' # show_nat d"

lemma show_nat_plain: "CHR ''.'' \<notin> set (show_nat n)" "CHR '':'' \<notin> set (show_nat n)"
  using digits_no_dot[OF all_digits_show_nat] by blast+

lemma digit_not_space: "is_digit c \<Longrightarrow> \<not> is_space c \<and> c \<noteq> CHR ''-'' \<and> c \<noteq> CHR ''+''"
  by (auto simp: is_digit_def is_space_def)

lemma parseInt10_show_nat: "parseInt10 (show_nat n) = Some (int n)"
proof -
  obtain c cs where c: "show_nat n = c # cs" "is_digit c" "all_digits cs"
    by (metis all_digits_show_nat list.exhaust list.pred_inject(2) show_nat_nonempty)
  then have "takeWhile is_digit (c # cs) = c # cs" by (simp add: list_all_iff takeWhile_eq_all_conv)
  moreover have "digits_value (c # cs) = n" using c(1) by (metis digits_value_show_nat)
  ultimately show ?thesis using digit_not_space[OF c(2)] c(1) by (simp add: parseInt10_def Let_def)
qed

lemma replaceFirst_absent: "p \<noteq> [] \<Longrightarrow> hd p \<notin> set x \<Longrightarrow> replaceFirst p q x = x"
proof (induction x)
  case (Cons c x)
  then show ?case by (cases p) (auto simp: startsWith_def)
qed simp

lemma dotted_no_colon: "CHR '':'' \<notin> set (dotted a b c d)"
  by (simp add: dotted_def show_nat_plain)

lemma clean_dotted:
  "replaceFirst ''::ffff:'' '''' (dotted a b c d) = dotted a b c d"
  "replaceFirst ''::ffff:'' '''' (''::ffff:'' @ dotted a b c d) = dotted a b c d"
  using dotted_no_colon by (simp_all add: replaceFirst_absent startsWith_def)

lemma startsWith_Nil [simp]: "startsWith [] x"
  by (simp add: startsWith_def)

lemma dotted_head:
  assumes "CHR ''.'' \<notin> set p"
  shows "startsWith (p @ CHR ''.'' # q) (dotted a b c d) \<longleftrightarrow>
    show_nat a = p \<and> startsWith q (show_nat b @ CHR ''.'' # show_nat c @ CHR ''.'' # show_nat d)"
  unfolding dotted_def by (rule dot_prefix[OF show_nat_plain(1) assms])

lemma show_nat_literals: "show_nat 10 = ''10''" "show_nat 172 = ''172''" "show_nat 192 = ''192''"
  "show_nat 168 = ''168''" "show_nat 127 = ''127''" "show_nat 0 = ''0''" "show_nat 1 = ''1''"
  by code_simp+

lemma dotted_inj: "dotted a b c d = dotted a' b' c' d' \<longleftrightarrow> a = a' \<and> b = b' \<and> c = c' \<and> d = d'"
proof
  assume "dotted a b c d = dotted a' b' c' d'"
  then have "split_dot (dotted a b c d) = split_dot (dotted a' b' c' d')" by simp
  moreover have "split_dot (show_nat n) = [show_nat n]" for n
  proof -
    have "split_dot x = [x]" if "CHR ''.'' \<notin> set x" for x using that by (induction x) auto
    then show ?thesis using show_nat_plain(1) by blast
  qed
  ultimately show "a = a' \<and> b = b' \<and> c = c' \<and> d = d'"
    by (simp add: dotted_def split_dot_append show_nat_plain show_nat_inj)
qed simp

lemma startsWith_ten: "startsWith ''10.'' (dotted a b c d) \<longleftrightarrow> a = 10"
  using dotted_head[of "show_nat 10" "[]"]
  by (simp add: show_nat_plain show_nat_inj) (simp add: show_nat_literals)

lemma private_ten: "isPrivateIp (dotted 10 b c d)"
  by (simp add: isPrivateIp_def clean_dotted startsWith_ten)

text \<open>C32. For an IPv4 address written in dots, plain or mapped into IPv6, the test by text prefixes and
  \<open>parseInt\<close> is the test by numbers: the three private ranges \<open>10/8\<close>, \<open>172.16/12\<close> and \<open>192.168/16\<close>,
  and the one loopback address \<open>127.0.0.1\<close>.\<close>

theorem isPrivateIp_dotted:
  "(isPrivateIp (dotted a b c d) \<longleftrightarrow>
      a = 10 \<or> a = 192 \<and> b = 168 \<or> a = 172 \<and> b \<in> {16..31} \<or> (a, b, c, d) = (127, 0, 0, 1))
   \<and> isPrivateIp (''::ffff:'' @ dotted a b c d) = isPrivateIp (dotted a b c d)"
proof -
  let ?x = "dotted a b c d"
  note ten = startsWith_ten
  have oneninetwo: "startsWith ''192.168.'' ?x \<longleftrightarrow> a = 192 \<and> b = 168"
    using dotted_head[of "show_nat 192" "''168.''"] dot_prefix[of "show_nat b" "show_nat 168" "[]"]
    by (simp add: show_nat_plain show_nat_inj) (simp add: show_nat_literals)
  have oneseventwo: "startsWith ''172.'' ?x \<longleftrightarrow> a = 172"
    using dotted_head[of "show_nat 172" "[]"] by (simp add: show_nat_plain show_nat_inj) (simp add: show_nat_literals)
  have second: "parseInt10 (split_dot ?x ! 1) = Some (int b)"
    by (simp add: dotted_def split_dot_append show_nat_plain parseInt10_show_nat)
  have "''127.0.0.1'' = dotted 127 0 0 1" by (simp add: dotted_def show_nat_literals del: One_nat_def)
  then have loop: "?x = ''127.0.0.1'' \<longleftrightarrow> (a, b, c, d) = (127, 0, 0, 1)" by (simp add: dotted_inj)
  have nocolon: "?x \<noteq> ''::1''" using dotted_no_colon[of a b c d] by auto
  have "CHR ''.'' \<in> set ?x" by (simp add: dotted_def)
  then have noname: "?x \<noteq> ''localhost''" by auto
  have eq: "isPrivateIp ?x \<longleftrightarrow> a = 10 \<or> a = 192 \<and> b = 168 \<or> a = 172 \<and> 16 \<le> int b \<and> int b \<le> 31
      \<or> (a, b, c, d) = (127, 0, 0, 1)"
    unfolding isPrivateIp_def Let_def clean_dotted second insert_iff empty_iff ten oneninetwo oneseventwo loop
    using nocolon noname by (simp del: prod.inject)
  have same: "isPrivateIp (''::ffff:'' @ ?x) = isPrivateIp ?x"
    by (simp only: isPrivateIp_def Let_def clean_dotted)
  show ?thesis unfolding same eq by auto
qed

section \<open>Who passes the bot check\<close>

lemma score_check_iff:
  "catchM (seqM m (\<lambda>data. if bad data then throw (ForbiddenException x) else ret True))
     (\<lambda>error. case error of BadRequestException _ \<Rightarrow> throw error | ForbiddenException _ \<Rightarrow> throw error
                | _ \<Rightarrow> ret False) s = (Inr True, t)
   \<longleftrightarrow> (\<exists>data. m s = (Inr data, t) \<and> \<not> bad data)"
proof -
  have "(case e of BadRequestException _ \<Rightarrow> throw e | ForbiddenException _ \<Rightarrow> throw e | _ \<Rightarrow> ret False) u
      \<noteq> (Inr True, t)" for e u by (cases e) (simp_all add: io_defs)
  then show ?thesis by (auto simp: catchM_Inr seqM_Inr io_prim_iff split: if_splits)
qed

text \<open>A request passes the check exactly when its address counts as private, or no secret is
  configured, or it brings a token that Google accepts with a score that is not below the threshold. A
  request with an \<open>X-Forwarded-For\<close> header is judged by that header alone: with a private address in
  it, it passes with no token, whatever the address it comes from.\<close>

theorem recaptcha_passes_iff:
  "(recaptcha_canActivate E req s = (Inr True, t) \<longleftrightarrow>
      (isPrivateIp (extractIp req) \<or> truthy (recaptchaSecret E) = None) \<and> t = s
      \<or> \<not> isPrivateIp (extractIp req) \<and>
        (\<exists>secret token data. truthy (recaptchaSecret E) = Some secret
           \<and> truthy (rq_recaptchaToken req) = Some token
           \<and> siteverify E secret token (extractIp req) s = (Inr data, t) \<and> ra_success data
           \<and> \<not> score_less E (or_else (ra_score data) (score_zero E)) (recaptcha_threshold E)))
   \<and> recaptcha_canActivate E
       (req\<lparr>rq_forwardedFor := Some (Single (dotted 10 b c d)), rq_recaptchaToken := None\<rparr>) s = (Inr True, s)"
proof (intro conjI)
  show "recaptcha_canActivate E req s = (Inr True, t) \<longleftrightarrow>
      (isPrivateIp (extractIp req) \<or> truthy (recaptchaSecret E) = None) \<and> t = s
      \<or> \<not> isPrivateIp (extractIp req) \<and>
        (\<exists>secret token data. truthy (recaptchaSecret E) = Some secret
           \<and> truthy (rq_recaptchaToken req) = Some token
           \<and> siteverify E secret token (extractIp req) s = (Inr data, t) \<and> ra_success data
           \<and> \<not> score_less E (or_else (ra_score data) (score_zero E)) (recaptcha_threshold E))"
    unfolding recaptcha_canActivate_def Let_def
    by (cases "isPrivateIp (extractIp req)"; cases "truthy (recaptchaSecret E)";
        cases "truthy (rq_recaptchaToken req)")
       (auto simp: io_prim_iff score_check_iff simp del: not_None_eq)
next
  have "isPrivateIp (dotted 10 b c d)" by (rule private_ten)
  then show "recaptcha_canActivate E
       (req\<lparr>rq_forwardedFor := Some (Single (dotted 10 b c d)), rq_recaptchaToken := None\<rparr>) s = (Inr True, s)"
    by (simp add: recaptcha_canActivate_def extractIp_def io_defs)
qed

end
