(* ===== verification/Resources.thy ===== *)
theory Resources
  imports Table "HOL-Library.List_Lexorder" "HOL-Library.Char_ord"
begin

text \<open>
  What a user keeps besides money: cards (\<open>card.service.ts\<close>), beneficiaries
  (\<open>beneficiaries.service.ts\<close>) and portfolios of assets held elsewhere (\<open>portfolio.service.ts\<close>). Every
  operation takes the user of the request; \<open>resource_ports\<close> is what the services rely on, and the
  lemmas show that a request leaves the rows of the other users as they are. The valuation of a
  portfolio is in \<open>Prices\<close>.
\<close>

section \<open>Rows and data\<close>

record card_row =
  cd_id :: string
  cd_userId :: string
  cd_type :: string
  cd_maskedNumber :: string
  cd_isActive :: bool
  cd_isFrozen :: bool
  cd_createdAt :: int
  cd_updatedAt :: int

record new_card =
  nc_userId :: string
  nc_type :: string
  nc_maskedNumber :: string

datatype beneficiaryType = CBU | CVU | ALIAS | SWIFT | ACCOUNT_NUMBER

text \<open>A row of \<open>Beneficiary\<close>.\<close>

record payee_row =
  bn_id :: string
  bn_userId :: string
  bn_alias :: string
  bn_beneficiaryType :: beneficiaryType
  bn_accountNumber :: string
  bn_bankName :: "string option"
  bn_currency :: currency
  bn_country :: string
  bn_documentType :: "string option"
  bn_documentNumber :: "string option"
  bn_isActive :: bool
  bn_createdAt :: int
  bn_updatedAt :: int

text \<open>\<open>CreateBeneficiaryDto\<close> and \<open>UpdateBeneficiaryDto\<close>; \<open>None\<close> is \<open>undefined\<close>.\<close>

record create_beneficiary_dto =
  cb_alias :: string
  cb_beneficiaryType :: beneficiaryType
  cb_accountNumber :: string
  cb_bankName :: "string option"
  cb_currency :: currency
  cb_country :: "string option"
  cb_documentType :: "string option"
  cb_documentNumber :: "string option"
  cb_isActive :: "bool option"

record new_beneficiary = create_beneficiary_dto +
  cb_userId :: string

record update_beneficiary_dto =
  ub_alias :: "string option"
  ub_beneficiaryType :: "beneficiaryType option"
  ub_accountNumber :: "string option"
  ub_bankName :: "string option"
  ub_currency :: "currency option"
  ub_country :: "string option"
  ub_documentType :: "string option"
  ub_documentNumber :: "string option"
  ub_isActive :: "bool option"

record portfolio_row =
  pf_id :: string
  pf_userId :: string
  pf_name :: string
  pf_description :: "string option"
  pf_createdAt :: int
  pf_updatedAt :: int

record new_portfolio =
  np_userId :: string
  np_name :: string
  np_description :: "string option"

record portfolio_query =
  pq_limit :: "nat option"
  pq_cursor :: "string option"

text \<open>\<open>'d\<close> stands for the decimals of an asset.\<close>

record 'd asset_row =
  as_id :: string
  as_portfolioId :: string
  as_symbol :: string
  as_type :: string
  as_quantity :: 'd
  as_avgBuyPrice :: 'd
  as_currency :: string

record 'd add_asset_dto =
  aa_symbol :: string
  aa_type :: string
  aa_quantity :: 'd
  aa_avgBuyPrice :: 'd
  aa_currency :: "string option"

text \<open>\<open>findAfter P order cursor n\<close>: \<open>portfolio.findMany\<close> with \<open>take: n\<close> and, when there is a cursor,
  \<open>cursor\<close> and \<open>skip: 1\<close>. \<open>id_le\<close> is the database's order of texts.\<close>

record ('s, 'd) resource_env =
  cards :: "('s, card_row, new_card) delegate"
  beneficiaries :: "('s, payee_row, new_beneficiary) delegate"
  portfolios :: "('s, portfolio_row, new_portfolio) delegate"
  assets :: "('s, 'd asset_row, string \<times> 'd add_asset_dto) delegate"
  findAfter :: "(portfolio_row \<Rightarrow> bool) \<Rightarrow> (portfolio_row \<Rightarrow> portfolio_row \<Rightarrow> bool) \<Rightarrow> string option \<Rightarrow> nat
    \<Rightarrow> ('s, portfolio_row list) io"
  id_le :: "string \<Rightarrow> string \<Rightarrow> bool"

section \<open>Cards\<close>

definition card_newest :: "card_row \<Rightarrow> card_row \<Rightarrow> bool" where
  "card_newest a b \<longleftrightarrow> cd_createdAt b \<le> cd_createdAt a"

definition card_where :: "string \<Rightarrow> string \<Rightarrow> card_row \<Rightarrow> bool" where
  "card_where i userId r \<longleftrightarrow> cd_id r = i \<and> cd_userId r = userId"

definition getCards :: "('s, 'd) resource_env \<Rightarrow> string \<Rightarrow> ('s, card_row list) io" where
  "getCards E userId = findMany (cards E) (\<lambda>r. cd_userId r = userId) card_newest"

definition freeze :: "('s, 'd) resource_env \<Rightarrow> string \<Rightarrow> string \<Rightarrow> ('s, card_row) io" where
  "freeze E i userId =
     seqM (findFirst (cards E) (card_where i userId)) (\<lambda>found.
     seqM (assertFound found ''Card'') (\<lambda>card.
     if cd_isFrozen card then throw (UnprocessableEntityException ''Card is already frozen'')
     else update (cards E) (\<lambda>r. cd_id r = i) (\<lambda>r. r\<lparr>cd_isFrozen := True\<rparr>)))"

definition unfreeze :: "('s, 'd) resource_env \<Rightarrow> string \<Rightarrow> string \<Rightarrow> ('s, card_row) io" where
  "unfreeze E i userId =
     seqM (findFirst (cards E) (card_where i userId)) (\<lambda>found.
     seqM (assertFound found ''Card'') (\<lambda>card.
     if \<not> cd_isFrozen card then throw (UnprocessableEntityException ''Card is not frozen'')
     else update (cards E) (\<lambda>r. cd_id r = i) (\<lambda>r. r\<lparr>cd_isFrozen := False\<rparr>)))"

section \<open>Beneficiaries\<close>

definition beneficiary_newest :: "payee_row \<Rightarrow> payee_row \<Rightarrow> bool" where
  "beneficiary_newest a b \<longleftrightarrow> bn_createdAt b \<le> bn_createdAt a"

definition beneficiary_create ::
  "('s, 'd) resource_env \<Rightarrow> string \<Rightarrow> create_beneficiary_dto \<Rightarrow> ('s, payee_row) io" where
  "beneficiary_create E userId dto =
     create (beneficiaries E) (create_beneficiary_dto.extend
       (dto\<lparr>cb_country := Some (or_else (cb_country dto) ''AR''),
            cb_isActive := Some (or_else (cb_isActive dto) True)\<rparr>) (new_beneficiary.fields userId))"

definition beneficiary_findAll :: "('s, 'd) resource_env \<Rightarrow> string \<Rightarrow> ('s, payee_row list) io" where
  "beneficiary_findAll E userId =
     findMany (beneficiaries E) (\<lambda>r. bn_userId r = userId \<and> bn_isActive r) beneficiary_newest"

definition beneficiary_findOne ::
  "('s, 'd) resource_env \<Rightarrow> string \<Rightarrow> string \<Rightarrow> ('s, payee_row) io" where
  "beneficiary_findOne E userId i =
     seqM (findFirst (beneficiaries E) (\<lambda>r. bn_id r = i \<and> bn_userId r = userId)) (\<lambda>beneficiary.
     assertFound beneficiary ''Beneficiary'')"

text \<open>The columns an update's data sets.\<close>

definition beneficiary_changes :: "update_beneficiary_dto \<Rightarrow> payee_row \<Rightarrow> payee_row" where
  "beneficiary_changes dto r = r\<lparr>
     bn_alias := or_else (ub_alias dto) (bn_alias r),
     bn_beneficiaryType := or_else (ub_beneficiaryType dto) (bn_beneficiaryType r),
     bn_accountNumber := or_else (ub_accountNumber dto) (bn_accountNumber r),
     bn_bankName := given (ub_bankName dto) (bn_bankName r),
     bn_currency := or_else (ub_currency dto) (bn_currency r),
     bn_country := or_else (ub_country dto) (bn_country r),
     bn_documentType := given (ub_documentType dto) (bn_documentType r),
     bn_documentNumber := given (ub_documentNumber dto) (bn_documentNumber r),
     bn_isActive := or_else (ub_isActive dto) (bn_isActive r)\<rparr>"

definition beneficiary_update ::
  "('s, 'd) resource_env \<Rightarrow> string \<Rightarrow> string \<Rightarrow> update_beneficiary_dto \<Rightarrow> ('s, payee_row) io" where
  "beneficiary_update E userId i dto =
     seqM (beneficiary_findOne E userId i) (\<lambda>_.
     update (beneficiaries E) (\<lambda>r. bn_id r = i) (beneficiary_changes dto))"

definition beneficiary_remove :: "('s, 'd) resource_env \<Rightarrow> string \<Rightarrow> string \<Rightarrow> ('s, payee_row) io" where
  "beneficiary_remove E userId i =
     seqM (beneficiary_findOne E userId i) (\<lambda>_.
     update (beneficiaries E) (\<lambda>r. bn_id r = i) (\<lambda>r. r\<lparr>bn_isActive := False\<rparr>))"

section \<open>Portfolios\<close>

definition portfolio_create ::
  "('s, 'd) resource_env \<Rightarrow> string \<Rightarrow> string \<Rightarrow> string option \<Rightarrow> ('s, portfolio_row) io" where
  "portfolio_create E userId name description =
     create (portfolios E) \<lparr>np_userId = userId, np_name = name, np_description = description\<rparr>"

text \<open>\<open>[{createdAt: "desc"}, {id: "desc"}]\<close>.\<close>

definition portfolio_order :: "(string \<Rightarrow> string \<Rightarrow> bool) \<Rightarrow> portfolio_row \<Rightarrow> portfolio_row \<Rightarrow> bool" where
  "portfolio_order le a b \<longleftrightarrow>
     pf_createdAt b < pf_createdAt a \<or> pf_createdAt b = pf_createdAt a \<and> le (pf_id b) (pf_id a)"

record portfolio_page =
  pp_data :: "portfolio_row list"
  pp_nextCursor :: "string option"

definition portfolio_findAll ::
  "('s, 'd) resource_env \<Rightarrow> string \<Rightarrow> portfolio_query \<Rightarrow> ('s, portfolio_page) io" where
  "portfolio_findAll E userId query =
     (let limit = or_else (pq_limit query) 20 in
      seqM (findAfter E (\<lambda>r. pf_userId r = userId) (portfolio_order (id_le E)) (truthy (pq_cursor query))
              (limit + 1)) (\<lambda>rows.
      let hasMore = length rows > limit;
          data = (if hasMore then take limit rows else rows)
      in if hasMore then
           if data = [] then throw (PlainError ''TypeError'')
           else ret \<lparr>pp_data = data, pp_nextCursor = Some (pf_id (last data))\<rparr>
         else ret \<lparr>pp_data = data, pp_nextCursor = None\<rparr>))"

definition portfolio_findOne ::
  "('s, 'd) resource_env \<Rightarrow> string \<Rightarrow> string \<Rightarrow> ('s, portfolio_row \<times> 'd asset_row list) io" where
  "portfolio_findOne E userId i =
     seqM (findFirst (portfolios E) (\<lambda>r. pf_id r = i)) (\<lambda>portfolio.
     seqM (findMany (assets E) (\<lambda>a. as_portfolioId a = i) anyOrder) (\<lambda>included.
     seqM (assertFound portfolio ''Portfolio'') (\<lambda>p.
     if pf_userId p \<noteq> userId then throw (ForbiddenException ''You do not own this portfolio.'')
     else ret (p, included))))"

definition portfolio_update ::
  "('s, 'd) resource_env \<Rightarrow> string \<Rightarrow> string \<Rightarrow> string option \<Rightarrow> string option \<Rightarrow> ('s, portfolio_row) io" where
  "portfolio_update E userId i name description =
     seqM (portfolio_findOne E userId i) (\<lambda>_.
     update (portfolios E) (\<lambda>r. pf_id r = i)
       (\<lambda>r. r\<lparr>pf_name := or_else name (pf_name r), pf_description := given description (pf_description r)\<rparr>))"

definition portfolio_delete :: "('s, 'd) resource_env \<Rightarrow> string \<Rightarrow> string \<Rightarrow> ('s, unit) io" where
  "portfolio_delete E userId i =
     seqM (portfolio_findOne E userId i) (\<lambda>_.
     void (delete (portfolios E) (\<lambda>r. pf_id r = i)))"

definition addAsset ::
  "('s, 'd) resource_env \<Rightarrow> string \<Rightarrow> string \<Rightarrow> 'd add_asset_dto \<Rightarrow> ('s, 'd asset_row) io" where
  "addAsset E userId portfolioId dto =
     seqM (portfolio_findOne E userId portfolioId) (\<lambda>_.
     create (assets E) (portfolioId, dto))"

definition removeAsset :: "('s, 'd) resource_env \<Rightarrow> string \<Rightarrow> string \<Rightarrow> string \<Rightarrow> ('s, unit) io" where
  "removeAsset E userId portfolioId assetId =
     seqM (portfolio_findOne E userId portfolioId) (\<lambda>_.
     seqM (findFirst (assets E) (\<lambda>a. as_id a = assetId \<and> as_portfolioId a = portfolioId)) (\<lambda>asset.
     seqM (assertFound asset ''Asset'') (\<lambda>_.
     void (delete (assets E) (\<lambda>a. as_id a = assetId)))))"

section \<open>Requests\<close>

text \<open>The routes of the three controllers: each acts for the user of the request, whom the access guard
  has set before (the cards' two writes also pass \<open>KycGuard\<close>, which \<open>Kyc\<close> models).\<close>

datatype card_route = ListCards | Freeze string | Unfreeze string

datatype beneficiary_route =
    CreateBeneficiary create_beneficiary_dto | ListBeneficiaries | ShowBeneficiary string
  | UpdateBeneficiary string update_beneficiary_dto | RemoveBeneficiary string

datatype 'd portfolio_route =
    CreatePortfolio string "string option" | ListPortfolios portfolio_query | ShowPortfolio string
  | UpdatePortfolio string "string option" "string option" | DeletePortfolio string
  | AddAsset string "'d add_asset_dto" | RemoveAsset string string

fun card_handler :: "('s, 'd) resource_env \<Rightarrow> string \<Rightarrow> card_route \<Rightarrow> ('s, unit) io" where
  "card_handler E u ListCards = void (getCards E u)"
| "card_handler E u (Freeze i) = void (freeze E i u)"
| "card_handler E u (Unfreeze i) = void (unfreeze E i u)"

fun beneficiary_handler :: "('s, 'd) resource_env \<Rightarrow> string \<Rightarrow> beneficiary_route \<Rightarrow> ('s, unit) io" where
  "beneficiary_handler E u (CreateBeneficiary dto) = void (beneficiary_create E u dto)"
| "beneficiary_handler E u ListBeneficiaries = void (beneficiary_findAll E u)"
| "beneficiary_handler E u (ShowBeneficiary i) = void (beneficiary_findOne E u i)"
| "beneficiary_handler E u (UpdateBeneficiary i dto) = void (beneficiary_update E u i dto)"
| "beneficiary_handler E u (RemoveBeneficiary i) = void (beneficiary_remove E u i)"

fun portfolio_handler :: "('s, 'd) resource_env \<Rightarrow> string \<Rightarrow> 'd portfolio_route \<Rightarrow> ('s, unit) io" where
  "portfolio_handler E u (CreatePortfolio n d) = void (portfolio_create E u n d)"
| "portfolio_handler E u (ListPortfolios q) = void (portfolio_findAll E u q)"
| "portfolio_handler E u (ShowPortfolio i) = void (portfolio_findOne E u i)"
| "portfolio_handler E u (UpdatePortfolio i n d) = void (portfolio_update E u i n d)"
| "portfolio_handler E u (DeletePortfolio i) = portfolio_delete E u i"
| "portfolio_handler E u (AddAsset p dto) = void (addAsset E u p dto)"
| "portfolio_handler E u (RemoveAsset p i) = removeAsset E u p i"

datatype 'd resource_request =
    CardRoute card_route | BeneficiaryRoute beneficiary_route | PortfolioRoute "'d portfolio_route"

fun resource_handle :: "('s, 'd) resource_env \<Rightarrow> string \<Rightarrow> 'd resource_request \<Rightarrow> ('s, unit) io" where
  "resource_handle E u (CardRoute q) = card_handler E u q"
| "resource_handle E u (BeneficiaryRoute q) = beneficiary_handler E u q"
| "resource_handle E u (PortfolioRoute q) = portfolio_handler E u q"

primrec resource_requests ::
  "('s, 'd) resource_env \<Rightarrow> (string \<times> 'd resource_request) list \<Rightarrow> 's \<Rightarrow> 's" where
  "resource_requests E [] s = s"
| "resource_requests E (q # qs) s = resource_requests E qs (snd (resource_handle E (fst q) (snd q) s))"

section \<open>What the services rely on\<close>

definition beneficiary_made :: "new_beneficiary \<Rightarrow> payee_row \<Rightarrow> bool" where
  "beneficiary_made n r \<longleftrightarrow> bn_userId r = cb_userId n \<and> bn_alias r = cb_alias n
     \<and> bn_beneficiaryType r = cb_beneficiaryType n \<and> bn_accountNumber r = cb_accountNumber n
     \<and> bn_bankName r = cb_bankName n \<and> bn_currency r = cb_currency n
     \<and> bn_country r = or_else (cb_country n) ''AR''
     \<and> bn_documentType r = cb_documentType n \<and> bn_documentNumber r = cb_documentNumber n
     \<and> bn_isActive r = or_else (cb_isActive n) True"

definition portfolio_made :: "new_portfolio \<Rightarrow> portfolio_row \<Rightarrow> bool" where
  "portfolio_made n r \<longleftrightarrow> pf_userId r = np_userId n \<and> pf_name r = np_name n
     \<and> pf_description r = np_description n"

definition asset_made :: "string \<times> 'd add_asset_dto \<Rightarrow> 'd asset_row \<Rightarrow> bool" where
  "asset_made n r \<longleftrightarrow> as_portfolioId r = fst n \<and> as_symbol r = aa_symbol (snd n)
     \<and> as_type r = aa_type (snd n) \<and> as_quantity r = aa_quantity (snd n)
     \<and> as_avgBuyPrice r = aa_avgBuyPrice (snd n) \<and> as_currency r = or_else (aa_currency (snd n)) ''USD''"

text \<open>\<open>page_after all cursor n rs\<close>: \<open>rs\<close> is the page of \<open>n\<close> rows after the cursor in the list \<open>all\<close>
  of the rows asked for; after a cursor that is none of them, some of them.\<close>

definition page_after :: "portfolio_row list \<Rightarrow> string option \<Rightarrow> nat \<Rightarrow> portfolio_row list \<Rightarrow> bool" where
  "page_after all cursor n rs \<longleftrightarrow> set rs \<subseteq> set all \<and> length rs \<le> n \<and>
     (case cursor of None \<Rightarrow> rs = take n all
      | Some c \<Rightarrow> \<forall>k < length all. pf_id (all ! k) = c \<and> (\<forall>j < k. pf_id (all ! j) \<noteq> c) \<longrightarrow> rs = take n (drop (Suc k) all))"

text \<open>
  Cards, beneficiaries, portfolios and assets are tables with a primary key the database makes;
  deleting a portfolio deletes its assets (\<open>onDelete: Cascade\<close>); \<open>rnow\<close> is the clock of \<open>@updatedAt\<close>.
\<close>

locale resource_ports =
  fixes E :: "('s, 'd) resource_env"
    and crows :: "'s \<Rightarrow> card_row set" and brows :: "'s \<Rightarrow> payee_row set"
    and prows :: "'s \<Rightarrow> portfolio_row set" and arows :: "'s \<Rightarrow> 'd asset_row set"
    and rnow :: "'s \<Rightarrow> int"
  assumes ctab: "table (cards E) crows (\<lambda>s. (brows s, prows s, arows s)) (\<lambda>s n r. cd_id r \<notin> cd_id ` crows s)
      (\<lambda>s r. r\<lparr>cd_updatedAt := rnow s\<rparr>)"
    and btab: "table (beneficiaries E) brows (\<lambda>s. (crows s, prows s, arows s))
      (\<lambda>s n r. beneficiary_made n r \<and> bn_id r \<notin> bn_id ` brows s) (\<lambda>s r. r\<lparr>bn_updatedAt := rnow s\<rparr>)"
    and ptab: "table (portfolios E) prows (\<lambda>s. (crows s, brows s))
      (\<lambda>s n r. portfolio_made n r \<and> pf_id r \<notin> pf_id ` prows s) (\<lambda>s r. r\<lparr>pf_updatedAt := rnow s\<rparr>)"
    and atab: "table (assets E) arows (\<lambda>s. (crows s, brows s, prows s))
      (\<lambda>s n r. asset_made n r \<and> as_id r \<notin> as_id ` arows s) (\<lambda>s r. r)"
    and pkeeps: "keeps arows (findFirst (portfolios E) P)" "keeps arows (create (portfolios E) n)"
      "keeps arows (update (portfolios E) P f)"
    and cascade: "delete (portfolios E) P s = (r, t) \<Longrightarrow>
      arows t = (case r of Inl _ \<Rightarrow> arows s | Inr p \<Rightarrow> {a \<in> arows s. as_portfolioId a \<noteq> pf_id p})"
    and after: "settles prows (\<lambda>s. (crows s, brows s, arows s)) (findAfter E P le cursor k)
      (\<lambda>s rs R. R = prows s \<and> (\<exists>all. set all = {r \<in> prows s. P r} \<and> distinct all
          \<and> (total_order le \<longrightarrow> sorted_wrt le all) \<and> page_after all cursor k rs))"
    and ids_ordered: "total_order (id_le E)" "id_le E a b \<Longrightarrow> id_le E b a \<Longrightarrow> a = b"

section \<open>A request leaves the other users' rows\<close>

definition mine :: "('r \<Rightarrow> string) \<Rightarrow> string \<Rightarrow> 'r set \<Rightarrow> 'r set" where
  "mine owner v R = {r \<in> R. owner r = v}"

lemma mine_put:
  assumes "inj_on key R" and "x \<in> R" and "key y = key x" and "owner y = owner x" and "owner x \<noteq> v"
  shows "inj_on key (insert y (R - {x})) \<and> mine owner v (insert y (R - {x})) = mine owner v R"
  using inj_on_put[OF assms(1-3)] assms(4,5) by (auto simp: mine_def)

lemma mine_new:
  assumes "inj_on key R" and "key y \<notin> key ` R" and "owner y \<noteq> v"
  shows "inj_on key (insert y R) \<and> mine owner v (insert y R) = mine owner v R"
  using inj_on_new[OF assms(1,2)] assms(3) by (auto simp: mine_def)

lemma mine_removed:
  assumes "inj_on key R" and "owner x \<noteq> v"
  shows "inj_on key (R - {x}) \<and> mine owner v (R - {x}) = mine owner v R"
  using inj_on_diff[OF assms(1)] assms(2) by (auto simp: mine_def)

text \<open>\<open>leaves ok view pre m\<close>: \<open>m\<close>, started in a state with \<open>ok\<close> and \<open>pre\<close>, ends in one with \<open>ok\<close> and the
  same \<open>view\<close>, whether it returns or throws.\<close>

definition leaves :: "('s \<Rightarrow> bool) \<Rightarrow> ('s \<Rightarrow> 'v) \<Rightarrow> ('s \<Rightarrow> bool) \<Rightarrow> ('s, 'a) io \<Rightarrow> bool" where
  "leaves ok view pre m \<longleftrightarrow> (\<forall>s r t. pre s \<longrightarrow> ok s \<longrightarrow> m s = (r, t) \<longrightarrow> ok t \<and> view t = view s)"

lemma leavesI:
  "(\<And>s r t. pre s \<Longrightarrow> ok s \<Longrightarrow> m s = (r, t) \<Longrightarrow> ok t \<and> view t = view s) \<Longrightarrow> leaves ok view pre m"
  unfolding leaves_def by blast

lemma leavesD: "leaves ok view pre m \<Longrightarrow> pre s \<Longrightarrow> ok s \<Longrightarrow> m s = (r, t) \<Longrightarrow> ok t \<and> view t = view s"
  unfolding leaves_def by blast

lemma leaves_prim: "leaves ok view pre (ret x)" "leaves ok view pre (throw e)"
  "leaves ok view pre (assertFound q name)"
  by (cases q; auto simp: leaves_def io_defs)+

lemma leaves_then:
  assumes "leaves ok view pre m" and "\<And>s x t. pre s \<Longrightarrow> ok s \<Longrightarrow> m s = (Inr x, t) \<Longrightarrow> post x t"
    and "\<And>x. leaves ok view (post x) (f x)"
  shows "leaves ok view pre (seqM m f)"
proof (rule leavesI)
  fix s r t assume s: "pre s" "ok s" and run: "seqM m f s = (r, t)"
  obtain q s1 where m: "m s = (q, s1)" by (cases "m s")
  note 1 = leavesD[OF assms(1) s m]
  show "ok t \<and> view t = view s"
  proof (cases q)
    case (Inl e)
    then show ?thesis using 1 run m by (simp add: seqM_def)
  next
    case (Inr x)
    then have "f x s1 = (r, t)" using run m by (simp add: seqM_def)
    with leavesD[OF assms(3), OF assms(2)[OF s m[unfolded Inr]]] 1 show ?thesis by metis
  qed
qed

lemma leaves_assertFound:
  assumes "\<And>x. q = Some x \<Longrightarrow> leaves ok view pre (f x)"
  shows "leaves ok view pre (seqM (assertFound q name) f)"
  by (rule leavesI, cases q) (auto simp: seqM_def io_defs dest: leavesD[OF assms])

lemma leaves_void: "leaves ok view pre m \<Longrightarrow> leaves ok view pre (void m)"
  unfolding void_def by (rule leaves_then[where post = "\<lambda>_ _. True"]) (auto intro: leaves_prim)

lemma leaves_if: "leaves ok view pre m \<Longrightarrow> leaves ok view pre n \<Longrightarrow> leaves ok view pre (if b then m else n)"
  by simp

text \<open>The primary keys, and what belongs to a user: assets belong through their portfolio.\<close>

definition keyed ::
  "('s \<Rightarrow> card_row set) \<Rightarrow> ('s \<Rightarrow> payee_row set) \<Rightarrow> ('s \<Rightarrow> portfolio_row set)
   \<Rightarrow> ('s \<Rightarrow> 'd asset_row set) \<Rightarrow> 's \<Rightarrow> bool" where
  "keyed crows brows prows arows s \<longleftrightarrow> inj_on cd_id (crows s) \<and> inj_on bn_id (brows s)
     \<and> inj_on pf_id (prows s) \<and> inj_on as_id (arows s)"

definition belongings ::
  "('s \<Rightarrow> card_row set) \<Rightarrow> ('s \<Rightarrow> payee_row set) \<Rightarrow> ('s \<Rightarrow> portfolio_row set)
   \<Rightarrow> ('s \<Rightarrow> 'd asset_row set) \<Rightarrow> string
   \<Rightarrow> 's \<Rightarrow> card_row set \<times> payee_row set \<times> portfolio_row set \<times> 'd asset_row set" where
  "belongings crows brows prows arows v s =
     (mine cd_userId v (crows s), mine bn_userId v (brows s), mine pf_userId v (prows s),
      {a \<in> arows s. as_portfolioId a \<in> pf_id ` mine pf_userId v (prows s)})"

lemma same_tables:
  "\<lbrakk>crows t = crows s; brows t = brows s; prows t = prows s; arows t = arows s\<rbrakk>
   \<Longrightarrow> keyed crows brows prows arows t = keyed crows brows prows arows s
     \<and> belongings crows brows prows arows v t = belongings crows brows prows arows v s"
  by (simp add: keyed_def belongings_def)

lemma leaves_unchanged:
  assumes "\<And>s r t. m s = (r, t) \<Longrightarrow> crows t = crows s \<and> brows t = brows s \<and> prows t = prows s \<and> arows t = arows s"
  shows "leaves (keyed crows brows prows arows) (belongings crows brows prows arows v) pre m"
proof (rule leavesI)
  fix s r t assume "keyed crows brows prows arows s" "m s = (r, t)"
  then show "keyed crows brows prows arows t
      \<and> belongings crows brows prows arows v t = belongings crows brows prows arows v s"
    using assms[of s r t] same_tables[of crows t s brows prows arows v] by simp
qed

lemma unique_key: "inj_on key R \<Longrightarrow> x \<in> R \<Longrightarrow> y \<in> R \<Longrightarrow> key x = key y \<Longrightarrow> x = y"
  by (auto dest: inj_onD)

text \<open>An update by primary key of a user's row, and an insert for a user, whatever their outcome.\<close>

context table
begin

lemma owned_update:
  assumes run: "update d (\<lambda>r. key r = i) f s = (r, t)"
    and x: "inj_on key (rows s)" "x \<in> rows s" "key x = i" "owner x \<noteq> v"
    and same: "key (stamp s (f x)) = key x" "owner (stamp s (f x)) = owner x"
  shows "inj_on key (rows t) \<and> mine owner v (rows t) = mine owner v (rows s) \<and> other t = other s"
proof (cases r)
  case (Inl e)
  then show ?thesis using throws(8) run x(1) by metis
next
  case (Inr y)
  from returns(8)[OF run[unfolded Inr]] obtain x' where x': "x' \<in> rows s" "key x' = i"
    "y = stamp s (f x')" "rows t = insert y (rows s - {x'})" and "other t = other s" by auto
  moreover have "x' = x" using unique_key[OF x(1) x'(1) x(2)] x(3) x'(2) by simp
  ultimately show ?thesis using mine_put[OF x(1,2), of y owner v] same x(4) by simp
qed

lemma owned_create:
  assumes run: "create d n s = (r, t)" and inj: "inj_on key (rows s)"
    and new: "\<And>y. made s n y \<Longrightarrow> key y \<notin> key ` rows s \<and> owner y \<noteq> v"
  shows "inj_on key (rows t) \<and> mine owner v (rows t) = mine owner v (rows s) \<and> other t = other s"
proof (cases r)
  case (Inl e)
  then show ?thesis using throws(5) run inj by metis
next
  case (Inr y)
  from returns(5)[OF run[unfolded Inr]] new[of y] mine_new[OF inj, of y owner v] show ?thesis by simp
qed

end

context resource_ports
begin

lemmas c_returns = table.returns[OF ctab]
lemmas b_returns = table.returns[OF btab]
lemmas p_returns = table.returns[OF ptab]
lemmas a_returns = table.returns[OF atab]
lemmas c_throws = table.throws[OF ctab]
lemmas b_throws = table.throws[OF btab]
lemmas p_throws = table.throws[OF ptab]
lemmas a_throws = table.throws[OF atab]

lemma leaves_reads:
  "leaves (keyed crows brows prows arows) (belongings crows brows prows arows v) pre (findFirst (cards E) P)"
  "leaves (keyed crows brows prows arows) (belongings crows brows prows arows v) pre (findMany (cards E) P le1)"
  "leaves (keyed crows brows prows arows) (belongings crows brows prows arows v) pre (findFirst (beneficiaries E) Q)"
  "leaves (keyed crows brows prows arows) (belongings crows brows prows arows v) pre (findMany (beneficiaries E) Q le2)"
  "leaves (keyed crows brows prows arows) (belongings crows brows prows arows v) pre (findFirst (portfolios E) R)"
  "leaves (keyed crows brows prows arows) (belongings crows brows prows arows v) pre (findAfter E R le3 cur k)"
  "leaves (keyed crows brows prows arows) (belongings crows brows prows arows v) pre (findFirst (assets E) S)"
  "leaves (keyed crows brows prows arows) (belongings crows brows prows arows v) pre (findMany (assets E) S le4)"
proof -
  have read: "rows t = rows s \<and> other t = other s" if "settles rows other m (\<lambda>s x R'. R' = rows s \<and> Z s x)" "m s = (r, t)"
    for rows other m Z s r t
    using settles_Inr[OF that(1)] settles_Inl[OF that(1)] that(2) by (cases r) auto
  show "leaves (keyed crows brows prows arows) (belongings crows brows prows arows v) pre (findFirst (cards E) P)"
    by (rule leaves_unchanged) (drule read[OF table.laws(1)[OF ctab]], simp)
  show "leaves (keyed crows brows prows arows) (belongings crows brows prows arows v) pre (findMany (cards E) P le1)"
    by (rule leaves_unchanged) (drule read[OF table.laws(2)[OF ctab]], simp)
  show "leaves (keyed crows brows prows arows) (belongings crows brows prows arows v) pre (findFirst (beneficiaries E) Q)"
    by (rule leaves_unchanged) (drule read[OF table.laws(1)[OF btab]], simp)
  show "leaves (keyed crows brows prows arows) (belongings crows brows prows arows v) pre (findMany (beneficiaries E) Q le2)"
    by (rule leaves_unchanged) (drule read[OF table.laws(2)[OF btab]], simp)
  show "leaves (keyed crows brows prows arows) (belongings crows brows prows arows v) pre (findFirst (portfolios E) R)"
    by (rule leaves_unchanged) (frule read[OF table.laws(1)[OF ptab]], drule keepsD[OF pkeeps(1)], simp)
  show "leaves (keyed crows brows prows arows) (belongings crows brows prows arows v) pre (findAfter E R le3 cur k)"
    by (rule leaves_unchanged) (drule read[OF after], simp)
  show "leaves (keyed crows brows prows arows) (belongings crows brows prows arows v) pre (findFirst (assets E) S)"
    by (rule leaves_unchanged) (drule read[OF table.laws(1)[OF atab]], simp)
  show "leaves (keyed crows brows prows arows) (belongings crows brows prows arows v) pre (findMany (assets E) S le4)"
    by (rule leaves_unchanged) (drule read[OF table.laws(2)[OF atab]], simp)
qed

end

context resource_ports
begin

text \<open>The writes, each on a row of the user \<open>u\<close> or a new one.\<close>

lemma leaves_card_update:
  assumes "u \<noteq> v" and "\<And>r. cd_id (f r) = cd_id r" and "\<And>r. cd_userId (f r) = cd_userId r"
  shows "leaves (keyed crows brows prows arows) (belongings crows brows prows arows v)
    (\<lambda>s. c \<in> crows s \<and> card_where i u c) (update (cards E) (\<lambda>r. cd_id r = i) f)"
proof (rule leavesI)
  fix s r t assume pre: "c \<in> crows s \<and> card_where i u c" and k: "keyed crows brows prows arows s"
    and run: "update (cards E) (\<lambda>r. cd_id r = i) f s = (r, t)"
  from table.owned_update[OF ctab run, of c cd_userId v] pre k assms
  show "keyed crows brows prows arows t
      \<and> belongings crows brows prows arows v t = belongings crows brows prows arows v s"
    by (simp add: keyed_def belongings_def card_where_def)
qed

lemma leaves_beneficiary_update:
  assumes "u \<noteq> v" and "\<And>r. bn_id (f r) = bn_id r" and "\<And>r. bn_userId (f r) = bn_userId r"
  shows "leaves (keyed crows brows prows arows) (belongings crows brows prows arows v)
    (\<lambda>s. b \<in> brows s \<and> bn_id b = i \<and> bn_userId b = u) (update (beneficiaries E) (\<lambda>r. bn_id r = i) f)"
proof (rule leavesI)
  fix s r t assume pre: "b \<in> brows s \<and> bn_id b = i \<and> bn_userId b = u" and k: "keyed crows brows prows arows s"
    and run: "update (beneficiaries E) (\<lambda>r. bn_id r = i) f s = (r, t)"
  from table.owned_update[OF btab run, of b bn_userId v] pre k assms
  show "keyed crows brows prows arows t
      \<and> belongings crows brows prows arows v t = belongings crows brows prows arows v s"
    by (simp add: keyed_def belongings_def)
qed

lemma leaves_portfolio_update:
  assumes "u \<noteq> v" and "\<And>r. pf_id (f r) = pf_id r" and "\<And>r. pf_userId (f r) = pf_userId r"
  shows "leaves (keyed crows brows prows arows) (belongings crows brows prows arows v)
    (\<lambda>s. p \<in> prows s \<and> pf_id p = i \<and> pf_userId p = u) (update (portfolios E) (\<lambda>r. pf_id r = i) f)"
proof (rule leavesI)
  fix s r t assume pre: "p \<in> prows s \<and> pf_id p = i \<and> pf_userId p = u" and k: "keyed crows brows prows arows s"
    and run: "update (portfolios E) (\<lambda>r. pf_id r = i) f s = (r, t)"
  from table.owned_update[OF ptab run, of p pf_userId v] keepsD[OF pkeeps(3) run] pre k assms
  show "keyed crows brows prows arows t
      \<and> belongings crows brows prows arows v t = belongings crows brows prows arows v s"
    by (simp add: keyed_def belongings_def)
qed

lemma leaves_portfolio_delete:
  assumes "u \<noteq> v"
  shows "leaves (keyed crows brows prows arows) (belongings crows brows prows arows v)
    (\<lambda>s. p \<in> prows s \<and> pf_id p = i \<and> pf_userId p = u) (delete (portfolios E) (\<lambda>r. pf_id r = i))"
proof (rule leavesI)
  fix s r t assume pre: "p \<in> prows s \<and> pf_id p = i \<and> pf_userId p = u" and k: "keyed crows brows prows arows s"
    and run: "delete (portfolios E) (\<lambda>r. pf_id r = i) s = (r, t)"
  show "keyed crows brows prows arows t
      \<and> belongings crows brows prows arows v t = belongings crows brows prows arows v s"
  proof (cases r)
    case (Inl e)
    with p_throws(10) run cascade[OF run] same_tables[of crows t s brows prows arows v] k show ?thesis by auto
  next
    case (Inr y)
    from p_returns(10)[OF run[unfolded Inr]] have y: "y \<in> prows s" "pf_id y = i" "prows t = prows s - {y}"
      and rest: "crows t = crows s" "brows t = brows s" by auto
    have a: "arows t = {a \<in> arows s. as_portfolioId a \<noteq> i}" using cascade[OF run] Inr y(2) by simp
    have inj: "inj_on pf_id (prows s)" using k by (simp add: keyed_def)
    have yp: "y = p" using unique_key[OF inj y(1)] pre y(2) by simp
    have "pf_userId q \<noteq> v" if "q \<in> prows s" "pf_id q = i" for q
      using unique_key[OF inj that(1), of p] pre that(2) assms by auto
    then have "i \<notin> pf_id ` mine pf_userId v (prows s)" by (auto simp: mine_def)
    then have "{a \<in> arows t. as_portfolioId a \<in> pf_id ` mine pf_userId v (prows s)}
        = {a \<in> arows s. as_portfolioId a \<in> pf_id ` mine pf_userId v (prows s)}" using a by auto
    moreover have "inj_on as_id (arows t)" using k a by (auto simp: keyed_def inj_on_def)
    moreover note mine_removed[OF inj, of pf_userId y v]
    ultimately show ?thesis using y(3) rest k pre yp assms by (simp add: keyed_def belongings_def)
  qed
qed

lemma leaves_creates:
  "cb_userId n \<noteq> v \<Longrightarrow> leaves (keyed crows brows prows arows) (belongings crows brows prows arows v) pre
     (create (beneficiaries E) n)"
  "np_userId k \<noteq> v \<Longrightarrow> leaves (keyed crows brows prows arows) (belongings crows brows prows arows v) pre
     (create (portfolios E) k)"
proof -
  assume n: "cb_userId n \<noteq> v"
  show "leaves (keyed crows brows prows arows) (belongings crows brows prows arows v) pre (create (beneficiaries E) n)"
  proof (rule leavesI)
    fix s r t assume k: "keyed crows brows prows arows s" and run: "create (beneficiaries E) n s = (r, t)"
    from table.owned_create[OF btab run, of bn_id bn_userId v] k n
    show "keyed crows brows prows arows t
      \<and> belongings crows brows prows arows v t = belongings crows brows prows arows v s"
      by (simp add: keyed_def belongings_def beneficiary_made_def)
  qed
next
  assume n: "np_userId k \<noteq> v"
  show "leaves (keyed crows brows prows arows) (belongings crows brows prows arows v) pre (create (portfolios E) k)"
  proof (rule leavesI)
    fix s r t assume kd: "keyed crows brows prows arows s" and run: "create (portfolios E) k s = (r, t)"
    from table.owned_create[OF ptab run, of pf_id pf_userId v] keepsD[OF pkeeps(2) run] kd n
    show "keyed crows brows prows arows t
      \<and> belongings crows brows prows arows v t = belongings crows brows prows arows v s"
      by (simp add: keyed_def belongings_def portfolio_made_def)
  qed
qed

end

context resource_ports
begin

lemma not_theirs:
  assumes "keyed crows brows prows arows s" and "p \<in> prows s" and "pf_userId p \<noteq> v"
  shows "pf_id p \<notin> pf_id ` mine pf_userId v (prows s)"
  using unique_key[of pf_id "prows s" p] assms by (auto simp: keyed_def mine_def)

lemma leaves_asset_create:
  assumes "u \<noteq> v"
  shows "leaves (keyed crows brows prows arows) (belongings crows brows prows arows v)
    (\<lambda>s. p \<in> prows s \<and> pf_id p = i \<and> pf_userId p = u) (create (assets E) (i, dto))"
proof (rule leavesI)
  fix s r t assume pre: "p \<in> prows s \<and> pf_id p = i \<and> pf_userId p = u" and k: "keyed crows brows prows arows s"
    and run: "create (assets E) (i, dto) s = (r, t)"
  show "keyed crows brows prows arows t
      \<and> belongings crows brows prows arows v t = belongings crows brows prows arows v s"
  proof (cases r)
    case (Inl e)
    with a_throws(5) run same_tables[of crows t s brows prows arows v] k show ?thesis by auto
  next
    case (Inr y)
    from a_returns(5)[OF run[unfolded Inr]] have y: "as_portfolioId y = i" "as_id y \<notin> as_id ` arows s"
      "arows t = insert y (arows s)" "crows t = crows s" "brows t = brows s" "prows t = prows s"
      by (simp_all add: asset_made_def)
    have "i \<notin> pf_id ` mine pf_userId v (prows s)" using not_theirs[OF k, of p v] pre assms by simp
    then have "{a \<in> arows t. as_portfolioId a \<in> pf_id ` mine pf_userId v (prows s)}
        = {a \<in> arows s. as_portfolioId a \<in> pf_id ` mine pf_userId v (prows s)}" using y(1,3) by auto
    moreover have "inj_on as_id (arows t)" using inj_on_new[OF _ y(2)] k y(3) by (simp add: keyed_def)
    ultimately show ?thesis using y k by (simp add: keyed_def belongings_def)
  qed
qed

lemma leaves_asset_delete:
  assumes "u \<noteq> v"
  shows "leaves (keyed crows brows prows arows) (belongings crows brows prows arows v)
    (\<lambda>s. (p \<in> prows s \<and> pf_id p = i \<and> pf_userId p = u) \<and> a \<in> arows s \<and> as_id a = j \<and> as_portfolioId a = i)
    (delete (assets E) (\<lambda>a. as_id a = j))"
proof (rule leavesI)
  fix s r t
  assume pre: "(p \<in> prows s \<and> pf_id p = i \<and> pf_userId p = u) \<and> a \<in> arows s \<and> as_id a = j \<and> as_portfolioId a = i"
    and k: "keyed crows brows prows arows s" and run: "delete (assets E) (\<lambda>a. as_id a = j) s = (r, t)"
  show "keyed crows brows prows arows t
      \<and> belongings crows brows prows arows v t = belongings crows brows prows arows v s"
  proof (cases r)
    case (Inl e)
    with a_throws(10) run same_tables[of crows t s brows prows arows v] k show ?thesis by auto
  next
    case (Inr y)
    from a_returns(10)[OF run[unfolded Inr]] have y: "y \<in> arows s" "as_id y = j" "arows t = arows s - {y}"
      "crows t = crows s" "brows t = brows s" "prows t = prows s" by simp_all
    have inj: "inj_on as_id (arows s)" using k by (simp add: keyed_def)
    have ya: "y = a" using unique_key[OF inj y(1), of a] pre y(2) by simp
    have "as_portfolioId a \<notin> pf_id ` mine pf_userId v (prows s)" using not_theirs[OF k, of p v] pre assms by simp
    then have "{a \<in> arows t. as_portfolioId a \<in> pf_id ` mine pf_userId v (prows s)}
        = {a \<in> arows s. as_portfolioId a \<in> pf_id ` mine pf_userId v (prows s)}" unfolding y(3) ya by blast
    moreover have "inj_on as_id (arows t)" using inj_on_diff[OF inj] y(3) by simp
    ultimately show ?thesis using y k by (simp add: keyed_def belongings_def)
  qed
qed

text \<open>The checks of ownership the writes come after.\<close>

lemma leaves_card_found:
  assumes "\<And>card. leaves (keyed crows brows prows arows) (belongings crows brows prows arows v)
      (\<lambda>s. card \<in> crows s \<and> card_where i u card) (f card)"
  shows "leaves (keyed crows brows prows arows) (belongings crows brows prows arows v) pre
    (seqM (findFirst (cards E) (card_where i u)) (\<lambda>found. seqM (assertFound found name) f))"
proof (rule leaves_then[OF leaves_reads(1), where post = "\<lambda>q s. \<forall>c. q = Some c \<longrightarrow> c \<in> crows s \<and> card_where i u c"])
  fix s x t assume "findFirst (cards E) (card_where i u) s = (Inr x, t)"
  from c_returns(1)[OF this] show "\<forall>c. x = Some c \<longrightarrow> c \<in> crows t \<and> card_where i u c" by auto
next
  fix q show "leaves (keyed crows brows prows arows) (belongings crows brows prows arows v)
      (\<lambda>s. \<forall>c. q = Some c \<longrightarrow> c \<in> crows s \<and> card_where i u c) (seqM (assertFound q name) f)"
    by (rule leaves_assertFound) (simp add: assms)
qed

lemma leaves_beneficiary_found:
  assumes "\<And>b. leaves (keyed crows brows prows arows) (belongings crows brows prows arows v)
      (\<lambda>s. b \<in> brows s \<and> bn_id b = i \<and> bn_userId b = u) (f b)"
  shows "leaves (keyed crows brows prows arows) (belongings crows brows prows arows v) pre
    (seqM (beneficiary_findOne E u i) f)"
proof (rule leaves_then[where post = "\<lambda>b s. b \<in> brows s \<and> bn_id b = i \<and> bn_userId b = u"])
  show "leaves (keyed crows brows prows arows) (belongings crows brows prows arows v) pre (beneficiary_findOne E u i)"
    unfolding beneficiary_findOne_def
    by (rule leaves_then[OF leaves_reads(3), where post = "\<lambda>_ _. True"]) (simp_all add: leaves_prim)
next
  fix s b t assume "beneficiary_findOne E u i s = (Inr b, t)"
  then have "findFirst (beneficiaries E) (\<lambda>r. bn_id r = i \<and> bn_userId r = u) s = (Inr (Some b), t)"
    by (auto simp: beneficiary_findOne_def seqM_Inr assertFound_iff)
  from b_returns(1)[OF this] show "b \<in> brows t \<and> bn_id b = i \<and> bn_userId b = u" by auto
qed (rule assms)

lemma portfolio_findOne_returns:
  assumes "portfolio_findOne E u i s = (Inr (p, included), t)"
  shows "p \<in> prows t \<and> pf_id p = i \<and> pf_userId p = u \<and> set included = {a \<in> arows t. as_portfolioId a = i}"
proof -
  from assms obtain s1 where f: "findFirst (portfolios E) (\<lambda>r. pf_id r = i) s = (Inr (Some p), s1)"
    and g: "findMany (assets E) (\<lambda>a. as_portfolioId a = i) anyOrder s1 = (Inr included, t)" and u: "pf_userId p = u"
    by (auto simp: portfolio_findOne_def seqM_Inr assertFound_iff io_prim_iff split: if_splits)
  from p_returns(1)[OF f] a_returns(2)[OF g] u show ?thesis by auto
qed

lemma leaves_portfolio_found:
  assumes "\<And>x. leaves (keyed crows brows prows arows) (belongings crows brows prows arows v)
      (\<lambda>s. fst x \<in> prows s \<and> pf_id (fst x) = i \<and> pf_userId (fst x) = u) (f x)"
  shows "leaves (keyed crows brows prows arows) (belongings crows brows prows arows v) pre
    (seqM (portfolio_findOne E u i) f)"
proof (rule leaves_then[where post = "\<lambda>x s. fst x \<in> prows s \<and> pf_id (fst x) = i \<and> pf_userId (fst x) = u"])
  show "leaves (keyed crows brows prows arows) (belongings crows brows prows arows v) pre (portfolio_findOne E u i)"
    unfolding portfolio_findOne_def
    by (rule leaves_then[OF leaves_reads(5), where post = "\<lambda>_ _. True"], simp)
       (rule leaves_then[OF leaves_reads(8), where post = "\<lambda>_ _. True"], simp,
        rule leaves_assertFound, simp add: leaves_prim)
next
  fix s x t assume "portfolio_findOne E u i s = (Inr x, t)"
  then show "fst x \<in> prows t \<and> pf_id (fst x) = i \<and> pf_userId (fst x) = u"
    using portfolio_findOne_returns[of u i s "fst x" "snd x" t] by simp
qed (rule assms)

lemma leaves_asset_found:
  assumes "\<And>a. leaves (keyed crows brows prows arows) (belongings crows brows prows arows v)
      (\<lambda>s. (p \<in> prows s \<and> pf_id p = i \<and> pf_userId p = u) \<and> a \<in> arows s \<and> as_id a = j \<and> as_portfolioId a = i) (f a)"
  shows "leaves (keyed crows brows prows arows) (belongings crows brows prows arows v)
    (\<lambda>s. p \<in> prows s \<and> pf_id p = i \<and> pf_userId p = u)
    (seqM (findFirst (assets E) (\<lambda>a. as_id a = j \<and> as_portfolioId a = i)) (\<lambda>q. seqM (assertFound q name) f))"
proof (rule leaves_then[OF leaves_reads(7), where post = "\<lambda>q s. (p \<in> prows s \<and> pf_id p = i \<and> pf_userId p = u)
    \<and> (\<forall>a. q = Some a \<longrightarrow> a \<in> arows s \<and> as_id a = j \<and> as_portfolioId a = i)"])
  fix s x t assume pre: "p \<in> prows s \<and> pf_id p = i \<and> pf_userId p = u"
    and "findFirst (assets E) (\<lambda>a. as_id a = j \<and> as_portfolioId a = i) s = (Inr x, t)"
  from a_returns(1)[OF this(2)] pre show "(p \<in> prows t \<and> pf_id p = i \<and> pf_userId p = u)
    \<and> (\<forall>a. x = Some a \<longrightarrow> a \<in> arows t \<and> as_id a = j \<and> as_portfolioId a = i)" by auto
next
  fix q show "leaves (keyed crows brows prows arows) (belongings crows brows prows arows v)
      (\<lambda>s. (p \<in> prows s \<and> pf_id p = i \<and> pf_userId p = u)
         \<and> (\<forall>a. q = Some a \<longrightarrow> a \<in> arows s \<and> as_id a = j \<and> as_portfolioId a = i)) (seqM (assertFound q name) f)"
    by (rule leaves_assertFound) (use assms in simp)
qed

text \<open>Every route.\<close>

lemma card_handler_leaves:
  assumes "u \<noteq> v"
  shows "leaves (keyed crows brows prows arows) (belongings crows brows prows arows v) (\<lambda>_. True)
    (card_handler E u q)"
proof (cases q)
  case ListCards
  then show ?thesis by (simp add: getCards_def leaves_void leaves_reads)
next
  case (Freeze i)
  show ?thesis unfolding Freeze card_handler.simps freeze_def
    by (intro leaves_void leaves_card_found leaves_if leaves_prim leaves_card_update[OF assms]) simp_all
next
  case (Unfreeze i)
  show ?thesis unfolding Unfreeze card_handler.simps unfreeze_def
    by (intro leaves_void leaves_card_found leaves_if leaves_prim leaves_card_update[OF assms]) simp_all
qed

lemma beneficiary_handler_leaves:
  assumes "u \<noteq> v"
  shows "leaves (keyed crows brows prows arows) (belongings crows brows prows arows v) (\<lambda>_. True)
    (beneficiary_handler E u q)"
proof (cases q)
  case (CreateBeneficiary dto)
  show ?thesis unfolding CreateBeneficiary beneficiary_handler.simps beneficiary_create_def
    by (intro leaves_void leaves_creates(1))
       (use assms in \<open>simp add: create_beneficiary_dto.extend_def new_beneficiary.fields_def\<close>)
next
  case ListBeneficiaries
  then show ?thesis by (simp add: beneficiary_findAll_def leaves_void leaves_reads)
next
  case (ShowBeneficiary i)
  show ?thesis unfolding ShowBeneficiary beneficiary_handler.simps void_def
    by (intro leaves_beneficiary_found leaves_prim)
next
  case (UpdateBeneficiary i dto)
  show ?thesis unfolding UpdateBeneficiary beneficiary_handler.simps beneficiary_update_def
    by (intro leaves_void leaves_beneficiary_found leaves_beneficiary_update[OF assms])
       (simp_all add: beneficiary_changes_def)
next
  case (RemoveBeneficiary i)
  show ?thesis unfolding RemoveBeneficiary beneficiary_handler.simps beneficiary_remove_def
    by (intro leaves_void leaves_beneficiary_found leaves_beneficiary_update[OF assms]) simp_all
qed

lemma portfolio_handler_leaves:
  assumes "u \<noteq> v"
  shows "leaves (keyed crows brows prows arows) (belongings crows brows prows arows v) (\<lambda>_. True)
    (portfolio_handler E u q)"
proof (cases q)
  case (CreatePortfolio n d)
  show ?thesis unfolding CreatePortfolio portfolio_handler.simps portfolio_create_def
    by (intro leaves_void leaves_creates(2)) (use assms in simp)
next
  case (ListPortfolios query)
  show ?thesis unfolding ListPortfolios portfolio_handler.simps portfolio_findAll_def Let_def
    by (intro leaves_void, rule leaves_then[OF leaves_reads(6), where post = "\<lambda>_ _. True"])
       (simp_all add: leaves_prim)
next
  case (ShowPortfolio i)
  show ?thesis unfolding ShowPortfolio portfolio_handler.simps void_def
    by (intro leaves_portfolio_found leaves_prim)
next
  case (UpdatePortfolio i n d)
  show ?thesis unfolding UpdatePortfolio portfolio_handler.simps portfolio_update_def
    by (intro leaves_void leaves_portfolio_found leaves_portfolio_update[OF assms]) simp_all
next
  case (DeletePortfolio i)
  show ?thesis unfolding DeletePortfolio portfolio_handler.simps portfolio_delete_def
    by (intro leaves_portfolio_found leaves_void leaves_portfolio_delete[OF assms])
next
  case (AddAsset i dto)
  show ?thesis unfolding AddAsset portfolio_handler.simps addAsset_def
    by (intro leaves_void leaves_portfolio_found leaves_asset_create[OF assms])
next
  case (RemoveAsset i j)
  show ?thesis unfolding RemoveAsset portfolio_handler.simps removeAsset_def
    by (intro leaves_portfolio_found leaves_asset_found leaves_void leaves_asset_delete[OF assms])
qed

lemma handle_leaves:
  "u \<noteq> v \<Longrightarrow> leaves (keyed crows brows prows arows) (belongings crows brows prows arows v) (\<lambda>_. True)
    (resource_handle E u q)"
  by (cases q) (simp_all add: card_handler_leaves beneficiary_handler_leaves portfolio_handler_leaves)

end

section \<open>The pages of a list of portfolios\<close>

text \<open>A client that asks for the pages of \<open>lim\<close> rows, one after the other, following \<open>nextCursor\<close>; it
  makes at most \<open>n\<close> requests.\<close>

fun portfolio_pages ::
  "('s, 'd) resource_env \<Rightarrow> string \<Rightarrow> nat \<Rightarrow> nat \<Rightarrow> string option \<Rightarrow> ('s, portfolio_row list) io" where
  "portfolio_pages E u lim 0 cursor = ret []"
| "portfolio_pages E u lim (Suc n) cursor =
     seqM (portfolio_findAll E u \<lparr>pq_limit = Some lim, pq_cursor = cursor\<rparr>) (\<lambda>page.
     case pp_nextCursor page of
       None \<Rightarrow> ret (pp_data page)
     | Some c \<Rightarrow> seqM (portfolio_pages E u lim n (Some c)) (\<lambda>rest. ret (pp_data page @ rest)))"

lemma portfolio_order_total:
  assumes "total_order le"
  shows "total_order (portfolio_order le)"
proof -
  have trans: "le x y \<Longrightarrow> le y z \<Longrightarrow> le x z" and total: "le x y \<or> le y x" for x y z
    using assms unfolding total_order_def by blast+
  show ?thesis unfolding total_order_def
  proof (intro conjI allI impI)
    fix a b show "portfolio_order le a b \<or> portfolio_order le b a"
      using total[of "pf_id a" "pf_id b"] by (auto simp: portfolio_order_def)
  next
    fix a b c assume "portfolio_order le a b" "portfolio_order le b c"
    then show "portfolio_order le a c"
      using trans[of "pf_id c" "pf_id b" "pf_id a"] by (auto simp: portfolio_order_def)
  qed
qed

lemma last_take: "0 < n \<Longrightarrow> n \<le> length xs \<Longrightarrow> last (take n xs) = xs ! (n - 1)"
  by (subst last_conv_nth) auto

context resource_ports
begin

text \<open>The list of a user's portfolios, in order, is one list; the page after a place of it.\<close>

lemma the_page:
  assumes run: "findAfter E (\<lambda>r. pf_userId r = u) (portfolio_order (id_le E)) cursor k s = (Inr rs, t)"
    and inj: "inj_on pf_id (prows s)" and all: "set all = mine pf_userId u (prows s)" "distinct all"
      "sorted_wrt (portfolio_order (id_le E)) all"
  shows "page_after all cursor k rs \<and> prows t = prows s"
proof -
  from settles_Inr[OF after run] portfolio_order_total[OF ids_ordered(1)] obtain all' where
    all': "set all' = {r \<in> prows s. pf_userId r = u}" "distinct all'"
      "sorted_wrt (portfolio_order (id_le E)) all'" "page_after all' cursor k rs" and same: "prows t = prows s"
    by blast
  have "all' = all"
  proof (rule sorted_wrt_unique[OF all'(3) all(3) all'(2) all(2)])
    show "set all' = set all" using all(1) all'(1) by (auto simp: mine_def)
    fix a b assume ab: "a \<in> set all'" "b \<in> set all'" "portfolio_order (id_le E) a b" "portfolio_order (id_le E) b a"
    then have "pf_id a = pf_id b" using ids_ordered(2) by (auto simp: portfolio_order_def)
    then show "a = b" using unique_key[OF inj] ab(1,2) all'(1) by blast
  qed
  then show ?thesis using all'(4) same by simp
qed

lemma findAll_at:
  assumes run: "portfolio_findAll E u \<lparr>pq_limit = Some lim, pq_cursor = cursor\<rparr> s = (r, t)"
    and answers: "\<not> isl (fst (findAfter E (\<lambda>r. pf_userId r = u) (portfolio_order (id_le E)) cursor (lim + 1) s))"
    and lim: "0 < lim"
    and inj: "inj_on pf_id (prows s)" and all: "set all = mine pf_userId u (prows s)" "distinct all"
      "sorted_wrt (portfolio_order (id_le E)) all"
    and at: "cursor = None \<and> k = 0 \<or> 0 < k \<and> k \<le> length all \<and> cursor = Some (pf_id (all ! (k - 1)))"
    and named: "\<forall>p \<in> set all. pf_id p \<noteq> ''''"
  shows "prows t = prows s \<and> r = Inr \<lparr>pp_data = take lim (drop k all),
      pp_nextCursor = (if length all > k + lim then Some (pf_id (all ! (k + lim - 1))) else None)\<rparr>"
proof -
  have cur: "truthy cursor = cursor"
    using at named by (auto simp: truthy_def dest!: bspec[OF _ nth_mem, rotated])
  obtain rs s1 where f: "findAfter E (\<lambda>r. pf_userId r = u) (portfolio_order (id_le E)) cursor (lim + 1) s = (Inr rs, s1)"
    using answers io_returns[of "findAfter E (\<lambda>r. pf_userId r = u) (portfolio_order (id_le E)) cursor (lim + 1)" s] by blast
  note page = the_page[OF f inj all]
  have inj_all: "inj_on pf_id (set all)" using inj by (rule inj_on_subset) (auto simp: all(1) mine_def)
  have rs: "rs = take (lim + 1) (drop k all)"
  proof (cases cursor)
    case None
    then show ?thesis using page at by (simp add: page_after_def)
  next
    case (Some c)
    then have k: "k - 1 < length all" "pf_id (all ! (k - 1)) = c" "Suc (k - 1) = k" using at by auto
    have "pf_id (all ! j) \<noteq> c" if "j < k - 1" for j
    proof
      assume "pf_id (all ! j) = c"
      then have "all ! j = all ! (k - 1)" using unique_key[OF inj_all] that k by simp
      then show False using that k(1) all(2) by (simp add: nth_eq_iff_index_eq)
    qed
    then show ?thesis using page Some k unfolding page_after_def by auto
  qed
  have "last (take lim (drop k all)) = all ! (k + lim - 1)" if "length all > k + lim"
    using that lim last_take[of lim "drop k all"] by simp
  moreover have "take lim (drop k all) \<noteq> []" if "length all > k + lim" using that lim by simp
  moreover have "length rs > lim \<longleftrightarrow> length all > k + lim" using rs by auto
  ultimately show ?thesis
    using run f rs cur page
    by (auto simp: portfolio_findAll_def Let_def seqM_def io_defs take_take min_def split: if_splits)
qed

lemma pages_from:
  assumes answers: "\<And>cursor s. \<not> isl (fst (findAfter E (\<lambda>r. pf_userId r = u) (portfolio_order (id_le E)) cursor (lim + 1) s))"
    and lim: "0 < lim"
    and inj: "inj_on pf_id R" and all: "set all = mine pf_userId u R" "distinct all"
      "sorted_wrt (portfolio_order (id_le E)) all" and named: "\<forall>p \<in> set all. pf_id p \<noteq> ''''"
  shows "prows s = R \<Longrightarrow> cursor = None \<and> k = 0 \<or> 0 < k \<and> k \<le> length all \<and> cursor = Some (pf_id (all ! (k - 1)))
    \<Longrightarrow> length all < k + n \<Longrightarrow> \<exists>t. portfolio_pages E u lim n cursor s = (Inr (drop k all), t)"
proof (induction n arbitrary: k cursor s)
  case (Suc n)
  obtain r t where run: "portfolio_findAll E u \<lparr>pq_limit = Some lim, pq_cursor = cursor\<rparr> s = (r, t)" by (cases "portfolio_findAll E u \<lparr>pq_limit = Some lim, pq_cursor = cursor\<rparr> s")
  have page: "prows t = prows s" "r = Inr \<lparr>pp_data = take lim (drop k all),
      pp_nextCursor = (if length all > k + lim then Some (pf_id (all ! (k + lim - 1))) else None)\<rparr>"
    using findAll_at[OF run answers lim _ _ all(2,3) Suc.prems(2) named] Suc.prems(1) inj all(1) by simp_all
  show ?case
  proof (cases "length all > k + lim")
    case True
    have "\<exists>t'. portfolio_pages E u lim n (Some (pf_id (all ! (k + lim - 1)))) t = (Inr (drop (k + lim) all), t')"
      by (rule Suc.IH) (use page(1) Suc.prems True lim in auto)
    then show ?thesis using run page(2) True by (auto simp: seqM_def io_defs drop_drop append_take_drop_id ac_simps)
         (metis add.commute append_take_drop_id drop_drop)
  next
    case False
    then show ?thesis using run page(2) by (simp add: seqM_def io_defs)
  qed
qed simp

end

section \<open>A concrete database\<close>

record resource_world =
  rw_cards :: "card_row list"
  rw_beneficiaries :: "payee_row list"
  rw_portfolios :: "portfolio_row list"
  rw_assets :: "int asset_row list"
  rw_clock :: int

definition demo_card :: "resource_world \<Rightarrow> nat \<Rightarrow> new_card \<Rightarrow> card_row" where
  "demo_card s k n = \<lparr>cd_id = replicate (length (rw_cards s) + k) CHR ''c'', cd_userId = nc_userId n,
     cd_type = nc_type n, cd_maskedNumber = nc_maskedNumber n, cd_isActive = True, cd_isFrozen = False,
     cd_createdAt = rw_clock s, cd_updatedAt = rw_clock s\<rparr>"

definition demo_beneficiary :: "resource_world \<Rightarrow> nat \<Rightarrow> new_beneficiary \<Rightarrow> payee_row" where
  "demo_beneficiary s k n = \<lparr>bn_id = replicate (length (rw_beneficiaries s) + k) CHR ''b'',
     bn_userId = cb_userId n, bn_alias = cb_alias n, bn_beneficiaryType = cb_beneficiaryType n,
     bn_accountNumber = cb_accountNumber n, bn_bankName = cb_bankName n, bn_currency = cb_currency n,
     bn_country = or_else (cb_country n) ''AR'', bn_documentType = cb_documentType n,
     bn_documentNumber = cb_documentNumber n, bn_isActive = or_else (cb_isActive n) True,
     bn_createdAt = rw_clock s, bn_updatedAt = rw_clock s\<rparr>"

definition demo_portfolio :: "resource_world \<Rightarrow> nat \<Rightarrow> new_portfolio \<Rightarrow> portfolio_row" where
  "demo_portfolio s k n = \<lparr>pf_id = replicate (length (rw_portfolios s) + k) CHR ''p'',
     pf_userId = np_userId n, pf_name = np_name n, pf_description = np_description n,
     pf_createdAt = rw_clock s, pf_updatedAt = rw_clock s\<rparr>"

definition demo_asset :: "resource_world \<Rightarrow> nat \<Rightarrow> string \<times> int add_asset_dto \<Rightarrow> int asset_row" where
  "demo_asset s k n = \<lparr>as_id = replicate (length (rw_assets s) + k) CHR ''a'', as_portfolioId = fst n,
     as_symbol = aa_symbol (snd n), as_type = aa_type (snd n), as_quantity = aa_quantity (snd n),
     as_avgBuyPrice = aa_avgBuyPrice (snd n), as_currency = or_else (aa_currency (snd n)) ''USD''\<rparr>"

definition demo_cascade :: "portfolio_row \<Rightarrow> resource_world \<Rightarrow> resource_world" where
  "demo_cascade p s = s\<lparr>rw_assets := filter (\<lambda>a. as_portfolioId a \<noteq> pf_id p) (rw_assets s)\<rparr>"

definition demo_portfolios :: "(resource_world, portfolio_row, new_portfolio) delegate" where
  "demo_portfolios = list_delegate rw_portfolios (\<lambda>rs s. s\<lparr>rw_portfolios := rs\<rparr>) demo_portfolio
     (\<lambda>s r. r\<lparr>pf_updatedAt := rw_clock s\<rparr>) (\<lambda>r x. pf_id r = pf_id x)"

definition list_page :: "portfolio_row list \<Rightarrow> string option \<Rightarrow> nat \<Rightarrow> portfolio_row list" where
  "list_page all cursor k =
     take k (case cursor of None \<Rightarrow> all | Some c \<Rightarrow> tl (dropWhile (\<lambda>r. pf_id r \<noteq> c) all))"

definition demo_resources :: "(resource_world, int) resource_env" where
  "demo_resources = \<lparr>
     cards = list_delegate rw_cards (\<lambda>rs s. s\<lparr>rw_cards := rs\<rparr>) demo_card
       (\<lambda>s r. r\<lparr>cd_updatedAt := rw_clock s\<rparr>) (\<lambda>r x. cd_id r = cd_id x),
     beneficiaries = list_delegate rw_beneficiaries (\<lambda>rs s. s\<lparr>rw_beneficiaries := rs\<rparr>) demo_beneficiary
       (\<lambda>s r. r\<lparr>bn_updatedAt := rw_clock s\<rparr>) (\<lambda>r x. bn_id r = bn_id x),
     portfolios = demo_portfolios\<lparr>delete := (\<lambda>P. deletes_also demo_cascade (delete demo_portfolios P))\<rparr>,
     assets = list_delegate rw_assets (\<lambda>rs s. s\<lparr>rw_assets := rs\<rparr>) demo_asset (\<lambda>s r. r)
       (\<lambda>r x. as_id r = as_id x),
     findAfter = (\<lambda>P le cursor k s. (Inr (list_page (select_rows P le (rw_portfolios s)) cursor k), s)),
     id_le = (\<le>)\<rparr>"

lemma dropWhile_at:
  "k < length xs \<Longrightarrow> P (xs ! k) \<Longrightarrow> \<forall>j < k. \<not> P (xs ! j) \<Longrightarrow> dropWhile (\<lambda>x. \<not> P x) xs = drop k xs"
proof (induction xs arbitrary: k)
  case (Cons x xs)
  show ?case
  proof (cases k)
    case (Suc j)
    have "\<forall>i < j. \<not> P (xs ! i)" using Cons.prems(3) Suc by fastforce
    then have "dropWhile (\<lambda>x. \<not> P x) xs = drop j xs" using Cons.prems(1,2) Cons.IH[of j] Suc by simp
    moreover have "\<not> P x" using Cons.prems(3) Suc by fastforce
    ultimately show ?thesis using Suc by simp
  qed (use Cons.prems in simp)
qed simp

lemma list_page_after: "page_after all cursor k (list_page all cursor k)"
proof (cases cursor)
  case None
  then show ?thesis by (auto simp: page_after_def list_page_def dest: in_set_takeD)
next
  case (Some c)
  have "take k (tl (dropWhile (\<lambda>r. pf_id r \<noteq> c) all)) = take k (drop (Suc n) all)"
    if "n < length all" "pf_id (all ! n) = c" "\<forall>j < n. pf_id (all ! j) \<noteq> c" for n
    using dropWhile_at[of n all "\<lambda>r. pf_id r = c"] that by (simp add: tl_drop drop_Suc)
  moreover have "set (tl (dropWhile (\<lambda>r. pf_id r \<noteq> c) all)) \<subseteq> set all"
  proof -
    have "set (tl ys) \<subseteq> set ys" for ys :: "portfolio_row list" by (cases ys) auto
    moreover have "set (dropWhile (\<lambda>r. pf_id r \<noteq> c) all) \<subseteq> set all" using set_dropWhileD by fast
    ultimately show ?thesis by (rule subset_trans)
  qed
  ultimately show ?thesis
    by (auto simp: page_after_def list_page_def Some dest!: in_set_takeD)
qed

definition demo_crows :: "resource_world \<Rightarrow> card_row set" where "demo_crows s = set (rw_cards s)"
definition demo_brows :: "resource_world \<Rightarrow> payee_row set" where "demo_brows s = set (rw_beneficiaries s)"
definition demo_prows :: "resource_world \<Rightarrow> portfolio_row set" where "demo_prows s = set (rw_portfolios s)"
definition demo_arows :: "resource_world \<Rightarrow> int asset_row set" where "demo_arows s = set (rw_assets s)"

interpretation demo_resources: resource_ports demo_resources demo_crows demo_brows demo_prows demo_arows rw_clock
proof (rule resource_ports.intro, goal_cases)
  case 1
  have t: "table (cards demo_resources) (\<lambda>s. set (rw_cards s)) (\<lambda>s. (demo_brows s, demo_prows s, demo_arows s))
      (\<lambda>s n r. (\<exists>i. r = demo_card s i n) \<and> (\<forall>x \<in> set (rw_cards s). \<not> cd_id r = cd_id x))
      (\<lambda>s r. r\<lparr>cd_updatedAt := rw_clock s\<rparr>)"
    unfolding demo_resources_def resource_env.simps
    by (rule list_delegate_table) (simp_all add: demo_brows_def demo_prows_def demo_arows_def)
  have rw: "demo_crows = (\<lambda>s. set (rw_cards s))" by (simp add: demo_crows_def fun_eq_iff)
  show ?case unfolding rw by (rule table_weaken[OF t]) auto
next
  case 2
  have t: "table (beneficiaries demo_resources) (\<lambda>s. set (rw_beneficiaries s)) (\<lambda>s. (demo_crows s, demo_prows s, demo_arows s))
      (\<lambda>s n r. (\<exists>i. r = demo_beneficiary s i n) \<and> (\<forall>x \<in> set (rw_beneficiaries s). \<not> bn_id r = bn_id x))
      (\<lambda>s r. r\<lparr>bn_updatedAt := rw_clock s\<rparr>)"
    unfolding demo_resources_def resource_env.simps
    by (rule list_delegate_table) (simp_all add: demo_crows_def demo_prows_def demo_arows_def)
  have rw: "demo_brows = (\<lambda>s. set (rw_beneficiaries s))" by (simp add: demo_brows_def fun_eq_iff)
  show ?case unfolding rw by (rule table_weaken[OF t]) (auto simp: beneficiary_made_def demo_beneficiary_def)
next
  case 3
  have "table demo_portfolios (\<lambda>s. set (rw_portfolios s)) (\<lambda>s. (demo_crows s, demo_brows s))
      (\<lambda>s n r. (\<exists>i. r = demo_portfolio s i n) \<and> (\<forall>x \<in> set (rw_portfolios s). \<not> pf_id r = pf_id x))
      (\<lambda>s r. r\<lparr>pf_updatedAt := rw_clock s\<rparr>)"
    unfolding demo_portfolios_def by (rule list_delegate_table) (simp_all add: demo_crows_def demo_brows_def)
  from table_deletes_also[OF this, of demo_cascade]
  have t: "table (portfolios demo_resources) (\<lambda>s. set (rw_portfolios s)) (\<lambda>s. (demo_crows s, demo_brows s))
      (\<lambda>s n r. (\<exists>i. r = demo_portfolio s i n) \<and> (\<forall>x \<in> set (rw_portfolios s). \<not> pf_id r = pf_id x))
      (\<lambda>s r. r\<lparr>pf_updatedAt := rw_clock s\<rparr>)"
    by (simp add: demo_resources_def demo_cascade_def demo_crows_def demo_brows_def)
  have rw: "demo_prows = (\<lambda>s. set (rw_portfolios s))" by (simp add: demo_prows_def fun_eq_iff)
  show ?case unfolding rw by (rule table_weaken[OF t]) (auto simp: portfolio_made_def demo_portfolio_def)
next
  case 4
  have t: "table (assets demo_resources) (\<lambda>s. set (rw_assets s)) (\<lambda>s. (demo_crows s, demo_brows s, demo_prows s))
      (\<lambda>s n r. (\<exists>i. r = demo_asset s i n) \<and> (\<forall>x \<in> set (rw_assets s). \<not> as_id r = as_id x)) (\<lambda>s r. r)"
    unfolding demo_resources_def resource_env.simps
    by (rule list_delegate_table) (simp_all add: demo_crows_def demo_brows_def demo_prows_def)
  have rw: "demo_arows = (\<lambda>s. set (rw_assets s))" by (simp add: demo_arows_def fun_eq_iff)
  show ?case unfolding rw by (rule table_weaken[OF t]) (auto simp: asset_made_def demo_asset_def)
next
  case (5 P)
  show ?case by (simp add: keeps_def demo_resources_def demo_portfolios_def list_delegate_def)
next
  case (6 n)
  show ?case by (simp add: keeps_def demo_resources_def demo_portfolios_def list_delegate_def list_insert_def demo_arows_def)
next
  case (7 P f)
  show ?case by (simp add: keeps_def demo_resources_def demo_portfolios_def list_delegate_def list_replace_def
      demo_arows_def split: option.splits)
next
  case (8 P s r t)
  then show ?case by (auto simp: demo_resources_def demo_portfolios_def list_delegate_def deletes_also_def
      demo_cascade_def demo_arows_def split: option.splits)
next
  case (9 P le cursor k)
  have "\<exists>all. set all = {r \<in> set (rw_portfolios s). P r} \<and> distinct all \<and> (total_order le \<longrightarrow> sorted_wrt le all)
      \<and> page_after all cursor k (list_page (select_rows P le (rw_portfolios s)) cursor k)" for s
    using list_page_after by (intro exI[of _ "select_rows P le (rw_portfolios s)"]) (simp add: select_rows_props)
  then show ?case unfolding settles_def by (auto simp: demo_resources_def demo_prows_def simp del: ex_simps)
next
  case 10
  show ?case by (auto simp: demo_resources_def total_order_def)
next
  case (11 a b)
  then show ?case by (simp add: demo_resources_def)
qed

section \<open>The properties\<close>

context resource_ports
begin

lemma requests_leave:
  "keyed crows brows prows arows s \<Longrightarrow> \<forall>q \<in> set qs. fst q \<noteq> v \<Longrightarrow>
   keyed crows brows prows arows (resource_requests E qs s)
   \<and> belongings crows brows prows arows v (resource_requests E qs s) = belongings crows brows prows arows v s"
proof (induction qs arbitrary: s)
  case (Cons q qs)
  obtain r t where run: "resource_handle E (fst q) (snd q) s = (r, t)"
    by (cases "resource_handle E (fst q) (snd q) s")
  have "keyed crows brows prows arows t
      \<and> belongings crows brows prows arows v t = belongings crows brows prows arows v s"
    by (rule leavesD[OF handle_leaves TrueI Cons.prems(1) run]) (use Cons.prems(2) in simp)
  with Cons.IH[of t] Cons.prems(2) show ?case by (simp add: run)
qed simp

lemma pages_complete:
  assumes "\<And>cursor s. \<not> isl (fst (findAfter E (\<lambda>r. pf_userId r = u) (portfolio_order (id_le E)) cursor (lim + 1) s))"
    and "0 < lim" and "inj_on pf_id (prows s)" and "\<forall>p \<in> prows s. pf_id p \<noteq> ''''"
    and "card (mine pf_userId u (prows s)) < n"
  shows "\<exists>all t. portfolio_pages E u lim n None s = (Inr all, t) \<and> set all = mine pf_userId u (prows s)
    \<and> distinct all \<and> sorted_wrt (portfolio_order (id_le E)) all"
proof -
  obtain rs s1 where f: "findAfter E (\<lambda>r. pf_userId r = u) (portfolio_order (id_le E)) None (lim + 1) s = (Inr rs, s1)"
    using io_returns[where m = "findAfter E (\<lambda>r. pf_userId r = u) (portfolio_order (id_le E)) None (lim + 1)" and s = s]
      assms(1) by blast
  have total: "total_order (portfolio_order (id_le E))" by (rule portfolio_order_total[OF ids_ordered(1)])
  from settles_Inr[OF after f] obtain all where set: "set all = {r \<in> prows s. pf_userId r = u}"
    and "distinct all" and "total_order (portfolio_order (id_le E)) \<longrightarrow> sorted_wrt (portfolio_order (id_le E)) all"
    by (elim conjE exE)
  with total have all: "set all = mine pf_userId u (prows s)" "distinct all" "sorted_wrt (portfolio_order (id_le E)) all"
    by (simp_all add: mine_def)
  have "length all < n" using distinct_card[OF all(2)] all(1) assms(5) by simp
  moreover have "\<forall>p \<in> set all. pf_id p \<noteq> ''''" using assms(4) all(1) by (simp add: mine_def)
  ultimately have "\<exists>t. portfolio_pages E u lim n None s = (Inr (drop 0 all), t)"
    using pages_from[OF assms(1,2,3) all, where k = 0 and cursor = None] by simp
  then show ?thesis using all by auto
qed

end

definition demo_shelf :: resource_world where
  "demo_shelf = \<lparr>rw_cards = [\<lparr>cd_id = ''c1'', cd_userId = ''ana'', cd_type = ''LOCAL'', cd_maskedNumber = ''1'',
       cd_isActive = True, cd_isFrozen = False, cd_createdAt = 1, cd_updatedAt = 1\<rparr>],
     rw_beneficiaries = [],
     rw_portfolios = [\<lparr>pf_id = ''p1'', pf_userId = ''ana'', pf_name = ''old'', pf_description = None, pf_createdAt = 1, pf_updatedAt = 1\<rparr>,
       \<lparr>pf_id = ''p2'', pf_userId = ''ana'', pf_name = ''new'', pf_description = None, pf_createdAt = 2, pf_updatedAt = 2\<rparr>,
       \<lparr>pf_id = ''p3'', pf_userId = ''ana'', pf_name = ''twin'', pf_description = None, pf_createdAt = 2, pf_updatedAt = 2\<rparr>],
     rw_assets = [\<lparr>as_id = ''a1'', as_portfolioId = ''p1'', as_symbol = ''BTC'', as_type = ''CRYPTO'',
       as_quantity = 1, as_avgBuyPrice = 1, as_currency = ''USD''\<rparr>],
     rw_clock = 3\<rparr>"

lemma demo_shelf_keyed: "keyed demo_crows demo_brows demo_prows demo_arows demo_shelf"
  by (simp add: keyed_def demo_crows_def demo_brows_def demo_prows_def demo_arows_def demo_shelf_def)

text \<open>C33. Ownership: whatever requests the other users make on cards, beneficiaries, portfolios and assets,
  with whatever identifiers, in whatever order, a user's cards, beneficiaries, portfolios and the assets
  in them stay as they were.\<close>

theorem resources_isolated:
  assumes "resource_ports E crows brows prows arows rnow" and "keyed crows brows prows arows s"
    and "\<forall>q \<in> set qs. fst q \<noteq> v"
  shows "belongings crows brows prows arows v (resource_requests E qs s) = belongings crows brows prows arows v s"
  using resource_ports.requests_leave[OF assms] by blast

text \<open>Another user tries to freeze a card of Ana's, and to delete her portfolio and an asset of it, and makes
  a portfolio; the first three fail.\<close>

theorem resources_isolated_witness:
  "let qs = [(''eve'', CardRoute (Freeze ''c1'')), (''eve'', PortfolioRoute (DeletePortfolio ''p1'')),
             (''eve'', PortfolioRoute (RemoveAsset ''p1'' ''a1'')),
             (''eve'', PortfolioRoute (CreatePortfolio ''mine'' None))];
       t = resource_requests demo_resources qs demo_shelf
   in belongings demo_crows demo_brows demo_prows demo_arows ''ana'' t
        = belongings demo_crows demo_brows demo_prows demo_arows ''ana'' demo_shelf
      \<and> length (rw_portfolios t) = 4 \<and> length (rw_cards t) = 1"
proof -
  let ?qs = "[(''eve'', CardRoute (Freeze ''c1'')), (''eve'', PortfolioRoute (DeletePortfolio ''p1'')),
             (''eve'', PortfolioRoute (RemoveAsset ''p1'' ''a1'')),
             (''eve'', PortfolioRoute (CreatePortfolio ''mine'' None))]"
  have "\<forall>q \<in> set ?qs. fst q \<noteq> ''ana''" by simp
  from resources_isolated[OF demo_resources.resource_ports_axioms demo_shelf_keyed this]
  have 1: "belongings demo_crows demo_brows demo_prows demo_arows ''ana'' (resource_requests demo_resources ?qs demo_shelf)
        = belongings demo_crows demo_brows demo_prows demo_arows ''ana'' demo_shelf" .
  have 2: "length (rw_portfolios (resource_requests demo_resources ?qs demo_shelf)) = 4
      \<and> length (rw_cards (resource_requests demo_resources ?qs demo_shelf)) = 1" by code_simp
  from 1 2 show ?thesis unfolding Let_def by blast
qed

text \<open>C34. Pagination: a client that follows \<open>nextCursor\<close> from the first page gets, in one more request than
  there are portfolios at most, every portfolio of the user exactly once, newest first and by
  identifier among the equally new, whatever the size of the page.\<close>

theorem portfolio_pages_complete:
  assumes "resource_ports E crows brows prows arows rnow"
    and "\<And>cursor s. \<not> isl (fst (findAfter E (\<lambda>r. pf_userId r = u) (portfolio_order (id_le E)) cursor (lim + 1) s))"
    and "0 < lim" and "inj_on pf_id (prows s)" and "\<forall>p \<in> prows s. pf_id p \<noteq> ''''"
    and "card {p \<in> prows s. pf_userId p = u} < n"
  shows "\<exists>all t. portfolio_pages E u lim n None s = (Inr all, t) \<and> set all = {p \<in> prows s. pf_userId p = u}
    \<and> distinct all \<and> sorted_wrt (portfolio_order (id_le E)) all"
  using resource_ports.pages_complete[OF assms(1-5)] assms(6) by (simp add: mine_def)

theorem portfolio_pages_complete_witness:
  "(\<exists>all t. portfolio_pages demo_resources ''ana'' 2 4 None demo_shelf = (Inr all, t)
      \<and> set all = {p \<in> demo_prows demo_shelf. pf_userId p = ''ana''} \<and> distinct all
      \<and> sorted_wrt (portfolio_order (id_le demo_resources)) all)
   \<and> map_sum (\<lambda>_. ()) (map pf_id) (fst (portfolio_pages demo_resources ''ana'' 2 4 None demo_shelf))
       = Inr [''p3'', ''p2'', ''p1'']"
proof
  show "\<exists>all t. portfolio_pages demo_resources ''ana'' 2 4 None demo_shelf = (Inr all, t)
      \<and> set all = {p \<in> demo_prows demo_shelf. pf_userId p = ''ana''} \<and> distinct all
      \<and> sorted_wrt (portfolio_order (id_le demo_resources)) all"
  proof (rule portfolio_pages_complete[OF demo_resources.resource_ports_axioms])
    show "\<not> isl (fst (findAfter demo_resources (\<lambda>r. pf_userId r = ''ana'')
        (portfolio_order (id_le demo_resources)) cursor (2 + 1) s))" for cursor s
      by (simp add: demo_resources_def)
    show "inj_on pf_id (demo_prows demo_shelf)" using demo_shelf_keyed by (simp add: keyed_def)
    show "\<forall>p \<in> demo_prows demo_shelf. pf_id p \<noteq> ''''" by (simp add: demo_prows_def demo_shelf_def)
    have "card {p \<in> demo_prows demo_shelf. pf_userId p = ''ana''} \<le> card (demo_prows demo_shelf)"
      by (rule card_mono) (auto simp: demo_prows_def)
    also have "\<dots> \<le> length (rw_portfolios demo_shelf)" unfolding demo_prows_def by (rule card_length)
    finally show "card {p \<in> demo_prows demo_shelf. pf_userId p = ''ana''} < 4" by (simp add: demo_shelf_def)
  qed simp
next
  show "map_sum (\<lambda>_. ()) (map pf_id) (fst (portfolio_pages demo_resources ''ana'' 2 4 None demo_shelf))
       = Inr [''p3'', ''p2'', ''p1'']" by code_simp
qed

end
