(* ===== verification/Transactions.thy ===== *)
theory Transactions
  imports Prisma_Wallet
begin

text \<open>
  \<open>TransactionService\<close> (\<open>transaction.service.ts\<close>): a user's history, a page at a time, and one
  transaction of it. The relations the queries include are columns of the row here (the currencies
  of the two wallets); \<open>new Date\<close> is a parameter, its result a number of milliseconds.
\<close>

section \<open>The service\<close>

record listed_tx = tx_row +
  lt_walletCurrency :: currency
  lt_toWalletCurrency :: "currency option"

text \<open>\<open>GetTransactionsInterface\<close>; the DTO lets pages and limits from one.\<close>

record get_transactions =
  gt_userId :: string
  gt_page :: nat
  gt_limit :: nat
  gt_type :: "string option"
  gt_currency :: "currency option"
  gt_dateFrom :: "string option"
  gt_dateTo :: "string option"

record transactions_page =
  tp_data :: "listed_tx list"
  tp_total :: nat
  tp_page :: nat
  tp_limit :: nat
  tp_totalPages :: nat

record 's history_env =
  h_wallets :: "('s, wallet_row, new_wallet) delegate"
  h_transactions :: "('s, listed_tx, new_tx_row) delegate"
  new_Date :: "string \<Rightarrow> int"

definition tx_newest :: "listed_tx \<Rightarrow> listed_tx \<Rightarrow> bool" where
  "tx_newest a b \<longleftrightarrow> xr_createdAt b \<le> xr_createdAt a"

text \<open>An absent member of a \<open>where\<close> does not restrict.\<close>

definition transactions_where :: "'s history_env \<Rightarrow> get_transactions \<Rightarrow> string list \<Rightarrow> listed_tx \<Rightarrow> bool" where
  "transactions_where H q walletIds r \<longleftrightarrow>
     xr_walletId r \<in> set walletIds
     \<and> (case gt_type q of None \<Rightarrow> True | Some ty \<Rightarrow> xr_type r = ty)
     \<and> (case gt_currency q of None \<Rightarrow> True | Some c \<Rightarrow> xr_currency r = c)
     \<and> (case truthy (gt_dateFrom q) of None \<Rightarrow> True | Some d \<Rightarrow> new_Date H d \<le> xr_createdAt r)
     \<and> (case truthy (gt_dateTo q) of None \<Rightarrow> True | Some d \<Rightarrow> xr_createdAt r \<le> new_Date H d)"

text \<open>\<open>Math.ceil(total / limit)\<close>.\<close>

definition ceil_div :: "nat \<Rightarrow> nat \<Rightarrow> nat" where
  "ceil_div rowCount limit = (rowCount + limit - 1) div limit"

definition transaction_findAll :: "'s history_env \<Rightarrow> get_transactions \<Rightarrow> ('s, transactions_page) io" where
  "transaction_findAll H q =
     seqM (findMany (h_wallets H) (\<lambda>w. wr_userId w = Some (gt_userId q)) anyOrder) (\<lambda>wallets.
     let walletIds = map wr_id wallets;
         skip = (gt_page q - 1) * gt_limit q
     in seqM (findPage (h_transactions H) (transactions_where H q walletIds) tx_newest skip (gt_limit q)) (\<lambda>data.
        seqM (count (h_transactions H) (transactions_where H q walletIds)) (\<lambda>rowCount.
        ret \<lparr>tp_data = data, tp_total = rowCount, tp_page = gt_page q, tp_limit = gt_limit q,
             tp_totalPages = ceil_div rowCount (gt_limit q)\<rparr>)))"

definition transaction_findOne :: "'s history_env \<Rightarrow> string \<Rightarrow> string \<Rightarrow> ('s, listed_tx) io" where
  "transaction_findOne H i userId =
     seqM (findMany (h_wallets H) (\<lambda>w. wr_userId w = Some userId) anyOrder) (\<lambda>wallets.
     seqM (findFirst (h_transactions H) (\<lambda>r. xr_id r = i \<and> xr_walletId r \<in> set (map wr_id wallets))) (\<lambda>transaction.
     assertFound transaction ''Transaction''))"

section \<open>What the service relies on\<close>

locale history_ports =
  fixes H :: "'s history_env" and hwrows :: "'s \<Rightarrow> wallet_row set" and htrows :: "'s \<Rightarrow> listed_tx set"
  assumes hwtab: "table (h_wallets H) hwrows htrows (\<lambda>s n r. wallet_made n r) (\<lambda>s r. r)"
    and httab: "table (h_transactions H) htrows hwrows (\<lambda>s n r. True) (\<lambda>s r. r)"

text \<open>The rows a query is about: of a wallet of the user, and as the filters ask.\<close>

definition asked_for :: "'s history_env \<Rightarrow> get_transactions \<Rightarrow> wallet_row set \<Rightarrow> listed_tx \<Rightarrow> bool" where
  "asked_for H q W r \<longleftrightarrow> (\<exists>w \<in> W. wr_id w = xr_walletId r \<and> wr_userId w = Some (gt_userId q))
     \<and> gt_type q \<in> {None, Some (xr_type r)} \<and> gt_currency q \<in> {None, Some (xr_currency r)}
     \<and> (\<forall>d. truthy (gt_dateFrom q) = Some d \<longrightarrow> new_Date H d \<le> xr_createdAt r)
     \<and> (\<forall>d. truthy (gt_dateTo q) = Some d \<longrightarrow> xr_createdAt r \<le> new_Date H d)"

lemma ceil_div_props:
  assumes "0 < limit"
  shows "ceil_div rowCount limit < page \<longleftrightarrow> 0 < page \<and> rowCount \<le> (page - 1) * limit"
proof (cases page)
  case (Suc k)
  have "ceil_div rowCount limit < Suc k \<longleftrightarrow> ceil_div rowCount limit \<le> k" by auto
  also have "\<dots> \<longleftrightarrow> (rowCount + limit - 1) div limit < k + 1" by (auto simp: ceil_div_def)
  also have "\<dots> \<longleftrightarrow> rowCount + limit - 1 < (k + 1) * limit" using assms by (rule div_less_iff_less_mult)
  also have "\<dots> \<longleftrightarrow> rowCount \<le> k * limit" using assms by auto
  finally show ?thesis using Suc by simp
qed simp

context history_ports
begin

lemmas hw_returns = table.returns[OF hwtab]
lemmas ht_returns = table.returns[OF httab]

lemma where_asked_for:
  assumes "set wallets = {w \<in> W. wr_userId w = Some (gt_userId q)}"
  shows "transactions_where H q (map wr_id wallets) r = asked_for H q W r"
proof -
  have "xr_walletId r \<in> set (map wr_id wallets) \<longleftrightarrow> (\<exists>w \<in> W. wr_id w = xr_walletId r \<and> wr_userId w = Some (gt_userId q))"
    unfolding set_map assms by (auto simp: image_iff eq_commute)
  then show ?thesis
    unfolding transactions_where_def asked_for_def by (auto split: option.splits)
qed

lemma tx_newest_total: "total_order tx_newest"
  by (auto simp: total_order_def tx_newest_def)

lemma findAll_returns:
  assumes run: "transaction_findAll H q s = (Inr p, t)" and "0 < gt_limit q" and "0 < gt_page q"
  shows "htrows t = htrows s \<and> hwrows t = hwrows s
    \<and> set (tp_data p) \<subseteq> {r \<in> htrows s. asked_for H q (hwrows s) r} \<and> distinct (tp_data p)
    \<and> sorted_wrt tx_newest (tp_data p)
    \<and> tp_total p = card {r \<in> htrows s. asked_for H q (hwrows s) r}
    \<and> length (tp_data p) = min (gt_limit q) (tp_total p - (gt_page q - 1) * gt_limit q)
    \<and> (tp_data p = [] \<longleftrightarrow> tp_totalPages p < gt_page q)"
proof -
  from run obtain wallets s1 rows s2 rowCount where
    w: "findMany (h_wallets H) (\<lambda>w. wr_userId w = Some (gt_userId q)) anyOrder s = (Inr wallets, s1)"
    and d: "findPage (h_transactions H) (transactions_where H q (map wr_id wallets)) tx_newest
      ((gt_page q - 1) * gt_limit q) (gt_limit q) s1 = (Inr rows, s2)"
    and n: "count (h_transactions H) (transactions_where H q (map wr_id wallets)) s2 = (Inr rowCount, t)"
    and p: "p = \<lparr>tp_data = rows, tp_total = rowCount, tp_page = gt_page q, tp_limit = gt_limit q,
      tp_totalPages = ceil_div rowCount (gt_limit q)\<rparr>"
    by (auto simp: transaction_findAll_def seqM_Inr io_prim_iff Let_def)
  have W: "set wallets = {w \<in> hwrows s. wr_userId w = Some (gt_userId q)}" "hwrows s1 = hwrows s" "htrows s1 = htrows s"
    using hw_returns(2)[OF w] by auto
  from ht_returns(3)[OF d] tx_newest_total obtain all where
    all: "set all = {r \<in> htrows s. asked_for H q (hwrows s) r}" "distinct all" "sorted_wrt tx_newest all"
      "rows = take (gt_limit q) (drop ((gt_page q - 1) * gt_limit q) all)" and same: "htrows s2 = htrows s" "hwrows s2 = hwrows s"
    unfolding where_asked_for[OF W(1)] W(2,3) by blast
  have rowCount: "rowCount = length all" "htrows t = htrows s" "hwrows t = hwrows s"
    using ht_returns(4)[OF n] all(1,2) distinct_card[of all] same by (simp_all add: where_asked_for[OF W(1)])
  have "set rows \<subseteq> set all" unfolding all(4) by (meson in_set_dropD in_set_takeD subsetI)
  moreover have "length rows = min (gt_limit q) (rowCount - (gt_page q - 1) * gt_limit q)"
    using all(4) rowCount(1) by (simp add: min.commute)
  moreover have "rows = [] \<longleftrightarrow> ceil_div rowCount (gt_limit q) < gt_page q"
    unfolding ceil_div_props[OF assms(2)] using all(4) rowCount(1) assms(2,3) by simp
  moreover have "sorted_wrt tx_newest rows" "distinct rows"
    using all(2-4) by (simp_all add: sorted_wrt_take sorted_wrt_drop)
  ultimately show ?thesis using p rowCount all(1,2) distinct_card[of all] by simp
qed


end

context history_ports
begin

lemma findOne_returns:
  assumes run: "transaction_findOne H i u s = (Inr x, t)"
  shows "x \<in> htrows s \<and> xr_id x = i \<and> (\<exists>w \<in> hwrows s. wr_id w = xr_walletId x \<and> wr_userId w = Some u)
    \<and> htrows t = htrows s \<and> hwrows t = hwrows s"
proof -
  from run obtain wallets s1 where
    w: "findMany (h_wallets H) (\<lambda>w. wr_userId w = Some u) anyOrder s = (Inr wallets, s1)"
    and f: "findFirst (h_transactions H) (\<lambda>r. xr_id r = i \<and> xr_walletId r \<in> set (map wr_id wallets)) s1 = (Inr (Some x), t)"
    by (auto simp: transaction_findOne_def seqM_Inr assertFound_iff)
  from hw_returns(2)[OF w] have W: "set wallets = {w \<in> hwrows s. wr_userId w = Some u}" "hwrows s1 = hwrows s" "htrows s1 = htrows s"
    by auto
  have "xr_walletId x \<in> wr_id ` set wallets" using ht_returns(1)[OF f] by auto
  then have "\<exists>w \<in> hwrows s. wr_id w = xr_walletId x \<and> wr_userId w = Some u" unfolding W(1) by auto
  then show ?thesis using ht_returns(1)[OF f] W(2,3) by auto
qed

end

section \<open>A concrete history\<close>

record history_world =
  hd_wallets :: "wallet_row list"
  hd_txs :: "listed_tx list"

definition demo_hwallet :: "history_world \<Rightarrow> nat \<Rightarrow> new_wallet \<Rightarrow> wallet_row" where
  "demo_hwallet s k n = \<lparr>wr_id = replicate (length (hd_wallets s) + k) CHR ''w'', wr_userId = Some (nw_userId n),
     wr_currency = nw_currency n, wr_balance = nw_balance n, wr_version = nw_version n\<rparr>"

definition demo_htx :: "string \<Rightarrow> string \<Rightarrow> int \<Rightarrow> listed_tx" where
  "demo_htx i w at = \<lparr>xr_id = i, xr_walletId = w, xr_toWalletId = None, xr_type = ''DEPOSIT'', xr_amount = 100,
     xr_currency = USD, xr_status = ''COMPLETED'', xr_description = None, xr_category = None, xr_metadata = None,
     xr_reversesTransactionId = None, xr_createdAt = at, lt_walletCurrency = USD, lt_toWalletCurrency = None\<rparr>"

definition demo_hrow :: "history_world \<Rightarrow> nat \<Rightarrow> new_tx_row \<Rightarrow> listed_tx" where
  "demo_hrow s k n = demo_htx (replicate (length (hd_txs s) + k) CHR ''t'') (nx_walletId n) 0"

definition demo_history :: "history_world history_env" where
  "demo_history = \<lparr>
     h_wallets = list_delegate hd_wallets (\<lambda>rs s. s\<lparr>hd_wallets := rs\<rparr>) demo_hwallet (\<lambda>s r. r) (\<lambda>r x. wr_id r = wr_id x),
     h_transactions = list_delegate hd_txs (\<lambda>rs s. s\<lparr>hd_txs := rs\<rparr>) demo_hrow (\<lambda>s r. r) (\<lambda>r x. xr_id r = xr_id x),
     new_Date = (\<lambda>t. int (length t))\<rparr>"

definition demo_hwrows :: "history_world \<Rightarrow> wallet_row set" where "demo_hwrows s = set (hd_wallets s)"
definition demo_htrows :: "history_world \<Rightarrow> listed_tx set" where "demo_htrows s = set (hd_txs s)"

interpretation demo_history: history_ports demo_history demo_hwrows demo_htrows
proof (rule history_ports.intro)
  have t: "table (h_wallets demo_history) (\<lambda>s. set (hd_wallets s)) demo_htrows
      (\<lambda>s n r. (\<exists>i. r = demo_hwallet s i n) \<and> (\<forall>x \<in> set (hd_wallets s). \<not> wr_id r = wr_id x)) (\<lambda>s r. r)"
    unfolding demo_history_def history_env.simps by (rule list_delegate_table) (simp_all add: demo_htrows_def)
  have rw: "demo_hwrows = (\<lambda>s. set (hd_wallets s))" by (simp add: demo_hwrows_def fun_eq_iff)
  show "table (h_wallets demo_history) demo_hwrows demo_htrows (\<lambda>s. wallet_made) (\<lambda>s r. r)"
    unfolding rw by (rule table_weaken[OF t]) (auto simp: wallet_made_def demo_hwallet_def)
next
  have t: "table (h_transactions demo_history) (\<lambda>s. set (hd_txs s)) demo_hwrows
      (\<lambda>s n r. (\<exists>i. r = demo_hrow s i n) \<and> (\<forall>x \<in> set (hd_txs s). \<not> xr_id r = xr_id x)) (\<lambda>s r. r)"
    unfolding demo_history_def history_env.simps by (rule list_delegate_table) (simp_all add: demo_hwrows_def)
  have rw: "demo_htrows = (\<lambda>s. set (hd_txs s))" by (simp add: demo_htrows_def fun_eq_iff)
  show "table (h_transactions demo_history) demo_htrows demo_hwrows (\<lambda>s n r. True) (\<lambda>s r. r)"
    unfolding rw by (rule table_weaken[OF t]) simp
qed

text \<open>C35. A page of the history: it holds transactions of the user's own wallets that pass the filters,
  each once, newest first; \<open>total\<close> counts all of those; the page has the length the limit and the
  remainder give; and it is empty exactly when its number is beyond \<open>totalPages\<close>.\<close>

theorem transactions_page:
  assumes "history_ports H W T" and "transaction_findAll H q s = (Inr p, t)"
    and "0 < gt_limit q" and "0 < gt_page q"
  shows "set (tp_data p) \<subseteq> {r \<in> T s. asked_for H q (W s) r} \<and> distinct (tp_data p)
    \<and> sorted_wrt tx_newest (tp_data p)
    \<and> tp_total p = card {r \<in> T s. asked_for H q (W s) r}
    \<and> length (tp_data p) = min (gt_limit q) (tp_total p - (gt_page q - 1) * gt_limit q)
    \<and> (tp_data p = [] \<longleftrightarrow> tp_totalPages p < gt_page q)"
  using history_ports.findAll_returns[OF assms] by blast

definition demo_past :: history_world where
  "demo_past = \<lparr>hd_wallets = [\<lparr>wr_id = ''w1'', wr_userId = Some ''ana'', wr_currency = USD, wr_balance = 300, wr_version = 4\<rparr>,
       \<lparr>wr_id = ''w2'', wr_userId = Some ''eve'', wr_currency = USD, wr_balance = 100, wr_version = 2\<rparr>],
     hd_txs = [demo_htx ''t1'' ''w1'' 1, demo_htx ''t2'' ''w1'' 2, demo_htx ''t3'' ''w2'' 3, demo_htx ''t4'' ''w1'' 4]\<rparr>"

definition demo_second_page :: get_transactions where
  "demo_second_page = \<lparr>gt_userId = ''ana'', gt_page = 2, gt_limit = 2, gt_type = None, gt_currency = Some USD,
     gt_dateFrom = None, gt_dateTo = None\<rparr>"

theorem transactions_page_witness:
  "\<exists>p t. transaction_findAll demo_history demo_second_page demo_past = (Inr p, t)
     \<and> (tp_data p = [] \<longleftrightarrow> tp_totalPages p < gt_page demo_second_page)
     \<and> map xr_id (tp_data p) = [''t1''] \<and> tp_total p = 3 \<and> tp_totalPages p = 2"
proof -
  let ?m = "transaction_findAll demo_history demo_second_page demo_past"
  have v: "map_sum (\<lambda>_. ()) (\<lambda>p. (map xr_id (tp_data p), tp_total p, tp_totalPages p)) (fst ?m) = Inr ([''t1''], 3, 2)"
    by code_simp
  then obtain p t where m: "?m = (Inr p, t)" by (cases ?m; cases "fst ?m") auto
  have "0 < gt_limit demo_second_page" "0 < gt_page demo_second_page" by (simp_all add: demo_second_page_def)
  from transactions_page[OF demo_history.history_ports_axioms m this] m v show ?thesis by auto
qed

end
