(* ===== verification/Investment.thy ===== *)
theory Investment
  imports Prisma_Wallet
begin

text \<open>
  \<open>InvestmentService\<close> (\<open>investment.service.ts\<close>): buying and selling assets from the dollar wallet. It
  computes with JavaScript numbers, a type parameter \<open>'n\<close> with the operations the code calls; \<open>'d\<close> is
  what a decimal column of an asset or an investment holds. A trade is split where the code goes from
  reading to writing, so that two of them can be interleaved statement by statement, as the database's
  default isolation level lets them; unlike the wallet handlers, it neither tests nor raises the
  wallet's version. What then stands between two purchases and a balance below zero is the column's
  \<open>CHECK (balance >= 0)\<close> of the migration \<open>20260923120000\<close>: \<open>checked_invest_ports\<close>.
\<close>

section \<open>Rows and parameters\<close>

record 'd quoted_asset =
  at_id :: string
  at_symbol :: string
  at_name :: string
  at_type :: string
  at_currentPrice :: 'd

record 'd investment_row =
  iv_id :: string
  iv_userId :: string
  iv_assetId :: string
  iv_quantity :: 'd
  iv_avgBuyPrice :: 'd
  iv_currentValue :: 'd
  iv_createdAt :: int

record 'n new_investment =
  ni_userId :: string
  ni_assetId :: string
  ni_quantity :: 'n
  ni_avgBuyPrice :: 'n
  ni_currentValue :: 'n

record 'n new_trade =
  td_walletId :: string
  td_type :: string
  td_amount :: 'n
  td_currency :: currency
  td_status :: string
  td_description :: string
  td_category :: string
  td_assetId :: string
  td_symbol :: string
  td_quantity :: 'n
  td_price :: 'n
  td_proceeds :: "'n option"

record 'n buy_input =
  bi_userId :: string
  bi_assetId :: string
  bi_amount :: 'n

record 'n sell_input =
  sl_userId :: string
  sl_assetId :: string
  sl_quantity :: 'n

datatype ('d, 'n) trade_result =
    Bought "'d investment_row" "'d quoted_asset"
  | Sold "'d investment_row" "'d quoted_asset option" 'n

record ('s, 'd, 'n) invest_env =
  i_assets :: "('s, 'd quoted_asset, unit) delegate"
  i_investments :: "('s, 'd investment_row, 'n new_investment) delegate"
  i_wallets :: "('s, wallet_row, new_wallet) delegate"
  i_insert :: "'n new_trade \<Rightarrow> ('s, tx_row) io"
  i_transaction :: "('s, ('d, 'n) trade_result) io \<Rightarrow> ('s, ('d, 'n) trade_result) io"
  n_zero :: 'n
  n_plus :: "'n \<Rightarrow> 'n \<Rightarrow> 'n"
  n_minus :: "'n \<Rightarrow> 'n \<Rightarrow> 'n"
  n_times :: "'n \<Rightarrow> 'n \<Rightarrow> 'n"
  n_div :: "'n \<Rightarrow> 'n \<Rightarrow> 'n"
  n_less :: "'n \<Rightarrow> 'n \<Rightarrow> bool"
  fixed2 :: "'n \<Rightarrow> 'n"
  fixed8 :: "'n \<Rightarrow> 'n"
  n_toString :: "'n \<Rightarrow> string"
  n_100 :: 'n
  Number_of :: "'d \<Rightarrow> 'n"
  stored :: "'n \<Rightarrow> 'd"
  incremented :: "'d \<Rightarrow> 'n \<Rightarrow> 'd"
  balance_Number :: "int \<Rightarrow> 'n"
  balance_plus :: "int \<Rightarrow> 'n \<Rightarrow> int"
  balance_minus :: "int \<Rightarrow> 'n \<Rightarrow> int"

section \<open>The service\<close>

definition by_symbol :: "(string \<Rightarrow> string \<Rightarrow> bool) \<Rightarrow> 'd quoted_asset \<Rightarrow> 'd quoted_asset \<Rightarrow> bool" where
  "by_symbol le a b = le (at_symbol a) (at_symbol b)"

definition getAssets :: "(string \<Rightarrow> string \<Rightarrow> bool) \<Rightarrow> ('s, 'd, 'n) invest_env \<Rightarrow> ('s, 'd quoted_asset list) io" where
  "getAssets le E = findMany (i_assets E) (\<lambda>_. True) (by_symbol le)"

definition oldest_first :: "'d investment_row \<Rightarrow> 'd investment_row \<Rightarrow> bool" where
  "oldest_first a b \<longleftrightarrow> iv_createdAt a \<le> iv_createdAt b"

text \<open>\<open>include: { asset: true }\<close>: the relation is required, so a row without its asset is refused.\<close>

definition with_asset ::
  "('s, 'd, 'n) invest_env \<Rightarrow> 'd investment_row \<Rightarrow> ('s, 'd investment_row \<times> 'd quoted_asset) io" where
  "with_asset E r =
     seqM (findFirst (i_assets E) (\<lambda>a. at_id a = iv_assetId r)) (\<lambda>q.
     case q of Some a \<Rightarrow> ret (r, a) | None \<Rightarrow> throw (DriverError None None None))"

primrec with_assets ::
  "('s, 'd, 'n) invest_env \<Rightarrow> 'd investment_row list \<Rightarrow> ('s, ('d investment_row \<times> 'd quoted_asset) list) io" where
  "with_assets E [] = ret []"
| "with_assets E (r # rs) =
     seqM (with_asset E r) (\<lambda>x. seqM (with_assets E rs) (\<lambda>xs. ret (x # xs)))"

record ('d, 'n) positions =
  ps_investments :: "('d investment_row \<times> 'd quoted_asset) list"
  ps_totalValue :: 'n
  ps_totalCost :: 'n
  ps_totalPnL :: 'n
  ps_totalPnLPercent :: 'n

definition getPortfolio :: "('s, 'd, 'n) invest_env \<Rightarrow> string \<Rightarrow> ('s, ('d, 'n) positions) io" where
  "getPortfolio E userId =
     seqM (findMany (i_investments E) (\<lambda>r. iv_userId r = userId) oldest_first) (\<lambda>rows.
     seqM (with_assets E rows) (\<lambda>investments.
     let totalValue = foldl (\<lambda>sum inv. n_plus E sum (Number_of E (iv_currentValue (fst inv)))) (n_zero E) investments;
         totalCost = foldl (\<lambda>sum inv. n_plus E sum (n_times E (Number_of E (iv_avgBuyPrice (fst inv)))
                                                        (Number_of E (iv_quantity (fst inv))))) (n_zero E) investments
     in ret \<lparr>ps_investments = investments, ps_totalValue = fixed2 E totalValue, ps_totalCost = fixed2 E totalCost,
          ps_totalPnL = fixed2 E (n_minus E totalValue totalCost),
          ps_totalPnLPercent = (if n_less E (n_zero E) totalCost
             then fixed2 E (n_times E (n_div E (n_minus E totalValue totalCost) totalCost) (n_100 E))
             else n_zero E)\<rparr>))"

definition userId_assetId :: "string \<Rightarrow> string \<Rightarrow> 'd investment_row \<Rightarrow> bool" where
  "userId_assetId u a r \<longleftrightarrow> iv_userId r = u \<and> iv_assetId r = a"

definition buy_reads ::
  "('s, 'd, 'n) invest_env \<Rightarrow> 'n buy_input
   \<Rightarrow> ('s, 'd quoted_asset \<times> wallet_row \<times> 'd investment_row option) io" where
  "buy_reads E inp =
     seqM (findFirst (i_assets E) (\<lambda>a. at_id a = bi_assetId inp)) (\<lambda>asset.
     seqM (findFirst (i_wallets E) (userId_currency (bi_userId inp) USD)) (\<lambda>usdWallet.
     seqM (assertFound asset ''Asset'') (\<lambda>a.
     seqM (assertFound usdWallet ''USD wallet'') (\<lambda>w.
     if n_less E (balance_Number E (wr_balance w)) (bi_amount inp) then
       throw (UnprocessableEntityException ''Insufficient USD balance'')
     else
       seqM (findFirst (i_investments E) (userId_assetId (bi_userId inp) (bi_assetId inp))) (\<lambda>existing.
       ret (a, w, existing))))))"

definition buy_quantity :: "('s, 'd, 'n) invest_env \<Rightarrow> 'n buy_input \<Rightarrow> 'd quoted_asset \<Rightarrow> 'n" where
  "buy_quantity E inp asset = fixed8 E (n_div E (bi_amount inp) (Number_of E (at_currentPrice asset)))"

text \<open>\<open>Compra \<dots> -- \<dots> unidades\<close>, in UTF-8.\<close>

definition trade_description :: "string \<Rightarrow> string \<Rightarrow> string \<Rightarrow> string" where
  "trade_description verb symbol quantity =
     verb @ '' '' @ symbol @ '' '' @ [CHR 0xE2, CHR 0x80, CHR 0x94] @ '' '' @ quantity @ '' unidades''"

definition bought_more ::
  "('s, 'd, 'n) invest_env \<Rightarrow> 'd investment_row \<Rightarrow> 'n \<Rightarrow> 'n \<Rightarrow> 'd investment_row \<Rightarrow> 'd investment_row" where
  "bought_more E existing quantity price r =
     (let held = Number_of E (iv_quantity existing) in
      r\<lparr>iv_quantity := incremented E (iv_quantity r) quantity,
        iv_avgBuyPrice := stored E (fixed2 E (n_div E
          (n_plus E (n_times E held (Number_of E (iv_avgBuyPrice existing))) (n_times E quantity price))
          (n_plus E held quantity))),
        iv_currentValue := stored E (fixed2 E (n_times E (n_plus E held quantity) price))\<rparr>)"

definition buy_writes ::
  "('s, 'd, 'n) invest_env \<Rightarrow> 'n buy_input \<Rightarrow> 'd quoted_asset \<times> wallet_row \<times> 'd investment_row option
   \<Rightarrow> ('s, ('d, 'n) trade_result) io" where
  "buy_writes E inp c = (case c of (asset, usdWallet, existing) \<Rightarrow>
     (let price = Number_of E (at_currentPrice asset); quantity = buy_quantity E inp asset in
      seqM (seqM (case existing of
              Some ex \<Rightarrow> update (i_investments E) (userId_assetId (bi_userId inp) (bi_assetId inp))
                           (bought_more E ex quantity price)
            | None \<Rightarrow> create (i_investments E)
                \<lparr>ni_userId = bi_userId inp, ni_assetId = bi_assetId inp, ni_quantity = quantity,
                 ni_avgBuyPrice = price, ni_currentValue = fixed2 E (n_times E quantity price)\<rparr>)
            (with_asset E)) (\<lambda>investment.
      seqM (i_insert E \<lparr>td_walletId = wr_id usdWallet, td_type = ''INVESTMENT_BUY'', td_amount = bi_amount inp,
              td_currency = USD, td_status = ''COMPLETED'',
              td_description = trade_description ''Compra'' (at_symbol asset) (n_toString E quantity),
              td_category = ''INVESTMENT'', td_assetId = bi_assetId inp, td_symbol = at_symbol asset,
              td_quantity = quantity, td_price = price, td_proceeds = None\<rparr>) (\<lambda>_.
      seqM (update (i_wallets E) (\<lambda>r. wr_id r = wr_id usdWallet)
              (\<lambda>r. r\<lparr>wr_balance := balance_minus E (wr_balance r) (bi_amount inp)\<rparr>)) (\<lambda>_.
      ret (Bought (fst investment) (snd investment)))))))"

definition investment_buy :: "('s, 'd, 'n) invest_env \<Rightarrow> 'n buy_input \<Rightarrow> ('s, ('d, 'n) trade_result) io" where
  "investment_buy E inp = i_transaction E (seqM (buy_reads E inp) (buy_writes E inp))"

definition sell_reads ::
  "('s, 'd, 'n) invest_env \<Rightarrow> 'n sell_input
   \<Rightarrow> ('s, 'd investment_row \<times> 'd quoted_asset \<times> wallet_row) io" where
  "sell_reads E inp =
     seqM (findFirst (i_investments E) (userId_assetId (sl_userId inp) (sl_assetId inp))) (\<lambda>q.
     seqM (case q of None \<Rightarrow> ret None | Some r \<Rightarrow> seqM (with_asset E r) (\<lambda>x. ret (Some x))) (\<lambda>investment.
     seqM (findFirst (i_wallets E) (userId_currency (sl_userId inp) USD)) (\<lambda>usdWallet.
     seqM (assertFound investment ''Investment'') (\<lambda>inv.
     seqM (assertFound usdWallet ''USD wallet'') (\<lambda>w.
     if n_less E (Number_of E (iv_quantity (fst inv))) (sl_quantity inp) then
       throw (UnprocessableEntityException ''Insufficient quantity'')
     else ret (fst inv, snd inv, w))))))"

definition sell_writes ::
  "('s, 'd, 'n) invest_env \<Rightarrow> 'n sell_input \<Rightarrow> 'd investment_row \<times> 'd quoted_asset \<times> wallet_row
   \<Rightarrow> ('s, ('d, 'n) trade_result) io" where
  "sell_writes E inp c = (case c of (investment, asset, usdWallet) \<Rightarrow>
     (let price = Number_of E (at_currentPrice asset);
          proceeds = fixed2 E (n_times E (sl_quantity inp) price);
          remainingQty = fixed8 E (n_minus E (Number_of E (iv_quantity investment)) (sl_quantity inp))
      in seqM (if n_less E (n_zero E) remainingQty then
             seqM (seqM (update (i_investments E) (userId_assetId (sl_userId inp) (sl_assetId inp))
                    (\<lambda>r. r\<lparr>iv_quantity := stored E remainingQty,
                          iv_currentValue := stored E (fixed2 E (n_times E remainingQty price))\<rparr>))
                  (with_asset E)) (\<lambda>x. ret (fst x, Some (snd x)))
           else seqM (delete (i_investments E) (userId_assetId (sl_userId inp) (sl_assetId inp))) (\<lambda>r. ret (r, None)))
           (\<lambda>updated.
         seqM (i_insert E \<lparr>td_walletId = wr_id usdWallet, td_type = ''INVESTMENT_SELL'', td_amount = proceeds,
                 td_currency = USD, td_status = ''COMPLETED'',
                 td_description = trade_description ''Venta'' (at_symbol asset) (n_toString E (sl_quantity inp)),
                 td_category = ''INVESTMENT'', td_assetId = sl_assetId inp, td_symbol = at_symbol asset,
                 td_quantity = sl_quantity inp, td_price = price, td_proceeds = Some proceeds\<rparr>) (\<lambda>_.
         seqM (update (i_wallets E) (\<lambda>r. wr_id r = wr_id usdWallet)
                 (\<lambda>r. r\<lparr>wr_balance := balance_plus E (wr_balance r) proceeds\<rparr>)) (\<lambda>_.
         ret (Sold (fst updated) (snd updated) proceeds))))))"

definition investment_sell :: "('s, 'd, 'n) invest_env \<Rightarrow> 'n sell_input \<Rightarrow> ('s, ('d, 'n) trade_result) io" where
  "investment_sell E inp = i_transaction E (seqM (sell_reads E inp) (sell_writes E inp))"

section \<open>What the service relies on\<close>

definition investment_made :: "('s, 'd, 'n) invest_env \<Rightarrow> 'n new_investment \<Rightarrow> 'd investment_row \<Rightarrow> bool" where
  "investment_made E n r \<longleftrightarrow> iv_userId r = ni_userId n \<and> iv_assetId r = ni_assetId n
     \<and> iv_quantity r = stored E (ni_quantity n) \<and> iv_avgBuyPrice r = stored E (ni_avgBuyPrice n)
     \<and> iv_currentValue r = stored E (ni_currentValue n)"

definition trade_made :: "'n new_trade \<Rightarrow> tx_row \<Rightarrow> bool" where
  "trade_made n r \<longleftrightarrow> xr_walletId r = td_walletId n \<and> xr_toWalletId r = None \<and> xr_type r = td_type n
     \<and> xr_currency r = td_currency n \<and> xr_status r = td_status n
     \<and> xr_description r = Some (td_description n) \<and> xr_category r = Some (td_category n)"

locale invest_ports =
  fixes E :: "('s, 'd, 'n) invest_env"
    and iarows :: "'s \<Rightarrow> 'd quoted_asset set" and irows :: "'s \<Rightarrow> 'd investment_row set"
    and iwrows :: "'s \<Rightarrow> wallet_row set" and ilog :: "'s \<Rightarrow> tx_row list"
  assumes iatab: "table (i_assets E) iarows (\<lambda>s. (irows s, iwrows s, ilog s)) (\<lambda>s n r. True) (\<lambda>s r. r)"
    and iitab: "table (i_investments E) irows (\<lambda>s. (iarows s, iwrows s, ilog s))
      (\<lambda>s n r. investment_made E n r) (\<lambda>s r. r)"
    and iwtab: "table (i_wallets E) iwrows (\<lambda>s. (iarows s, irows s, ilog s)) (\<lambda>s n r. wallet_made n r) (\<lambda>s r. r)"
    and iinsert: "settles ilog (\<lambda>s. (iarows s, irows s, iwrows s)) (i_insert E n)
      (\<lambda>s r log. log = ilog s @ [r] \<and> trade_made n r)"
    and icommit: "i_transaction E m s = (Inr x, t) \<Longrightarrow>
      \<exists>s0 s1. iarows s0 = iarows s \<and> irows s0 = irows s \<and> iwrows s0 = iwrows s \<and> ilog s0 = ilog s
        \<and> m s0 = (Inr x, s1) \<and> iarows t = iarows s1 \<and> irows t = irows s1 \<and> iwrows t = iwrows s1 \<and> ilog t = ilog s1"
    and irollback: "i_transaction E m s = (Inl e, t) \<Longrightarrow>
      iarows t = iarows s \<and> irows t = irows s \<and> iwrows t = iwrows s \<and> ilog t = ilog s"

text \<open>The migration of the ledger's roles has the database refuse a row of a wallet below zero, whatever writes it
  (\<open>Wallet_balance_non_negative\<close>).\<close>

locale checked_invest_ports = invest_ports +
  assumes balance_check: "update (i_wallets E) P f s = (Inr r, t) \<Longrightarrow> 0 \<le> wr_balance r"

text \<open>A position of a user in an asset: \<open>position_put\<close> says that a trade changed no other.\<close>

definition position_put :: "string \<Rightarrow> string \<Rightarrow> 'd investment_row set \<Rightarrow> 'd investment_row set \<Rightarrow> bool" where
  "position_put u a R R' \<longleftrightarrow> {r \<in> R'. \<not> userId_assetId u a r} = {r \<in> R. \<not> userId_assetId u a r}"

definition charged :: "(int \<Rightarrow> int) \<Rightarrow> wallet_row \<Rightarrow> wallet_row" where
  "charged f w = w\<lparr>wr_balance := f (wr_balance w)\<rparr>"

lemma charged_simps [simp]: "wr_id (charged f w) = wr_id w" "wr_version (charged f w) = wr_version w"
  "wr_userId (charged f w) = wr_userId w" "wr_currency (charged f w) = wr_currency w"
  "wr_balance (charged f w) = f (wr_balance w)" "charged g (charged f w) = charged (\<lambda>b. g (f b)) w"
  by (simp_all add: charged_def)

context invest_ports
begin

lemmas ia_returns = table.returns[OF iatab]
lemmas ii_returns = table.returns[OF iitab]
lemmas iw_returns = table.returns[OF iwtab]

lemma with_asset_returns:
  "with_asset E r s = (Inr (r', a), t) \<Longrightarrow> r' = r \<and> a \<in> iarows s \<and> at_id a = iv_assetId r
    \<and> iarows t = iarows s \<and> irows t = irows s \<and> iwrows t = iwrows s \<and> ilog t = ilog s"
  unfolding with_asset_def
  by (auto simp: seqM_Inr io_prim_iff split: option.splits dest!: ia_returns(1))

lemma charge_returns:
  assumes "update (i_wallets E) (\<lambda>r. wr_id r = wr_id w) (\<lambda>r. r\<lparr>wr_balance := f (wr_balance r)\<rparr>) s = (Inr y, t)"
    and "inj_on wr_id (iwrows s)" and "w' \<in> iwrows s" and "wr_id w' = wr_id w"
  shows "iwrows t = insert (charged f w') (iwrows s - {w'}) \<and> iarows t = iarows s \<and> irows t = irows s \<and> ilog t = ilog s"
proof -
  from iw_returns(8)[OF assms(1)] obtain x where x: "x \<in> iwrows s" "wr_id x = wr_id w"
    "iwrows t = insert (charged f x) (iwrows s - {x})" and rest: "iarows t = iarows s" "irows t = irows s" "ilog t = ilog s"
    by (auto simp: charged_def)
  have "x = w'" using inj_onD[OF assms(2) _ x(1) assms(3)] x(2) assms(4) by simp
  then show ?thesis using x(3) rest by simp
qed

text \<open>The reads of a purchase.\<close>

lemma buy_reads_returns:
  assumes "buy_reads E inp s = (Inr (a, w, existing), t)"
  shows "a \<in> iarows s \<and> at_id a = bi_assetId inp \<and> w \<in> iwrows s
    \<and> wr_userId w = Some (bi_userId inp) \<and> wr_currency w = USD
    \<and> \<not> n_less E (balance_Number E (wr_balance w)) (bi_amount inp)
    \<and> (case existing of None \<Rightarrow> \<forall>r \<in> irows s. \<not> userId_assetId (bi_userId inp) (bi_assetId inp) r
       | Some r \<Rightarrow> r \<in> irows s \<and> userId_assetId (bi_userId inp) (bi_assetId inp) r)
    \<and> iarows t = iarows s \<and> irows t = irows s \<and> iwrows t = iwrows s \<and> ilog t = ilog s"
proof -
  from assms obtain s1 s2 where
    1: "findFirst (i_assets E) (\<lambda>a. at_id a = bi_assetId inp) s = (Inr (Some a), s1)"
    and 2: "findFirst (i_wallets E) (userId_currency (bi_userId inp) USD) s1 = (Inr (Some w), s2)"
    and 3: "\<not> n_less E (balance_Number E (wr_balance w)) (bi_amount inp)"
    and 4: "findFirst (i_investments E) (userId_assetId (bi_userId inp) (bi_assetId inp)) s2 = (Inr existing, t)"
    by (auto simp: buy_reads_def seqM_Inr assertFound_iff io_prim_iff split: if_splits)
  from ia_returns(1)[OF 1] have r1: "a \<in> iarows s" "at_id a = bi_assetId inp" "iarows s1 = iarows s"
    "irows s1 = irows s" "iwrows s1 = iwrows s" "ilog s1 = ilog s" by auto
  from iw_returns(1)[OF 2] r1 have r2: "w \<in> iwrows s" "wr_userId w = Some (bi_userId inp)" "wr_currency w = USD"
    "iarows s2 = iarows s" "irows s2 = irows s" "iwrows s2 = iwrows s" "ilog s2 = ilog s"
    by (auto simp: userId_currency_def)
  from ii_returns(1)[OF 4] r2 r1 3 show ?thesis by (auto split: option.splits)
qed

text \<open>Its writes: one charge of the wallet, one transaction row, and the position.\<close>

lemma buy_writes_returns:
  assumes run: "buy_writes E inp (a, w, existing) s = (Inr x, t)"
    and inj: "inj_on wr_id (iwrows s)" and w': "w' \<in> iwrows s" "wr_id w' = wr_id w"
  shows "iwrows t = insert (charged (\<lambda>b. balance_minus E b (bi_amount inp)) w') (iwrows s - {w'})
    \<and> iarows t = iarows s
    \<and> (\<exists>r. ilog t = ilog s @ [r] \<and> xr_walletId r = wr_id w \<and> xr_type r = ''INVESTMENT_BUY'')
    \<and> position_put (bi_userId inp) (bi_assetId inp) (irows s) (irows t)
    \<and> (\<exists>iv \<in> irows t. userId_assetId (bi_userId inp) (bi_assetId inp) iv
        \<and> (case existing of None \<Rightarrow> iv_quantity iv = stored E (buy_quantity E inp a)
           | Some _ \<Rightarrow> \<exists>r \<in> irows s. userId_assetId (bi_userId inp) (bi_assetId inp) r
                \<and> iv_quantity iv = incremented E (iv_quantity r) (buy_quantity E inp a)))"
proof -
  let ?P = "userId_assetId (bi_userId inp) (bi_assetId inp) :: 'd investment_row \<Rightarrow> bool"
  from run obtain r s1 q s2 row s3 y where
    1: "(case existing of
          Some ex \<Rightarrow> update (i_investments E) ?P (bought_more E ex (buy_quantity E inp a) (Number_of E (at_currentPrice a)))
        | None \<Rightarrow> create (i_investments E)
            \<lparr>ni_userId = bi_userId inp, ni_assetId = bi_assetId inp, ni_quantity = buy_quantity E inp a,
             ni_avgBuyPrice = Number_of E (at_currentPrice a),
             ni_currentValue = fixed2 E (n_times E (buy_quantity E inp a) (Number_of E (at_currentPrice a)))\<rparr>) s = (Inr r, s1)"
    and 2: "with_asset E r s1 = (Inr q, s2)"
    and 3: "i_insert E \<lparr>td_walletId = wr_id w, td_type = ''INVESTMENT_BUY'', td_amount = bi_amount inp,
              td_currency = USD, td_status = ''COMPLETED'',
              td_description = trade_description ''Compra'' (at_symbol a) (n_toString E (buy_quantity E inp a)),
              td_category = ''INVESTMENT'', td_assetId = bi_assetId inp, td_symbol = at_symbol a,
              td_quantity = buy_quantity E inp a, td_price = Number_of E (at_currentPrice a), td_proceeds = None\<rparr> s2 = (Inr row, s3)"
    and 4: "update (i_wallets E) (\<lambda>r. wr_id r = wr_id w)
              (\<lambda>r. r\<lparr>wr_balance := balance_minus E (wr_balance r) (bi_amount inp)\<rparr>) s3 = (Inr y, t)"
    by (auto simp: buy_writes_def Let_def seqM_Inr io_prim_iff)
  have pos: "position_put (bi_userId inp) (bi_assetId inp) (irows s) (irows s1) \<and> iarows s1 = iarows s
      \<and> iwrows s1 = iwrows s \<and> ilog s1 = ilog s \<and> r \<in> irows s1 \<and> ?P r
      \<and> (case existing of None \<Rightarrow> iv_quantity r = stored E (buy_quantity E inp a)
         | Some _ \<Rightarrow> \<exists>r0 \<in> irows s. ?P r0 \<and> iv_quantity r = incremented E (iv_quantity r0) (buy_quantity E inp a))"
  proof (cases existing)
    case None
    then show ?thesis using 1 ii_returns(5)[of _ s r s1]
      by (auto simp: position_put_def investment_made_def userId_assetId_def)
  next
    case (Some ex)
    from ii_returns(8)[OF 1[unfolded Some option.case]] show ?thesis
      using Some by (auto simp: position_put_def bought_more_def Let_def userId_assetId_def)
  qed
  obtain r' a' where q: "q = (r', a')" by (cases q)
  note wa = with_asset_returns[OF 2[unfolded q]]
  from settles_Inr[OF iinsert 3] have ins: "ilog s3 = ilog s2 @ [row]" "iarows s3 = iarows s2" "irows s3 = irows s2"
    "iwrows s3 = iwrows s2" "xr_walletId row = wr_id w" "xr_type row = ''INVESTMENT_BUY''"
    by (simp_all add: trade_made_def)
  have "inj_on wr_id (iwrows s3)" "w' \<in> iwrows s3" using inj w' ins wa pos by simp_all
  note ch = charge_returns[OF 4 this w'(2)]
  have "irows t = irows s1" "ilog t = ilog s @ [row]" "iarows t = iarows s"
    "iwrows t = insert (charged (\<lambda>b. balance_minus E b (bi_amount inp)) w') (iwrows s - {w'})"
    using ch ins wa pos by simp_all
  then show ?thesis using pos ins(5,6) by (intro conjI) (simp_all, blast)
qed

end

text \<open>What a purchase and a sale that are committed have done; \<open>asset\<close> is the row whose price they used.\<close>

definition purchased ::
  "('s, 'd, 'n) invest_env \<Rightarrow> ('s \<Rightarrow> 'd quoted_asset set) \<Rightarrow> ('s \<Rightarrow> 'd investment_row set) \<Rightarrow> ('s \<Rightarrow> wallet_row set)
   \<Rightarrow> ('s \<Rightarrow> tx_row list) \<Rightarrow> 'n buy_input \<Rightarrow> 's \<Rightarrow> 's \<Rightarrow> bool" where
  "purchased E iarows irows iwrows ilog inp s t \<longleftrightarrow>
     (\<exists>a \<in> iarows s. \<exists>w \<in> iwrows s. at_id a = bi_assetId inp \<and> userId_currency (bi_userId inp) USD w
      \<and> \<not> n_less E (balance_Number E (wr_balance w)) (bi_amount inp)
      \<and> iwrows t = insert (charged (\<lambda>b. balance_minus E b (bi_amount inp)) w) (iwrows s - {w})
      \<and> (\<exists>r. ilog t = ilog s @ [r] \<and> xr_walletId r = wr_id w \<and> xr_type r = ''INVESTMENT_BUY'')
      \<and> position_put (bi_userId inp) (bi_assetId inp) (irows s) (irows t)
      \<and> (\<exists>iv \<in> irows t. userId_assetId (bi_userId inp) (bi_assetId inp) iv
          \<and> ((\<forall>r \<in> irows s. \<not> userId_assetId (bi_userId inp) (bi_assetId inp) r)
                \<and> iv_quantity iv = stored E (buy_quantity E inp a)
             \<or> (\<exists>r \<in> irows s. userId_assetId (bi_userId inp) (bi_assetId inp) r
                \<and> iv_quantity iv = incremented E (iv_quantity r) (buy_quantity E inp a)))))"

definition sold ::
  "('s, 'd, 'n) invest_env \<Rightarrow> ('s \<Rightarrow> 'd quoted_asset set) \<Rightarrow> ('s \<Rightarrow> 'd investment_row set) \<Rightarrow> ('s \<Rightarrow> wallet_row set)
   \<Rightarrow> ('s \<Rightarrow> tx_row list) \<Rightarrow> 'n sell_input \<Rightarrow> 's \<Rightarrow> 's \<Rightarrow> bool" where
  "sold E iarows irows iwrows ilog inp s t \<longleftrightarrow>
     (\<exists>iv \<in> irows s. \<exists>a \<in> iarows s. \<exists>w \<in> iwrows s.
        userId_assetId (sl_userId inp) (sl_assetId inp) iv \<and> at_id a = iv_assetId iv
      \<and> userId_currency (sl_userId inp) USD w
      \<and> \<not> n_less E (Number_of E (iv_quantity iv)) (sl_quantity inp)
      \<and> iwrows t = insert (charged (\<lambda>b. balance_plus E b
            (fixed2 E (n_times E (sl_quantity inp) (Number_of E (at_currentPrice a))))) w) (iwrows s - {w})
      \<and> (\<exists>r. ilog t = ilog s @ [r] \<and> xr_walletId r = wr_id w \<and> xr_type r = ''INVESTMENT_SELL'')
      \<and> position_put (sl_userId inp) (sl_assetId inp) (irows s) (irows t)
      \<and> (let rest = fixed8 E (n_minus E (Number_of E (iv_quantity iv)) (sl_quantity inp)) in
         if n_less E (n_zero E) rest
         then \<exists>iv' \<in> irows t. userId_assetId (sl_userId inp) (sl_assetId inp) iv' \<and> iv_quantity iv' = stored E rest
         else \<exists>iv' \<in> irows s. userId_assetId (sl_userId inp) (sl_assetId inp) iv' \<and> irows t = irows s - {iv'}))"

context invest_ports
begin

lemma buy_returns:
  assumes run: "seqM (buy_reads E inp) (buy_writes E inp) s = (Inr x, t)" and inj: "inj_on wr_id (iwrows s)"
  shows "purchased E iarows irows iwrows ilog inp s t"
proof -
  from run obtain a w ex s1 where 1: "buy_reads E inp s = (Inr (a, w, ex), s1)"
    and 2: "buy_writes E inp (a, w, ex) s1 = (Inr x, t)"
    by (auto simp: seqM_Inr)
  note r = buy_reads_returns[OF 1]
  have "inj_on wr_id (iwrows s1)" "w \<in> iwrows s1" using inj r by simp_all
  note wr = buy_writes_returns[OF 2 this refl]
  show ?thesis unfolding purchased_def userId_currency_def
    by (rule bexI[of _ a], rule bexI[of _ w]) (use r wr in \<open>auto split: option.splits\<close>)
qed

lemma sell_reads_returns:
  assumes "sell_reads E inp s = (Inr (iv, a, w), t)"
  shows "iv \<in> irows s \<and> userId_assetId (sl_userId inp) (sl_assetId inp) iv \<and> a \<in> iarows s \<and> at_id a = iv_assetId iv
    \<and> w \<in> iwrows s \<and> userId_currency (sl_userId inp) USD w
    \<and> \<not> n_less E (Number_of E (iv_quantity iv)) (sl_quantity inp)
    \<and> iarows t = iarows s \<and> irows t = irows s \<and> iwrows t = iwrows s \<and> ilog t = ilog s"
proof -
  from assms obtain q s1 z s2 where
    1: "findFirst (i_investments E) (userId_assetId (sl_userId inp) (sl_assetId inp)) s = (Inr q, s1)"
    and 2: "(case q of None \<Rightarrow> ret None | Some r \<Rightarrow> seqM (with_asset E r) (\<lambda>x. ret (Some x))) s1 = (Inr (Some z), s2)"
    and z: "fst z = iv" "snd z = a"
    and 3: "findFirst (i_wallets E) (userId_currency (sl_userId inp) USD) s2 = (Inr (Some w), t)"
    and 4: "\<not> n_less E (Number_of E (iv_quantity iv)) (sl_quantity inp)"
    by (auto simp: sell_reads_def seqM_Inr assertFound_iff io_prim_iff split: if_splits)
  from 2 obtain r where q: "q = Some r" and 5: "with_asset E r s1 = (Inr (iv, a), s2)"
    using z by (cases q) (auto simp: seqM_Inr io_prim_iff)
  from ii_returns(1)[OF 1] q have r1: "r \<in> irows s" "userId_assetId (sl_userId inp) (sl_assetId inp) r"
    "irows s1 = irows s" "iarows s1 = iarows s" "iwrows s1 = iwrows s" "ilog s1 = ilog s" by auto
  note r2 = with_asset_returns[OF 5]
  from iw_returns(1)[OF 3] r1 r2 4 show ?thesis by auto
qed

lemma sell_writes_returns:
  assumes run: "sell_writes E inp (iv, a, w) s = (Inr x, t)"
    and inj: "inj_on wr_id (iwrows s)" and w: "w \<in> iwrows s"
  shows "iwrows t = insert (charged (\<lambda>b. balance_plus E b
            (fixed2 E (n_times E (sl_quantity inp) (Number_of E (at_currentPrice a))))) w) (iwrows s - {w})
    \<and> (\<exists>r. ilog t = ilog s @ [r] \<and> xr_walletId r = wr_id w \<and> xr_type r = ''INVESTMENT_SELL'')
    \<and> position_put (sl_userId inp) (sl_assetId inp) (irows s) (irows t)
    \<and> (let rest = fixed8 E (n_minus E (Number_of E (iv_quantity iv)) (sl_quantity inp)) in
         if n_less E (n_zero E) rest
         then \<exists>iv' \<in> irows t. userId_assetId (sl_userId inp) (sl_assetId inp) iv' \<and> iv_quantity iv' = stored E rest
         else \<exists>iv' \<in> irows s. userId_assetId (sl_userId inp) (sl_assetId inp) iv' \<and> irows t = irows s - {iv'})"
proof -
  let ?P = "userId_assetId (sl_userId inp) (sl_assetId inp) :: 'd investment_row \<Rightarrow> bool"
  let ?rest = "fixed8 E (n_minus E (Number_of E (iv_quantity iv)) (sl_quantity inp))"
  let ?got = "fixed2 E (n_times E (sl_quantity inp) (Number_of E (at_currentPrice a)))"
  from run obtain u s2 row s3 y where
    1: "(if n_less E (n_zero E) ?rest then
             seqM (seqM (update (i_investments E) ?P
                    (\<lambda>r. r\<lparr>iv_quantity := stored E ?rest,
                          iv_currentValue := stored E (fixed2 E (n_times E ?rest (Number_of E (at_currentPrice a))))\<rparr>))
                  (with_asset E)) (\<lambda>x. ret (fst x, Some (snd x)))
           else seqM (delete (i_investments E) ?P) (\<lambda>r. ret (r, None))) s = (Inr u, s2)"
    and 3: "i_insert E \<lparr>td_walletId = wr_id w, td_type = ''INVESTMENT_SELL'', td_amount = ?got,
                 td_currency = USD, td_status = ''COMPLETED'',
                 td_description = trade_description ''Venta'' (at_symbol a) (n_toString E (sl_quantity inp)),
                 td_category = ''INVESTMENT'', td_assetId = sl_assetId inp, td_symbol = at_symbol a,
                 td_quantity = sl_quantity inp, td_price = Number_of E (at_currentPrice a), td_proceeds = Some ?got\<rparr> s2 = (Inr row, s3)"
    and 4: "update (i_wallets E) (\<lambda>r. wr_id r = wr_id w) (\<lambda>r. r\<lparr>wr_balance := balance_plus E (wr_balance r) ?got\<rparr>) s3 = (Inr y, t)"
    unfolding sell_writes_def Let_def by (auto simp: seqM_Inr io_prim_iff simp del: if_split)
  have pos: "position_put (sl_userId inp) (sl_assetId inp) (irows s) (irows s2)
      \<and> iwrows s2 = iwrows s \<and> ilog s2 = ilog s
      \<and> (if n_less E (n_zero E) ?rest
         then \<exists>iv' \<in> irows s2. ?P iv' \<and> iv_quantity iv' = stored E ?rest
         else \<exists>iv' \<in> irows s. ?P iv' \<and> irows s2 = irows s - {iv'})"
  proof (cases "n_less E (n_zero E) ?rest")
    case True
    with 1 obtain r q s1 where up: "update (i_investments E) ?P
                    (\<lambda>r. r\<lparr>iv_quantity := stored E ?rest,
                          iv_currentValue := stored E (fixed2 E (n_times E ?rest (Number_of E (at_currentPrice a))))\<rparr>) s = (Inr r, s1)"
      and wa: "with_asset E r s1 = (Inr q, s2)"
      by (auto simp: seqM_Inr io_prim_iff)
    obtain r' a' where q: "q = (r', a')" by (cases q)
    from ii_returns(8)[OF up] with_asset_returns[OF wa[unfolded q]] True show ?thesis
      by (auto simp: position_put_def userId_assetId_def)
  next
    case False
    with 1 obtain r where "delete (i_investments E) ?P s = (Inr r, s2)" by (auto simp: seqM_Inr io_prim_iff)
    from ii_returns(10)[OF this] False show ?thesis by (auto simp: position_put_def)
  qed
  from settles_Inr[OF iinsert 3] have ins: "ilog s3 = ilog s2 @ [row]" "irows s3 = irows s2"
    "iwrows s3 = iwrows s2" "xr_walletId row = wr_id w" "xr_type row = ''INVESTMENT_SELL''"
    by (simp_all add: trade_made_def)
  have "inj_on wr_id (iwrows s3)" "w \<in> iwrows s3" using inj w ins pos by simp_all
  note ch = charge_returns[OF 4 this refl]
  then show ?thesis using pos ins by (simp add: Let_def)
qed

lemma sell_returns:
  assumes run: "seqM (sell_reads E inp) (sell_writes E inp) s = (Inr x, t)" and inj: "inj_on wr_id (iwrows s)"
  shows "sold E iarows irows iwrows ilog inp s t"
proof -
  from run obtain iv a w s1 where 1: "sell_reads E inp s = (Inr (iv, a, w), s1)"
    and 2: "sell_writes E inp (iv, a, w) s1 = (Inr x, t)"
    by (auto simp: seqM_Inr)
  note r = sell_reads_returns[OF 1]
  then have same: "irows s1 = irows s" "iwrows s1 = iwrows s" "ilog s1 = ilog s" by simp_all
  have "inj_on wr_id (iwrows s1)" "w \<in> iwrows s1" using inj r by simp_all
  note wr = sell_writes_returns[OF 2 this, unfolded same]
  have in_s: "iv \<in> irows s" "a \<in> iarows s" "w \<in> iwrows s" using r by simp_all
  show ?thesis unfolding sold_def
    by (rule bexI[OF _ in_s(1)], rule bexI[OF _ in_s(2)], rule bexI[OF _ in_s(3)], intro conjI)
       (use r wr in blast)+
qed

end

section \<open>A concrete market\<close>

text \<open>Numbers are whole cents and whole units.\<close>

record invest_world =
  id_assets :: "int quoted_asset list"
  id_investments :: "int investment_row list"
  id_wallets :: "wallet_row list"
  id_log :: "tx_row list"

definition demo_qasset :: "invest_world \<Rightarrow> nat \<Rightarrow> unit \<Rightarrow> int quoted_asset" where
  "demo_qasset s k n = \<lparr>at_id = replicate (length (id_assets s) + k) CHR ''a'', at_symbol = '''', at_name = '''',
     at_type = ''STOCK'', at_currentPrice = 1\<rparr>"

definition demo_invrow :: "invest_world \<Rightarrow> nat \<Rightarrow> int new_investment \<Rightarrow> int investment_row" where
  "demo_invrow s k n = \<lparr>iv_id = replicate (length (id_investments s) + k) CHR ''i'', iv_userId = ni_userId n,
     iv_assetId = ni_assetId n, iv_quantity = ni_quantity n, iv_avgBuyPrice = ni_avgBuyPrice n,
     iv_currentValue = ni_currentValue n, iv_createdAt = 0\<rparr>"

definition demo_iwallet :: "invest_world \<Rightarrow> nat \<Rightarrow> new_wallet \<Rightarrow> wallet_row" where
  "demo_iwallet s k n = \<lparr>wr_id = replicate (length (id_wallets s) + k) CHR ''w'', wr_userId = Some (nw_userId n),
     wr_currency = nw_currency n, wr_balance = nw_balance n, wr_version = nw_version n\<rparr>"

definition demo_iwallet_list :: "(invest_world, wallet_row, new_wallet) delegate" where
  "demo_iwallet_list =
     list_delegate id_wallets (\<lambda>rs s. s\<lparr>id_wallets := rs\<rparr>) demo_iwallet (\<lambda>s r. r) (\<lambda>r x. wr_id r = wr_id x)"

definition demo_trade :: "int new_trade \<Rightarrow> tx_row" where
  "demo_trade n = \<lparr>xr_id = ''t'', xr_walletId = td_walletId n, xr_toWalletId = None, xr_type = td_type n,
     xr_amount = td_amount n, xr_currency = td_currency n, xr_status = td_status n,
     xr_description = Some (td_description n), xr_category = Some (td_category n), xr_metadata = None,
     xr_reversesTransactionId = None, xr_createdAt = 0\<rparr>"

definition demo_invest :: "(invest_world, int, int) invest_env" where
  "demo_invest = \<lparr>
     i_assets = list_delegate id_assets (\<lambda>rs s. s\<lparr>id_assets := rs\<rparr>) demo_qasset (\<lambda>s r. r) (\<lambda>r x. at_id r = at_id x),
     i_investments = list_delegate id_investments (\<lambda>rs s. s\<lparr>id_investments := rs\<rparr>) demo_invrow (\<lambda>s r. r)
       (\<lambda>r x. iv_userId r = iv_userId x \<and> iv_assetId r = iv_assetId x),
     i_wallets = demo_iwallet_list\<lparr>update := (\<lambda>P f. guarded (DriverError None None None)
       (\<lambda>s. list_all (\<lambda>w. 0 \<le> wr_balance w) (id_wallets s)) (update demo_iwallet_list P f))\<rparr>,
     i_insert = (\<lambda>n s. (Inr (demo_trade n), s\<lparr>id_log := id_log s @ [demo_trade n]\<rparr>)),
     i_transaction = (\<lambda>m s. case m s of (Inr x, t) \<Rightarrow> (Inr x, t) | (Inl e, t) \<Rightarrow> (Inl e, s)),
     n_zero = 0, n_plus = (+), n_minus = (-), n_times = (*), n_div = (div), n_less = (<),
     fixed2 = (\<lambda>x. x), fixed8 = (\<lambda>x. x), n_toString = (\<lambda>x. show_nat (nat x)), n_100 = 100,
     Number_of = (\<lambda>x. x), stored = (\<lambda>x. x), incremented = (+),
     balance_Number = (\<lambda>x. x), balance_plus = (+), balance_minus = (-)\<rparr>"

definition demo_iarows :: "invest_world \<Rightarrow> int quoted_asset set" where "demo_iarows s = set (id_assets s)"
definition demo_irows :: "invest_world \<Rightarrow> int investment_row set" where "demo_irows s = set (id_investments s)"
definition demo_iwrows :: "invest_world \<Rightarrow> wallet_row set" where "demo_iwrows s = set (id_wallets s)"

interpretation demo_invest: invest_ports demo_invest demo_iarows demo_irows demo_iwrows id_log
proof (rule invest_ports.intro, goal_cases)
  case 1
  have t: "table (i_assets demo_invest) (\<lambda>s. set (id_assets s)) (\<lambda>s. (demo_irows s, demo_iwrows s, id_log s))
      (\<lambda>s n r. (\<exists>i. r = demo_qasset s i n) \<and> (\<forall>x \<in> set (id_assets s). \<not> at_id r = at_id x)) (\<lambda>s r. r)"
    unfolding demo_invest_def invest_env.simps
    by (rule list_delegate_table) (simp_all add: demo_irows_def demo_iwrows_def)
  have rw: "demo_iarows = (\<lambda>s. set (id_assets s))" by (simp add: demo_iarows_def fun_eq_iff)
  show ?case unfolding rw by (rule table_weaken[OF t]) simp
next
  case 2
  have t: "table (i_investments demo_invest) (\<lambda>s. set (id_investments s)) (\<lambda>s. (demo_iarows s, demo_iwrows s, id_log s))
      (\<lambda>s n r. (\<exists>i. r = demo_invrow s i n)
        \<and> (\<forall>x \<in> set (id_investments s). \<not> (iv_userId r = iv_userId x \<and> iv_assetId r = iv_assetId x))) (\<lambda>s r. r)"
    unfolding demo_invest_def invest_env.simps
    by (rule list_delegate_table) (simp_all add: demo_iarows_def demo_iwrows_def)
  have rw: "demo_irows = (\<lambda>s. set (id_investments s))" by (simp add: demo_irows_def fun_eq_iff)
  show ?case unfolding rw
    by (rule table_weaken[OF t]) (auto simp: investment_made_def demo_invrow_def demo_invest_def)
next
  case 3
  have t: "table (i_wallets demo_invest) (\<lambda>s. set (id_wallets s)) (\<lambda>s. (demo_iarows s, demo_irows s, id_log s))
      (\<lambda>s n r. (\<exists>i. r = demo_iwallet s i n) \<and> (\<forall>x \<in> set (id_wallets s). \<not> wr_id r = wr_id x)) (\<lambda>s r. r)"
    unfolding demo_invest_def invest_env.simps
    by (rule table_guarded_update, unfold demo_iwallet_list_def, rule list_delegate_table)
       (simp_all add: demo_iarows_def demo_irows_def)
  have rw: "demo_iwrows = (\<lambda>s. set (id_wallets s))" by (simp add: demo_iwrows_def fun_eq_iff)
  show ?case unfolding rw by (rule table_weaken[OF t]) (auto simp: wallet_made_def demo_iwallet_def)
next
  case (4 n)
  show ?case by (simp add: settles_def demo_invest_def demo_trade_def trade_made_def
      demo_iarows_def demo_irows_def demo_iwrows_def)
next
  case (5 m s x t)
  then show ?case by (auto simp: demo_invest_def split: prod.splits sum.splits)
next
  case (6 m s e t)
  then show ?case by (auto simp: demo_invest_def split: prod.splits sum.splits)
qed

interpretation demo_checked: checked_invest_ports demo_invest demo_iarows demo_irows demo_iwrows id_log
proof (intro checked_invest_ports.intro demo_invest.invest_ports_axioms checked_invest_ports_axioms.intro)
  fix P f s r t assume "update (i_wallets demo_invest) P f s = (Inr r, t)"
  then have "update demo_iwallet_list P f s = (Inr r, t)" "list_all (\<lambda>w. 0 \<le> wr_balance w) (id_wallets t)"
    by (auto simp: demo_invest_def guarded_def split: prod.splits sum.splits if_splits)
  then show "0 \<le> wr_balance r"
    by (auto simp: demo_iwallet_list_def list_delegate_def list_replace_def list_all_iff
        dest!: find_Some_iff_mem split: option.splits)
qed

definition demo_exchange_floor :: invest_world where
  "demo_exchange_floor = \<lparr>id_assets = [\<lparr>at_id = ''gold'', at_symbol = ''GLD'', at_name = ''Gold'', at_type = ''ETF'', at_currentPrice = 10\<rparr>,
       \<lparr>at_id = ''oil'', at_symbol = ''OIL'', at_name = ''Oil'', at_type = ''ETF'', at_currentPrice = 5\<rparr>],
     id_investments = [\<lparr>iv_id = ''i1'', iv_userId = ''ana'', iv_assetId = ''gold'', iv_quantity = 3, iv_avgBuyPrice = 10,
       iv_currentValue = 30, iv_createdAt = 0\<rparr>],
     id_wallets = [\<lparr>wr_id = ''w1'', wr_userId = Some ''ana'', wr_currency = USD, wr_balance = 100, wr_version = 1\<rparr>],
     id_log = []\<rparr>"

lemma demo_floor_keys: "inj_on wr_id (demo_iwrows demo_exchange_floor)"
  "inj_on (\<lambda>w. (wr_userId w, wr_currency w)) (demo_iwrows demo_exchange_floor)"
  by (simp_all add: demo_iwrows_def demo_exchange_floor_def)

section \<open>The properties\<close>

context invest_ports
begin

lemma trades_committed:
  assumes inj: "inj_on wr_id (iwrows s)"
  shows "(case investment_buy E buy s of
       (Inl e, t) \<Rightarrow> irows t = irows s \<and> iwrows t = iwrows s \<and> ilog t = ilog s
     | (Inr x, t) \<Rightarrow> purchased E iarows irows iwrows ilog buy s t)
   \<and> (case investment_sell E sell s of
       (Inl e, t) \<Rightarrow> irows t = irows s \<and> iwrows t = iwrows s \<and> ilog t = ilog s
     | (Inr x, t) \<Rightarrow> sold E iarows irows iwrows ilog sell s t)"
proof
  show "case investment_buy E buy s of
       (Inl e, t) \<Rightarrow> irows t = irows s \<and> iwrows t = iwrows s \<and> ilog t = ilog s
     | (Inr x, t) \<Rightarrow> purchased E iarows irows iwrows ilog buy s t"
  proof (cases "investment_buy E buy s"; cases "fst (investment_buy E buy s)")
    fix r t e assume "investment_buy E buy s = (r, t)" "fst (investment_buy E buy s) = Inl e"
    then show ?thesis using irollback[of "seqM (buy_reads E buy) (buy_writes E buy)" s e t]
      by (simp add: investment_buy_def)
  next
    fix r t x assume run: "investment_buy E buy s = (r, t)" "fst (investment_buy E buy s) = Inr x"
    then obtain s0 s1 where c: "iarows s0 = iarows s" "irows s0 = irows s" "iwrows s0 = iwrows s" "ilog s0 = ilog s"
      "seqM (buy_reads E buy) (buy_writes E buy) s0 = (Inr x, s1)"
      "iarows t = iarows s1" "irows t = irows s1" "iwrows t = iwrows s1" "ilog t = ilog s1"
      using icommit[of "seqM (buy_reads E buy) (buy_writes E buy)" s x t] by (auto simp: investment_buy_def)
    have "purchased E iarows irows iwrows ilog buy s0 s1" using buy_returns[OF c(5)] inj c(3) by simp
    then have "purchased E iarows irows iwrows ilog buy s t" unfolding purchased_def c(1-4,6-9) .
    then show ?thesis using run by simp
  qed
  show "case investment_sell E sell s of
       (Inl e, t) \<Rightarrow> irows t = irows s \<and> iwrows t = iwrows s \<and> ilog t = ilog s
     | (Inr x, t) \<Rightarrow> sold E iarows irows iwrows ilog sell s t"
  proof (cases "investment_sell E sell s"; cases "fst (investment_sell E sell s)")
    fix r t e assume "investment_sell E sell s = (r, t)" "fst (investment_sell E sell s) = Inl e"
    then show ?thesis using irollback[of "seqM (sell_reads E sell) (sell_writes E sell)" s e t]
      by (simp add: investment_sell_def)
  next
    fix r t x assume run: "investment_sell E sell s = (r, t)" "fst (investment_sell E sell s) = Inr x"
    then obtain s0 s1 where c: "iarows s0 = iarows s" "irows s0 = irows s" "iwrows s0 = iwrows s" "ilog s0 = ilog s"
      "seqM (sell_reads E sell) (sell_writes E sell) s0 = (Inr x, s1)"
      "iarows t = iarows s1" "irows t = irows s1" "iwrows t = iwrows s1" "ilog t = ilog s1"
      using icommit[of "seqM (sell_reads E sell) (sell_writes E sell)" s x t] by (auto simp: investment_sell_def)
    have "sold E iarows irows iwrows ilog sell s0 s1" using sell_returns[OF c(5)] inj c(3) by simp
    then have "sold E iarows irows iwrows ilog sell s t" unfolding sold_def c(1-4,6-9) .
    then show ?thesis using run by simp
  qed
qed

text \<open>A purchase of more: the row of the position, from what it was read to be.\<close>

lemma buy_more_returns:
  assumes run: "buy_writes E inp (a, w, Some ex) s = (Inr x, t)"
    and inj: "inj_on (\<lambda>r. (iv_userId r, iv_assetId r)) (irows s)"
    and r: "r \<in> irows s" "userId_assetId (bi_userId inp) (bi_assetId inp) r"
  shows "irows t = insert (bought_more E ex (buy_quantity E inp a) (Number_of E (at_currentPrice a)) r) (irows s - {r})"
proof -
  let ?P = "userId_assetId (bi_userId inp) (bi_assetId inp) :: 'd investment_row \<Rightarrow> bool"
  let ?f = "bought_more E ex (buy_quantity E inp a) (Number_of E (at_currentPrice a))"
  from run obtain y s1 q s2 n row s3 g z where 1: "update (i_investments E) ?P ?f s = (Inr y, s1)"
    and 2: "with_asset E y s1 = (Inr q, s2)" and 3: "i_insert E n s2 = (Inr row, s3)"
    and 4: "update (i_wallets E) (\<lambda>r. wr_id r = wr_id w) g s3 = (Inr z, t)"
    by (auto simp: buy_writes_def Let_def seqM_Inr io_prim_iff)
  obtain q1 q2 where q: "q = (q1, q2)" by (cases q)
  from ii_returns(8)[OF 1] obtain r' where r': "r' \<in> irows s" "?P r'" "irows s1 = insert (?f r') (irows s - {r'})" by auto
  have "r' = r" using inj_onD[OF inj _ r'(1) r(1)] r'(2) r(2) by (simp add: userId_assetId_def)
  moreover have "irows t = irows s1"
    using with_asset_returns[OF 2[unfolded q]] settles_Inr[OF iinsert 3] iw_returns(8)[OF 4] by auto
  ultimately show ?thesis using r'(3) by simp
qed

text \<open>A purchase that fails leaves the wallets: their row is written last.\<close>

lemma buy_writes_throws:
  assumes "buy_writes E inp c s = (Inl e, t)"
  shows "iwrows t = iwrows s"
proof -
  obtain a w ex where c: "c = (a, w, ex)" by (cases c)
  have f: "keeps iwrows (update (i_investments E) P f)" "keeps iwrows (create (i_investments E) n)"
    "keeps iwrows (findFirst (i_assets E) Q)" "keeps iwrows (i_insert E m)" for P f n Q m
    using table.frames(8)[OF iitab] table.frames(5)[OF iitab] table.frames(1)[OF iatab] settles_other[OF iinsert]
    unfolding keeps_def by blast+
  have wa: "keeps iwrows (with_asset E r)" for r
    unfolding with_asset_def by (intro keeps_seqM f) (auto simp: keeps_prim split: option.split)
  have pos: "keeps iwrows (seqM (case ex of Some ex \<Rightarrow> update (i_investments E) P (bought_more E ex q p)
      | None \<Rightarrow> create (i_investments E) n) (with_asset E))" for P q p n
    by (intro keeps_seqM wa) (auto simp: f split: option.split)
  have last: "iwrows t = iwrows s" if run: "seqM A (\<lambda>i. seqM B (\<lambda>_. seqM (update (i_wallets E) P g) (\<lambda>_. ret (h i)))) s
      = (Inl e, t)" and k: "keeps iwrows A" "keeps iwrows B" for A B P g h
  proof -
    from run consider "A s = (Inl e, t)"
      | i s1 where "A s = (Inr i, s1)" "B s1 = (Inl e, t)"
      | i s1 j s2 where "A s = (Inr i, s1)" "B s1 = (Inr j, s2)" "update (i_wallets E) P g s2 = (Inl e, t)"
      by (auto simp: seqM_Inl io_prim_iff)
    then show ?thesis
    proof cases
      case 1
      then show ?thesis by (rule keepsD[OF k(1)])
    next
      case 2
      then show ?thesis using keepsD[OF k(1)] keepsD[OF k(2)] by metis
    next
      case 3
      then show ?thesis using keepsD[OF k(1)] keepsD[OF k(2)] table.throws(8)[OF iwtab] by metis
    qed
  qed
  show ?thesis by (rule last[OF assms[unfolded c buy_writes_def Let_def prod.case] pos f(4)])
qed

end

context checked_invest_ports
begin

text \<open>A purchase that returns has left the wallet at zero or above.\<close>

lemma buy_writes_positive:
  assumes run: "buy_writes E inp (a, w, ex) s = (Inr x, t)"
    and inj: "inj_on wr_id (iwrows s)" and w': "w' \<in> iwrows s" "wr_id w' = wr_id w"
  shows "0 \<le> balance_minus E (wr_balance w') (bi_amount inp)"
proof -
  have new: "iwrows t = insert (charged (\<lambda>b. balance_minus E b (bi_amount inp)) w') (iwrows s - {w'})"
    using buy_writes_returns[OF run inj w'] by blast
  from run obtain s3 z where up: "update (i_wallets E) (\<lambda>r. wr_id r = wr_id w)
      (\<lambda>r. r\<lparr>wr_balance := balance_minus E (wr_balance r) (bi_amount inp)\<rparr>) s3 = (Inr z, t)"
    by (auto simp: buy_writes_def Let_def seqM_Inr io_prim_iff)
  from iw_returns(8)[OF up] obtain y where z: "z \<in> iwrows t" "wr_id z = wr_id w" by auto
  have "inj_on wr_id (iwrows t)" unfolding new by (rule inj_on_put[OF inj w'(1)]) simp
  then have "z = charged (\<lambda>b. balance_minus E b (bi_amount inp)) w'"
    using inj_onD[of wr_id "iwrows t" z "charged (\<lambda>b. balance_minus E b (bi_amount inp)) w'"] z w'(2) new by simp
  then show ?thesis using balance_check[OF up] by simp
qed

text \<open>Two purchases of a user, the reads of both before the writes of either.\<close>

lemma interleaved_buys:
  assumes r1: "buy_reads E b1 s = (Inr c1, s1)" and r2: "buy_reads E b2 s1 = (Inr c2, s2)"
    and w1: "buy_writes E b1 c1 s2 = (Inr x1, s3)" and w2: "buy_writes E b2 c2 s3 = (x2, s4)"
    and u: "bi_userId b2 = bi_userId b1"
    and inj: "inj_on wr_id (iwrows s)" and inj2: "inj_on (\<lambda>w. (wr_userId w, wr_currency w)) (iwrows s)"
  shows "\<exists>w \<in> iwrows s. userId_currency (bi_userId b1) USD w
     \<and> \<not> n_less E (balance_Number E (wr_balance w)) (bi_amount b1)
     \<and> \<not> n_less E (balance_Number E (wr_balance w)) (bi_amount b2)
     \<and> (let b = balance_minus E (wr_balance w) (bi_amount b1); b' = balance_minus E b (bi_amount b2) in
        0 \<le> b \<and> iwrows s3 = insert (w\<lparr>wr_balance := b\<rparr>) (iwrows s - {w})
      \<and> (case x2 of Inl e \<Rightarrow> iwrows s4 = iwrows s3
         | Inr _ \<Rightarrow> 0 \<le> b' \<and> iwrows s4 = insert (w\<lparr>wr_balance := b'\<rparr>) (iwrows s - {w})))"
proof -
  obtain a1 v1 e1 where c1: "c1 = (a1, v1, e1)" by (cases c1)
  obtain a2 v2 e2 where c2: "c2 = (a2, v2, e2)" by (cases c2)
  note 1 = buy_reads_returns[OF r1[unfolded c1]]
  note 2 = buy_reads_returns[OF r2[unfolded c2]]
  have "v2 \<in> iwrows s" using 1 2 by simp
  then have same: "v2 = v1" using inj_onD[OF inj2, of v2 v1] 1 2 u by simp
  have "inj_on wr_id (iwrows s2)" "v1 \<in> iwrows s2" using 1 2 inj by simp_all
  note 3 = buy_writes_returns[OF w1[unfolded c1] this refl] buy_writes_positive[OF w1[unfolded c1] this refl]
  let ?v = "charged (\<lambda>b. balance_minus E b (bi_amount b1)) v1"
  have s3: "iwrows s3 = insert ?v (iwrows s - {v1})" using 1 2 3 by simp
  have v1: "v1 \<in> iwrows s" using 1 by simp
  have inj3: "inj_on wr_id (iwrows s3)" unfolding s3 by (rule inj_on_put[OF inj v1]) simp
  have v: "?v \<in> iwrows s3" "wr_id ?v = wr_id v2" using s3 same by simp_all
  have "case x2 of Inl e \<Rightarrow> iwrows s4 = iwrows s3
      | Inr _ \<Rightarrow> 0 \<le> balance_minus E (wr_balance ?v) (bi_amount b2)
          \<and> iwrows s4 = insert (charged (\<lambda>b. balance_minus E b (bi_amount b2)) ?v) (iwrows s - {v1})"
  proof (cases x2)
    case (Inl e)
    then show ?thesis using buy_writes_throws w2 by simp
  next
    case (Inr x)
    have "?v \<notin> iwrows s - {v1}" using inj_onD[OF inj, of ?v v1] v1 by auto
    then have "iwrows s3 - {?v} = iwrows s - {v1}" using s3 by blast
    then show ?thesis using buy_writes_returns[OF w2[unfolded Inr c2] inj3 v]
        buy_writes_positive[OF w2[unfolded Inr c2] inj3 v] Inr by simp
  qed
  moreover have "0 \<le> balance_minus E (wr_balance v1) (bi_amount b1)" using 3 by simp
  ultimately show ?thesis using 1 2 same u s3 v1
    by (intro bexI[of _ v1]) (auto simp: userId_currency_def charged_def Let_def split: sum.splits)
qed

text \<open>Both of the same asset: the quantities add up, the value of the position is that of the second alone.\<close>

lemma interleaved_position:
  assumes r1: "buy_reads E b1 s = (Inr c1, s1)" and r2: "buy_reads E b2 s1 = (Inr c2, s2)"
    and w1: "buy_writes E b1 c1 s2 = (Inr x1, s3)" and w2: "buy_writes E b2 c2 s3 = (Inr x2, s4)"
    and u: "bi_userId b2 = bi_userId b1" "bi_assetId b2 = bi_assetId b1"
    and inj: "inj_on (\<lambda>r. (iv_userId r, iv_assetId r)) (irows s)"
    and iv: "iv \<in> irows s" "userId_assetId (bi_userId b1) (bi_assetId b1) iv"
  shows "\<exists>iv' \<in> irows s4. userId_assetId (bi_userId b1) (bi_assetId b1) iv'
     \<and> iv_quantity iv' = incremented E (incremented E (iv_quantity iv) (buy_quantity E b1 (fst c1))) (buy_quantity E b2 (fst c2))
     \<and> iv_currentValue iv' = stored E (fixed2 E (n_times E (n_plus E (Number_of E (iv_quantity iv)) (buy_quantity E b2 (fst c2)))
         (Number_of E (at_currentPrice (fst c2)))))"
proof -
  obtain a1 v1 e1 where c1: "c1 = (a1, v1, e1)" by (cases c1)
  obtain a2 v2 e2 where c2: "c2 = (a2, v2, e2)" by (cases c2)
  note 1 = buy_reads_returns[OF r1[unfolded c1]]
  note 2 = buy_reads_returns[OF r2[unfolded c2]]
  have only: "r = iv" if "r \<in> irows s" "userId_assetId (bi_userId b1) (bi_assetId b1) r" for r
    using inj_onD[OF inj _ that(1) iv(1)] that(2) iv(2) by (simp add: userId_assetId_def)
  have same: "irows s1 = irows s" "irows s2 = irows s" using 1 2 by simp_all
  have found: "e = Some iv" if "case e of None \<Rightarrow> \<forall>r \<in> irows s. \<not> userId_assetId (bi_userId b1) (bi_assetId b1) r
      | Some r \<Rightarrow> r \<in> irows s \<and> userId_assetId (bi_userId b1) (bi_assetId b1) r" for e
    using that iv by (cases e) (auto intro: only)
  have e1: "e1 = Some iv" by (rule found) (use 1 in blast)
  have e2: "e2 = Some iv" by (rule found) (use 2[unfolded u same] in blast)
  let ?iv1 = "bought_more E iv (buy_quantity E b1 a1) (Number_of E (at_currentPrice a1)) iv"
  have s3: "irows s3 = insert ?iv1 (irows s - {iv})"
    using buy_more_returns[OF w1[unfolded c1 e1], of iv] inj iv same by simp
  have key: "(iv_userId ?iv1, iv_assetId ?iv1) = (iv_userId iv, iv_assetId iv)" by (simp add: bought_more_def Let_def)
  have "inj_on (\<lambda>r. (iv_userId r, iv_assetId r)) (irows s3)" unfolding s3 by (rule inj_on_put[OF inj iv(1) key])
  moreover have "?iv1 \<in> irows s3" "userId_assetId (bi_userId b2) (bi_assetId b2) ?iv1"
    using s3 iv(2) key u by (simp_all add: userId_assetId_def)
  ultimately have "irows s4 = insert (bought_more E iv (buy_quantity E b2 a2) (Number_of E (at_currentPrice a2)) ?iv1)
      (irows s3 - {?iv1})" by (rule buy_more_returns[OF w2[unfolded c2 e2]])
  then show ?thesis using iv(2) c1 c2
    by (intro bexI[of _ "bought_more E iv (buy_quantity E b2 a2) (Number_of E (at_currentPrice a2)) ?iv1"])
       (simp_all add: bought_more_def Let_def userId_assetId_def)
qed

end

text \<open>C36. A trade is all or nothing. One that fails leaves wallets, positions and transactions as they
  were. A purchase that returns has found a balance that was not below the amount, took exactly the
  amount from the dollar wallet, wrote one transaction and added the quantity to the user's position
  in the asset, and to no other; a sale that returns had the quantity, credited the rounded
  proceeds, wrote one transaction, and left the rest of the position, or none.\<close>

theorem trades_all_or_nothing:
  assumes "invest_ports E iarows irows iwrows ilog" and "inj_on wr_id (iwrows s)"
  shows "(case investment_buy E buy s of
       (Inl e, t) \<Rightarrow> irows t = irows s \<and> iwrows t = iwrows s \<and> ilog t = ilog s
     | (Inr x, t) \<Rightarrow> purchased E iarows irows iwrows ilog buy s t)
   \<and> (case investment_sell E sell s of
       (Inl e, t) \<Rightarrow> irows t = irows s \<and> iwrows t = iwrows s \<and> ilog t = ilog s
     | (Inr x, t) \<Rightarrow> sold E iarows irows iwrows ilog sell s t)"
  using invest_ports.trades_committed[OF assms] .

definition demo_buy :: "string \<Rightarrow> int \<Rightarrow> int buy_input" where
  "demo_buy a n = \<lparr>bi_userId = ''ana'', bi_assetId = a, bi_amount = n\<rparr>"

definition demo_sell :: "int \<Rightarrow> int sell_input" where
  "demo_sell n = \<lparr>sl_userId = ''ana'', sl_assetId = ''gold'', sl_quantity = n\<rparr>"

theorem trades_all_or_nothing_witness:
  "let m = investment_buy demo_invest (demo_buy ''gold'' 80) demo_exchange_floor;
       n = investment_sell demo_invest (demo_sell 3) demo_exchange_floor
   in purchased demo_invest demo_iarows demo_irows demo_iwrows id_log (demo_buy ''gold'' 80) demo_exchange_floor (snd m)
      \<and> sold demo_invest demo_iarows demo_irows demo_iwrows id_log (demo_sell 3) demo_exchange_floor (snd n)
      \<and> map wr_balance (id_wallets (snd m)) = [20] \<and> map iv_quantity (id_investments (snd m)) = [11]
      \<and> map wr_balance (id_wallets (snd n)) = [130] \<and> id_investments (snd n) = []"
proof -
  let ?m = "investment_buy demo_invest (demo_buy ''gold'' 80) demo_exchange_floor"
  let ?n = "investment_sell demo_invest (demo_sell 3) demo_exchange_floor"
  have v: "\<not> isl (fst ?m) \<and> \<not> isl (fst ?n) \<and> map wr_balance (id_wallets (snd ?m)) = [20]
      \<and> map iv_quantity (id_investments (snd ?m)) = [11]
      \<and> map wr_balance (id_wallets (snd ?n)) = [130] \<and> id_investments (snd ?n) = []" by code_simp
  obtain x t y u where m: "?m = (Inr x, t)" and n: "?n = (Inr y, u)"
    using v by (cases ?m; cases "fst ?m"; cases ?n; cases "fst ?n") auto
  from trades_all_or_nothing[OF demo_invest.invest_ports_axioms demo_floor_keys(1), of "demo_buy ''gold'' 80" "demo_sell 3"]
  show ?thesis using v m n by (simp add: Let_def)
qed

text \<open>C37. Two purchases of a user whose reads come before the writes of either are both compared with the whole
  balance. The money stays right all the same, by the database's check alone: the first to write is charged its
  amount, and the second is charged too only if what is left is not below zero, and else fails and leaves the
  wallet as the first did. The position does not: when both buy more of one asset, its quantity grows by
  both, and its value is computed from the quantity the second had read, as if the first had bought nothing.\<close>

theorem concurrent_buys:
  assumes "checked_invest_ports E iarows irows iwrows ilog"
    and "buy_reads E b1 s = (Inr c1, s1)" and "buy_reads E b2 s1 = (Inr c2, s2)"
    and "buy_writes E b1 c1 s2 = (Inr x1, s3)" and "buy_writes E b2 c2 s3 = (x2, s4)"
    and "bi_userId b2 = bi_userId b1"
    and "inj_on wr_id (iwrows s)" and "inj_on (\<lambda>w. (wr_userId w, wr_currency w)) (iwrows s)"
    and "inj_on (\<lambda>r. (iv_userId r, iv_assetId r)) (irows s)"
  shows "(\<exists>w \<in> iwrows s. userId_currency (bi_userId b1) USD w
     \<and> \<not> n_less E (balance_Number E (wr_balance w)) (bi_amount b1)
     \<and> \<not> n_less E (balance_Number E (wr_balance w)) (bi_amount b2)
     \<and> (let b = balance_minus E (wr_balance w) (bi_amount b1); b' = balance_minus E b (bi_amount b2) in
        0 \<le> b \<and> iwrows s3 = insert (w\<lparr>wr_balance := b\<rparr>) (iwrows s - {w})
      \<and> (case x2 of Inl e \<Rightarrow> iwrows s4 = iwrows s3
         | Inr _ \<Rightarrow> 0 \<le> b' \<and> iwrows s4 = insert (w\<lparr>wr_balance := b'\<rparr>) (iwrows s - {w}))))
   \<and> (\<not> isl x2 \<longrightarrow> bi_assetId b2 = bi_assetId b1 \<longrightarrow>
        (\<forall>iv \<in> irows s. userId_assetId (bi_userId b1) (bi_assetId b1) iv \<longrightarrow>
          (\<exists>iv' \<in> irows s4. userId_assetId (bi_userId b1) (bi_assetId b1) iv'
           \<and> iv_quantity iv' = incremented E (incremented E (iv_quantity iv) (buy_quantity E b1 (fst c1)))
               (buy_quantity E b2 (fst c2))
           \<and> iv_currentValue iv' = stored E (fixed2 E (n_times E
               (n_plus E (Number_of E (iv_quantity iv)) (buy_quantity E b2 (fst c2)))
               (Number_of E (at_currentPrice (fst c2))))))))"
proof (intro conjI impI ballI)
  fix iv assume "\<not> isl x2" and a: "bi_assetId b2 = bi_assetId b1" and iv: "iv \<in> irows s"
    "userId_assetId (bi_userId b1) (bi_assetId b1) iv"
  then obtain x where "x2 = Inr x" by (cases x2) auto
  then show "\<exists>iv' \<in> irows s4. userId_assetId (bi_userId b1) (bi_assetId b1) iv'
           \<and> iv_quantity iv' = incremented E (incremented E (iv_quantity iv) (buy_quantity E b1 (fst c1)))
               (buy_quantity E b2 (fst c2))
           \<and> iv_currentValue iv' = stored E (fixed2 E (n_times E
               (n_plus E (Number_of E (iv_quantity iv)) (buy_quantity E b2 (fst c2)))
               (Number_of E (at_currentPrice (fst c2)))))"
    using checked_invest_ports.interleaved_position[OF assms(1-4) _ assms(6) a assms(9) iv] assms(5) by simp
qed (rule checked_invest_ports.interleaved_buys[OF assms(1-8)])

text \<open>A hundred dollars buy forty of gold twice, and the position of eleven is worth what seven are. They do not buy
  eighty of gold and eighty of oil: the second purchase is refused.\<close>

definition interleaved :: "int buy_input \<Rightarrow> int buy_input \<Rightarrow> bool \<Rightarrow> int list \<Rightarrow> (int \<times> int) list \<Rightarrow> bool" where
  "interleaved b1 b2 both balances position =
     (case buy_reads demo_invest b1 demo_exchange_floor of (Inl _, _) \<Rightarrow> False
    | (Inr c1, s1) \<Rightarrow> (case buy_reads demo_invest b2 s1 of (Inl _, _) \<Rightarrow> False
      | (Inr c2, s2) \<Rightarrow> (case buy_writes demo_invest b1 c1 s2 of (Inl _, _) \<Rightarrow> False
        | (Inr x1, s3) \<Rightarrow> (case buy_writes demo_invest b2 c2 s3 of (x2, s4) \<Rightarrow>
            isl x2 \<noteq> both \<and> map wr_balance (id_wallets s4) = balances
            \<and> (both \<longrightarrow> map (\<lambda>r. (iv_quantity r, iv_currentValue r)) (id_investments s4) = position)))))"

lemma interleavedE:
  assumes "interleaved b1 b2 both balances position"
  obtains c1 s1 c2 s2 x1 s3 x2 s4 where "buy_reads demo_invest b1 demo_exchange_floor = (Inr c1, s1)"
    and "buy_reads demo_invest b2 s1 = (Inr c2, s2)" and "buy_writes demo_invest b1 c1 s2 = (Inr x1, s3)"
    and "buy_writes demo_invest b2 c2 s3 = (x2, s4)" and "isl x2 \<noteq> both"
    and "map wr_balance (id_wallets s4) = balances"
    and "both \<longrightarrow> map (\<lambda>r. (iv_quantity r, iv_currentValue r)) (id_investments s4) = position"
proof -
  obtain r1 s1 where 1: "buy_reads demo_invest b1 demo_exchange_floor = (r1, s1)" by (rule prod.exhaust)
  obtain c1 where r1: "r1 = Inr c1" using assms 1 by (cases r1) (simp_all add: interleaved_def)
  obtain r2 s2 where 2: "buy_reads demo_invest b2 s1 = (r2, s2)" by (rule prod.exhaust)
  obtain c2 where r2: "r2 = Inr c2" using assms 1 r1 2 by (cases r2) (simp_all add: interleaved_def)
  obtain r3 s3 where 3: "buy_writes demo_invest b1 c1 s2 = (r3, s3)" by (rule prod.exhaust)
  obtain x1 where r3: "r3 = Inr x1" using assms 1 r1 2 r2 3 by (cases r3) (simp_all add: interleaved_def)
  obtain x2 s4 where 4: "buy_writes demo_invest b2 c2 s3 = (x2, s4)" by (rule prod.exhaust)
  show ?thesis
    by (rule that[OF 1[unfolded r1] 2[unfolded r2] 3[unfolded r3] 4])
      (use assms 1 r1 2 r2 3 r3 4 in \<open>simp_all add: interleaved_def\<close>)
qed

theorem concurrent_buys_witness:
  "interleaved (demo_buy ''gold'' 80) (demo_buy ''oil'' 80) False [20] []
   \<and> interleaved (demo_buy ''gold'' 40) (demo_buy ''gold'' 40) True [20] [(11, 70)]
   \<and> (\<exists>s3 s4. (\<exists>w \<in> demo_iwrows demo_exchange_floor. \<not> wr_balance w < 80
        \<and> demo_iwrows s3 = insert (w\<lparr>wr_balance := wr_balance w - 80\<rparr>) (demo_iwrows demo_exchange_floor - {w}))
      \<and> demo_iwrows s4 = demo_iwrows s3 \<and> map wr_balance (id_wallets s4) = [20])"
proof (intro conjI)
  show one: "interleaved (demo_buy ''gold'' 80) (demo_buy ''oil'' 80) False [20] []" by code_simp
  show "interleaved (demo_buy ''gold'' 40) (demo_buy ''gold'' 40) True [20] [(11, 70)]" by code_simp
  from one obtain c1 s1 c2 s2 x1 s3 x2 s4 where run: "buy_reads demo_invest (demo_buy ''gold'' 80) demo_exchange_floor = (Inr c1, s1)"
      "buy_reads demo_invest (demo_buy ''oil'' 80) s1 = (Inr c2, s2)"
      "buy_writes demo_invest (demo_buy ''gold'' 80) c1 s2 = (Inr x1, s3)"
      "buy_writes demo_invest (demo_buy ''oil'' 80) c2 s3 = (x2, s4)" and refused: "isl x2"
    and b: "map wr_balance (id_wallets s4) = [20]" by (rule interleavedE) simp
  have user: "bi_userId (demo_buy ''oil'' 80) = bi_userId (demo_buy ''gold'' 80)" by (simp add: demo_buy_def)
  have key: "inj_on (\<lambda>r. (iv_userId r, iv_assetId r)) (demo_irows demo_exchange_floor)"
    by (simp add: demo_irows_def demo_exchange_floor_def)
  obtain e where e: "x2 = Inl e" using refused by (cases x2) simp_all
  from concurrent_buys[OF demo_checked.checked_invest_ports_axioms run user demo_floor_keys key, THEN conjunct1]
  obtain w where w: "w \<in> demo_iwrows demo_exchange_floor" "demo_iwrows s4 = demo_iwrows s3"
    and num: "\<not> n_less demo_invest (balance_Number demo_invest (wr_balance w)) (bi_amount (demo_buy ''gold'' 80))"
      "demo_iwrows s3 = insert (w\<lparr>wr_balance := balance_minus demo_invest (wr_balance w) (bi_amount (demo_buy ''gold'' 80))\<rparr>)
         (demo_iwrows demo_exchange_floor - {w})"
    unfolding e sum.case Let_def by blast
  have demo: "n_less demo_invest = (<)" "balance_Number demo_invest = (\<lambda>x. x)" "balance_minus demo_invest = (-)"
    "bi_amount (demo_buy ''gold'' 80) = 80" by (simp_all add: demo_invest_def demo_buy_def)
  show "\<exists>s3 s4. (\<exists>w \<in> demo_iwrows demo_exchange_floor. \<not> wr_balance w < 80
        \<and> demo_iwrows s3 = insert (w\<lparr>wr_balance := wr_balance w - 80\<rparr>) (demo_iwrows demo_exchange_floor - {w}))
      \<and> demo_iwrows s4 = demo_iwrows s3 \<and> map wr_balance (id_wallets s4) = [20]" 
    by (intro exI[of _ s3] exI[of _ s4] conjI bexI[of _ w]) (rule w num[unfolded demo] b)+
qed

end
