(* ===== verification/Rates.thy ===== *)
theory Rates
  imports Exchange
begin

text \<open>
  \<open>ExchangeRateService\<close> (\<open>exchange-rate.service.ts\<close>): the newest rate of a pair, its history, and the
  refresh from the rate provider. The rates are the table the exchange handler reads. JavaScript
  numbers are a type parameter \<open>'n\<close>, the column's decimals \<open>'d\<close>; the provider's answer is a parameter.
\<close>

section \<open>The service\<close>

record ('s, 'd, 'n) rates_env =
  rt_rates :: "('s, 'd rate_row, 'n new_rate) delegate"
  rt_apiKey :: "string option"
  rt_latest :: "string \<Rightarrow> ('s, (string \<Rightarrow> 'n option) option) io"
  rt_now :: "'s \<Rightarrow> int"
  rt_stored :: "'n \<Rightarrow> 'd"
  rt_undefined :: 'n
  rt_literal :: "string \<Rightarrow> 'n"
  rt_div :: "'n \<Rightarrow> 'n \<Rightarrow> 'n"
  rt_times :: "'n \<Rightarrow> 'n \<Rightarrow> 'n"
  rt_fixed :: "nat \<Rightarrow> 'n \<Rightarrow> 'n"

definition SUPPORTED_PAIRS :: "(currency \<times> currency) list" where
  "SUPPORTED_PAIRS = [(USD, ARS), (ARS, USD), (USD, USDT), (USDT, USD), (USDT, ARS), (USD, BRL)]"

record 'd quoted_rate =
  qr_fromCurrency :: currency
  qr_toCurrency :: currency
  qr_rate :: 'd
  qr_date :: int

definition quote_of :: "'d rate_row \<Rightarrow> 'd quoted_rate" where
  "quote_of r = \<lparr>qr_fromCurrency = rr_fromCurrency r, qr_toCurrency = rr_toCurrency r,
     qr_rate = rr_rate r, qr_date = rr_date r\<rparr>"

primrec current_of :: "('s, 'd, 'n) rates_env \<Rightarrow> (currency \<times> currency) list \<Rightarrow> ('s, 'd rate_row option list) io" where
  "current_of R [] = ret []"
| "current_of R (p # ps) =
     seqM (findFirstBy (rt_rates R) (rate_for (fst p) (snd p)) newest_first) (\<lambda>r.
     seqM (current_of R ps) (\<lambda>rs. ret (r # rs)))"

definition getCurrent :: "('s, 'd, 'n) rates_env \<Rightarrow> ('s, 'd quoted_rate list) io" where
  "getCurrent R =
     seqM (current_of R SUPPORTED_PAIRS) (\<lambda>rates. ret (map quote_of (map the (filter (\<lambda>r. r \<noteq> None) rates))))"

definition getRate :: "('s, 'd, 'n) rates_env \<Rightarrow> currency \<Rightarrow> currency \<Rightarrow> ('s, 'd quoted_rate) io" where
  "getRate R from to =
     seqM (findFirstBy (rt_rates R) (rate_for from to) newest_first) (\<lambda>q.
     seqM (assertFound q (''Rate '' @ pair_name from to)) (\<lambda>rate. ret (quote_of rate)))"

definition oldest_rate_first :: "'d rate_row \<Rightarrow> 'd rate_row \<Rightarrow> bool" where
  "oldest_rate_first a b \<longleftrightarrow> rr_date a \<le> rr_date b"

definition getHistory :: "('s, 'd, 'n) rates_env \<Rightarrow> currency \<Rightarrow> currency \<Rightarrow> ('s, ('d \<times> int) list) io" where
  "getHistory R from to =
     seqM (findPage (rt_rates R) (rate_for from to) oldest_rate_first 0 30) (\<lambda>rates.
     if rates = [] then throw (NotFoundException (''No history for '' @ pair_name from to))
     else ret (map (\<lambda>r. (rr_rate r, rr_date r)) rates))"

text \<open>The rows a refresh writes; \<open>ars\<close> and \<open>brl\<close> are the provider's rates of the dollar.\<close>

definition refreshed_pairs :: "('s, 'd, 'n) rates_env \<Rightarrow> 'n \<Rightarrow> 'n \<Rightarrow> (currency \<times> currency \<times> 'n) list" where
  "refreshed_pairs R ars brl =
     [(USD, ARS, ars),
      (ARS, USD, rt_fixed R 8 (rt_div R (rt_literal R ''1'') ars)),
      (USD, BRL, brl),
      (USD, USDT, rt_literal R ''1.0002''),
      (USDT, USD, rt_literal R ''0.9998''),
      (USDT, ARS, rt_fixed R 4 (rt_times R ars (rt_literal R ''0.9998'')))]"

record refresh_result =
  rf_message :: string
  rf_pairs :: "nat option"
  rf_date :: "int option"

text \<open>An answer without \<open>conversion_rates\<close> (\<open>None\<close>) makes the code throw; a currency it does not have
  reads \<open>undefined\<close>.\<close>

definition rates_refresh :: "('s, 'd, 'n) rates_env \<Rightarrow> ('s, refresh_result) io" where
  "rates_refresh R =
     (case truthy (rt_apiKey R) of
        None \<Rightarrow> ret \<lparr>rf_message = ''EXCHANGE_RATE_API_KEY not configured'', rf_pairs = None, rf_date = None\<rparr>
      | Some apiKey \<Rightarrow>
          seqM (rt_latest R apiKey) (\<lambda>conversion_rates.
          seqM (readM (rt_now R)) (\<lambda>now.
          case conversion_rates of
            None \<Rightarrow> throw (PlainError ''TypeError'')
          | Some rates \<Rightarrow>
              let pairs = refreshed_pairs R (or_else (rates ''ARS'') (rt_undefined R))
                            (or_else (rates ''BRL'') (rt_undefined R))
              in seqM (createMany (rt_rates R)
                     (map (\<lambda>p. \<lparr>nr_fromCurrency = fst p, nr_toCurrency = fst (snd p), nr_rate = snd (snd p),
                                nr_date = now\<rparr>) pairs)) (\<lambda>_.
                 ret \<lparr>rf_message = ''Rates refreshed'', rf_pairs = Some (length pairs), rf_date = Some now\<rparr>))))"

section \<open>What the service relies on\<close>

definition stored_rate :: "('s, 'd, 'n) rates_env \<Rightarrow> 'n new_rate \<Rightarrow> 'd rate_row \<Rightarrow> bool" where
  "stored_rate R n r \<longleftrightarrow> rr_fromCurrency r = nr_fromCurrency n \<and> rr_toCurrency r = nr_toCurrency n
     \<and> rr_rate r = rt_stored R (nr_rate n) \<and> rr_date r = nr_date n"

text \<open>The rates are a table, which the provider does not touch.\<close>

locale rates_ports =
  fixes R :: "('s, 'd, 'n) rates_env" and rrows :: "'s \<Rightarrow> 'd rate_row set"
  assumes rtab: "table (rt_rates R) rrows (\<lambda>_. ()) (\<lambda>s n r. stored_rate R n r) (\<lambda>s r. r)"
    and latest: "keeps rrows (rt_latest R k)"
begin

lemmas r_returns = table.returns[OF rtab]
lemmas r_newest = table.findFirstBy_returns[OF rtab]

text \<open>What a refresh that returns has written: one row for each of its pairs, dated now.\<close>

lemma refresh_rows:
  assumes run: "rates_refresh R s = (Inr x, t)" and pairs: "rf_pairs x = Some k"
  shows "\<exists>ars brl rs. rf_date x \<noteq> None \<and> list_all2 (\<lambda>p r. rr_fromCurrency r = fst p \<and> rr_toCurrency r = fst (snd p)
        \<and> rr_rate r = rt_stored R (snd (snd p)) \<and> rr_date r = the (rf_date x)) (refreshed_pairs R ars brl) rs
      \<and> set rs \<inter> rrows s = {} \<and> rrows t = rrows s \<union> set rs"
proof (cases "truthy (rt_apiKey R)")
  case None
  then show ?thesis using run pairs by (auto simp: rates_refresh_def io_defs)
next
  case (Some key)
  from run obtain q s1 where l: "rt_latest R key s = (Inr q, s1)"
    and rest: "(case q of
            None \<Rightarrow> throw (PlainError ''TypeError'')
          | Some rates \<Rightarrow>
              let pairs = refreshed_pairs R (or_else (rates ''ARS'') (rt_undefined R))
                            (or_else (rates ''BRL'') (rt_undefined R))
              in seqM (createMany (rt_rates R)
                     (map (\<lambda>p. \<lparr>nr_fromCurrency = fst p, nr_toCurrency = fst (snd p), nr_rate = snd (snd p),
                                nr_date = rt_now R s1\<rparr>) pairs)) (\<lambda>_.
                 ret \<lparr>rf_message = ''Rates refreshed'', rf_pairs = Some (length pairs), rf_date = Some (rt_now R s1)\<rparr>)) s1 = (Inr x, t)"
    using Some by (auto simp: rates_refresh_def seqM_Inr io_prim_iff)
  from rest obtain rates where q: "q = Some rates" by (cases q) (auto simp: io_prim_iff)
  let ?ps = "refreshed_pairs R (or_else (rates ''ARS'') (rt_undefined R)) (or_else (rates ''BRL'') (rt_undefined R))"
  from rest q obtain c where
    c: "createMany (rt_rates R) (map (\<lambda>p. \<lparr>nr_fromCurrency = fst p, nr_toCurrency = fst (snd p), nr_rate = snd (snd p),
                                nr_date = rt_now R s1\<rparr>) ?ps) s1 = (Inr c, t)"
    and x: "rf_date x = Some (rt_now R s1)"
    by (auto simp: Let_def seqM_Inr io_prim_iff)
  have same: "rrows s1 = rrows s" using keepsD[OF latest l] .
  from r_returns(6)[OF c] obtain rs where
    rs: "list_all2 (stored_rate R) (map (\<lambda>p. \<lparr>nr_fromCurrency = fst p, nr_toCurrency = fst (snd p), nr_rate = snd (snd p),
                                nr_date = rt_now R s1\<rparr>) ?ps) rs" "set rs \<inter> rrows s = {}" "rrows t = rrows s \<union> set rs"
    unfolding same by (elim conjE exE)
  have "list_all2 (\<lambda>p r. rr_fromCurrency r = fst p \<and> rr_toCurrency r = fst (snd p)
        \<and> rr_rate r = rt_stored R (snd (snd p)) \<and> rr_date r = the (rf_date x)) ?ps rs"
    using rs(1) unfolding list_all2_map1 by (rule list_all2_mono) (simp add: stored_rate_def x)
  then show ?thesis using rs(2,3) x by blast
qed

end

lemma oldest_rate_first_total: "total_order oldest_rate_first"
  by (auto simp: total_order_def oldest_rate_first_def)

lemma refreshed_pairs_supported:
  "set SUPPORTED_PAIRS = set (map (\<lambda>p. (fst p, fst (snd p))) (refreshed_pairs R ars brl))"
  "distinct (map (\<lambda>p. (fst p, fst (snd p))) (refreshed_pairs R ars brl))"
  by (auto simp: SUPPORTED_PAIRS_def refreshed_pairs_def)

context rates_ports
begin

lemma getRate_refreshed:
  assumes run: "rates_refresh R s = (Inr x, t)" and pairs: "rf_pairs x = Some k"
    and older: "\<forall>r \<in> rrows s. rr_date r < the (rf_date x)"
    and pair: "(from, to) \<in> set SUPPORTED_PAIRS"
    and answers: "\<not> isl (fst (findFirstBy (rt_rates R) (rate_for from to) newest_first t))"
  shows "\<exists>ars brl n y u. getRate R from to t = (Inr y, u) \<and> (from, to, n) \<in> set (refreshed_pairs R ars brl)
    \<and> qr_rate y = rt_stored R n \<and> qr_date y = the (rf_date x)"
proof -
  from refresh_rows[OF run pairs] obtain ars brl rs where
    rs: "list_all2 (\<lambda>p r. rr_fromCurrency r = fst p \<and> rr_toCurrency r = fst (snd p)
        \<and> rr_rate r = rt_stored R (snd (snd p)) \<and> rr_date r = the (rf_date x)) (refreshed_pairs R ars brl) rs"
    and t: "rrows t = rrows s \<union> set rs" by (elim exE conjE)
  from answers obtain q u where f: "findFirstBy (rt_rates R) (rate_for from to) newest_first t = (Inr q, u)"
    using io_returns[where m = "findFirstBy (rt_rates R) (rate_for from to) newest_first" and s = t] by blast
  from pair obtain p where p: "p \<in> set (refreshed_pairs R ars brl)" "fst p = from" "fst (snd p) = to"
    unfolding refreshed_pairs_supported(1)[of R ars brl] by auto
  then obtain r0 where r0: "r0 \<in> set rs" "rate_for from to r0" "rr_date r0 = the (rf_date x)"
    using list_all2_mem(1)[OF rs p(1)] by (auto simp: rate_for_def)
  from r_newest[OF f newest_first_total] r0(1,2) t obtain r where q: "q = Some r" and r: "r \<in> rrows t" "rate_for from to r"
    and max: "\<forall>r' \<in> rrows t. rate_for from to r' \<longrightarrow> newest_first r r'" by (cases q) auto
  have "the (rf_date x) \<le> rr_date r" using max r0 t by (auto simp: newest_first_def)
  then have "r \<in> set rs" using r(1) t older by fastforce
  then obtain p' where p': "p' \<in> set (refreshed_pairs R ars brl)" "fst p' = from" "fst (snd p') = to"
      "rr_rate r = rt_stored R (snd (snd p'))" "rr_date r = the (rf_date x)"
    using list_all2_mem(2)[OF rs, of r] r(2) by (auto simp: rate_for_def)
  have "p' = (from, to, snd (snd p'))" using p'(2,3) by (cases p') auto
  then have "(from, to, snd (snd p')) \<in> set (refreshed_pairs R ars brl)" using p'(1) by simp
  moreover have "getRate R from to t = (Inr (quote_of r), u)" using f q by (simp add: getRate_def seqM_def io_defs)
  ultimately show ?thesis using p'(4,5) by (auto simp: quote_of_def)
qed

lemma history_returns:
  assumes run: "getHistory R from to s = (Inr h, t)"
  shows "length h = min 30 (card {r \<in> rrows s. rate_for from to r}) \<and> sorted (map snd h)
    \<and> (\<forall>r \<in> rrows s. rate_for from to r \<longrightarrow> (rr_rate r, rr_date r) \<notin> set h \<longrightarrow> (\<forall>x \<in> set h. snd x \<le> rr_date r))"
proof -
  from run obtain rates where f: "findPage (rt_rates R) (rate_for from to) oldest_rate_first 0 30 s = (Inr rates, t)"
    and h: "h = map (\<lambda>r. (rr_rate r, rr_date r)) rates"
    by (auto simp: getHistory_def seqM_Inr io_prim_iff split: if_splits)
  from r_returns(3)[OF f] oldest_rate_first_total obtain all where
    all: "set all = {r \<in> rrows s. rate_for from to r}" "distinct all" "sorted_wrt oldest_rate_first all"
      "rates = take 30 all" by auto
  have "sorted (map rr_date all)" using all(3) by (simp add: sorted_wrt_map oldest_rate_first_def[abs_def])
  then have "sorted (map snd h)" using h all(4) sorted_wrt_take[of "(\<le>)" "map rr_date all" 30] by (simp add: comp_def take_map)
  moreover have "length h = min 30 (card {r \<in> rrows s. rate_for from to r})"
    using h all(4) distinct_card[OF all(2)] all(1) by simp
  moreover have "snd x \<le> rr_date r"
    if "r \<in> rrows s" "rate_for from to r" "(rr_rate r, rr_date r) \<notin> set h" "x \<in> set h" for r x
  proof -
    have "r \<in> set all" using that all(1) by simp
    moreover have "r \<notin> set (take 30 all)" using that(3) h all(4) by auto
    ultimately have r: "r \<in> set (drop 30 all)" by (metis Un_iff append_take_drop_id set_append)
    from that(4) h all(4) obtain y where y: "y \<in> set (take 30 all)" "snd x = rr_date y" by auto
    have "sorted_wrt oldest_rate_first (take 30 all @ drop 30 all)" using all(3) by simp
    then have "oldest_rate_first y r" using y(1) r by (simp only: sorted_wrt_append)
    then show ?thesis using y(2) by (simp add: oldest_rate_first_def)
  qed
  ultimately show ?thesis by blast
qed

end

section \<open>A concrete provider\<close>

text \<open>Rates are whole numbers of \<open>10\<^sup>-\<^sup>8\<close>, and the column keeps six decimals.\<close>

record rates_world =
  rd_rates :: "int rate_row list"
  rd_clock :: int

definition demo_rate_made :: "rates_world \<Rightarrow> nat \<Rightarrow> int new_rate \<Rightarrow> int rate_row" where
  "demo_rate_made s k n = \<lparr>rr_id = replicate (length (rd_rates s) + k) CHR ''r'',
     rr_fromCurrency = nr_fromCurrency n, rr_toCurrency = nr_toCurrency n, rr_rate = nr_rate n div 100 * 100, rr_date = nr_date n\<rparr>"

definition demo_rates :: "(rates_world, int, int) rates_env" where
  "demo_rates = \<lparr>
     rt_rates = list_delegate rd_rates (\<lambda>rs s. s\<lparr>rd_rates := rs\<rparr>) demo_rate_made (\<lambda>s r. r) (\<lambda>r x. rr_id r = rr_id x),
     rt_apiKey = Some ''key'',
     rt_latest = (\<lambda>k. ret (Some (map_of [(''ARS'', 125000000000), (''BRL'', 540000000)]))),
     rt_now = rd_clock, rt_stored = (\<lambda>n. n div 100 * 100), rt_undefined = 0,
     rt_literal = (\<lambda>t. if t = ''1'' then 100000000 else if t = ''1.0002'' then 100020000 else 99980000),
     rt_div = (\<lambda>a b. a * 100000000 div b), rt_times = (\<lambda>a b. a * b div 100000000),
     rt_fixed = (\<lambda>k n. n div 10 ^ (8 - k) * 10 ^ (8 - k))\<rparr>"

definition demo_rd_rows :: "rates_world \<Rightarrow> int rate_row set" where "demo_rd_rows s = set (rd_rates s)"

interpretation demo_rates: rates_ports demo_rates demo_rd_rows
proof (rule rates_ports.intro)
  have t: "table (rt_rates demo_rates) (\<lambda>s. set (rd_rates s)) (\<lambda>_. ())
      (\<lambda>s n r. (\<exists>i. r = demo_rate_made s i n) \<and> (\<forall>x \<in> set (rd_rates s). \<not> rr_id r = rr_id x)) (\<lambda>s r. r)"
    unfolding demo_rates_def rates_env.simps by (rule list_delegate_table) simp_all
  have rw: "demo_rd_rows = (\<lambda>s. set (rd_rates s))" by (simp add: demo_rd_rows_def fun_eq_iff)
  show "table (rt_rates demo_rates) demo_rd_rows (\<lambda>_. ()) (\<lambda>s. stored_rate demo_rates) (\<lambda>s r. r)"
    unfolding rw by (rule table_weaken[OF t]) (auto simp: stored_rate_def demo_rate_made_def demo_rates_def)
  show "keeps demo_rd_rows (rt_latest demo_rates k)" for k
    by (simp add: demo_rates_def keeps_def io_defs)
qed

definition demo_rates_past :: rates_world where
  "demo_rates_past = \<lparr>rd_rates = map (\<lambda>i. \<lparr>rr_id = ''old'' @ show_nat i, rr_fromCurrency = USD, rr_toCurrency = ARS,
       rr_rate = 120000000000, rr_date = int i\<rparr>) [0..<31], rd_clock = 100\<rparr>"

text \<open>After a refresh that wrote the rates, the rate of every supported pair is the one just written,
  with its date (where no row is dated later), so the exchange finds it fresh: the direct rates as
  the provider gave them, the others derived from the rate of the peso.\<close>

theorem refresh_then_getRate:
  assumes "rates_ports R rrows" and "rates_refresh R s = (Inr x, t)" and "rf_pairs x = Some k"
    and "\<forall>r \<in> rrows s. rr_date r < the (rf_date x)" and "(from, to) \<in> set SUPPORTED_PAIRS"
    and "\<not> isl (fst (findFirstBy (rt_rates R) (rate_for from to) newest_first t))"
  shows "\<exists>ars brl n y u. getRate R from to t = (Inr y, u) \<and> (from, to, n) \<in> set (refreshed_pairs R ars brl)
    \<and> qr_rate y = rt_stored R n \<and> qr_date y = the (rf_date x)"
  using rates_ports.getRate_refreshed[OF assms] .

text \<open>At 1250 pesos the dollar, a peso is worth 0.0008 dollars.\<close>

theorem refresh_then_getRate_witness:
  "\<exists>ars brl n y u. getRate demo_rates ARS USD (snd (rates_refresh demo_rates demo_rates_past)) = (Inr y, u)
     \<and> (ARS, USD, n) \<in> set (refreshed_pairs demo_rates ars brl)
     \<and> qr_rate y = rt_stored demo_rates n \<and> qr_date y = 100 \<and> qr_rate y = 80000"
proof -
  let ?m = "rates_refresh demo_rates demo_rates_past"
  have v: "map_sum (\<lambda>_. ()) (\<lambda>x. (rf_pairs x, rf_date x)) (fst ?m) = Inr (Some 6, Some 100)
      \<and> map_sum (\<lambda>_. ()) qr_rate (fst (getRate demo_rates ARS USD (snd ?m))) = Inr 80000" by code_simp
  then obtain x t where m: "?m = (Inr x, t)" "rf_pairs x = Some 6" "rf_date x = Some 100"
    by (cases ?m; cases "fst ?m") auto
  have old: "\<forall>r \<in> demo_rd_rows demo_rates_past. rr_date r < the (rf_date x)"
    by (auto simp: demo_rd_rows_def demo_rates_past_def m(3))
  have pair: "(ARS, USD) \<in> set SUPPORTED_PAIRS" by (simp add: SUPPORTED_PAIRS_def)
  have ans: "\<not> isl (fst (findFirstBy (rt_rates demo_rates) (rate_for ARS USD) newest_first t))"
    by (simp add: demo_rates_def findFirstBy_def list_delegate_def seqM_def ret_def)
  from refresh_then_getRate[OF demo_rates.rates_ports_axioms m(1,2) old pair ans] obtain ars brl n y u where
    r: "getRate demo_rates ARS USD t = (Inr y, u)" "(ARS, USD, n) \<in> set (refreshed_pairs demo_rates ars brl)"
      "qr_rate y = rt_stored demo_rates n" "qr_date y = 100"
    unfolding m(3) option.sel by (elim exE conjE)
  have "qr_rate y = 80000" using v m(1) r(1) by simp
  then show ?thesis
    using r m(1) by - (rule exI[of _ ars], rule exI[of _ brl], rule exI[of _ n], rule exI[of _ y], rule exI[of _ u], simp)
qed

text \<open>The history of a pair is its thirty oldest rates, in ascending order: a rate that is left out is
  not older than any that is shown, so once there are more than thirty, the newest is not there.\<close>

theorem history_is_oldest:
  assumes "rates_ports R rrows" and "getHistory R from to s = (Inr h, t)"
  shows "length h = min 30 (card {r \<in> rrows s. rate_for from to r}) \<and> sorted (map snd h)
    \<and> (\<forall>r \<in> rrows s. rate_for from to r \<longrightarrow> (rr_rate r, rr_date r) \<notin> set h \<longrightarrow> (\<forall>x \<in> set h. snd x \<le> rr_date r))"
  using rates_ports.history_returns[OF assms] .

text \<open>Of thirty-one rates, the one of day 30, the newest, is not in the history.\<close>

theorem history_is_oldest_witness:
  "\<exists>h t. getHistory demo_rates USD ARS demo_rates_past = (Inr h, t) \<and> sorted (map snd h)
     \<and> map snd h = map int [0..<30] \<and> (\<exists>r \<in> demo_rd_rows demo_rates_past. rr_date r = 30)"
proof -
  let ?m = "getHistory demo_rates USD ARS demo_rates_past"
  have v: "map_sum (\<lambda>_. ()) (map snd) (fst ?m) = Inr (map int [0..<30])" by code_simp
  then obtain h t where m: "?m = (Inr h, t)" by (cases ?m; cases "fst ?m") auto
  have "\<exists>r \<in> demo_rd_rows demo_rates_past. rr_date r = 30"
    by (auto simp: demo_rd_rows_def demo_rates_past_def image_iff intro: bexI[of _ 30])
  then show ?thesis using history_is_oldest[OF demo_rates.rates_ports_axioms m] m v by auto
qed

end
