(* ===== verification/Prices.thy ===== *)
theory Prices
  imports Resources
begin

text \<open>
  \<open>PricesService\<close> (\<open>prices.service.ts\<close>): the price of a symbol, from the cache or from one of two
  providers, and what rests on it: the routes of \<open>prices.controller.ts\<close> and the valuation of a portfolio
  (\<open>getValuation\<close> of \<open>portfolio.service.ts\<close>). The cache, \<open>fetch\<close> and the members the code reads of an
  answer are parameters, JavaScript numbers are the type \<open>'n\<close>.
\<close>

section \<open>The service\<close>

datatype price_source = FINNHUB | COINGECKO

record 'n price_result =
  pr_symbol :: string
  pr_price :: "'n option"
  pr_source :: price_source
  pr_currency :: string
  pr_timestamp :: string

text \<open>An answer: \<open>ok\<close>, and what reading \<open>c\<close>, and \<open>usd\<close> of a coin, in its JSON gives; \<open>None\<close> is
  \<open>undefined\<close> or \<open>null\<close>.\<close>

record 'n http_reply =
  hr_ok :: bool
  hr_c :: "exn + 'n option"
  hr_usd :: "string \<Rightarrow> exn + 'n option"

record ('s, 'n) prices_env =
  price_get :: "string \<Rightarrow> ('s, 'n price_result option) io"
  price_set :: "string \<Rightarrow> 'n price_result \<Rightarrow> int \<Rightarrow> ('s, unit) io"
  http_fetch :: "string \<Rightarrow> ('s, 'n http_reply) io"
  falsy_number :: "'n \<Rightarrow> bool"
  toUpperCase :: "string \<Rightarrow> string"
  trimmed :: "string \<Rightarrow> string"
  ISO_now :: "'s \<Rightarrow> string"
  FINNHUB_API_KEY :: string

definition CRYPTO_SYMBOL_MAP :: "(string \<times> string) list" where
  "CRYPTO_SYMBOL_MAP = [(''BTC'', ''bitcoin''), (''ETH'', ''ethereum''), (''SOL'', ''solana''), (''USDT'', ''tether''),
     (''USDC'', ''usd-coin''), (''BNB'', ''binancecoin''), (''ADA'', ''cardano''), (''XRP'', ''ripple''),
     (''DOGE'', ''dogecoin''), (''DOT'', ''polkadot''), (''MATIC'', ''matic-network''), (''AVAX'', ''avalanche-2''),
     (''LINK'', ''chainlink''), (''UNI'', ''uniswap''), (''LTC'', ''litecoin'')]"

definition PRICE_TTL_MS :: int where "PRICE_TTL_MS = 300000"

definition finnhub_url :: "('s, 'n) prices_env \<Rightarrow> string \<Rightarrow> string" where
  "finnhub_url P symbol = ''https://finnhub.io/api/v1/quote?symbol='' @ symbol @ ''&token='' @ FINNHUB_API_KEY P"

definition coingecko_url :: "string \<Rightarrow> string" where
  "coingecko_url coinId = ''https://api.coingecko.com/api/v3/simple/price?ids='' @ coinId @ ''&vs_currencies=usd''"

definition fetchFinnhub :: "('s, 'n) prices_env \<Rightarrow> string \<Rightarrow> ('s, 'n price_result option) io" where
  "fetchFinnhub P symbol =
     catchM
       (seqM (http_fetch P (finnhub_url P symbol)) (\<lambda>res.
        if \<not> hr_ok res then ret None
        else seqM (lift (hr_c res)) (\<lambda>c.
             case c of None \<Rightarrow> ret None
             | Some p \<Rightarrow>
                 if falsy_number P p then ret None
                 else seqM (readM (ISO_now P)) (\<lambda>timestamp.
                      ret (Some \<lparr>pr_symbol = symbol, pr_price = Some p, pr_source = FINNHUB,
                                 pr_currency = ''USD'', pr_timestamp = timestamp\<rparr>)))))
       (\<lambda>_. ret None)"

definition fetchCoinGecko :: "('s, 'n) prices_env \<Rightarrow> string \<Rightarrow> string \<Rightarrow> ('s, 'n price_result option) io" where
  "fetchCoinGecko P symbol coinId =
     catchM
       (seqM (http_fetch P (coingecko_url coinId)) (\<lambda>res.
        if \<not> hr_ok res then ret None
        else seqM (lift (hr_usd res coinId)) (\<lambda>price.
             case price of None \<Rightarrow> ret None
             | Some p \<Rightarrow>
                 seqM (readM (ISO_now P)) (\<lambda>timestamp.
                 ret (Some \<lparr>pr_symbol = symbol, pr_price = Some p, pr_source = COINGECKO,
                            pr_currency = ''USD'', pr_timestamp = timestamp\<rparr>)))))
       (\<lambda>_. ret None)"

definition price_key :: "('s, 'n) prices_env \<Rightarrow> string \<Rightarrow> string" where
  "price_key P symbol = ''price:'' @ toUpperCase P symbol"

text \<open>\<open>map_of\<close> is the property access on the map's object literal.\<close>

definition fetch_price :: "('s, 'n) prices_env \<Rightarrow> string \<Rightarrow> ('s, 'n price_result option) io" where
  "fetch_price P upper =
     (case map_of CRYPTO_SYMBOL_MAP upper of
        Some coinId \<Rightarrow> fetchCoinGecko P upper coinId
      | None \<Rightarrow> fetchFinnhub P upper)"

definition getPrice :: "('s, 'n) prices_env \<Rightarrow> string \<Rightarrow> ('s, 'n price_result option) io" where
  "getPrice P symbol =
     seqM (orNull (price_get P (price_key P symbol))) (\<lambda>cached.
     case cached of
       Some (Some c) \<Rightarrow> ret (Some c)
     | _ \<Rightarrow>
         seqM (fetch_price P (toUpperCase P symbol)) (\<lambda>result.
         case result of None \<Rightarrow> ret None
         | Some r \<Rightarrow>
             seqM (orNull (price_set P (price_key P symbol) r PRICE_TTL_MS)) (\<lambda>_. ret (Some r))))"

text \<open>The requests of \<open>Promise.all\<close>, in the order of the symbols: they share the cache only, and a price may
  reach it before another of the same symbol is looked up or after.\<close>

primrec getPrices :: "('s, 'n) prices_env \<Rightarrow> string list \<Rightarrow> ('s, 'n price_result option list) io" where
  "getPrices P [] = ret []"
| "getPrices P (x # xs) =
     seqM (orNull (getPrice P x)) (\<lambda>p.
     seqM (getPrices P xs) (\<lambda>ps. ret ((case p of Some q \<Rightarrow> q | None \<Rightarrow> None) # ps)))"

section \<open>The routes\<close>

text \<open>\<open>split(",")\<close>.\<close>

fun split_comma :: "string \<Rightarrow> string list" where
  "split_comma [] = [[]]"
| "split_comma (c # x) =
     (if c = CHR '','' then [] # split_comma x else (c # hd (split_comma x)) # tl (split_comma x))"

definition getBatch :: "('s, 'n) prices_env \<Rightarrow> string option \<Rightarrow> ('s, 'n price_result option list) io" where
  "getBatch P symbols =
     (let parsed = filter (\<lambda>s. s \<noteq> '''') (map (trimmed P) (split_comma (or_else symbols '''')))
      in if parsed = [] then throw (BadRequestException ''Query param 'symbols' is required.'')
         else getPrices P parsed)"

definition getOne :: "('s, 'n) prices_env \<Rightarrow> string \<Rightarrow> ('s, 'n price_result) io" where
  "getOne P symbol =
     seqM (getPrice P symbol) (\<lambda>price.
     case price of None \<Rightarrow> throw (NotFoundException (''No price available for symbol '' @ symbol))
     | Some p \<Rightarrow> ret p)"

section \<open>The valuation of a portfolio\<close>

text \<open>The numbers of \<open>getValuation\<close>; \<open>round2\<close> is \<open>parseFloat(value.toFixed(2))\<close>.\<close>

record ('d, 'n) valuation_numbers =
  v_zero :: 'n
  v_100 :: 'n
  v_plus :: "'n \<Rightarrow> 'n \<Rightarrow> 'n"
  v_minus :: "'n \<Rightarrow> 'n \<Rightarrow> 'n"
  v_times :: "'n \<Rightarrow> 'n \<Rightarrow> 'n"
  v_div :: "'n \<Rightarrow> 'n \<Rightarrow> 'n"
  v_less :: "'n \<Rightarrow> 'n \<Rightarrow> bool"
  round2 :: "'n \<Rightarrow> 'n"
  v_Number :: "'d \<Rightarrow> 'n"

record 'n valued_asset =
  va_symbol :: string
  va_quantity :: 'n
  va_currentPrice :: "'n option"
  va_valueUSD :: "'n option"
  va_pnl :: "'n option"
  va_pnlPercent :: "'n option"

record 'n valuation =
  vl_portfolioId :: string
  vl_totalValueUSD :: 'n
  vl_assets :: "'n valued_asset list"

definition value_asset :: "('d, 'n) valuation_numbers \<Rightarrow> 'd asset_row \<Rightarrow> 'n price_result option \<Rightarrow> 'n valued_asset" where
  "value_asset N asset price =
     (let quantity = v_Number N (as_quantity asset); avgBuyPrice = v_Number N (as_avgBuyPrice asset) in
      case Option.bind price pr_price of
        None \<Rightarrow> \<lparr>va_symbol = as_symbol asset, va_quantity = quantity, va_currentPrice = None,
                  va_valueUSD = None, va_pnl = None, va_pnlPercent = None\<rparr>
      | Some currentPrice \<Rightarrow>
          \<lparr>va_symbol = as_symbol asset, va_quantity = quantity, va_currentPrice = Some currentPrice,
           va_valueUSD = Some (round2 N (v_times N currentPrice quantity)),
           va_pnl = Some (round2 N (v_times N (v_minus N currentPrice avgBuyPrice) quantity)),
           va_pnlPercent = (if v_less N (v_zero N) avgBuyPrice
              then Some (round2 N (v_times N (v_div N (v_minus N currentPrice avgBuyPrice) avgBuyPrice) (v_100 N)))
              else None)\<rparr>)"

definition total_value :: "('d, 'n) valuation_numbers \<Rightarrow> 'n valued_asset list \<Rightarrow> 'n" where
  "total_value N vs =
     foldl (\<lambda>sum v. case va_valueUSD v of None \<Rightarrow> sum | Some x \<Rightarrow> v_plus N sum x) (v_zero N) vs"

definition getValuation ::
  "('s, 'd) resource_env \<Rightarrow> ('s, 'n) prices_env \<Rightarrow> ('d, 'n) valuation_numbers \<Rightarrow> string \<Rightarrow> string
   \<Rightarrow> ('s, 'n valuation) io" where
  "getValuation E P N userId i =
     seqM (portfolio_findOne E userId i) (\<lambda>(portfolio, included).
     seqM (getPrices P (map as_symbol included)) (\<lambda>prices.
     let vs = map2 (value_asset N) included prices in
     ret \<lparr>vl_portfolioId = pf_id portfolio, vl_totalValueUSD = round2 N (total_value N vs), vl_assets = vs\<rparr>))"

section \<open>What the service relies on\<close>

text \<open>\<open>pcache\<close> is what the cache holds now, \<open>asked\<close> the requests made to the providers.\<close>

locale price_ports =
  fixes P :: "('s, 'n) prices_env" and pcache :: "'s \<Rightarrow> string \<Rightarrow> 'n price_result option" and asked :: "'s \<Rightarrow> string list"
  assumes hit: "price_get P k s = (Inr q, t) \<Longrightarrow> q = pcache s k"
    and get_keeps: "keeps (\<lambda>s. (pcache s, asked s)) (price_get P k)"
    and set_ok: "price_set P k r ttl s = (Inr (), t) \<Longrightarrow> pcache t = (pcache s)(k := Some r)"
    and set_fails: "price_set P k r ttl s = (Inl e, t) \<Longrightarrow> pcache t = pcache s"
    and set_keeps: "keeps asked (price_set P k r ttl)"
    and fetch_asks: "asked (snd (http_fetch P url s)) = asked s @ [url]"
    and fetch_keeps: "keeps pcache (http_fetch P url)"

text \<open>A price made by the providers for a symbol.\<close>

definition quoted :: "string \<Rightarrow> 'n price_result \<Rightarrow> bool" where
  "quoted upper r \<longleftrightarrow> pr_symbol r = upper \<and> pr_price r \<noteq> None \<and> pr_currency r = ''USD''
     \<and> pr_source r = (if map_of CRYPTO_SYMBOL_MAP upper = None then FINNHUB else COINGECKO)"

context price_ports
begin

text \<open>What either provider's routine does, once its answer is at hand.\<close>

lemma fetchFinnhub_runs:
  "\<exists>q t url. fetchFinnhub P x s = (Inr q, t) \<and> asked t = asked s @ [url] \<and> pcache t = pcache s
      \<and> (\<forall>r. q = Some r \<longrightarrow> pr_symbol r = x \<and> pr_price r \<noteq> None \<and> pr_currency r = ''USD'' \<and> pr_source r = FINNHUB)"
proof -
  let ?url = "finnhub_url P x"
  obtain a s1 where f: "http_fetch P ?url s = (a, s1)" by (cases "http_fetch P ?url s")
  have s1: "asked s1 = asked s @ [?url]" "pcache s1 = pcache s"
    using fetch_asks[of ?url s] keepsD[OF fetch_keeps f] f by simp_all
  show ?thesis
  proof (cases a)
    case (Inl e)
    then show ?thesis using s1 by (simp add: fetchFinnhub_def catchM_def seqM_def io_defs f)
  next
    case (Inr res)
    then show ?thesis using s1
      by (cases "hr_ok res"; cases "hr_c res"; cases "projr (hr_c res)"; cases "falsy_number P (the (projr (hr_c res)))")
        (simp_all add: fetchFinnhub_def catchM_def seqM_def io_defs f)
  qed
qed

lemma fetchCoinGecko_runs:
  "\<exists>q t url. fetchCoinGecko P x c s = (Inr q, t) \<and> asked t = asked s @ [url] \<and> pcache t = pcache s
      \<and> (\<forall>r. q = Some r \<longrightarrow> pr_symbol r = x \<and> pr_price r \<noteq> None \<and> pr_currency r = ''USD'' \<and> pr_source r = COINGECKO)"
proof -
  let ?url = "coingecko_url c"
  obtain a s1 where f: "http_fetch P ?url s = (a, s1)" by (cases "http_fetch P ?url s")
  have s1: "asked s1 = asked s @ [?url]" "pcache s1 = pcache s"
    using fetch_asks[of ?url s] keepsD[OF fetch_keeps f] f by simp_all
  show ?thesis
  proof (cases a)
    case (Inl e)
    then show ?thesis using s1 by (simp add: fetchCoinGecko_def catchM_def seqM_def io_defs f)
  next
    case (Inr res)
    then show ?thesis using s1
      by (cases "hr_ok res"; cases "hr_usd res c"; cases "projr (hr_usd res c)")
        (simp_all add: fetchCoinGecko_def catchM_def seqM_def io_defs f)
  qed
qed

lemma fetch_price_runs:
  "\<exists>q t url. fetch_price P upper s = (Inr q, t) \<and> asked t = asked s @ [url] \<and> pcache t = pcache s
     \<and> (\<forall>r. q = Some r \<longrightarrow> quoted upper r)"
proof (cases "map_of CRYPTO_SYMBOL_MAP upper")
  case None
  then show ?thesis using fetchFinnhub_runs[of upper s] unfolding fetch_price_def quoted_def by simp
next
  case (Some c)
  then show ?thesis using fetchCoinGecko_runs[of upper c s] unfolding fetch_price_def quoted_def by simp
qed

text \<open>A price is a hit of the cache, or one request to the provider of its symbol.\<close>

lemma getPrice_runs:
  assumes run: "getPrice P symbol s = (r, t)"
  defines "k \<equiv> price_key P symbol" and "upper \<equiv> toUpperCase P symbol"
  shows "(\<exists>c. r = Inr (Some c) \<and> pcache s k = Some c \<and> asked t = asked s \<and> pcache t = pcache s)
     \<or> (\<exists>url q. r = Inr q \<and> asked t = asked s @ [url] \<and> (\<forall>p. q = Some p \<longrightarrow> quoted upper p)
         \<and> (pcache t = pcache s \<or> (\<exists>p. q = Some p \<and> pcache t = (pcache s)(k := Some p))))"
proof -
  obtain c s1 where c: "orNull (price_get P k) s = (c, s1)" by (cases "orNull (price_get P k) s")
  from keepsD[OF keeps_orNull[OF get_keeps] c] have k1: "pcache s1 = pcache s" "asked s1 = asked s" by simp_all
  from c obtain cached where cd: "c = Inr cached" unfolding orNull_iff by auto
  show ?thesis
  proof (cases "\<exists>x. cached = Some (Some x)")
    case True
    then obtain x where x: "cached = Some (Some x)" by auto
    have "price_get P k s = (Inr (Some x), s1)" using c unfolding cd x orNull_iff by auto
    from hit[OF this] have hit: "pcache s k = Some x" by simp
    have "r = Inr (Some x) \<and> t = s1" using run c unfolding getPrice_def k_def[symmetric] cd x
      by (simp add: seqM_def ret_def)
    then show ?thesis using hit k1 by blast
  next
    case False
    obtain q s2 url where f: "fetch_price P upper s1 = (Inr q, s2)" "asked s2 = asked s1 @ [url]" "pcache s2 = pcache s1"
        "\<forall>r. q = Some r \<longrightarrow> quoted upper r" using fetch_price_runs by blast
    have run2: "(case q of None \<Rightarrow> ret None
         | Some p \<Rightarrow> seqM (orNull (price_set P k p PRICE_TTL_MS)) (\<lambda>_. ret (Some p))) s2 = (r, t)"
      using run c f(1) False unfolding getPrice_def k_def[symmetric] upper_def[symmetric] cd
      by (cases cached; cases "the cached") (simp_all add: seqM_def)
    show ?thesis
    proof (cases q)
      case None
      then show ?thesis using run2 f k1 by (auto simp: ret_def)
    next
      case (Some p)
      obtain w s3 where w: "price_set P k p PRICE_TTL_MS s2 = (w, s3)" by (cases "price_set P k p PRICE_TTL_MS s2")
      from run2 w Some have rt: "r = Inr (Some p)" "t = s3"
        by (cases w; simp add: seqM_def ret_def orNull_def catchM_def)+
      have a3: "asked s3 = asked s @ [url]" using keepsD[OF set_keeps w] f(2) k1 by simp
      have "pcache s3 = pcache s \<or> pcache s3 = (pcache s)(k := Some p)"
        using w set_ok[of k p PRICE_TTL_MS s2 s3] set_fails[of k p PRICE_TTL_MS s2 _ s3] f(3) k1 by (cases w) auto
      with rt a3 f(4) Some show ?thesis by blast
    qed
  qed
qed

lemma getPrice_total: "\<exists>q t. getPrice P symbol s = (Inr q, t)"
proof -
  obtain r t where run: "getPrice P symbol s = (r, t)" by (cases "getPrice P symbol s")
  from getPrice_runs[OF run] run show ?thesis by blast
qed

text \<open>Each symbol costs at most one request to a provider.\<close>

lemma getPrices_runs:
  "\<exists>ps t. getPrices P symbols s = (Inr ps, t) \<and> length ps = length symbols
     \<and> length (asked t) \<le> length (asked s) + length symbols"
proof (induction symbols arbitrary: s)
  case Nil
  show ?case by (simp add: ret_def)
next
  case (Cons x xs)
  obtain q s1 where q: "getPrice P x s = (Inr q, s1)" using getPrice_total by blast
  have "length (asked s1) \<le> length (asked s) + 1" using getPrice_runs[OF q] by auto
  moreover obtain ps s2 where "getPrices P xs s1 = (Inr ps, s2)" "length ps = length xs"
      "length (asked s2) \<le> length (asked s1) + length xs" using Cons.IH by blast
  ultimately show ?case using q by (simp add: seqM_def orNull_def catchM_def ret_def)
qed

text \<open>A price outage never fails a valuation: it fails when, and as, the look-up of the portfolio does; else it
  has one line for each asset.\<close>

lemma getValuation_fails_iff:
  "(\<exists>t. getValuation E P N userId i s = (Inl e, t)) \<longleftrightarrow> (\<exists>t. portfolio_findOne E userId i s = (Inl e, t))"
proof -
  obtain r s1 where r: "portfolio_findOne E userId i s = (r, s1)" by (cases "portfolio_findOne E userId i s")
  show ?thesis
  proof (cases r)
    case (Inr p)
    obtain ps s2 where "getPrices P (map as_symbol (snd p)) s1 = (Inr ps, s2)" using getPrices_runs by blast
    then show ?thesis using r Inr
      by (cases p) (simp add: getValuation_def seqM_def ret_def Let_def)
  qed (use r in \<open>simp add: getValuation_def seqM_def\<close>)
qed

end

section \<open>Two providers, one of them down\<close>

record market =
  mk_shelf :: resource_world
  mk_cache :: "(string \<times> int price_result) list"
  mk_asked :: "string list"

definition market_resources :: "(market, int) resource_env" where
  "market_resources = (let put = (\<lambda>w s. s\<lparr>mk_shelf := w\<rparr>) in \<lparr>
     cards = zoom_delegate mk_shelf put (cards demo_resources),
     beneficiaries = zoom_delegate mk_shelf put (beneficiaries demo_resources),
     portfolios = zoom_delegate mk_shelf put (portfolios demo_resources),
     assets = zoom_delegate mk_shelf put (assets demo_resources),
     findAfter = (\<lambda>q le c k. zoom mk_shelf put (findAfter demo_resources q le c k)),
     id_le = (\<le>)\<rparr>)"

definition market_prices :: "(market, int) prices_env" where
  "market_prices = \<lparr>
     price_get = (\<lambda>k s. (Inr (map_of (mk_cache s) k), s)),
     price_set = (\<lambda>k r ttl s. (Inr (), s\<lparr>mk_cache := (k, r) # mk_cache s\<rparr>)),
     http_fetch = (\<lambda>url s. (if url = coingecko_url ''bitcoin''
         then Inr \<lparr>hr_ok = True, hr_c = Inr None, hr_usd = (\<lambda>_. Inr (Some 60000))\<rparr>
         else Inl (PlainError ''fetch failed''), s\<lparr>mk_asked := mk_asked s @ [url]\<rparr>)),
     falsy_number = (\<lambda>n. n = 0), toUpperCase = (\<lambda>x. x), trimmed = (\<lambda>x. x),
     ISO_now = (\<lambda>_. ''2026''), FINNHUB_API_KEY = ''key''\<rparr>"

interpretation market_prices: price_ports market_prices "\<lambda>s. map_of (mk_cache s)" mk_asked
  by unfold_locales (auto simp: market_prices_def keeps_def)

definition market_numbers :: "(int, int) valuation_numbers" where
  "market_numbers = \<lparr>v_zero = 0, v_100 = 100, v_plus = (+), v_minus = (-), v_times = (*), v_div = (div),
     v_less = (<), round2 = (\<lambda>n. n), v_Number = (\<lambda>n. n)\<rparr>"

definition market_start :: market where
  "market_start = \<lparr>mk_shelf = demo_shelf\<lparr>rw_assets :=
       [\<lparr>as_id = ''a1'', as_portfolioId = ''p1'', as_symbol = ''BTC'', as_type = ''CRYPTO'',
         as_quantity = 2, as_avgBuyPrice = 30000, as_currency = ''USD''\<rparr>,
        \<lparr>as_id = ''a2'', as_portfolioId = ''p1'', as_symbol = ''AAPL'', as_type = ''STOCK'',
         as_quantity = 5, as_avgBuyPrice = 100, as_currency = ''USD''\<rparr>]\<rparr>,
     mk_cache = [], mk_asked = []\<rparr>"

lemma value_asset_symbol [simp]: "va_symbol (value_asset N a p) = as_symbol a"
  by (simp add: value_asset_def Let_def split: option.split)

lemma value_asset_priced: "va_valueUSD (value_asset N a p) = None \<longleftrightarrow> va_currentPrice (value_asset N a p) = None"
  by (simp add: value_asset_def Let_def split: option.split)

lemma total_value_priced:
  "total_value N vs = foldl (v_plus N) (v_zero N) (List.map_filter va_valueUSD vs)"
proof -
  have "foldl (\<lambda>sum v. case va_valueUSD v of None \<Rightarrow> sum | Some x \<Rightarrow> v_plus N sum x) z vs
      = foldl (v_plus N) z (List.map_filter va_valueUSD vs)" for z
    by (induction vs arbitrary: z) (auto simp: List.map_filter_simps split: option.split)
  then show ?thesis by (simp add: total_value_def)
qed

text \<open>C38. An outage of the cache or of a provider never fails a valuation: once the caller's portfolio is found,
  every asset has its line, the total is the sum of the lines that have a price, and no more requests are made
  to the providers than there are assets.\<close>

theorem valuation_survives_outage:
  assumes "price_ports P pcache asked" and "portfolio_findOne E userId i s = (Inr (p, included), s1)"
  shows "\<exists>v t. getValuation E P N userId i s = (Inr v, t)
     \<and> map va_symbol (vl_assets v) = map as_symbol included
     \<and> (\<forall>x \<in> set (vl_assets v). va_valueUSD x = None \<longleftrightarrow> va_currentPrice x = None)
     \<and> vl_totalValueUSD v = round2 N (foldl (v_plus N) (v_zero N) (List.map_filter va_valueUSD (vl_assets v)))
     \<and> length (asked t) \<le> length (asked s1) + length included"
proof -
  obtain ps t where ps: "getPrices P (map as_symbol included) s1 = (Inr ps, t)" "length ps = length included"
      "length (asked t) \<le> length (asked s1) + length included"
    using price_ports.getPrices_runs[OF assms(1), of "map as_symbol included" s1] by auto
  let ?vs = "map2 (value_asset N) included ps"
  have "map va_symbol ?vs = map as_symbol included"
    using ps(2) by (simp add: comp_def case_prod_unfold map_fst_zip flip: map_map[of as_symbol fst, unfolded comp_def])
  moreover have "\<forall>x \<in> set ?vs. va_valueUSD x = None \<longleftrightarrow> va_currentPrice x = None"
    using value_asset_priced by auto
  ultimately show ?thesis using assms(2) ps(1,3)
    by (simp add: getValuation_def seqM_def ret_def Let_def total_value_priced)
qed

theorem valuation_survives_outage_witness:
  "\<exists>v t. getValuation market_resources market_prices market_numbers ''ana'' ''p1'' market_start = (Inr v, t)
     \<and> map va_symbol (vl_assets v) = [''BTC'', ''AAPL''] \<and> length (mk_asked t) \<le> 2
     \<and> map va_valueUSD (vl_assets v) = [Some 120000, None] \<and> vl_totalValueUSD v = 120000"
proof -
  let ?run = "portfolio_findOne market_resources ''ana'' ''p1'' market_start"
  have f: "map_sum (\<lambda>_. ()) (\<lambda>x. map as_symbol (snd x)) (fst ?run) = Inr [''BTC'', ''AAPL''] \<and> mk_asked (snd ?run) = []"
    by code_simp
  obtain p included s1 where run: "?run = (Inr (p, included), s1)" using f by (cases ?run; cases "fst ?run") auto
  have inc: "map as_symbol included = [''BTC'', ''AAPL'']" "mk_asked s1 = []" using f run by auto
  have "length included = 2" using inc(1) by (metis length_map list.size(3) list.size(4) numeral_2_eq_2 add_0 Suc_eq_plus1)
  with valuation_survives_outage[OF market_prices.price_ports_axioms run, of market_numbers] inc
  obtain v t where v: "getValuation market_resources market_prices market_numbers ''ana'' ''p1'' market_start = (Inr v, t)"
      "map va_symbol (vl_assets v) = [''BTC'', ''AAPL'']" "length (mk_asked t) \<le> 2" by auto
  have "map_sum (\<lambda>_. ()) (\<lambda>v. (map va_valueUSD (vl_assets v), vl_totalValueUSD v))
      (fst (getValuation market_resources market_prices market_numbers ''ana'' ''p1'' market_start))
      = Inr ([Some 120000, None], 120000)" by code_simp
  with v show ?thesis by auto
qed

end
