(* ===== verification/Geolocation.thy ===== *)
theory Geolocation
  imports Sessions Http_Guards
begin

text \<open>
  Where a session was opened from: \<open>GeolocationService.resolve\<close> (\<open>geolocation.service.ts\<close>) and the listener of
  \<open>session.created\<close> that writes the answer to the session's row (\<open>geolocation.listener.ts\<close>). Nobody waits for the
  listener, so it is a step of its own after the login that emitted the event. The cache and \<open>ip-api.com\<close> are
  parameters.
\<close>

section \<open>The service and the listener\<close>

text \<open>An answer: \<open>ok\<close>, and the city and the country in its JSON (\<open>None\<close> is \<open>undefined\<close>), or what reading it throws.\<close>

record geo_reply =
  gr_ok :: bool
  gr_json :: "exn + string option \<times> string option"

record 's geo_env =
  geo_get :: "string \<Rightarrow> ('s, string option) io"
  geo_set :: "string \<Rightarrow> string \<Rightarrow> int \<Rightarrow> ('s, unit) io"
  geo_fetch :: "string \<Rightarrow> ('s, geo_reply) io"

definition geo_cacheTtl :: int where "geo_cacheTtl = 3600000"

definition geo_key :: "string \<Rightarrow> string" where "geo_key ip = ''geo:'' @ ip"

definition geo_url :: "string \<Rightarrow> string" where
  "geo_url ip = ''http://ip-api.com/json/'' @ ip @ ''?fields=city,country''"

text \<open>The template prints an absent part as \<open>undefined\<close>.\<close>

definition geo_location :: "string option \<Rightarrow> string option \<Rightarrow> string" where
  "geo_location city country = or_else city ''undefined'' @ '', '' @ or_else country ''undefined''"

definition geo_lookup :: "'s geo_env \<Rightarrow> string \<Rightarrow> ('s, string option) io" where
  "geo_lookup G ip =
     catchM
       (seqM (geo_fetch G (geo_url ip)) (\<lambda>response.
        if \<not> gr_ok response then ret None
        else seqM (lift (gr_json response)) (\<lambda>(city, country).
             if truthy city = None \<and> truthy country = None then ret None
             else
               seqM (orNull (geo_set G (geo_key ip) (geo_location city country) geo_cacheTtl)) (\<lambda>_.
               ret (Some (geo_location city country))))))
       (\<lambda>error. ret None)"

definition geo_resolve :: "'s geo_env \<Rightarrow> string \<Rightarrow> ('s, string option) io" where
  "geo_resolve G ip =
     (if isPrivateIp ip then ret (Some ''Local network'')
      else seqM (orNull (geo_get G (geo_key ip))) (\<lambda>cached.
           case truthy (Option.bind cached (\<lambda>x. x)) of
             Some c \<Rightarrow> ret (Some c)
           | None \<Rightarrow> geo_lookup G ip))"

text \<open>An event without an address throws in \<open>isPrivateIp\<close>.\<close>

definition handleSessionCreated :: "'s geo_env \<Rightarrow> 's auth_env \<Rightarrow> string \<Rightarrow> string option \<Rightarrow> ('s, unit) io" where
  "handleSessionCreated G E sessionId ip =
     catchM
       (seqM (case ip of None \<Rightarrow> throw (PlainError ''TypeError'') | Some a \<Rightarrow> geo_resolve G a) (\<lambda>location.
        case truthy location of
          None \<Rightarrow> ret ()
        | Some l \<Rightarrow>
            seqM (update (sessions E) (\<lambda>r. sn_id r = sessionId) (apply_changes (no_changes\<lparr>ch_location := Some l\<rparr>))) (\<lambda>_.
            ret ())))
       (\<lambda>error. ret ())"

section \<open>What the listener relies on\<close>

locale geo_ports = auth_ports E rows of_text for E :: "'s auth_env" and rows of_text +
  fixes G :: "'s geo_env"
  assumes geo_get_rows: "keeps rows (geo_get G k)"
    and geo_set_rows: "keeps rows (geo_set G k v ttl)"
    and geo_fetch_rows: "keeps rows (geo_fetch G url)"
begin

lemma lookup_rows: "keeps rows (geo_lookup G ip)"
  unfolding geo_lookup_def
  by (auto simp: keeps_prim split: prod.split intro!: keeps_catchM keeps_seqM keeps_if keeps_orNull geo_fetch_rows geo_set_rows)

lemma resolve_rows: "keeps rows (geo_resolve G ip)"
  unfolding geo_resolve_def
  by (auto simp: keeps_prim split: option.split intro!: keeps_seqM keeps_orNull geo_get_rows lookup_rows)

text \<open>A location is the cached one, the provider's, or that of the local network; a lookup never throws.\<close>

lemma resolve_total: "\<exists>q t. geo_resolve G ip s = (Inr q, t)"
proof -
  have l: "\<exists>q t. geo_lookup G ip s = (Inr q, t)" for s
    unfolding geo_lookup_def by (rule catch_ret_total)
  obtain c s1 where c: "orNull (geo_get G (geo_key ip)) s = (c, s1)" by (cases "orNull (geo_get G (geo_key ip)) s")
  then obtain x where "c = Inr x" by (auto simp: orNull_iff)
  then show ?thesis using c l[of s1] by (cases "truthy (Option.bind x (\<lambda>x. x))") (auto simp: geo_resolve_def seqM_def ret_def)
qed

lemma listener_runs:
  assumes "handleSessionCreated G E i ip s = (r, t)" and "inj_on sn_id (rows s)"
  shows "r = Inr () \<and> (rows t = rows s \<or> (\<exists>ses \<in> rows s. \<exists>l. \<exists>now. sn_id ses = i
      \<and> rows t = insert (ses\<lparr>sn_location := Some l, sn_lastUsedAt := now\<rparr>) (rows s - {ses})))"
proof -
  let ?loc = "case ip of None \<Rightarrow> throw (PlainError ''TypeError'') | Some a \<Rightarrow> geo_resolve G a"
  let ?put = "\<lambda>l. seqM (update (sessions E) (\<lambda>r. sn_id r = i) (apply_changes (no_changes\<lparr>ch_location := Some l\<rparr>)))
      (\<lambda>_. ret ())"
  obtain q s1 where q: "?loc s = (q, s1)" by (cases "?loc s")
  have "keeps rows ?loc" by (auto simp: keeps_prim resolve_rows split: option.split)
  from keepsD[OF this q] have s1: "rows s1 = rows s" .
  show ?thesis
  proof (cases "\<exists>l x. q = Inr x \<and> truthy x = Some l")
    case True
    then obtain x l where x: "q = Inr x" "truthy x = Some l" by blast
    obtain y s2 where u: "update (sessions E) (\<lambda>r. sn_id r = i) (apply_changes (no_changes\<lparr>ch_location := Some l\<rparr>)) s1
        = (y, s2)" by (cases "update (sessions E) (\<lambda>r. sn_id r = i) (apply_changes (no_changes\<lparr>ch_location := Some l\<rparr>)) s1")
    have rt: "r = Inr () \<and> t = s2" using assms(1) q x u
      by (cases y) (auto simp: handleSessionCreated_def catchM_def seqM_def ret_def)
    show ?thesis
    proof (cases y)
      case (Inl e)
      then show ?thesis using tab_throws(8) u s1 rt by auto
    next
      case (Inr z)
      from tab_returns(8)[OF u[unfolded Inr]] s1 obtain ses where ses: "ses \<in> rows s" "sn_id ses = i"
        "rows s2 = insert (session_stamp E s1 (apply_changes (no_changes\<lparr>ch_location := Some l\<rparr>) ses)) (rows s - {ses})"
        by auto
      moreover have "session_stamp E s1 (apply_changes (no_changes\<lparr>ch_location := Some l\<rparr>) ses)
          = ses\<lparr>sn_location := Some l, sn_lastUsedAt := Date_now E s1\<rparr>"
        by (simp add: session_stamp_def apply_changes_def no_changes_def)
      ultimately show ?thesis using rt by auto
    qed
  next
    case False
    then have "r = Inr () \<and> t = s1" using assms(1) q
      by (cases q) (auto simp: handleSessionCreated_def catchM_def seqM_def ret_def split: option.splits)
    then show ?thesis using s1 by simp
  qed
qed

end

section \<open>A concrete surrounding\<close>

record geo_world = session_world +
  gw_cache :: "(string \<times> string) list"

definition demo_geo :: "geo_world geo_env" where
  "demo_geo = \<lparr>geo_get = (\<lambda>k. readM (\<lambda>s. map_of (gw_cache s) k)),
     geo_set = (\<lambda>k v ttl. modifyM (\<lambda>s. s\<lparr>gw_cache := (k, v) # gw_cache s\<rparr>)),
     geo_fetch = (\<lambda>url. if url = geo_url ''8.8.8.8'' then ret \<lparr>gr_ok = True, gr_json = Inr (None, Some ''US'')\<rparr>
       else throw (PlainError ''timeout''))\<rparr>"

interpretation demo_geo: geo_ports demo_env "demo_rows :: geo_world \<Rightarrow> session_row set" demo_digest demo_geo
  by (intro geo_ports.intro demo.auth_ports_axioms geo_ports_axioms.intro)
    (simp_all add: demo_geo_def keeps_prim keeps_modifyM demo_rows_def)

definition demo_geo_start :: geo_world where
  "demo_geo_start = \<lparr>dw_sessions = [\<lparr>sn_id = ''s1'', sn_userId = ''ana'', sn_refreshToken = '''',
       sn_refreshTokenVersion = 0, sn_userAgent = None, sn_ipAddress = Some ''8.8.8.8'', sn_location = None,
       sn_isActive = True, sn_expiresAt = None, sn_createdAt = 0, sn_lastUsedAt = 0\<rparr>],
     dw_cookies = [], dw_clock = 7, gw_cache = []\<rparr>"

text \<open>The listener of a new session never throws, whatever the cache, the provider and the database do, and
  touches no session but that one, of which it changes the location and, through \<open>@updatedAt\<close>, the time of last
  use, from which the grace period of a refresh counts.\<close>

theorem listener_only_locates:
  assumes "geo_ports E rows of_text G" and "inj_on sn_id (rows s)"
  shows "\<exists>t. handleSessionCreated G E i ip s = (Inr (), t)
     \<and> (rows t = rows s \<or> (\<exists>ses \<in> rows s. \<exists>l now. sn_id ses = i
          \<and> rows t = insert (ses\<lparr>sn_location := Some l, sn_lastUsedAt := now\<rparr>) (rows s - {ses})))"
proof -
  obtain r t where run: "handleSessionCreated G E i ip s = (r, t)" by (cases "handleSessionCreated G E i ip s")
  from geo_ports.listener_runs[OF assms(1) run assms(2)] run show ?thesis by blast
qed

theorem listener_only_locates_witness:
  "\<exists>t. handleSessionCreated demo_geo demo_env ''s1'' (Some ''8.8.8.8'') demo_geo_start = (Inr (), t)
     \<and> map (\<lambda>r. (sn_id r, sn_location r, sn_lastUsedAt r)) (dw_sessions t) = [(''s1'', Some ''undefined, US'', 7)]"
proof -
  have "inj_on sn_id (demo_rows demo_geo_start)" by (simp add: demo_rows_def demo_geo_start_def)
  from listener_only_locates[OF demo_geo.geo_ports_axioms this] obtain t where
    t: "handleSessionCreated demo_geo demo_env ''s1'' (Some ''8.8.8.8'') demo_geo_start = (Inr (), t)" by blast
  have "map (\<lambda>r. (sn_id r, sn_location r, sn_lastUsedAt r))
      (dw_sessions (snd (handleSessionCreated demo_geo demo_env ''s1'' (Some ''8.8.8.8'') demo_geo_start)))
      = [(''s1'', Some ''undefined, US'', 7)]" by code_simp
  then show ?thesis using t by simp
qed

end
