(* ===== verification/Validation.thy ===== *)
theory Validation
  imports Wallet_Contract Exchange
begin

text \<open>
  What a request body has to be before a handler sees it: the DTO classes of the modules, each as the list of
  its properties with their \<open>class-validator\<close> decorators, and the options of the global \<open>ValidationPipe\<close> of
  \<open>main.ts\<close>. The pipe itself is the library's: a parameter, \<open>validation_pipe\<close> says what it is relied on for, with
  what a decorator tests (\<open>checks\<close>, over the library's own tests on texts and numbers, the parameter
  \<open>validators\<close>), and \<open>class_pipe\<close> is one that keeps it. JavaScript numbers are the type \<open>'n\<close>. The last part reads
  the accepted bodies into the inputs of the wallet's handlers, as the spreads of \<open>wallet.controller.ts\<close> do.
\<close>

section \<open>Bodies and decorators\<close>

text \<open>A JSON value; the keys of an object, which \<open>JSON.parse\<close> makes, are distinct.\<close>

datatype 'n json =
    JNull
  | JBool bool
  | JNumber 'n
  | JString string
  | JArray "'n json list"
  | JObject "(string \<times> 'n json) list"

type_synonym 'n object = "(string \<times> 'n json) list"

record 'n validators =
  char_count :: "string \<Rightarrow> nat"
  email_ok :: "string \<Rightarrow> bool"
  uuid_ok :: "string \<Rightarrow> bool"
  url_ok :: "string \<Rightarrow> bool"
  iso8601_ok :: "string \<Rightarrow> bool"
  decimals_ok :: "nat \<Rightarrow> 'n \<Rightarrow> bool"
  integral_number :: "'n \<Rightarrow> bool"
  positive_number :: "'n \<Rightarrow> bool"
  number_le :: "'n \<Rightarrow> 'n \<Rightarrow> bool"
  number_of :: "nat \<Rightarrow> 'n"
  js_Number :: "'n json \<Rightarrow> 'n"

text \<open>The decorators, with \<open>@IsNumber\<close> at its \<open>maxDecimalPlaces\<close>, \<open>@Min\<close> and \<open>@Max\<close> as \<open>AtLeast\<close> and \<open>AtMost\<close>
  and \<open>@Type(() => Number)\<close> as \<open>TypeNumber\<close>.\<close>

datatype decorator =
    IsString | IsBoolean | IsOptional | IsEmail | IsUUID | IsUrl | IsISO8601
  | IsInt | IsPositive | IsNumber nat | AtLeast nat | AtMost nat
  | IsEnum "string list" | IsIn "string list" | NotEquals string
  | MinLength nat | MaxLength nat | Length nat nat
  | MatchesAmount | TypeNumber

definition string_such :: "(string \<Rightarrow> bool) \<Rightarrow> 'n json option \<Rightarrow> bool" where
  "string_such P v = (case v of Some (JString x) \<Rightarrow> P x | _ \<Rightarrow> False)"

definition number_such :: "('n \<Rightarrow> bool) \<Rightarrow> 'n json option \<Rightarrow> bool" where
  "number_such P v = (case v of Some (JNumber x) \<Rightarrow> P x | _ \<Rightarrow> False)"

fun checks :: "'n validators \<Rightarrow> decorator \<Rightarrow> 'n json option \<Rightarrow> bool" where
  "checks V IsString v = string_such (\<lambda>_. True) v"
| "checks V IsBoolean v = (case v of Some (JBool _) \<Rightarrow> True | _ \<Rightarrow> False)"
| "checks V IsOptional v = True"
| "checks V IsEmail v = string_such (email_ok V) v"
| "checks V IsUUID v = string_such (uuid_ok V) v"
| "checks V IsUrl v = string_such (url_ok V) v"
| "checks V IsISO8601 v = string_such (iso8601_ok V) v"
| "checks V IsInt v = number_such (integral_number V) v"
| "checks V IsPositive v = number_such (positive_number V) v"
| "checks V (IsNumber k) v = number_such (decimals_ok V k) v"
| "checks V (AtLeast k) v = number_such (\<lambda>n. number_le V (number_of V k) n) v"
| "checks V (AtMost k) v = number_such (\<lambda>n. number_le V n (number_of V k)) v"
| "checks V (IsEnum names) v = string_such (\<lambda>x. x \<in> set names) v"
| "checks V (IsIn names) v = string_such (\<lambda>x. x \<in> set names) v"
| "checks V (NotEquals y) v = (\<not> string_such (\<lambda>x. x = y) v)"
| "checks V (MinLength k) v = string_such (\<lambda>x. k \<le> char_count V x) v"
| "checks V (MaxLength k) v = string_such (\<lambda>x. char_count V x \<le> k) v"
| "checks V (Length j k) v = string_such (\<lambda>x. j \<le> char_count V x \<and> char_count V x \<le> k) v"
| "checks V MatchesAmount v = string_such dto_amount_ok v"
| "checks V TypeNumber v = True"

section \<open>The pipe\<close>

text \<open>A class: its properties, the value an initialiser gives, and the decorators.\<close>

type_synonym 'n dto = "(string \<times> 'n json option \<times> decorator list) list"

definition optional :: "decorator list \<Rightarrow> bool" where
  "optional ds = (IsOptional \<in> set ds)"

definition property_ok :: "'n validators \<Rightarrow> decorator list \<Rightarrow> 'n json option \<Rightarrow> bool" where
  "property_ok V ds v \<longleftrightarrow> (optional ds \<and> (v = None \<or> v = Some JNull)) \<or> list_all (\<lambda>d. checks V d v) ds"

text \<open>The options the pipe is made with, and its type: it throws or gives the object the handler gets.\<close>

record pipe_options =
  whitelist :: bool
  forbidNonWhitelisted :: bool
  transform :: bool

definition global_pipe :: pipe_options where
  "global_pipe = \<lparr>whitelist = True, forbidNonWhitelisted = True, transform = True\<rparr>"

type_synonym 'n pipe = "pipe_options \<Rightarrow> 'n dto \<Rightarrow> 'n object \<Rightarrow> exn + 'n object"

text \<open>With \<open>whitelist\<close> no undeclared property passes, and a declared one satisfies its decorators.\<close>

locale validation_pipe =
  fixes pipe :: "'n pipe" and V :: "'n validators"
  assumes declared: "whitelist opts \<Longrightarrow> pipe opts dto body = Inr obj \<Longrightarrow> k \<notin> fst ` set dto \<Longrightarrow> map_of obj k = None"
    and checked: "distinct (map fst dto) \<Longrightarrow> pipe opts dto body = Inr obj \<Longrightarrow> (k, d, ds) \<in> set dto
      \<Longrightarrow> property_ok V ds (map_of obj k)"
    and refused: "pipe opts dto body = Inl e \<Longrightarrow> \<exists>m. e = BadRequestException m"

text \<open>\<open>transform\<close> makes an instance of the class and converts nothing but what \<open>@Type\<close> asks for: any other declared
  property is the body's, or the value its initialiser gives.\<close>

locale copying_pipe = validation_pipe +
  assumes copied: "distinct (map fst dto) \<Longrightarrow> pipe opts dto body = Inr obj \<Longrightarrow> (k, d, ds) \<in> set dto
    \<Longrightarrow> TypeNumber \<notin> set ds \<Longrightarrow> map_of obj k = (case map_of body k of None \<Rightarrow> d | Some x \<Rightarrow> Some x)"

definition PartialType :: "'n dto \<Rightarrow> 'n dto" where
  "PartialType dto = map (\<lambda>(k, d, ds). (k, d, IsOptional # ds)) dto"

section \<open>The classes\<close>

definition CurrencyEnum :: "string list" where "CurrencyEnum = map currency_name [ARS, USD, USDT, BRL]"

definition DepositDto :: "'n dto" where
  "DepositDto = [(''currency'', None, [IsEnum CurrencyEnum]), (''amount'', None, [IsString, MatchesAmount]),
     (''description'', None, [IsString, IsOptional])]"

definition WithdrawDto :: "'n dto" where
  "WithdrawDto = [(''currency'', None, [IsEnum CurrencyEnum]), (''amount'', None, [IsString, MatchesAmount]),
     (''description'', None, [IsString, IsOptional])]"

definition ExchangeDto :: "'n dto" where
  "ExchangeDto = [(''fromCurrency'', None, [IsEnum CurrencyEnum]),
     (''toCurrency'', None, [IsEnum CurrencyEnum, NotEquals '''']), (''amount'', None, [IsString, MatchesAmount])]"

definition SendDto :: "'n dto" where
  "SendDto = [(''beneficiaryId'', None, [IsString]), (''amount'', None, [IsString, MatchesAmount])]"

definition LoginDto :: "'n dto" where
  "LoginDto = [(''email'', None, [IsEmail]), (''password'', None, [IsString, MinLength 8]),
     (''recaptchaToken'', None, [IsString, IsOptional])]"

definition RegisterDto :: "'n dto" where
  "RegisterDto = [(''email'', None, [IsEmail]), (''password'', None, [IsString, MinLength 8]),
     (''name'', None, [IsString, IsOptional]), (''lastName'', None, [IsString, IsOptional]),
     (''phone'', None, [IsString, IsOptional]), (''country'', None, [IsString, IsOptional]),
     (''recaptchaToken'', None, [IsString, IsOptional])]"

definition ForgotPasswordDto :: "'n dto" where
  "ForgotPasswordDto = [(''email'', None, [IsEmail])]"

definition VerifyOtpDto :: "'n dto" where
  "VerifyOtpDto = [(''email'', None, [IsEmail]), (''code'', None, [IsString, Length 6 6])]"

definition ResetPasswordDto :: "'n dto" where
  "ResetPasswordDto = [(''email'', None, [IsEmail]), (''code'', None, [IsString, Length 6 6]),
     (''password'', None, [IsString, MinLength 8])]"

definition VerifyTwoFactorDto :: "'n dto" where
  "VerifyTwoFactorDto = [(''code'', None, [IsString, Length 6 6])]"

definition CreateUserDto :: "'n dto" where
  "CreateUserDto = [(''email'', None, [IsEmail]), (''password'', None, [IsString, MinLength 8]),
     (''name'', None, [IsString, IsOptional]), (''lastName'', None, [IsString, IsOptional]),
     (''phone'', None, [IsString, IsOptional]), (''country'', None, [IsString, IsOptional]),
     (''language'', None, [IsString, IsOptional])]"

definition UpdateUserDto :: "'n dto" where
  "UpdateUserDto = [(''name'', None, [IsString, IsOptional]), (''lastName'', None, [IsString, IsOptional]),
     (''phone'', None, [IsString, IsOptional]), (''email'', None, [IsEmail, IsOptional])]"

definition CreateCardDto :: "'n dto" where
  "CreateCardDto = [(''type'', None, [IsEnum [''INTERNATIONAL'', ''LOCAL'']]), (''maskedNumber'', None, [IsString]),
     (''network'', None, [IsString, IsOptional]), (''issuer'', None, [IsString, IsOptional])]"

definition AssetTypeEnum :: "string list" where
  "AssetTypeEnum = [''STOCK'', ''ETF'', ''COMMODITY'', ''CRYPTO'', ''BOND'', ''CEDEAR'', ''FCI'']"

definition AddAssetDto :: "'n dto" where
  "AddAssetDto = [(''symbol'', None, [IsString, MaxLength 20]), (''type'', None, [IsEnum AssetTypeEnum]),
     (''quantity'', None, [IsNumber 8, IsPositive]), (''avgBuyPrice'', None, [IsNumber 2, IsPositive]),
     (''currency'', None, [IsOptional, IsString, Length 3 3])]"

definition CreatePortfolioDto :: "'n dto" where
  "CreatePortfolioDto = [(''name'', None, [IsString, MinLength 1, MaxLength 100]),
     (''description'', None, [IsOptional, IsString, MaxLength 500])]"

definition UpdatePortfolioDto :: "'n dto" where
  "UpdatePortfolioDto = PartialType CreatePortfolioDto"

definition PortfolioQueryDto :: "'n validators \<Rightarrow> 'n dto" where
  "PortfolioQueryDto V = [(''limit'', Some (JNumber (number_of V 20)), [IsOptional, TypeNumber, IsInt, AtLeast 1, AtMost 100]),
     (''cursor'', None, [IsOptional, IsString])]"

definition ReviewKycDto :: "'n dto" where
  "ReviewKycDto = [(''action'', None, [IsString, IsIn [''approve'', ''reject'']])]"

definition SubmitKycDto :: "'n dto" where
  "SubmitKycDto = [(''documentType'', None, [IsString, IsIn [''DNI'', ''PASSPORT'', ''DRIVER_LICENSE'']])]"

definition TransactionTypeEnum :: "string list" where
  "TransactionTypeEnum = [''DEPOSIT'', ''WITHDRAWAL'', ''TRANSFER'', ''EXCHANGE'', ''YIELD'', ''INVESTMENT_BUY'',
     ''INVESTMENT_SELL'', ''REVERSAL'']"

definition GetTransactionsDto :: "'n validators \<Rightarrow> 'n dto" where
  "GetTransactionsDto V = [(''page'', Some (JNumber (number_of V 1)), [IsInt, AtLeast 1, IsOptional, TypeNumber]),
     (''limit'', Some (JNumber (number_of V 20)), [IsInt, AtLeast 1, AtMost 100, IsOptional, TypeNumber]),
     (''type'', None, [IsEnum TransactionTypeEnum, IsOptional]), (''currency'', None, [IsEnum CurrencyEnum, IsOptional]),
     (''dateFrom'', None, [IsISO8601, IsOptional]), (''dateTo'', None, [IsISO8601, IsOptional])]"

definition BuyAssetDto :: "'n dto" where
  "BuyAssetDto = [(''assetId'', None, [IsUUID, IsString]), (''amount'', None, [IsNumber 2, IsPositive])]"

definition SellAssetDto :: "'n dto" where
  "SellAssetDto = [(''assetId'', None, [IsUUID, IsString]), (''quantity'', None, [IsNumber 8, IsPositive])]"

definition CreateEndpointDto :: "'n dto" where
  "CreateEndpointDto = [(''url'', None, [IsString, IsUrl])]"

definition QueryRateDto :: "'n dto" where
  "QueryRateDto = [(''from'', None, [IsEnum CurrencyEnum]), (''to'', None, [IsEnum CurrencyEnum])]"

definition BeneficiaryTypeEnum :: "string list" where
  "BeneficiaryTypeEnum = [''CBU'', ''CVU'', ''ALIAS'', ''SWIFT'', ''ACCOUNT_NUMBER'']"

definition CreateBeneficiaryDto :: "'n dto" where
  "CreateBeneficiaryDto = [(''alias'', None, [IsString]), (''beneficiaryType'', None, [IsEnum BeneficiaryTypeEnum]),
     (''accountNumber'', None, [IsString]), (''bankName'', None, [IsString, IsOptional]),
     (''currency'', None, [IsEnum CurrencyEnum]), (''country'', None, [IsString, IsOptional]),
     (''documentType'', None, [IsString, IsOptional]), (''documentNumber'', None, [IsString, IsOptional]),
     (''isActive'', None, [IsBoolean, IsOptional])]"

definition UpdateBeneficiaryDto :: "'n dto" where
  "UpdateBeneficiaryDto = [(''alias'', None, [IsString, IsOptional]),
     (''beneficiaryType'', None, [IsEnum BeneficiaryTypeEnum, IsOptional]),
     (''accountNumber'', None, [IsString, IsOptional]), (''bankName'', None, [IsString, IsOptional]),
     (''currency'', None, [IsEnum CurrencyEnum, IsOptional]), (''country'', None, [IsString, IsOptional]),
     (''documentType'', None, [IsString, IsOptional]), (''documentNumber'', None, [IsString, IsOptional]),
     (''isActive'', None, [IsBoolean, IsOptional])]"

section \<open>From a body to the input of a handler\<close>

text \<open>\<open>{...base, ...dto}\<close>: a property of the later object replaces that of the earlier.\<close>

definition spread :: "'n object \<Rightarrow> 'n object \<Rightarrow> 'n object" where
  "spread base dto = dto @ base"

definition text_at :: "'n object \<Rightarrow> string \<Rightarrow> string option" where
  "text_at obj k = (case map_of obj k of Some (JString x) \<Rightarrow> Some x | _ \<Rightarrow> None)"

definition currency_of :: "string \<Rightarrow> currency option" where
  "currency_of x = List.find (\<lambda>c. currency_name c = x) [ARS, USD, USDT, BRL]"

text \<open>\<open>the\<close> takes what the pipe has made sure of.\<close>

definition currency_at :: "'n object \<Rightarrow> string \<Rightarrow> currency" where
  "currency_at obj k = the (Option.bind (text_at obj k) currency_of)"

definition deposit_body :: "string \<Rightarrow> 'n object \<Rightarrow> deposit_input" where
  "deposit_body userId dto = (let inp = spread [(''userId'', JString userId)] dto in
     \<lparr>di_userId = the (text_at inp ''userId''), di_currency = currency_at inp ''currency'',
      di_amount = the (text_at inp ''amount''), di_description = text_at inp ''description''\<rparr>)"

definition withdraw_body :: "string \<Rightarrow> 'n object \<Rightarrow> withdraw_input" where
  "withdraw_body userId dto = (let inp = spread [(''userId'', JString userId)] dto in
     \<lparr>wi_userId = the (text_at inp ''userId''), wi_currency = currency_at inp ''currency'',
      wi_amount = the (text_at inp ''amount''), wi_description = text_at inp ''description''\<rparr>)"

definition send_body :: "string \<Rightarrow> 'n object \<Rightarrow> send_input" where
  "send_body userId dto = (let inp = spread [(''userId'', JString userId)] dto in
     \<lparr>si_userId = the (text_at inp ''userId''), si_beneficiaryId = the (text_at inp ''beneficiaryId''),
      si_amount = the (text_at inp ''amount'')\<rparr>)"

definition exchange_body :: "string \<Rightarrow> 'n object \<Rightarrow> exchange_input" where
  "exchange_body userId dto = (let inp = spread [(''userId'', JString userId)] dto in
     \<lparr>ei_userId = the (text_at inp ''userId''), ei_fromCurrency = currency_at inp ''fromCurrency'',
      ei_toCurrency = currency_at inp ''toCurrency'', ei_amount = the (text_at inp ''amount'')\<rparr>)"

section \<open>A pipe\<close>

text \<open>The value of a property after \<open>class-transformer\<close>, and a pipe of class-validator's kind.\<close>

definition field_value :: "'n validators \<Rightarrow> 'n object \<Rightarrow> string \<times> 'n json option \<times> decorator list \<Rightarrow> 'n json option"
where
  "field_value V body = (\<lambda>(k, d, ds).
     case map_of body k of
       None \<Rightarrow> d
     | Some x \<Rightarrow> if TypeNumber \<in> set ds \<and> x \<noteq> JNull then Some (JNumber (js_Number V x)) else Some x)"

definition class_pipe :: "'n validators \<Rightarrow> 'n pipe" where
  "class_pipe V opts dto body =
     (let extra = filter (\<lambda>(k, x). k \<notin> set (map fst dto)) body in
      if forbidNonWhitelisted opts \<and> extra \<noteq> []
       \<or> \<not> list_all (\<lambda>f. property_ok V (snd (snd f)) (field_value V body f)) dto
      then Inl (BadRequestException ''Bad Request Exception'')
      else Inr (concat (map (\<lambda>f. case field_value V body f of None \<Rightarrow> [] | Some x \<Rightarrow> [(fst f, x)]) dto)
             @ (if whitelist opts then [] else extra)))"

lemma class_pipe_Inr:
  assumes "class_pipe V opts dto body = Inr obj"
  shows "(k, d, ds) \<in> set dto \<Longrightarrow> property_ok V ds (field_value V body (k, d, ds))"
    and "obj = concat (map (\<lambda>f. case field_value V body f of None \<Rightarrow> [] | Some x \<Rightarrow> [(fst f, x)]) dto)
      @ (if whitelist opts then [] else filter (\<lambda>(k, x). k \<notin> set (map fst dto)) body)"
  using assms by (auto simp: class_pipe_def list_all_iff Let_def split: if_splits)

lemma map_of_fields:
  "map_of (concat (map (\<lambda>f. case F f of None \<Rightarrow> [] | Some x \<Rightarrow> [(fst f, x)]) fs)) k
     = (case List.find (\<lambda>f. fst f = k \<and> F f \<noteq> None) fs of None \<Rightarrow> None | Some f \<Rightarrow> F f)"
  by (induction fs) (auto split: option.splits)

lemma class_pipe_field:
  assumes "class_pipe V opts dto body = Inr obj" and "distinct (map fst dto)" and "(k, d, ds) \<in> set dto"
  shows "map_of obj k = field_value V body (k, d, ds)"
proof -
  let ?fields = "concat (map (\<lambda>f. case field_value V body f of None \<Rightarrow> [] | Some x \<Rightarrow> [(fst f, x)]) dto)"
  have only: "f = (k, d, ds)" if "f \<in> set dto" "fst f = k" for f
    using that assms(2,3) by (metis eq_key_imp_eq_value prod.collapse)
  have "List.find (\<lambda>f. fst f = k \<and> field_value V body f \<noteq> None) dto
      = (if field_value V body (k, d, ds) = None then None else Some (k, d, ds))"
  proof (cases "List.find (\<lambda>f. fst f = k \<and> field_value V body f \<noteq> None) dto")
    case None
    then show ?thesis using assms(3) by (force simp: find_None_iff)
  next
    case (Some f)
    from find_Some_iff_mem[OF Some] have f: "f \<in> set dto" "fst f = k" "field_value V body f \<noteq> None" by auto
    have "f = (k, d, ds)" by (rule only[OF f(1,2)])
    then show ?thesis using Some f(3) by simp
  qed
  then have "map_of ?fields k = field_value V body (k, d, ds)"
    by (simp add: map_of_fields split: if_splits)
  moreover have "map_of (filter (\<lambda>(k, x). k \<notin> set (map fst dto)) body) k = None"
    using assms(3) by (force simp: map_of_eq_None_iff)
  ultimately show ?thesis unfolding class_pipe_Inr(2)[OF assms(1)] by (simp add: map_add_def split: option.splits)
qed

interpretation class_pipe: validation_pipe "class_pipe V" V
proof
  fix opts dto body obj k
  assume w: "whitelist opts" and r: "class_pipe V opts dto body = Inr obj" and k: "k \<notin> fst ` set dto"
  have "fst ` set obj \<subseteq> fst ` set dto"
    unfolding class_pipe_Inr(2)[OF r] using w by (force split: option.splits)
  then show "map_of obj k = None" using k by (auto simp: map_of_eq_None_iff)
next
  fix opts dto body obj k d ds
  assume "distinct (map fst dto)" and r: "class_pipe V opts dto body = Inr obj" and k: "(k, d, ds) \<in> set dto"
  then show "property_ok V ds (map_of obj k)"
    using class_pipe_Inr(1)[OF r k] class_pipe_field[OF r _ k] by simp
qed (auto simp: class_pipe_def Let_def split: if_splits)

interpretation class_copies: copying_pipe "class_pipe V" V
proof
  fix opts dto body obj k d ds
  assume "distinct (map fst dto)" "class_pipe V opts dto body = Inr obj" "(k, d, ds) \<in> set dto" "TypeNumber \<notin> set ds"
  then show "map_of obj k = (case map_of body k of None \<Rightarrow> d | Some x \<Rightarrow> Some x)"
    using class_pipe_field[of V opts dto body obj k d ds] by (simp add: field_value_def split: option.splits)
qed

section \<open>What an accepted body holds\<close>

lemma text_at_string: "string_such P (map_of obj k) \<longleftrightarrow> (\<exists>x. text_at obj k = Some x \<and> P x)"
  by (auto simp: string_such_def text_at_def split: option.splits json.splits)

lemma text_at_spread:
  "text_at dto k = Some x \<Longrightarrow> text_at (spread base dto) k = Some x"
  by (auto simp: spread_def text_at_def map_add_def split: option.splits)

lemma spread_keeps: "map_of dto k = None \<Longrightarrow> text_at (spread [(k, JString x)] dto) k = Some x"
  by (simp add: spread_def text_at_def map_add_def)

lemma CurrencyEnum_iff: "x \<in> set CurrencyEnum \<longleftrightarrow> (\<exists>c. x = currency_name c)"
proof -
  have "UNIV = {ARS, USD, USDT, BRL}" using currency.exhaust by blast
  from arg_cong[OF this, of "image currency_name"]
  have "set CurrencyEnum = range currency_name" by (simp add: CurrencyEnum_def)
  then show ?thesis by auto
qed

lemma currency_of_name [simp]: "currency_of (currency_name c) = Some c"
  by (cases c) (simp_all add: currency_of_def)

lemma currency_at_name: "text_at obj k = Some (currency_name c) \<Longrightarrow> currency_at obj k = c"
  by (simp add: currency_at_def)

context validation_pipe
begin

lemma amount_body:
  assumes "pipe opts dto body = Inr obj" and "distinct (map fst dto)"
    and "(''amount'', None, [IsString, MatchesAmount]) \<in> set dto"
  obtains raw where "text_at obj ''amount'' = Some raw" "dto_amount_ok raw"
  using checked[OF assms(2,1,3)] that by (auto simp: property_ok_def optional_def text_at_string)

lemma currency_body:
  assumes "pipe opts dto body = Inr obj" and "distinct (map fst dto)"
    and "(k, None, IsEnum CurrencyEnum # ds) \<in> set dto" and "IsOptional \<notin> set ds"
  obtains c where "text_at obj k = Some (currency_name c)"
proof -
  have "string_such (\<lambda>x. x \<in> set CurrencyEnum) (map_of obj k)"
    using checked[OF assms(2,1,3)] assms(4) by (auto simp: property_ok_def optional_def)
  then show thesis using that by (auto simp: text_at_string CurrencyEnum_iff)
qed

lemma global_declared:
  "pipe global_pipe dto body = Inr obj \<Longrightarrow> k \<notin> fst ` set dto \<Longrightarrow> map_of obj k = None"
  by (rule declared) (simp_all add: global_pipe_def)

text \<open>The four bodies of the wallet.\<close>

lemma deposit_body_typed:
  assumes "pipe global_pipe DepositDto body = Inr obj"
  shows "dto_amount_ok (di_amount (deposit_body u obj))" and "di_userId (deposit_body u obj) = u"
    and "text_at obj ''currency'' = Some (currency_name (di_currency (deposit_body u obj)))"
proof -
  have d: "distinct (map fst (DepositDto :: 'a dto))" by (simp add: DepositDto_def)
  obtain raw where raw: "text_at obj ''amount'' = Some raw" "dto_amount_ok raw"
    by (rule amount_body[OF assms d]) (simp add: DepositDto_def)
  obtain c where c: "text_at obj ''currency'' = Some (currency_name c)"
    by (rule currency_body[OF assms d, of "''currency''" "[]"]) (simp_all add: DepositDto_def)
  have none: "map_of obj ''userId'' = None" by (rule global_declared[OF assms]) (simp add: DepositDto_def)
  show "dto_amount_ok (di_amount (deposit_body u obj))" "di_userId (deposit_body u obj) = u"
    "text_at obj ''currency'' = Some (currency_name (di_currency (deposit_body u obj)))"
    using raw c by (simp_all add: deposit_body_def Let_def text_at_spread spread_keeps[OF none] currency_at_def)
qed

lemma withdraw_body_typed:
  assumes "pipe global_pipe WithdrawDto body = Inr obj"
  shows "dto_amount_ok (wi_amount (withdraw_body u obj))" and "wi_userId (withdraw_body u obj) = u"
proof -
  have d: "distinct (map fst (WithdrawDto :: 'a dto))" by (simp add: WithdrawDto_def)
  obtain raw where raw: "text_at obj ''amount'' = Some raw" "dto_amount_ok raw"
    by (rule amount_body[OF assms d]) (simp add: WithdrawDto_def)
  have none: "map_of obj ''userId'' = None" by (rule global_declared[OF assms]) (simp add: WithdrawDto_def)
  show "dto_amount_ok (wi_amount (withdraw_body u obj))" "wi_userId (withdraw_body u obj) = u"
    using raw by (simp_all add: withdraw_body_def Let_def text_at_spread spread_keeps[OF none])
qed

lemma send_body_typed:
  assumes "pipe global_pipe SendDto body = Inr obj"
  shows "dto_amount_ok (si_amount (send_body u obj))" and "si_userId (send_body u obj) = u"
proof -
  have d: "distinct (map fst (SendDto :: 'a dto))" by (simp add: SendDto_def)
  obtain raw where raw: "text_at obj ''amount'' = Some raw" "dto_amount_ok raw"
    by (rule amount_body[OF assms d]) (simp add: SendDto_def)
  have none: "map_of obj ''userId'' = None" by (rule global_declared[OF assms]) (simp add: SendDto_def)
  show "dto_amount_ok (si_amount (send_body u obj))" "si_userId (send_body u obj) = u"
    using raw by (simp_all add: send_body_def Let_def text_at_spread spread_keeps[OF none])
qed

lemma exchange_body_typed:
  assumes "pipe global_pipe ExchangeDto body = Inr obj"
  shows "dto_amount_ok (ei_amount (exchange_body u obj))" and "ei_userId (exchange_body u obj) = u"
proof -
  have d: "distinct (map fst (ExchangeDto :: 'a dto))" by (simp add: ExchangeDto_def)
  obtain raw where raw: "text_at obj ''amount'' = Some raw" "dto_amount_ok raw"
    by (rule amount_body[OF assms d]) (simp add: ExchangeDto_def)
  have none: "map_of obj ''userId'' = None" by (rule global_declared[OF assms]) (simp add: ExchangeDto_def)
  show "dto_amount_ok (ei_amount (exchange_body u obj))" "ei_userId (exchange_body u obj) = u"
    using raw by (simp_all add: exchange_body_def Let_def text_at_spread spread_keeps[OF none])
qed

text \<open>A code of the second factor has six characters.\<close>

lemma code_body:
  assumes "pipe opts VerifyTwoFactorDto body = Inr obj"
  obtains x where "text_at obj ''code'' = Some x" "char_count V x = 6"
proof -
  have "distinct (map fst (VerifyTwoFactorDto :: 'a dto))" by (simp add: VerifyTwoFactorDto_def)
  from checked[OF this assms, of "''code''" None "[IsString, Length 6 6]"] that show thesis
    by (auto simp: VerifyTwoFactorDto_def property_ok_def optional_def text_at_string)
qed

end

text \<open>C39. A deposit body the pipe accepts is well typed: its user is the session's whatever the body says, its
  currency is one of the four, its amount has no sign, and turning it into money can fail only because it
  is finer than the currency or at the ceiling.\<close>

theorem deposit_body_is_money:
  assumes "validation_pipe pipe V" and "pipe global_pipe DepositDto body = Inr obj"
  shows "di_userId (deposit_body u obj) = u
     \<and> map_of obj ''currency'' = Some (JString (currency_name (di_currency (deposit_body u obj))))
     \<and> (case toMoney (di_amount (deposit_body u obj)) (di_currency (deposit_body u obj)) of
          Inr m \<Rightarrow> 0 \<le> ledgerUnits m \<and> currencyOf m = di_currency (deposit_body u obj)
        | Inl e \<Rightarrow> (\<exists>c n. e = BadRequestException (currency_name c @ '' supports at most '' @ show_nat n @ '' decimal places''))
            \<or> e = BadRequestException (''amount must be less than '' @ CEILING_TEXT))"
proof -
  note t = validation_pipe.deposit_body_typed[OF assms, of u]
  let ?raw = "di_amount (deposit_body u obj)" and ?c = "di_currency (deposit_body u obj)"
  obtain w f where wf: "rate_match ?raw = Some (w, f)" using t(1) by (auto simp: dto_amount_ok_def)
  have raw: "?raw = amount_text False w f" "plain_parts w f" using wf by (simp_all add: rate_match_iff)
  have m: "toMoney ?raw ?c = Inr m \<Longrightarrow> 0 \<le> ledgerUnits m \<and> currencyOf m = ?c" for m
    using toMoney_props(1) dto_amount_nonneg[OF t(1)] by blast
  show ?thesis
  proof (intro conjI)
    show "map_of obj ''currency'' = Some (JString (currency_name ?c))"
      using t(3) by (auto simp: text_at_def split: option.splits json.splits)
    show "case toMoney ?raw ?c of
          Inr m \<Rightarrow> 0 \<le> ledgerUnits m \<and> currencyOf m = ?c
        | Inl e \<Rightarrow> (\<exists>c n. e = BadRequestException (currency_name c @ '' supports at most '' @ show_nat n @ '' decimal places''))
            \<or> e = BadRequestException (''amount must be less than '' @ CEILING_TEXT)"
      using m unfolding raw(1) toMoney_def money_of_text[OF raw(2)] by (auto split: sum.splits if_splits)
  qed (rule t(2))
qed

definition demo_validators :: "int validators" where
  "demo_validators = \<lparr>char_count = size, email_ok = (\<lambda>x. CHR ''@'' \<in> set x), uuid_ok = (\<lambda>x. size x = 36),
     url_ok = (\<lambda>x. True), iso8601_ok = (\<lambda>x. True), decimals_ok = (\<lambda>k n. True), integral_number = (\<lambda>n. True),
     positive_number = (\<lambda>n. 0 < n), number_le = (\<le>), number_of = int, js_Number = (\<lambda>x. 0)\<rparr>"

definition demo_deposit :: "int object" where
  "demo_deposit = [(''amount'', JString ''12.5''), (''currency'', JString ''USD'')]"

text \<open>A body that names a user of its own is refused.\<close>

lemma demo_pipe:
  "class_pipe demo_validators global_pipe DepositDto demo_deposit = Inr (rev demo_deposit)"
  "class_pipe demo_validators global_pipe DepositDto ((''userId'', JString ''eve'') # demo_deposit)
     = Inl (BadRequestException ''Bad Request Exception'')"
  by code_simp+

theorem deposit_body_is_money_witness:
  "di_userId (deposit_body ''ana'' (rev demo_deposit)) = ''ana''
     \<and> (\<exists>m. toMoney (di_amount (deposit_body ''ana'' (rev demo_deposit)))
           (di_currency (deposit_body ''ana'' (rev demo_deposit))) = Inr m \<and> 0 \<le> ledgerUnits m)"
proof -
  have "\<not> isl (toMoney (di_amount (deposit_body ''ana'' (rev demo_deposit)))
           (di_currency (deposit_body ''ana'' (rev demo_deposit))))" by code_simp
  then show ?thesis using deposit_body_is_money[OF class_pipe.validation_pipe_axioms demo_pipe(1), of "''ana''"]
    by (auto split: sum.splits)
qed

end
