(* ===== verification/Access_Guards.thy ===== *)
theory Access_Guards
  imports Validation Sessions Http_Guards
begin

text \<open>
  A request as the routes see it, and the access guards of the routes: \<open>jwt-auth.guard.ts\<close>,
  \<open>refresh-token.guard.ts\<close> and \<open>two-factor-pending.guard.ts\<close> name a passport strategy each, whose extractor,
  secret and \<open>validate\<close> are the code's (\<open>jwt.strategy.ts\<close>, \<open>refresh.strategy.ts\<close>,
  \<open>two-factor-pending.strategy.ts\<close>). \<open>passport-jwt\<close> takes the token from the cookie, refuses the request when
  there is none or it does not verify, and hands the claims to \<open>validate\<close>.
\<close>

record 'n http_request = request +
  cookies :: "string \<Rightarrow> string option"
  userAgent :: "string option"
  idempotencyKey :: "string option"
  routePath :: "string option"
  body :: "'n object"

definition passport_jwt :: "'s auth_env \<Rightarrow> string option \<Rightarrow> secret \<Rightarrow> ('s, string \<times> claims) io" where
  "passport_jwt E fromRequest k =
     (case truthy fromRequest of
        None \<Rightarrow> throw (UnauthorizedException ''Unauthorized'')
      | Some token \<Rightarrow>
          catchM (seqM (jwt_verify E k token) (\<lambda>c. ret (token, c))) (\<lambda>_. throw (UnauthorizedException ''Unauthorized'')))"

text \<open>A token of the same secret that is not a session's has no \<open>sessionId\<close>, and Prisma refuses a
  \<open>findUnique\<close> by an undefined identifier.\<close>

definition jwt_guard :: "'s auth_env \<Rightarrow> (string \<Rightarrow> string option) \<Rightarrow> ('s, string \<times> string) io" where
  "jwt_guard E ck =
     seqM (passport_jwt E (ck ''access_token'') JWT_ACCESS_SECRET) (\<lambda>(token, c).
     case c of
       SessionClaims userId sessionId version \<Rightarrow> jwt_validate E userId sessionId
     | _ \<Rightarrow> throw (PlainError ''PrismaClientValidationError''))"

text \<open>The session identifier is \<open>None\<close> when the claims have none.\<close>

definition refresh_guard ::
  "'s auth_env \<Rightarrow> (string \<Rightarrow> string option) \<Rightarrow> ('s, string \<times> string option \<times> int \<times> string) io" where
  "refresh_guard E ck =
     seqM (passport_jwt E (ck ''refresh_token'') JWT_REFRESH_SECRET) (\<lambda>(token, c).
     lift (case c of
       SessionClaims u i v \<Rightarrow>
         thenR (refresh_validate (ck ''refresh_token'') u i (Some v)) (\<lambda>(u, i, v, t). Inr (u, Some i, v, t))
     | _ \<Rightarrow> thenR (refresh_validate (ck ''refresh_token'') (sub c) '''' None) (\<lambda>(u, i, v, t). Inr (u, None, v, t))))"

definition pending_guard :: "'s auth_env \<Rightarrow> (string \<Rightarrow> string option) \<Rightarrow> ('s, string) io" where
  "pending_guard E ck =
     seqM (passport_jwt E (ck ''two_factor_pending'') JWT_ACCESS_SECRET) (\<lambda>(token, c). ret (pending_validate (sub c) c))"

lemma keeps_passport: "(\<And>k tok. keeps v (jwt_verify E k tok)) \<Longrightarrow> keeps v (passport_jwt E x k)"
  by (auto simp: passport_jwt_def keeps_prim split: option.split intro!: keeps_catchM keeps_seqM)

lemma passport_returns:
  assumes "passport_jwt E x k s = (Inr (tok, c), t)"
  shows "truthy x = Some tok \<and> jwt_verify E k tok s = (Inr c, t)"
  using assms by (auto simp: passport_jwt_def seqM_Inr catchM_Inr throw_def ret_def split: option.splits)

context auth_ports
begin

lemma jwt_guard_returns:
  assumes "jwt_guard E ck s = (Inr (u, i), t)"
  shows "\<exists>ses \<in> rows s. sn_id ses = i \<and> sn_userId ses = u \<and> sn_isActive ses"
proof -
  from assms obtain tok c s1 where p: "passport_jwt E (ck ''access_token'') JWT_ACCESS_SECRET s = (Inr (tok, c), s1)"
    and rest: "(case c of SessionClaims u i v \<Rightarrow> jwt_validate E u i
        | _ \<Rightarrow> throw (PlainError ''PrismaClientValidationError'')) s1 = (Inr (u, i), t)"
    by (auto simp: jwt_guard_def seqM_Inr)
  from rest have "jwt_validate E u i s1 = (Inr (u, i), t)"
    by (cases c) (auto simp: jwt_validate_def seqM_Inr throw_def ret_def split: if_splits)
  then obtain ses s2 where f: "session_findOne E i u s1 = (Inr ses, s2)" and "sn_isActive ses"
    by (auto simp: jwt_validate_def seqM_Inr throw_def split: if_splits)
  moreover have "rows s1 = rows s"
    using keepsD[OF jwt_verify_rows] passport_returns[OF p] by blast
  ultimately show ?thesis using findOne_returns[OF f] by (auto simp: this_session_def)
qed

lemma jwt_guard_rows: "keeps rows (jwt_guard E ck)"
  unfolding jwt_guard_def jwt_validate_def
  by (auto simp: keeps_prim split: claims.split intro!: keeps_seqM keeps_if keeps_passport jwt_verify_rows findOne_keeps)

end

text \<open>The contract does not say which tokens verify.\<close>

lemma auth_ports_verify:
  assumes "auth_ports E rows of_text" and "\<And>k tok. keeps rows (f k tok)"
  shows "auth_ports (E\<lparr>jwt_verify := f\<rparr>) rows of_text"
proof -
  have "session_stamp (E\<lparr>jwt_verify := f\<rparr>) = session_stamp E" by (simp add: session_stamp_def fun_eq_iff)
  then show ?thesis using assms by (simp add: auth_ports_def)
qed

end
