(* ===== verification/Larger_State.thy ===== *)
theory Larger_State
  imports Wallet_Contract
begin

text \<open>
  The wallet's unit of work as a part of a larger state: one that keeps the contract \<open>wallet_port\<close> on a
  state \<open>'w\<close> keeps it on any state that holds a \<open>'w\<close> and more. The theories that put the wallet together
  with other components (\<open>Wallet_Api\<close>, \<open>Wallet_Events\<close>) rest on it.
\<close>

text \<open>Operations with one, two and three arguments.\<close>

definition zoom1 where "zoom1 get put f x s = zoom get put (f x) s"
definition zoom2 where "zoom2 get put f x y s = zoom get put (f x y) s"
definition zoom3 where "zoom3 get put f x y z s = zoom get put (f x y z) s"

lemma zoom_args [simp]: "zoom1 get put f x = zoom get put (f x)" "zoom2 get put g x y = zoom get put (g x y)"
  "zoom3 get put h x y z = zoom get put (h x y z)"
  by (simp_all add: fun_eq_iff zoom1_def zoom2_def zoom3_def)

definition zoom_tx :: "('s \<Rightarrow> 'w) \<Rightarrow> ('w \<Rightarrow> 's \<Rightarrow> 's) \<Rightarrow> 'w wallet_tx \<Rightarrow> 's wallet_tx" where
  "zoom_tx get put tx =
     \<lparr>findByUserAndCurrency = zoom2 get put (findByUserAndCurrency tx),
      findOrCreateEmpty = zoom2 get put (findOrCreateEmpty tx),
      credit = zoom3 get put (credit tx), debit = zoom3 get put (debit tx),
      create_transaction = zoom1 get put (create_transaction tx)\<rparr>"

text \<open>The work runs on the part, with the rest of the state as it was.\<close>

definition inner_work ::
  "('s \<Rightarrow> 'w) \<Rightarrow> ('w \<Rightarrow> 's \<Rightarrow> 's) \<Rightarrow> 'w wallet_tx \<Rightarrow> ('s wallet_tx \<Rightarrow> ('s, 'a) io) \<Rightarrow> 's \<Rightarrow> ('w, 'a) io" where
  "inner_work get put tx work s w = (case work (zoom_tx get put tx) (put w s) of (r, t) \<Rightarrow> (r, get t))"

definition zoom_run :: "('s \<Rightarrow> 'w) \<Rightarrow> ('w \<Rightarrow> 's \<Rightarrow> 's) \<Rightarrow> 'w wallet_tx \<Rightarrow> 'w unit_of_work \<Rightarrow> 's unit_of_work" where
  "zoom_run get put tx run work s =
     (case run (\<lambda>_. inner_work get put tx work s) (get s) of (r, w) \<Rightarrow> (r, put w s))"

lemma invariant_zoom:
  assumes "\<And>w s. get (put w s) = w" and "invariant P m"
  shows "invariant (\<lambda>s. P (get s)) (zoom get put m)"
proof (rule invariantI)
  fix s r t assume "P (get s)" and "zoom get put m s = (r, t)"
  then obtain w where "m (get s) = (r, w)" "t = put w s" by (auto simp: zoom_iff)
  then show "P (get t)" using invariantD[OF assms(2) \<open>P (get s)\<close>] assms(1) by simp
qed

lemma zoom_closed:
  assumes lens: "\<And>w s. get (put w s) = w" and "tx_closed tx P"
  shows "tx_closed (zoom_tx get put tx) (\<lambda>s. P (get s))"
  using assms(2) unfolding tx_closed_def
  by (intro conjI allI; simp add: zoom_tx_def; intro invariant_zoom[of get put, OF lens]; simp)

lemma inner_work_only:
  assumes lens: "\<And>w s. get (put w s) = w" and only: "only_through (zoom_tx get put tx) (work (zoom_tx get put tx))"
  shows "only_through tx (inner_work get put tx work s)"
  unfolding only_through_def
proof (intro allI impI invariantI)
  fix P w r t assume P: "tx_closed tx P" "P w" and run: "inner_work get put tx work s w = (r, t)"
  obtain t' where t': "work (zoom_tx get put tx) (put w s) = (r, t')" "t = get t'"
    using run by (auto simp: inner_work_def split: prod.splits)
  have "invariant (\<lambda>s. P (get s)) (work (zoom_tx get put tx))"
    using only zoom_closed[of get put, OF lens P(1)] by (simp add: only_through_def)
  from invariantD[OF this _ t'(1)] show "P t" using lens P(2) t'(2) by simp
qed

text \<open>A part that keeps the contract of the wallet's port keeps it inside the larger state.\<close>

lemma wallet_port_zoom:
  assumes port: "wallet_port tx run view okay" and lens: "\<And>w s. get (put w s) = w"
  shows "wallet_port (zoom_tx get put tx) (zoom_run get put tx run) (\<lambda>s. view (get s)) (\<lambda>s. okay (get s))"
proof (rule wallet_port.intro, goal_cases)
  case 1
  show ?case by (rule zoom_closed[where get = get and put = put, OF lens wallet_port.closed[OF port]])
next
  case (2 s u c w)
  then show ?case by (rule wallet_port.owned[OF port])
next
  case (3 s k w k' w')
  then show ?case by (rule wallet_port.ids[OF port])
next
  case (4 s u c q t)
  then show ?case using wallet_port.find[OF port, of "get s" u c q] by (auto simp: zoom_tx_def zoom_iff lens)
next
  case (5 s u c w t)
  then show ?case using wallet_port.find_or_create[OF port, of "get s" u c w]
    by (auto simp: zoom_tx_def zoom_iff lens split: option.splits)
next
  case (6 s u c w m ver ok t)
  then show ?case using wallet_port.credit[OF port, of "get s" u c w m ver ok] by (auto simp: zoom_tx_def zoom_iff lens)
next
  case (7 s u c w m ver ok t)
  then show ?case using wallet_port.debit[OF port, of "get s" u c w m ver ok] by (auto simp: zoom_tx_def zoom_iff lens)
next
  case (8 s n r t)
  then show ?case using wallet_port.create[OF port, of "get s" n r] by (auto simp: zoom_tx_def zoom_iff lens)
next
  case (9 s work res t)
  note only = inner_work_only[where get = get and put = put and tx = tx and work = work, OF lens 9(2)]
  obtain w where w: "run (\<lambda>_. inner_work get put tx work s) (get s) = (res, w)" "t = put w s"
    using 9(3) by (auto simp: zoom_run_def split: prod.splits)
  show ?case using wallet_port.run_keeps[OF port 9(1) _ w(1)] only w(2) lens by simp
next
  case (10 s work e t)
  note only = inner_work_only[where get = get and put = put and tx = tx and work = work, OF lens 10(2)]
  obtain w where w: "run (\<lambda>_. inner_work get put tx work s) (get s) = (Inl e, w)" "t = put w s"
    using 10(3) by (auto simp: zoom_run_def split: prod.splits)
  show ?case using wallet_port.run_throws[OF port 10(1) _ w(1)] only w(2) lens by simp
next
  case (11 s work r t)
  note only = inner_work_only[where get = get and put = put and tx = tx and work = work, OF lens 11(2)]
  obtain w where w: "run (\<lambda>_. inner_work get put tx work s) (get s) = (Inr r, w)" "t = put w s"
    using 11(3) by (auto simp: zoom_run_def split: prod.splits)
  from wallet_port.run_returns[OF port 11(1) _ w(1)] only obtain w0 w1 where
    i: "okay w0" "view w0 = view (get s)" "inner_work get put tx work s w0 = (Inr r, w1)" "view w = view w1" by blast
  obtain t1 where "work (zoom_tx get put tx) (put w0 s) = (Inr r, t1)" "w1 = get t1"
    using i(3) by (auto simp: inner_work_def split: prod.splits)
  then show ?case using i w(2) lens by (intro exI[of _ "put w0 s"] exI[of _ t1]) simp
qed

end
