(* ===== verification/Wallet_Api.thy ===== *)
theory Wallet_Api
  imports Access_Guards Kyc Idempotency In_Memory_UoW Larger_State
begin

text \<open>
  A request to the money, from the cookie to the use case: \<open>WalletController\<close> (\<open>wallet.controller.ts\<close>) with what NestJS puts in front of its
  methods, in the order it runs them: the global \<open>CsrfGuard\<close>, \<open>JwtAuthGuard\<close>, \<open>KycGuard\<close>, the idempotency
  interceptor, the validation pipe, the method. The throttler of \<open>app.module.ts\<close>, which can only refuse a
  request, is not modelled. \<open>wallet_api_ports\<close> joins the contracts of the components in play; the last part
  puts the in-memory unit of work into a world with sessions, verifications and idempotency records.
\<close>

section \<open>The controller\<close>

datatype wallet_route = ListWallets | PostDeposit | PostWithdraw | PostExchange | PostSend

datatype wallet_call = Use_case wallet_command | Exchange_call exchange_input

datatype 'd wallet_answer = Wallets "wallet_row list" | Made transaction_record | Exchanged "'d exchange_result"

record ('s, 'd, 'n) wallet_api =
  wa_auth :: "'s auth_env"
  wa_kyc :: "'s kyc_env"
  wa_idem :: "'s idem_env"
  wa_csrf :: csrf_env
  wa_pipe :: "'n pipe"
  wa_run :: "'s unit_of_work"
  wa_findActive :: "string \<Rightarrow> string \<Rightarrow> ('s, beneficiary_snapshot option) io"
  wa_dispatch :: "webhook_event \<Rightarrow> ('s, unit) io"
  wa_exchange :: "('s, 'd) exchange_env"
  wa_wallets :: "('s, wallet_row, new_wallet) delegate"
  wa_json :: "'d wallet_answer \<Rightarrow> string"

text \<open>The bodies of the methods: the pipe on \<open>@Body() dto\<close>, the spread, and the call of the service.\<close>

fun call_of :: "('s, 'd, 'n) wallet_api \<Rightarrow> wallet_route \<Rightarrow> string \<Rightarrow> 'n object \<Rightarrow> exn + wallet_call" where
  "call_of A PostDeposit userId b =
     thenR (wa_pipe A global_pipe DepositDto b) (\<lambda>dto. Inr (Use_case (Deposit (deposit_body userId dto))))"
| "call_of A PostWithdraw userId b =
     thenR (wa_pipe A global_pipe WithdrawDto b) (\<lambda>dto. Inr (Use_case (Withdraw (withdraw_body userId dto))))"
| "call_of A PostExchange userId b =
     thenR (wa_pipe A global_pipe ExchangeDto b) (\<lambda>dto. Inr (Exchange_call (exchange_body userId dto)))"
| "call_of A PostSend userId b =
     thenR (wa_pipe A global_pipe SendDto b) (\<lambda>dto. Inr (Use_case (Send (send_body userId dto))))"
| "call_of A ListWallets userId b = Inl (PlainError '''')"

fun run_call :: "('s, 'd, 'n) wallet_api \<Rightarrow> wallet_call \<Rightarrow> ('s, string) io" where
  "run_call A (Use_case x) =
     seqM (wallet_service (wa_run A) (wa_findActive A) (wa_dispatch A) x) (\<lambda>r. ret (wa_json A (Made r)))"
| "run_call A (Exchange_call x) = seqM (wallet_exchange (wa_exchange A) x) (\<lambda>r. ret (wa_json A (Exchanged r)))"

definition needs_kyc :: "wallet_route \<Rightarrow> bool" where
  "needs_kyc route \<longleftrightarrow> route \<in> {PostWithdraw, PostExchange, PostSend}"

definition idem_request_of :: "'n http_request \<Rightarrow> string \<Rightarrow> idem_request" where
  "idem_request_of rq userId =
     \<lparr>iq_key = idempotencyKey rq, iq_userId = Some userId, iq_path = routePath rq, iq_url = rq_url rq\<rparr>"

definition wallet_controller :: "('s, 'd, 'n) wallet_api \<Rightarrow> 'n http_request \<Rightarrow> wallet_route \<Rightarrow> ('s, string) io" where
  "wallet_controller A rq route =
     seqM (lift (csrf_canActivate (wa_csrf A) None (request.truncate rq))) (\<lambda>_.
     seqM (jwt_guard (wa_auth A) (cookies rq)) (\<lambda>(userId, sessionId).
     seqM (if needs_kyc route then kyc_canActivate (wa_kyc A) userId else ret True) (\<lambda>_.
     seqM (modifyM (set_res_status (wa_idem A) (if route = ListWallets then 200 else 201))) (\<lambda>_.
     if route = ListWallets then
       seqM (getWallets (wa_wallets A) userId) (\<lambda>ws. ret (wa_json A (Wallets ws)))
     else
       idem_intercept (wa_idem A) (idem_request_of rq userId)
         (seqM (lift (call_of A route userId (body rq))) (run_call A))))))"

fun call_user :: "wallet_call \<Rightarrow> string" where
  "call_user (Use_case (Deposit x)) = di_userId x"
| "call_user (Use_case (Withdraw x)) = wi_userId x"
| "call_user (Use_case (Send x)) = si_userId x"
| "call_user (Exchange_call x) = ei_userId x"

fun call_validated :: "wallet_call \<Rightarrow> bool" where
  "call_validated (Use_case x) = validated x"
| "call_validated (Exchange_call x) = dto_amount_ok (ei_amount x)"

section \<open>What the controller relies on\<close>

text \<open>\<open>money\<close> is whatever of the state the wallet's calls are about: the guards' calls leave it alone, and
  verifying a token leaves the verifications alone.\<close>

locale wallet_api_ports =
  auth_ports "wa_auth A" rows of_text + kyc_ports "wa_kyc A" krows + idem_ports "wa_idem A" irows money
    + validation_pipe "wa_pipe A" V
  for A :: "('s, 'd, 'n) wallet_api" and rows of_text krows irows V and money :: "'s \<Rightarrow> 'm" +
  assumes verify_money: "keeps (\<lambda>s. (money s, krows s)) (jwt_verify (wa_auth A) k tok)"
    and session_money: "keeps (\<lambda>s. (money s, krows s)) (findFirst (sessions (wa_auth A)) P)"
    and kyc_money: "keeps money (findFirst (kycs (wa_kyc A)) Q)"
    and wallets_money: "keeps money (findMany (wa_wallets A) W le)"
begin

lemma jwt_guard_keeps: "keeps (\<lambda>s. (money s, krows s)) (jwt_guard (wa_auth A) ck)"
  unfolding jwt_guard_def jwt_validate_def session_findOne_def
  by (auto simp: keeps_prim split: claims.split
      intro!: keeps_seqM keeps_if keeps_assertFound keeps_passport verify_money session_money)

lemma kyc_guard_keeps: "keeps money (kyc_canActivate (wa_kyc A) u)"
  unfolding kyc_canActivate_def by (intro keeps_seqM kyc_money keeps_if keeps_prim)

lemma kyc_guard_returns:
  assumes "kyc_canActivate (wa_kyc A) u s = (Inr b, t)"
  shows "\<exists>k \<in> krows s. ky_userId k = u \<and> ky_status k = APPROVED"
proof -
  from assms obtain q s1 where "findFirst (kycs (wa_kyc A)) (kyc_of u) s = (Inr q, s1)"
    and "\<not> (case q of None \<Rightarrow> True | Some r \<Rightarrow> ky_status r \<noteq> APPROVED)"
    by (auto simp: kyc_canActivate_def seqM_Inr throw_def split: if_splits)
  with find_returns(2)[OF this(1)] show ?thesis by (auto split: option.splits)
qed

text \<open>The interceptor: whatever it answers, at most one call of the handler touched the money.\<close>

lemma lookup_keeps: "keeps money (idem_lookup (wa_idem A) key)"
  unfolding idem_lookup_def
  by (auto simp: keeps_prim Let_def status_work split: option.split
      intro!: keeps_seqM keeps_orNull keeps_modifyM table.frames(1)[OF itab] table.frames(10)[OF itab])

lemma settle_keeps: "keeps money (idem_settle (wa_idem A) n)"
  unfolding idem_settle_def
  by (intro keeps_seqM keeps_modifyM started_work keeps_orNull table.frames(5)[OF itab])

lemma handle_runs:
  assumes "idem_handle (wa_idem A) q key handle s1 = (y, u)"
  shows "\<exists>x s2. handle s1 = (x, s2) \<and> money u = money s2"
proof -
  obtain x s2 where x: "handle s1 = (x, s2)" by (cases "handle s1")
  have "money u = money s2"
    using assms x by (cases x) (auto simp: idem_handle_def seqM_def readM_def modifyM_def ret_def started_work)
  then show ?thesis using x by blast
qed

lemma intercept_runs:
  assumes "idem_intercept (wa_idem A) q handle s = (r, t)"
  shows "money t = money s \<or> (\<exists>s1 x s2. money s1 = money s \<and> handle s1 = (x, s2) \<and> money t = money s2)"
proof (cases "truthy (iq_key q)")
  case None
  then show ?thesis using assms by (cases "handle s") (auto simp: idem_intercept_def)
next
  case (Some key)
  obtain c s1 where l: "idem_lookup (wa_idem A) key s = (c, s1)" by (cases "idem_lookup (wa_idem A) key s")
  note k = keepsD[OF lookup_keeps l]
  show ?thesis
  proof (cases "c = Inr None")
    case True
    then have "idem_handle (wa_idem A) q key handle s1 = (r, t)"
      using assms Some l by (simp add: idem_intercept_def seqM_def)
    from handle_runs[OF this] k show ?thesis by metis
  next
    case False
    then have "t = s1" using assms Some l
      by (auto simp: idem_intercept_def seqM_def ret_def split: sum.splits option.splits)
    then show ?thesis using k by simp
  qed
qed

text \<open>The call a body is turned into: for the session's user, with a checked amount.\<close>

lemma call_of_returns:
  assumes "call_of A route u b = Inr c"
  shows "call_user c = u \<and> call_validated c \<and> (route = PostExchange \<longleftrightarrow> (\<exists>z. c = Exchange_call z))"
  using assms deposit_body_typed withdraw_body_typed send_body_typed exchange_body_typed
  by (cases route) (auto simp: thenR_Inr_iff)

lemma handler_runs:
  assumes "seqM (lift (call_of A route u b)) (run_call A) s = (x, t)"
  shows "t = s \<or> (\<exists>c y. call_user c = u \<and> call_validated c \<and> (route = PostExchange \<longleftrightarrow> (\<exists>z. c = Exchange_call z))
      \<and> run_call A c s = (y, t))"
  using assms call_of_returns[of route u b] by (cases "call_of A route u b") (auto simp: seqM_def lift_def)

text \<open>Money moves for a live session only, through one call of a use case, for the user of the session
  and with a checked amount; past the KYC guard, only when that user's verification is approved.\<close>

lemma controller_runs:
  assumes "wallet_controller A rq route s = (r, t)" and "money t \<noteq> money s"
  shows "\<exists>ses \<in> rows s. sn_isActive ses \<and> route \<noteq> ListWallets
     \<and> (needs_kyc route \<longrightarrow> (\<exists>k \<in> krows s. ky_userId k = sn_userId ses \<and> ky_status k = APPROVED))
     \<and> (\<exists>c s1 y s2. call_user c = sn_userId ses \<and> call_validated c \<and> (route = PostExchange \<longleftrightarrow> (\<exists>z. c = Exchange_call z))
          \<and> money s1 = money s \<and> run_call A c s1 = (y, s2) \<and> money t = money s2)"
proof -
  let ?guard = "\<lambda>userId. if needs_kyc route then kyc_canActivate (wa_kyc A) userId else ret True"
  let ?status = "modifyM (set_res_status (wa_idem A) (if route = ListWallets then 200 else 201))"
  obtain j s0 where j: "jwt_guard (wa_auth A) (cookies rq) s = (j, s0)" by (cases "jwt_guard (wa_auth A) (cookies rq) s")
  from keepsD[OF jwt_guard_keeps j] have j0: "money s0 = money s" "krows s0 = krows s" by simp_all
  have csrf: "csrf_canActivate (wa_csrf A) None (request.truncate rq) \<noteq> Inl e" for e
    using assms by (auto simp: wallet_controller_def seqM_def lift_def)
  then obtain b where b: "csrf_canActivate (wa_csrf A) None (request.truncate rq) = Inr b"
    by (cases "csrf_canActivate (wa_csrf A) None (request.truncate rq)") auto
  obtain u i where ui: "j = Inr (u, i)" using assms j j0 b
    by (cases j) (auto simp: wallet_controller_def seqM_def lift_def)
  obtain g s1 where g: "?guard u s0 = (g, s1)" by (cases "?guard u s0")
  have g0: "money s1 = money s"
    using g j0(1) keepsD[OF kyc_guard_keeps, of u s0 g s1] by (auto simp: ret_def split: if_splits)
  obtain ok where ok: "g = Inr ok" using assms j g g0 b ui
    by (cases g) (auto simp: wallet_controller_def seqM_def lift_def)
  have approved: "needs_kyc route \<Longrightarrow> \<exists>k \<in> krows s. ky_userId k = u \<and> ky_status k = APPROVED"
    using g ok j0(2) kyc_guard_returns[of u s0 ok s1] by (simp split: if_splits)
  define s2 where "s2 = set_res_status (wa_idem A) (if route = ListWallets then 200 else 201) s1"
  have s2: "money s2 = money s" using g0 by (simp add: s2_def status_work)
  have run: "(if route = ListWallets then seqM (getWallets (wa_wallets A) u) (\<lambda>ws. ret (wa_json A (Wallets ws)))
      else idem_intercept (wa_idem A) (idem_request_of rq u)
        (seqM (lift (call_of A route u (body rq))) (run_call A))) s2 = (r, t)"
    using assms(1) j g b unfolding wallet_controller_def ui ok
    by (simp add: seqM_def lift_def modifyM_def s2_def[symmetric])
  have "keeps money (seqM (getWallets (wa_wallets A) u) (\<lambda>ws. ret (wa_json A (Wallets ws))))"
    unfolding getWallets_def by (intro keeps_seqM wallets_money keeps_prim)
  then have route: "route \<noteq> ListWallets"
    using run s2 assms(2) keepsD[of money _ s2 r t] by (auto split: if_splits)
  then have "idem_intercept (wa_idem A) (idem_request_of rq u)
        (seqM (lift (call_of A route u (body rq))) (run_call A)) s2 = (r, t)" using run by simp
  from intercept_runs[OF this] s2 assms(2) obtain s3 x s4 where m: "money s3 = money s" "money t = money s4"
    "seqM (lift (call_of A route u (body rq))) (run_call A) s3 = (x, s4)" by auto
  from handler_runs[OF m(3)] m(1,2) assms(2) obtain c y where
    c: "call_user c = u" "call_validated c" "route = PostExchange \<longleftrightarrow> (\<exists>z. c = Exchange_call z)" "run_call A c s3 = (y, s4)" by metis
  obtain ses where "ses \<in> rows s" "sn_userId ses = u" "sn_isActive ses"
    using jwt_guard_returns j ui by blast
  then show ?thesis using approved route c m by blast
qed

end

section \<open>Any number of requests\<close>

text \<open>A request arrives, or an insert of the interceptor that is under way settles.\<close>

datatype 'n api_event = Request "'n http_request" wallet_route | Insert_settles new_idem

fun api_step :: "('s, 'd, 'n) wallet_api \<Rightarrow> 'n api_event \<Rightarrow> 's \<Rightarrow> 's" where
  "api_step A (Request rq route) s = snd (wallet_controller A rq route s)"
| "api_step A (Insert_settles n) s =
     (if n \<in> set (idem_started (wa_idem A) s) then snd (idem_settle (wa_idem A) n s) else s)"

primrec api_session :: "('s, 'd, 'n) wallet_api \<Rightarrow> 'n api_event list \<Rightarrow> 's \<Rightarrow> 's" where
  "api_session A [] s = s"
| "api_session A (x # xs) s = api_session A xs (api_step A x s)"

text \<open>The three use cases keep the ledger solvent whatever requests there are, if they keep it so one by one.\<close>

lemma api_session_solvent:
  assumes api: "wallet_api_ports A rows of_text krows irows V (\<lambda>s. (view s, okay s))"
    and port: "wallet_port tx (wa_run A) view okay"
    and frame: "wallet_port.frame_ok view okay (wa_findActive A) (wa_dispatch A)"
    and "okay s" and "solvent (view s)" and "\<forall>rq. Request rq PostExchange \<notin> set xs"
  shows "okay (api_session A xs s) \<and> solvent (view (api_session A xs s))"
  using assms(4-6)
proof (induction xs arbitrary: s)
  case (Cons x xs)
  have "okay (api_step A x s) \<and> solvent (view (api_step A x s))"
  proof (cases "(view (api_step A x s), okay (api_step A x s)) = (view s, okay s)")
    case True
    then show ?thesis using Cons.prems by simp
  next
    case False
    have "(view u, okay u) = (view s, okay s)" if "idem_settle (wa_idem A) n s = (q, u)" for n q u
      using keepsD[OF wallet_api_ports.settle_keeps[OF api] that] .
    then have "\<And>n. x \<noteq> Insert_settles n" using False by (auto split: if_splits) (metis prod.collapse)+
    then obtain rq route where x: "x = Request rq route" by (cases x) auto
    obtain r t where run: "wallet_controller A rq route s = (r, t)"
      by (cases "wallet_controller A rq route s")
    then have t: "api_step A x s = t" using x by simp
    from wallet_api_ports.controller_runs[OF api run False[unfolded t]] obtain c s1 y s2 where
      c: "call_validated c" "route = PostExchange \<longleftrightarrow> (\<exists>z. c = Exchange_call z)" "run_call A c s1 = (y, s2)"
        "view s1 = view s" "okay s1 = okay s" "view t = view s2" "okay t = okay s2"
      by blast
    obtain w where w: "c = Use_case w" using c(2) Cons.prems(3) x by (cases c) auto
    obtain res where svc: "wallet_service (wa_run A) (wa_findActive A) (wa_dispatch A) w s1 = (res, s2)"
      using c(3) unfolding w by (auto simp: seqM_def ret_def split: prod.splits sum.splits)
    have s1: "okay s1" "solvent (view s1)" using Cons.prems(1,2) c(4,5) by simp_all
    show ?thesis using wallet_port.service_solvent[OF port frame s1(1) svc _ s1(2)]
        invariantD[OF wallet_port.service_inv[OF port frame] s1(1) svc] c(1,6,7) unfolding w t by simp
  qed
  then show ?case using Cons.IH[of "api_step A x s"] Cons.prems(3) by simp
qed simp

section \<open>A concrete surrounding\<close>

text \<open>The in-memory unit of work, with sessions, verifications and idempotency records around it.\<close>

record api_world = session_world +
  aw_kyc :: "kyc_row list"
  aw_idem :: "idem_row list"
  aw_status :: nat
  aw_started :: "new_idem list"
  aw_ledger :: mem_state
  aw_market :: exchange_world

definition demo_session_token :: string where
  "demo_session_token = demo_token JWT_ACCESS_SECRET (SessionClaims ''ana'' ''s1'' 0)"

definition api_verify :: "secret \<Rightarrow> string \<Rightarrow> (api_world, claims) io" where
  "api_verify k tok =
     (if k = JWT_ACCESS_SECRET \<and> tok = demo_session_token then ret (SessionClaims ''ana'' ''s1'' 0)
      else throw (UnauthorizedException ''jwt''))"

definition api_kyc_row :: "api_world \<Rightarrow> nat \<Rightarrow> string \<times> kycStatus \<Rightarrow> kyc_row" where
  "api_kyc_row s k n = \<lparr>ky_id = replicate (length (aw_kyc s) + k) CHR ''k'', ky_userId = fst n,
     ky_status = snd n, ky_documentType = None, ky_submittedAt = None, ky_reviewedAt = None,
     ky_createdAt = dw_clock s, ky_updatedAt = dw_clock s\<rparr>"

definition api_idem_row :: "api_world \<Rightarrow> nat \<Rightarrow> new_idem \<Rightarrow> idem_row" where
  "api_idem_row s k n = \<lparr>ir_key = ni_key n, ir_userId = ni_userId n, ir_route = ni_route n,
     ir_response = ni_response n, ir_statusCode = ni_statusCode n, ir_createdAt = dw_clock s\<rparr>"

definition api_exchange :: "(api_world, int) exchange_env" where
  "api_exchange = (let put = (\<lambda>w s. s\<lparr>aw_market := w\<rparr>) in \<lparr>
     x_wallets = zoom_delegate aw_market put (x_wallets demo_exchange),
     x_rates = zoom_delegate aw_market put (x_rates demo_exchange),
     x_insert = (\<lambda>n. zoom aw_market put (x_insert demo_exchange n)),
     x_transaction = (\<lambda>m s. case m s of (Inr x, t) \<Rightarrow> (Inr x, t) | (Inl e, t) \<Rightarrow> (Inl e, s)),
     x_sleep = (\<lambda>_ s. s), x_now = (\<lambda>s. xd_clock (aw_market s)),
     x_Decimal = x_Decimal demo_exchange, x_decimalPlaces = demo_places, x_times = x_times demo_exchange,
     x_toString = x_toString demo_exchange, balance_lessThan = (\<lambda>b d. b < d), column_plus = (+),
     column_minus = (-), x_localeCompare = code_compare, EXCHANGE_RATE_MAX_AGE_MS = 60000\<rparr>)"

definition put_ledger :: "mem_state \<Rightarrow> api_world \<Rightarrow> api_world" where
  "put_ledger w s = s\<lparr>aw_ledger := w\<rparr>"

definition demo_api :: "(api_world, int, int) wallet_api" where
  "demo_api = \<lparr>
     wa_auth = demo_env\<lparr>jwt_verify := api_verify\<rparr>,
     wa_kyc = \<lparr>kycs = list_delegate aw_kyc (\<lambda>rs s. s\<lparr>aw_kyc := rs\<rparr>) api_kyc_row
         (\<lambda>s r. r\<lparr>ky_updatedAt := dw_clock s\<rparr>) (\<lambda>r r'. ky_userId r = ky_userId r'), kyc_now = dw_clock\<rparr>,
     wa_idem = \<lparr>idem_records = list_delegate aw_idem (\<lambda>rs s. s\<lparr>aw_idem := rs\<rparr>) api_idem_row (\<lambda>s r. r)
         (\<lambda>r r'. ir_key r = ir_key r'),
       idem_now = dw_clock, res_status = aw_status, set_res_status = (\<lambda>c s. s\<lparr>aw_status := c\<rparr>),
       idem_started = aw_started, set_started = (\<lambda>ns s. s\<lparr>aw_started := ns\<rparr>)\<rparr>,
     wa_csrf = \<lparr>CSRF_ENABLED = False, validateRequest = (\<lambda>_. True)\<rparr>,
     wa_pipe = class_pipe demo_validators,
     wa_run = zoom_run aw_ledger put_ledger mem_tx mem_run,
     wa_findActive = (\<lambda>u i. zoom aw_ledger put_ledger (reader_findActive u i)),
     wa_dispatch = (\<lambda>e. ret ()),
     wa_exchange = api_exchange,
     wa_wallets = x_wallets api_exchange,
     wa_json = (\<lambda>a. case a of Made r \<Rightarrow> tr_amount r | _ \<Rightarrow> '''')\<rparr>"

definition api_krows :: "api_world \<Rightarrow> kyc_row set" where "api_krows s = set (aw_kyc s)"
definition api_irows :: "api_world \<Rightarrow> idem_row set" where "api_irows s = set (aw_idem s)"
definition api_view :: "api_world \<Rightarrow> money_view" where "api_view s = mem_view (aw_ledger s)"
definition api_inv :: "api_world \<Rightarrow> bool" where "api_inv s = mem_inv (aw_ledger s)"

lemma put_ledger_lens [simp]: "aw_ledger (put_ledger w s) = w"
  by (simp add: put_ledger_def)

interpretation demo_api: wallet_api_ports demo_api demo_rows demo_digest api_krows api_irows demo_validators
  "\<lambda>s. (api_view s, api_inv s)"
proof (intro wallet_api_ports.intro wallet_api_ports_axioms.intro, goal_cases)
  case 1
  have "keeps demo_rows (api_verify k tok)" for k tok by (simp add: api_verify_def keeps_prim)
  from auth_ports_verify[OF demo.auth_ports_axioms this] show ?case by (simp add: demo_api_def)
next
  case 2
  let ?d = "kycs (wa_kyc demo_api)"
  have t: "table ?d (\<lambda>s. set (aw_kyc s)) (\<lambda>_. ())
      (\<lambda>s n r. (\<exists>i. r = api_kyc_row s i n) \<and> (\<forall>x \<in> set (aw_kyc s). \<not> ky_userId r = ky_userId x))
      (\<lambda>s r. r\<lparr>ky_updatedAt := dw_clock s\<rparr>)"
    unfolding demo_api_def wallet_api.simps kyc_env.simps by (rule list_delegate_table) simp_all
  have st: "kyc_stamp (wa_kyc demo_api) = (\<lambda>s r. r\<lparr>ky_updatedAt := dw_clock s\<rparr>)"
    by (simp add: kyc_stamp_def demo_api_def fun_eq_iff)
  have rw: "api_krows = (\<lambda>s. set (aw_kyc s))" by (simp add: api_krows_def fun_eq_iff)
  have "table ?d api_krows (\<lambda>_. ()) (\<lambda>s n r. kyc_made n r) (kyc_stamp (wa_kyc demo_api))"
    unfolding st rw by (rule table_weaken[OF t]) (auto simp: kyc_made_def api_kyc_row_def)
  then show ?case by (rule kyc_ports.intro)
next
  case 3
  let ?money = "\<lambda>s. (api_view s, api_inv s)"
  have t: "table (idem_records (wa_idem demo_api)) (\<lambda>s. set (aw_idem s)) ?money
      (\<lambda>s n r. (\<exists>i. r = api_idem_row s i n) \<and> (\<forall>x \<in> set (aw_idem s). \<not> ir_key r = ir_key x)) (\<lambda>s r. r)"
    unfolding demo_api_def wallet_api.simps idem_env.simps
    by (rule list_delegate_table) (simp_all add: api_view_def api_inv_def)
  have rw: "api_irows = (\<lambda>s. set (aw_idem s))" by (simp add: api_irows_def fun_eq_iff)
  show ?case
  proof (rule idem_ports.intro, goal_cases)
    case 1
    show ?case unfolding rw
      by (rule table_weaken[OF t]) (auto simp: idem_made_def api_idem_row_def demo_api_def)
  next
    case (5 P s r t)
    then show ?case by (auto simp: demo_api_def list_delegate_def)
  qed (simp_all add: demo_api_def api_irows_def api_view_def api_inv_def)
next
  case 4
  show ?case using class_pipe.validation_pipe_axioms by (simp add: demo_api_def)
next
  case (5 k tok)
  show ?case by (simp add: demo_api_def api_verify_def keeps_prim)
next
  case (6 P)
  show ?case by (simp add: demo_api_def demo_env_def list_delegate_def keeps_def)
next
  case (7 Q)
  show ?case by (simp add: demo_api_def list_delegate_def keeps_def)
next
  case (8 W le)
  show ?case by (auto simp: demo_api_def api_exchange_def Let_def demo_exchange_def zoom_delegate_def list_delegate_def
      keeps_def zoom_def api_view_def api_inv_def)
qed

interpretation demo_ledger: wallet_port "zoom_tx aw_ledger put_ledger mem_tx" "wa_run demo_api" api_view api_inv
proof -
  have "wa_run demo_api = zoom_run aw_ledger put_ledger mem_tx mem_run" by (simp add: demo_api_def)
  moreover have "api_view = (\<lambda>s. mem_view (aw_ledger s))" "api_inv = (\<lambda>s. mem_inv (aw_ledger s))"
    by (simp_all add: fun_eq_iff api_view_def api_inv_def)
  ultimately show "wallet_port (zoom_tx aw_ledger put_ledger mem_tx) (wa_run demo_api) api_view api_inv"
    using wallet_port_zoom[OF mem.wallet_port_axioms, of aw_ledger put_ledger] by simp
qed

lemma demo_frame: "demo_ledger.frame_ok (wa_findActive demo_api) (wa_dispatch demo_api)"
  by (auto simp: demo_ledger.frame_ok_def demo_api_def keeps_prim invariant_prim keeps_def invariant_def zoom_def ret_def
      reader_findActive_def readM_def api_view_def api_inv_def)

section \<open>Properties\<close>

definition demo_session :: session_row where
  "demo_session = \<lparr>sn_id = ''s1'', sn_userId = ''ana'', sn_refreshToken = '''', sn_refreshTokenVersion = 0,
     sn_userAgent = None, sn_ipAddress = None, sn_location = None, sn_isActive = True, sn_expiresAt = None,
     sn_createdAt = 0, sn_lastUsedAt = 0\<rparr>"

definition demo_api_start :: api_world where
  "demo_api_start = \<lparr>dw_sessions = [demo_session], dw_cookies = [], dw_clock = 0,
     aw_kyc = [\<lparr>ky_id = ''k1'', ky_userId = ''ana'', ky_status = APPROVED, ky_documentType = Some ''DNI'',
       ky_submittedAt = Some 0, ky_reviewedAt = Some 0, ky_createdAt = 0,
       ky_updatedAt = 0\<rparr>],
     aw_idem = [], aw_status = 0, aw_started = [], aw_ledger = mem_empty, aw_market = demo_market\<rparr>"

definition demo_http :: "string option \<Rightarrow> string option \<Rightarrow> (string \<times> string) list \<Rightarrow> int http_request" where
  "demo_http token key kvs = \<lparr>rq_forwardedFor = None, rq_ip = None, rq_remoteAddress = None, rq_method = ''POST'',
     rq_url = ''/api/v1/wallet'', rq_recaptchaToken = None,
     cookies = (\<lambda>name. if name = ''access_token'' then token else None), userAgent = None, idempotencyKey = key, routePath = None,
     body = map (\<lambda>(k, x). (k, JString x)) kvs\<rparr>"

text \<open>A deposit, the insert of its record, its repetition with the same key, a withdrawal, one that is too
  large, one of a stranger.\<close>

definition demo_deposit_request :: "int http_request" where
  "demo_deposit_request = demo_http (Some demo_session_token) (Some ''k1'') [(''currency'', ''USD''), (''amount'', ''100.50'')]"

definition demo_withdrawal :: "int http_request" where
  "demo_withdrawal = demo_http (Some demo_session_token) None [(''currency'', ''USD''), (''amount'', ''40.25'')]"

definition demo_after_deposit :: api_world where
  "demo_after_deposit = api_session demo_api [Request demo_deposit_request PostDeposit] demo_api_start"

definition demo_api_events :: "int api_event list" where
  "demo_api_events =
     [Request demo_deposit_request PostDeposit, Insert_settles (hd (aw_started demo_after_deposit)),
      Request demo_deposit_request PostDeposit, Request demo_withdrawal PostWithdraw,
      Request (demo_http (Some demo_session_token) None [(''currency'', ''USD''), (''amount'', ''1000'')]) PostWithdraw,
      Request (demo_http None None [(''currency'', ''USD''), (''amount'', ''1'')]) PostWithdraw]"

text \<open>C1. Money moves through the API only for a live session: a request that changes it is authenticated by
  an active session, is not the listing, made exactly one call of a use case, for the user of that session
  whatever the body says, with an amount of the checked form; and unless it is a deposit the verification of
  that user is approved.\<close>

theorem money_moves_for_approved:
  assumes "wallet_api_ports A rows of_text krows irows V money"
    and "wallet_controller A rq route s = (r, t)" and "money t \<noteq> money s"
  shows "\<exists>ses \<in> rows s. sn_isActive ses \<and> route \<noteq> ListWallets
     \<and> (route \<noteq> PostDeposit \<longrightarrow> (\<exists>k \<in> krows s. ky_userId k = sn_userId ses \<and> ky_status k = APPROVED))
     \<and> (\<exists>c s1 y s2. call_user c = sn_userId ses \<and> call_validated c \<and> money s1 = money s
          \<and> run_call A c s1 = (y, s2) \<and> money t = money s2)"
proof -
  obtain ses where ses: "ses \<in> rows s" "sn_isActive ses" "route \<noteq> ListWallets"
    and kyc: "needs_kyc route \<longrightarrow> (\<exists>k \<in> krows s. ky_userId k = sn_userId ses \<and> ky_status k = APPROVED)"
    and run: "\<exists>c s1 y s2. call_user c = sn_userId ses \<and> call_validated c \<and> money s1 = money s
          \<and> run_call A c s1 = (y, s2) \<and> money t = money s2"
    using wallet_api_ports.controller_runs[OF assms] by blast
  have "route \<noteq> PostDeposit \<Longrightarrow> needs_kyc route" using ses(3) by (cases route) (simp_all add: needs_kyc_def)
  then show ?thesis using ses kyc run by blast
qed

theorem money_moves_for_approved_witness:
  "let s = demo_after_deposit; t = snd (wallet_controller demo_api demo_withdrawal PostWithdraw s)
   in api_view t \<noteq> api_view s \<and> (\<exists>k \<in> api_krows s. ky_userId k = ''ana'' \<and> ky_status k = APPROVED)"
proof -
  let ?s = demo_after_deposit
  let ?m = "wallet_controller demo_api demo_withdrawal PostWithdraw ?s"
  have log: "length (mrecords (aw_ledger (snd ?m))) = 2 \<and> length (mrecords (aw_ledger ?s)) = 1
      \<and> map sn_userId (dw_sessions ?s) = [''ana'']" by code_simp
  have diff: "api_view (snd ?m) \<noteq> api_view ?s"
  proof
    assume "api_view (snd ?m) = api_view ?s"
    then have "v_log (api_view (snd ?m)) = v_log (api_view ?s)" by simp
    then show False using log by (auto simp: api_view_def mem_view_def)
  qed
  then have money: "(api_view (snd ?m), api_inv (snd ?m)) \<noteq> (api_view ?s, api_inv ?s)" by simp
  from money_moves_for_approved[OF demo_api.wallet_api_ports_axioms prod.collapse[symmetric] money]
  obtain ses k where "ses \<in> demo_rows ?s" "k \<in> api_krows ?s" "ky_userId k = sn_userId ses" "ky_status k = APPROVED"
    by auto
  moreover have "sn_userId ses = ''ana''" if "ses \<in> demo_rows ?s" for ses
  proof -
    have "sn_userId ses \<in> set (map sn_userId (dw_sessions ?s))" using that by (simp add: demo_rows_def)
    then show ?thesis using log by simp
  qed
  ultimately show ?thesis using diff by (auto simp: Let_def)
qed

text \<open>C7. No overdraft through the API: whatever requests arrive at the wallet's routes other than the
  exchange, authenticated or not, well formed or not, repeated before or after the record of the first is
  stored, no balance ever goes below zero.\<close>

theorem api_stays_solvent:
  assumes "wallet_api_ports A rows of_text krows irows V (\<lambda>s. (view s, okay s))"
    and "wallet_port tx (wa_run A) view okay"
    and "\<forall>u i. keeps view (wa_findActive A u i) \<and> invariant okay (wa_findActive A u i)"
    and "\<forall>e. keeps view (wa_dispatch A e) \<and> invariant okay (wa_dispatch A e)"
    and "okay s" and "solvent (view s)" and "\<forall>rq. Request rq PostExchange \<notin> set xs"
  shows "solvent (view (api_session A xs s))"
proof -
  have "wallet_port.frame_ok view okay (wa_findActive A) (wa_dispatch A)"
    using assms(3,4) by (simp add: wallet_port.frame_ok_def[OF assms(2)])
  from api_session_solvent[OF assms(1,2) this assms(5-7)] show ?thesis by blast
qed

theorem api_stays_solvent_witness:
  "solvent (api_view (api_session demo_api demo_api_events demo_api_start))
   \<and> balance_at (api_view (api_session demo_api demo_api_events demo_api_start)) (''ana'', USD) = 6025000000"
proof
  show "solvent (api_view (api_session demo_api demo_api_events demo_api_start))"
  proof (rule api_stays_solvent[OF demo_api.wallet_api_ports_axioms demo_ledger.wallet_port_axioms])
    show "\<forall>u i. keeps api_view (wa_findActive demo_api u i) \<and> invariant api_inv (wa_findActive demo_api u i)"
      "\<forall>e. keeps api_view (wa_dispatch demo_api e) \<and> invariant api_inv (wa_dispatch demo_api e)"
      using demo_frame by (simp_all add: demo_ledger.frame_ok_def)
    show "api_inv demo_api_start" using mem_empty_inv by (simp add: api_inv_def demo_api_start_def)
    show "solvent (api_view demo_api_start)"
      by (auto simp: solvent_def balance_at_def api_view_def demo_api_start_def mem_empty_def mem_view_def walletOf_def)
    show "\<forall>rq. Request rq PostExchange \<notin> set demo_api_events" by (simp add: demo_api_events_def)
  qed
  show "balance_at (api_view (api_session demo_api demo_api_events demo_api_start)) (''ana'', USD) = 6025000000"
    by code_simp
qed

end
