(* ===== verification/Kyc_Api.thy ===== *)
theory Kyc_Api
  imports Wallet_Api
begin

text \<open>
  The routes of a verification: \<open>KycController\<close> (\<open>kyc.controller.ts\<close>) behind the global \<open>CsrfGuard\<close>,
  \<open>JwtAuthGuard\<close> and the validation pipe. Each route acts on the user of the caller's session; \<open>review\<close> too, and it
  asks for no role. The state is that of \<open>Kyc\<close>, its world holding the sessions as well; \<open>kyc_api_ports\<close>
  joins the contracts, and is interpreted on the world of \<open>Wallet_Api\<close>.
\<close>

section \<open>The controller\<close>

datatype kyc_route = GetStatus | PostSubmit | PostReview

record ('w, 'n) kyc_api =
  ka_auth :: "'w auth_env"
  ka_kyc :: "'w kyc_env"
  ka_csrf :: csrf_env
  ka_pipe :: "'n pipe"

text \<open>\<open>action === "approve"\<close>, the one thing \<open>review\<close> does with the text.\<close>

definition action_of :: "string \<Rightarrow> kycReviewAction" where
  "action_of x = (if x = ''approve'' then Approve else Reject)"

fun kyc_call :: "('w, 'n) kyc_api \<Rightarrow> 'n object \<Rightarrow> kyc_route \<Rightarrow> string \<Rightarrow> ('w kyc_state, kyc_row) io" where
  "kyc_call A b GetStatus userId = kyc_db (kyc_getStatus (ka_kyc A) userId)"
| "kyc_call A b PostSubmit userId =
     seqM (lift (ka_pipe A global_pipe SubmitKycDto b)) (\<lambda>dto.
     kyc_submit (ka_kyc A) userId (the (text_at dto ''documentType'')))"
| "kyc_call A b PostReview userId =
     seqM (lift (ka_pipe A global_pipe ReviewKycDto b)) (\<lambda>dto.
     kyc_db (kyc_review (ka_kyc A) userId (action_of (the (text_at dto ''action'')))))"

definition kyc_controller :: "('w, 'n) kyc_api \<Rightarrow> 'n http_request \<Rightarrow> kyc_route \<Rightarrow> ('w kyc_state, kyc_row) io" where
  "kyc_controller A rq route =
     seqM (lift (csrf_canActivate (ka_csrf A) None (request.truncate rq))) (\<lambda>_.
     seqM (kyc_db (jwt_guard (ka_auth A) (cookies rq))) (\<lambda>(userId, sessionId).
     kyc_call A (body rq) route userId))"

section \<open>What the controller relies on\<close>

text \<open>The cookies stand for a user, as long as the sessions are what they are.\<close>

definition signed_in ::
  "'s auth_env \<Rightarrow> ('s \<Rightarrow> session_row set) \<Rightarrow> (string \<Rightarrow> string option) \<Rightarrow> string \<Rightarrow> 's \<Rightarrow> bool" where
  "signed_in E rows ck u s \<longleftrightarrow> (\<forall>v. rows v = rows s \<longrightarrow> (\<exists>i t. jwt_guard E ck v = (Inr (u, i), t)))"

text \<open>The user an event of the lifecycle is about.\<close>

fun event_user :: "kyc_event \<Rightarrow> string option" where
  "event_user (Asked u) = Some u"
| "event_user (Submitted u d) = Some u"
| "event_user (Reviewed u a) = Some u"
| "event_user (Fired u) = Some u"
| "event_user Elsewhere = None"

locale kyc_api_ports =
  auth_ports "ka_auth A" rows of_text + kyc_ports "ka_kyc A" krows + copying_pipe "ka_pipe A" V
  for A :: "('w, 'n) kyc_api" and rows of_text krows V +
  assumes verify_kyc: "keeps krows (jwt_verify (ka_auth A) k tok)"
    and session_kyc: "keeps krows (findFirst (sessions (ka_auth A)) P)"
    and kyc_sessions: "keeps rows (findFirst (kycs (ka_kyc A)) Q)" "keeps rows (create (kycs (ka_kyc A)) n)"
      "keeps rows (update (kycs (ka_kyc A)) Q f)"
begin

lemma guard_krows: "keeps krows (jwt_guard (ka_auth A) ck)"
  unfolding jwt_guard_def jwt_validate_def session_findOne_def
  by (auto simp: keeps_prim split: claims.split
      intro!: keeps_seqM keeps_if keeps_assertFound keeps_passport verify_kyc session_kyc)

lemma getStatus_sessions: "keeps rows (kyc_getStatus (ka_kyc A) u)"
  unfolding kyc_getStatus_def
  by (intro keeps_seqM kyc_sessions) (auto simp: keeps_prim kyc_sessions split: option.split)

lemma kyc_db_keeps: "keeps v m \<Longrightarrow> keeps (\<lambda>s. v (kyc_world s)) (kyc_db m)"
  by (auto simp: keeps_def kyc_db_def zoom_def split: prod.splits) (metis snd_conv)

lemma submit_sessions: "keeps (\<lambda>s. rows (kyc_world s)) (kyc_submit (ka_kyc A) u d)"
  unfolding kyc_submit_def
  by (intro keeps_seqM keeps_if kyc_db_keeps getStatus_sessions kyc_sessions keeps_prim keeps_modifyM) simp_all

text \<open>A route that gets past the access guard is a request of the caller's in the lifecycle.\<close>

lemma call_steps:
  assumes "kyc_call A b route u s = (q, t)"
  shows "t = s \<or> (\<exists>e. kyc_step (ka_kyc A) krows s e t \<and> event_user e = Some u)"
proof (cases route)
  case GetStatus
  then show ?thesis using kyc_step.asked[of "ka_kyc A" u s q t krows] assms by force
next
  case PostSubmit
  show ?thesis
  proof (cases "ka_pipe A global_pipe SubmitKycDto b")
    case (Inl e)
    then show ?thesis using PostSubmit assms by (simp add: seqM_def lift_def)
  next
    case (Inr dto)
    then have "kyc_submit (ka_kyc A) u (the (text_at dto ''documentType'')) s = (q, t)"
      using PostSubmit assms by (simp add: seqM_def lift_def)
    from kyc_step.submitted[OF this, of krows] show ?thesis by force
  qed
next
  case PostReview
  show ?thesis
  proof (cases "ka_pipe A global_pipe ReviewKycDto b")
    case (Inl e)
    then show ?thesis using PostReview assms by (simp add: seqM_def lift_def)
  next
    case (Inr dto)
    then have "kyc_db (kyc_review (ka_kyc A) u (action_of (the (text_at dto ''action'')))) s = (q, t)"
      using PostReview assms by (simp add: seqM_def lift_def)
    from kyc_step.reviewed[OF this, of krows] show ?thesis by force
  qed
qed

lemma moves_own:
  assumes "kyc_moves e R R'" and "event_user e = Some u" and "r \<in> R" and "ky_userId r \<noteq> u"
  shows "r \<in> R'"
proof -
  from assms(1,3) obtain r' where r': "r' \<in> R'" "r' = r \<or> kyc_edge e r r'" unfolding kyc_moves_def by blast
  moreover have "\<not> kyc_edge e r r'" using assms(2,4) by (cases e) auto
  ultimately show ?thesis by blast
qed

text \<open>Whatever the request, only the verification of the user the access guard names changes.\<close>

lemma controller_own:
  assumes run: "kyc_controller A rq route s = (q, t)" and good: "kyc_good (krows (kyc_world s))"
    and r: "r \<in> krows (kyc_world s)"
  shows "r \<in> krows (kyc_world t)
    \<or> (\<exists>i w. jwt_guard (ka_auth A) (cookies rq) (kyc_world s) = (Inr (ky_userId r, i), w))"
proof -
  obtain j w where j: "jwt_guard (ka_auth A) (cookies rq) (kyc_world s) = (j, w)"
    by (cases "jwt_guard (ka_auth A) (cookies rq) (kyc_world s)")
  have w: "krows w = krows (kyc_world s)" by (rule keepsD[OF guard_krows j])
  let ?s = "s\<lparr>kyc_world := w\<rparr>"
  have db: "kyc_db (jwt_guard (ka_auth A) (cookies rq)) s = (j, ?s)" using j by (simp add: kyc_db_def zoom_def)
  show ?thesis
  proof (cases "csrf_canActivate (ka_csrf A) None (request.truncate rq)")
    case (Inl e)
    then have "t = s" using run by (simp add: kyc_controller_def seqM_def lift_def)
    then show ?thesis using r by simp
  next
    case ok: (Inr b)
    show ?thesis
    proof (cases j)
      case (Inl e)
      then have "t = ?s" using run ok db by (simp add: kyc_controller_def seqM_def lift_def)
      then show ?thesis using r w by simp
    next
      case (Inr p)
      obtain u i where p: "p = (u, i)" by (cases p)
      have call: "kyc_call A (body rq) route u ?s = (q, t)"
        using run ok db Inr p by (simp add: kyc_controller_def seqM_def lift_def)
      have "r \<in> krows (kyc_world t)" if other: "ky_userId r \<noteq> u"
      proof (cases "t = ?s")
        case True
        then show ?thesis using r w by simp
      next
        case False
        then obtain e where e: "kyc_step (ka_kyc A) krows ?s e t" "event_user e = Some u"
          using call_steps[OF call] by blast
        have "kyc_moves e (krows w) (krows (kyc_world t))" using step_law[OF e(1)] good w by simp
        then show ?thesis using moves_own[OF _ e(2) _ other] r w by blast
      qed
      then show ?thesis using j[unfolded Inr p] by blast
    qed
  qed
qed

text \<open>A submission and a review by one user.\<close>

lemma past_guards:
  assumes "signed_in (ka_auth A) rows (cookies rq) u (kyc_world s)"
    and "csrf_canActivate (ka_csrf A) None (request.truncate rq) = Inr b"
  shows "\<exists>w. kyc_controller A rq route s = kyc_call A (body rq) route u (s\<lparr>kyc_world := w\<rparr>)
    \<and> rows w = rows (kyc_world s) \<and> krows w = krows (kyc_world s)"
proof -
  from assms(1) obtain i w where j: "jwt_guard (ka_auth A) (cookies rq) (kyc_world s) = (Inr (u, i), w)"
    unfolding signed_in_def by blast
  then have "kyc_controller A rq route s = kyc_call A (body rq) route u (s\<lparr>kyc_world := w\<rparr>)"
    using assms(2) by (simp add: kyc_controller_def seqM_def lift_def kyc_db_def zoom_def)
  then show ?thesis using keepsD[OF jwt_guard_rows j] keepsD[OF guard_krows j] by blast
qed

lemma text_copied:
  assumes "ka_pipe A global_pipe ReviewKycDto b = Inr dto" and "map_of b ''action'' = Some (JString x)"
  shows "text_at dto ''action'' = Some x"
proof -
  have "map_of dto ''action'' = Some (JString x)"
    using copied[OF _ assms(1), of "''action''" None "[IsString, IsIn [''approve'', ''reject'']]"] assms(2)
    by (simp add: ReviewKycDto_def)
  then show ?thesis by (simp add: text_at_def)
qed

lemma own_review:
  assumes ans: "kyc_answers (ka_kyc A) krows" and good: "kyc_good (krows (kyc_world s))"
    and open_row: "\<forall>r \<in> krows (kyc_world s). ky_userId r = u \<longrightarrow> ky_status r \<in> {kycStatus.PENDING, REJECTED}"
    and who: "signed_in (ka_auth A) rows (cookies rq1) u (kyc_world s)" "signed_in (ka_auth A) rows (cookies rq2) u (kyc_world s)"
    and csrf: "csrf_canActivate (ka_csrf A) None (request.truncate rq1) = Inr b1"
      "csrf_canActivate (ka_csrf A) None (request.truncate rq2) = Inr b2"
    and dto: "ka_pipe A global_pipe SubmitKycDto (body rq1) = Inr dto1" "ka_pipe A global_pipe ReviewKycDto (body rq2) = Inr dto2"
    and approve: "map_of (body rq2) ''action'' = Some (JString ''approve'')"
  shows "\<exists>r1 s1 r2 s2 w. kyc_controller A rq1 PostSubmit s = (Inr r1, s1) \<and> kyc_controller A rq2 PostReview s1 = (Inr r2, s2)
    \<and> ky_userId r2 = u \<and> ky_status r2 = APPROVED \<and> kyc_canActivate (ka_kyc A) u (kyc_world s2) = (Inr True, w)"
proof -
  obtain w1 where w1: "kyc_controller A rq1 PostSubmit s = kyc_call A (body rq1) PostSubmit u (s\<lparr>kyc_world := w1\<rparr>)"
    "rows w1 = rows (kyc_world s)" "krows w1 = krows (kyc_world s)" using past_guards[OF who(1) csrf(1)] by blast
  obtain r1 s1 where sub: "kyc_submit (ka_kyc A) u (the (text_at dto1 ''documentType'')) (s\<lparr>kyc_world := w1\<rparr>) = (Inr r1, s1)"
    and r1: "r1 \<in> krows (kyc_world s1)" "ky_userId r1 = u" "ky_status r1 = IN_REVIEW" "kyc_good (krows (kyc_world s1))"
    using submit_answers[OF ans, of "s\<lparr>kyc_world := w1\<rparr>" u "the (text_at dto1 ''documentType'')"] good open_row w1(3)
    by auto
  have 1: "kyc_controller A rq1 PostSubmit s = (Inr r1, s1)" using w1(1) dto(1) sub by (simp add: seqM_def lift_def)
  have "rows (kyc_world s1) = rows (kyc_world s)" using keepsD[OF submit_sessions sub] w1(2) by simp
  then have "signed_in (ka_auth A) rows (cookies rq2) u (kyc_world s1)" using who(2) by (simp add: signed_in_def)
  from past_guards[OF this csrf(2)] obtain w2 where
    w2: "kyc_controller A rq2 PostReview s1 = kyc_call A (body rq2) PostReview u (s1\<lparr>kyc_world := w2\<rparr>)"
      "krows w2 = krows (kyc_world s1)" by blast
  obtain r2 w3 where rev: "kyc_review (ka_kyc A) u Approve w2 = (Inr r2, w3)" and r2: "r2 \<in> krows w3" "ky_userId r2 = u"
    "ky_status r2 = APPROVED" "kyc_good (krows w3)"
    using review_answers[OF ans, of w2 r1 u] r1 w2(2) by auto
  have "kyc_controller A rq2 PostReview s1 = (Inr r2, s1\<lparr>kyc_world := w3\<rparr>)"
    using w2(1) dto(2) text_copied[OF dto(2) approve] rev
    by (simp add: seqM_def lift_def action_of_def kyc_db_def zoom_def)
  moreover obtain v where "kyc_canActivate (ka_kyc A) u w3 = (Inr True, v)"
    using guard_passes[OF ans r2(4,1,2,3)] by blast
  ultimately show ?thesis using 1 r2(2,3) by (metis kyc_state.select_convs(2) kyc_state.surjective kyc_state.update_convs(2))
qed

end

section \<open>A concrete surrounding\<close>

definition demo_kyc_api :: "(api_world, int) kyc_api" where
  "demo_kyc_api = \<lparr>ka_auth = wa_auth demo_api, ka_kyc = wa_kyc demo_api, ka_csrf = wa_csrf demo_api,
     ka_pipe = class_pipe demo_validators\<rparr>"

interpretation demo_kyc_api: kyc_api_ports demo_kyc_api demo_rows demo_digest api_krows demo_validators
proof (intro kyc_api_ports.intro kyc_api_ports_axioms.intro, goal_cases)
  case 1
  show ?case using demo_api.auth_ports_axioms by (simp add: demo_kyc_api_def)
next
  case 2
  show ?case using demo_api.kyc_ports_axioms by (simp add: demo_kyc_api_def)
next
  case 3
  show ?case using class_copies.copying_pipe_axioms by (simp add: demo_kyc_api_def)
next
  case (4 k tok)
  show ?case by (simp add: demo_kyc_api_def demo_api_def api_verify_def keeps_prim)
next
  case (5 P)
  show ?case by (simp add: demo_kyc_api_def demo_api_def demo_env_def list_delegate_def keeps_def)
qed (auto simp: demo_kyc_api_def demo_api_def list_delegate_def list_insert_def list_replace_def keeps_def demo_rows_def
       split: option.split)

lemma demo_kyc_api_answers: "kyc_answers (ka_kyc demo_kyc_api) api_krows"
  by (auto simp: kyc_answers_def demo_kyc_api_def demo_api_def api_krows_def list_delegate_def list_insert_def
       list_replace_def api_kyc_row_def list_ex_iff dest: find_None_iff[THEN iffD1] split: option.splits)
     (metis kyc_row.select_convs(2))

text \<open>A user with a session and no verification.\<close>

definition demo_unverified :: "api_world kyc_state" where
  "demo_unverified = \<lparr>kyc_timers = [], kyc_world = demo_api_start\<lparr>aw_kyc := []\<rparr>\<rparr>"

definition demo_form :: "string \<Rightarrow> string \<Rightarrow> int http_request" where
  "demo_form k x = demo_http (Some demo_session_token) None [(k, x)]"

lemma demo_signed_in: "signed_in (ka_auth demo_kyc_api) demo_rows (cookies (demo_form k x)) ''ana'' (kyc_world demo_unverified)"
proof -
  have "\<exists>i t. jwt_guard (ka_auth demo_kyc_api) (cookies (demo_form k x)) v = (Inr (''ana'', i), t)"
    if "demo_rows v = demo_rows (kyc_world demo_unverified)" for v
  proof -
    have "set (dw_sessions v) = {demo_session}"
      using that by (simp add: demo_rows_def demo_unverified_def demo_api_start_def)
    then obtain xs where v: "dw_sessions v = demo_session # xs"
      by (cases "dw_sessions v") auto
    have "demo_session_token \<noteq> []" by code_simp
    then have tok: "truthy (cookies (demo_form k x) ''access_token'') = Some demo_session_token"
      by (simp add: demo_form_def demo_http_def truthy_def)
    have "jwt_verify (ka_auth demo_kyc_api) JWT_ACCESS_SECRET demo_session_token v = (Inr (SessionClaims ''ana'' ''s1'' 0), v)"
      by (simp add: demo_kyc_api_def demo_api_def api_verify_def ret_def)
    moreover have "session_findOne (ka_auth demo_kyc_api) ''s1'' ''ana'' v = (Inr demo_session, v)"
      by (simp add: session_findOne_def demo_kyc_api_def demo_api_def demo_env_def list_delegate_def v this_session_def
          demo_session_def seqM_def ret_def)
    ultimately show ?thesis
      by (simp add: jwt_guard_def passport_jwt_def tok seqM_def catchM_def ret_def jwt_validate_def demo_session_def)
  qed
  then show ?thesis by (simp add: signed_in_def)
qed

section \<open>Properties\<close>



end
