(* ===== verification/Auth_Api.thy ===== *)
theory Auth_Api
  imports Access_Guards Authentication Two_Factor Recovery
begin

text \<open>
  \<open>AuthController\<close> (\<open>auth.controller.ts\<close>): every route with its guards, the pipe on its body and the one call of
  \<open>AuthService\<close> it makes, which for the second factor and the password hands on to the services of \<open>Two_Factor\<close>
  and \<open>Recovery\<close>. The state is that of the second factor's limiter beside the world. The OAuth guards are
  passport's: the user they leave is an argument of the callback routes. An optional text that is \<open>null\<close> is read
  as an absent one.
\<close>

section \<open>The routes\<close>

datatype auth_route =
    Register | Login | CsrfToken | Refresh | Logout
  | ForgotPassword | VerifyOtp | ResetPassword
  | RegenerateBackupCodes | Generate2FA | Enable2FA | Disable2FA | Verify2FA
  | GoogleAuth | GoogleCallback google_user
  | AppleAuth | AppleCallbackGet apple_user | AppleCallbackPost apple_user

datatype auth_answer =
    Session login_result
  | Token string
  | Message string
  | Verified bool
  | Codes "string list"
  | QrCode string string
  | Enabled string "string list"
  | RedirectTo string
  | Nothing

record ('w, 'n) auth_api =
  au_auth :: "'w auth_env"
  au_users :: "'w user_env"
  au_second :: "'w two_factor_env"
  au_tokens :: "'w token_env"
  au_recaptcha :: "('w, 'n) recaptcha_env"
  au_csrf :: csrf_env
  au_pipe :: "'n pipe"
  generateCsrfToken :: "request \<Rightarrow> ('w, string) io"
  FRONTEND_URL :: "string option"

text \<open>\<open>RegisterDto\<close> as what \<open>UsersService.create\<close> takes apart, with the email apart.\<close>

definition register_body :: "'n object \<Rightarrow> user_data \<times> string" where
  "register_body dto =
     (no_user_data\<lparr>ud_name := text_at dto ''name'', ud_lastName := text_at dto ''lastName'',
        ud_phone := text_at dto ''phone'', ud_password := text_at dto ''password'',
        ud_country := text_at dto ''country''\<rparr>,
      the (text_at dto ''email''))"

definition oauth_of_google :: "google_user \<Rightarrow> oauth_user" where
  "oauth_of_google g = \<lparr>oa_email = gu_email g, oa_name = Some (gu_name g), oa_lastName = Some (gu_lastName g),
     oa_avatar = gu_avatar g\<rparr>"

definition oauth_of_apple :: "apple_user \<Rightarrow> oauth_user" where
  "oauth_of_apple a = \<lparr>oa_email = ap_email a, oa_name = ap_name a, oa_lastName = ap_lastName a, oa_avatar = None\<rparr>"

text \<open>\<open>SkipCsrf\<close> on the handler.\<close>

fun skips_csrf :: "auth_route \<Rightarrow> bool option" where
  "skips_csrf CsrfToken = Some True"
| "skips_csrf GoogleAuth = Some True"
| "skips_csrf (GoogleCallback g) = Some True"
| "skips_csrf AppleAuth = Some True"
| "skips_csrf (AppleCallbackGet a) = Some True"
| "skips_csrf (AppleCallbackPost a) = Some True"
| "skips_csrf _ = None"

text \<open>A guard that answers \<open>false\<close> makes NestJS throw.\<close>

definition guarded :: "('s, bool) io \<Rightarrow> ('s, 'a) io \<Rightarrow> ('s, 'a) io" where
  "guarded g m = seqM g (\<lambda>ok. if ok then m else throw (ForbiddenException ''Forbidden resource''))"

abbreviation "human A rq \<equiv> on_world (recaptcha_canActivate (au_recaptcha A) (request.truncate rq))"

text \<open>\<open>@Body() dto\<close>.\<close>

definition with_body ::
  "('w, 'n) auth_api \<Rightarrow> 'n http_request \<Rightarrow> 'n dto \<Rightarrow> ('n object \<Rightarrow> ('s, 'a) io) \<Rightarrow> ('s, 'a) io" where
  "with_body A rq dto f = seqM (lift (au_pipe A global_pipe dto (body rq))) f"

definition frontend :: "('w, 'n) auth_api \<Rightarrow> string" where
  "frontend A = or_else (FRONTEND_URL A) ''http://localhost:3001'' @ ''/dashboard''"

definition handleAppleCallback ::
  "('w, 'n) auth_api \<Rightarrow> apple_user \<Rightarrow> 'n http_request \<Rightarrow> ('w two_factor_state, auth_answer) io" where
  "handleAppleCallback A user rq =
     seqM (on_world (appleLogin (au_auth A) (au_users A) (oauth_of_apple user) (userAgent rq)
       (Some (extractIp (request.truncate rq))))) (\<lambda>_.
     ret (RedirectTo (frontend A)))"

text \<open>\<open>AuthService\<close>, where it hands on to the other services.\<close>

definition auth_generateTwoFactor ::
  "'s user_env \<Rightarrow> 's two_factor_env \<Rightarrow> string \<Rightarrow> ('s, string \<times> string) io" where
  "auth_generateTwoFactor U T userId = generateTwoFactor U T userId"

definition auth_enableTwoFactor ::
  "'s auth_env \<Rightarrow> 's user_env \<Rightarrow> 's two_factor_env \<Rightarrow> string \<Rightarrow> string \<Rightarrow> ('s, string \<times> string list) io"
where
  "auth_enableTwoFactor E U T userId code = enableTwoFactor E U T userId code"

definition auth_disableTwoFactor ::
  "'s user_env \<Rightarrow> 's two_factor_env \<Rightarrow> string \<Rightarrow> string \<Rightarrow> ('s, string) io" where
  "auth_disableTwoFactor U T userId code = disableTwoFactor U T userId code"

definition auth_verifyTwoFactor ::
  "'w auth_env \<Rightarrow> 'w user_env \<Rightarrow> 'w two_factor_env \<Rightarrow> string \<Rightarrow> string \<Rightarrow> string option \<Rightarrow> string option
   \<Rightarrow> ('w two_factor_state, login_result) io" where
  "auth_verifyTwoFactor E U T userId code agent ip = verifyTwoFactor E U T userId code agent ip"

definition auth_regenerateBackupCodes ::
  "'s auth_env \<Rightarrow> 's two_factor_env \<Rightarrow> string \<Rightarrow> ('s, string list) io" where
  "auth_regenerateBackupCodes E T userId = regenerateBackupCodes E T userId"

definition auth_forgotPassword :: "'s user_env \<Rightarrow> 's token_env \<Rightarrow> string \<Rightarrow> ('s, string) io" where
  "auth_forgotPassword U K email = forgotPassword U K email"

definition auth_verifyOtp :: "'s user_env \<Rightarrow> 's token_env \<Rightarrow> string \<Rightarrow> string \<Rightarrow> ('s, bool) io" where
  "auth_verifyOtp U K email code = verifyOtp U K email code"

definition auth_resetPassword ::
  "'s user_env \<Rightarrow> 's token_env \<Rightarrow> string \<Rightarrow> string \<Rightarrow> string \<Rightarrow> ('s, string) io" where
  "auth_resetPassword U K email code password = resetPassword U K email code password"

text \<open>The text of a checked body.\<close>

abbreviation "field dto k \<equiv> the (text_at dto k)"

fun auth_handler ::
  "('w, 'n) auth_api \<Rightarrow> 'n http_request \<Rightarrow> auth_route \<Rightarrow> ('w two_factor_state, auth_answer) io" where
  "auth_handler A rq Register =
     guarded (human A rq) (with_body A rq RegisterDto (\<lambda>dto.
     seqM (on_world (auth_register (au_auth A) (au_users A) (fst (register_body dto)) (snd (register_body dto))
       (userAgent rq) (Some (extractIp (request.truncate rq))))) (\<lambda>r. ret (Session r))))"
| "auth_handler A rq Login =
     guarded (human A rq) (with_body A rq LoginDto (\<lambda>dto.
     seqM (on_world (auth_login (au_auth A) (au_users A) (field dto ''email'') (field dto ''password'')
       (cookies rq ''trusted_device'') (userAgent rq) (Some (extractIp (request.truncate rq))))) (\<lambda>r. ret (Session r))))"
| "auth_handler A rq CsrfToken =
     seqM (on_world (generateCsrfToken A (request.truncate rq))) (\<lambda>token. ret (Token token))"
| "auth_handler A rq Refresh =
     seqM (on_world (refresh_guard (au_auth A) (cookies rq))) (\<lambda>(u, i, v, t).
     case i of
       None \<Rightarrow> throw (UnauthorizedException ''Session invalid or inactive'')
     | Some i \<Rightarrow> seqM (on_world (auth_refresh (au_auth A) u i v t)) (\<lambda>m. ret (Message m)))"
| "auth_handler A rq Logout =
     seqM (on_world (refresh_guard (au_auth A) (cookies rq))) (\<lambda>(u, i, v, t).
     case i of
       None \<Rightarrow> throw (BadRequestException ''There was an error logging out.'')
     | Some i \<Rightarrow> seqM (on_world (auth_logout (au_auth A) u i)) (\<lambda>m. ret (Message m)))"
| "auth_handler A rq ForgotPassword =
     with_body A rq ForgotPasswordDto (\<lambda>dto.
     seqM (on_world (auth_forgotPassword (au_users A) (au_tokens A) (field dto ''email''))) (\<lambda>m. ret (Message m)))"
| "auth_handler A rq VerifyOtp =
     with_body A rq VerifyOtpDto (\<lambda>dto.
     seqM (on_world (auth_verifyOtp (au_users A) (au_tokens A) (field dto ''email'') (field dto ''code''))) (\<lambda>b. ret (Verified b)))"
| "auth_handler A rq ResetPassword =
     with_body A rq ResetPasswordDto (\<lambda>dto.
     seqM (on_world (auth_resetPassword (au_users A) (au_tokens A) (field dto ''email'') (field dto ''code'')
       (field dto ''password''))) (\<lambda>m. ret (Message m)))"
| "auth_handler A rq RegenerateBackupCodes =
     seqM (on_world (jwt_guard (au_auth A) (cookies rq))) (\<lambda>(u, i).
     seqM (on_world (auth_regenerateBackupCodes (au_auth A) (au_second A) u)) (\<lambda>cs. ret (Codes cs)))"
| "auth_handler A rq Generate2FA =
     seqM (on_world (jwt_guard (au_auth A) (cookies rq))) (\<lambda>(u, i).
     seqM (on_world (auth_generateTwoFactor (au_users A) (au_second A) u)) (\<lambda>(qr, key). ret (QrCode qr key)))"
| "auth_handler A rq Enable2FA =
     seqM (on_world (jwt_guard (au_auth A) (cookies rq))) (\<lambda>(u, i).
     with_body A rq VerifyTwoFactorDto (\<lambda>dto.
     seqM (on_world (auth_enableTwoFactor (au_auth A) (au_users A) (au_second A) u (field dto ''code'')))
       (\<lambda>(m, cs). ret (Enabled m cs))))"
| "auth_handler A rq Disable2FA =
     seqM (on_world (jwt_guard (au_auth A) (cookies rq))) (\<lambda>(u, i).
     with_body A rq VerifyTwoFactorDto (\<lambda>dto.
     seqM (on_world (auth_disableTwoFactor (au_users A) (au_second A) u (field dto ''code''))) (\<lambda>m. ret (Message m))))"
| "auth_handler A rq Verify2FA =
     seqM (on_world (pending_guard (au_auth A) (cookies rq))) (\<lambda>u.
     with_body A rq VerifyTwoFactorDto (\<lambda>dto.
     seqM (auth_verifyTwoFactor (au_auth A) (au_users A) (au_second A) u (field dto ''code'') (userAgent rq)
       (Some (extractIp (request.truncate rq)))) (\<lambda>r. ret (Session r))))"
| "auth_handler A rq GoogleAuth = ret Nothing"
| "auth_handler A rq (GoogleCallback user) =
     seqM (on_world (googleLogin (au_auth A) (au_users A) (oauth_of_google user) (userAgent rq)
       (Some (extractIp (request.truncate rq))))) (\<lambda>_. ret (RedirectTo (frontend A)))"
| "auth_handler A rq AppleAuth = ret Nothing"
| "auth_handler A rq (AppleCallbackGet user) = handleAppleCallback A user rq"
| "auth_handler A rq (AppleCallbackPost user) = handleAppleCallback A user rq"

definition auth_controller ::
  "('w, 'n) auth_api \<Rightarrow> 'n http_request \<Rightarrow> auth_route \<Rightarrow> ('w two_factor_state, auth_answer) io" where
  "auth_controller A rq route =
     guarded (lift (csrf_canActivate (au_csrf A) (skips_csrf route) (request.truncate rq))) (auth_handler A rq route)"

section \<open>What a second factor is, through the API\<close>

lemma on_world_Inr: "on_world m s = (Inr x, t) \<longleftrightarrow> (\<exists>w. m (tf_world s) = (Inr x, w) \<and> t = s\<lparr>tf_world := w\<rparr>)"
  by (auto simp: on_world_def split: prod.splits)

definition ascii :: "string \<Rightarrow> bool" where
  "ascii x \<longleftrightarrow> (\<forall>c \<in> set x. (of_char c :: nat) < 128)"

context backup_codes
begin

lemma try_codes_match:
  "try_codes E T code bcs s = (Inr True, t) \<Longrightarrow> \<exists>bc \<in> set bcs. of_text (bc_code bc) code"
proof (induction bcs arbitrary: s)
  case Nil
  then show ?case by (simp add: ret_def)
next
  case (Cons bc rest)
  from Cons.prems obtain ok s1 where v: "argon2_verify E (bc_code bc) code s = (Inr ok, s1)"
    and r: "\<not> ok \<longrightarrow> try_codes E T code rest s1 = (Inr True, t)" by (auto simp: seqM_Inr split: if_splits)
  show ?case using Cons.IH r cverify_of[OF v] by (cases ok) auto
qed

lemma check_is_otp:
  assumes "check_second_factor E T u sec code s = (Inr (), t)"
    and "length code = BACKUP_CODE_LENGTH \<Longrightarrow> \<forall>bc \<in> crows s. \<not> of_text (bc_code bc) code"
  shows "verifyOTP T code sec s = (Inr True, t)"
proof (cases "length code = BACKUP_CODE_LENGTH")
  case True
  with assms(1) obtain bcs s1 where
      f: "findMany (codes T) (\<lambda>r. bc_userId r = u \<and> bc_usedAt r = None) anyOrder s = (Inr bcs, s1)"
    and tr: "try_codes E T code bcs s1 = (Inr True, t)"
    by (auto simp: check_second_factor_def io_inv split: if_splits)
  from ctab_returns(2)[OF f] try_codes_match[OF tr] assms(2) True show ?thesis by auto
qed (use assms(1) in \<open>auto simp: check_second_factor_def io_inv split: if_splits\<close>)

end

text \<open>What a successful request to \<open>2fa/verify\<close> went through.\<close>

lemma verify_route_returns:
  assumes "auth_controller A rq Verify2FA s = (Inr a, t)"
  obtains tok c w1 dto user w2 sec w3 where "truthy (cookies rq ''two_factor_pending'') = Some tok"
    and "jwt_verify (au_auth A) JWT_ACCESS_SECRET tok (tf_world s) = (Inr c, w1)"
    and "au_pipe A global_pipe VerifyTwoFactorDto (body rq) = Inr dto"
    and "users_findOne (au_users A) (Some (sub c)) None w1 = (Inr user, w2)"
    and "us_twoFactorEnabled user" and "truthy (us_twoFactorSecret user) = Some sec"
    and "\<not> fst (isRateLimited (Date_now (au_auth A) w2) (sub c) (rateLimitMap s))"
    and "check_second_factor (au_auth A) (au_second A) (sub c) sec (field dto ''code'') w2 = (Inr (), w3)"
    and "a = Session (LoggedIn (us_id user) (us_email user) (us_name user))"
proof -
  from assms obtain u s1 dto r where
      p: "pending_guard (au_auth A) (cookies rq) (tf_world s) = (Inr u, s1)"
    and d: "au_pipe A global_pipe VerifyTwoFactorDto (body rq) = Inr dto"
    and v: "verifyTwoFactor (au_auth A) (au_users A) (au_second A) u (field dto ''code'') (userAgent rq)
       (Some (extractIp (request.truncate rq))) (s\<lparr>tf_world := s1\<rparr>) = (Inr r, t)" "a = Session r"
    by (auto simp: auth_controller_def guarded_def with_body_def auth_verifyTwoFactor_def seqM_Inr on_world_Inr io_prim_iff split: if_splits)
  from p obtain tok c where j: "passport_jwt (au_auth A) (cookies rq ''two_factor_pending'') JWT_ACCESS_SECRET (tf_world s)
      = (Inr (tok, c), s1)" and u: "u = sub c"
    by (auto simp: pending_guard_def seqM_Inr io_prim_iff pending_validate_def)
  note tok = passport_returns[OF j]
  from v(1) obtain user w2 where f: "users_findOne (au_users A) (Some u) None s1 = (Inr user, w2)"
    and r1: "(case (us_twoFactorEnabled user, truthy (us_twoFactorSecret user)) of
       (True, Some sec) \<Rightarrow>
         seqM (\<lambda>s. case isRateLimited (Date_now (au_auth A) (tf_world s)) u (rateLimitMap s) of
                  (b, m) \<Rightarrow> (Inr b, s\<lparr>rateLimitMap := m\<rparr>)) (\<lambda>limited.
         if limited then
           throw (HttpException 429 ''Too many 2FA attempts. Try again in 15 minutes.'')
         else
           seqM (modifyM (\<lambda>s. s\<lparr>rateLimitMap :=
                   recordAttempt (Date_now (au_auth A) (tf_world s)) u (rateLimitMap s)\<rparr>)) (\<lambda>_.
           seqM (on_world (check_second_factor (au_auth A) (au_second A) u sec (field dto ''code''))) (\<lambda>_.
           seqM (on_world (modifyM (clear_cookie (au_auth A) ''two_factor_pending''))) (\<lambda>_.
           seqM (on_world (createSessionWithTokens (au_auth A) (us_id user) (userAgent rq)
              (Some (extractIp (request.truncate rq))))) (\<lambda>_.
           seqM (on_world (jwt_sign (au_auth A) JWT_REFRESH_SECRET (TrustedClaims u))) (\<lambda>trustedToken.
           seqM (on_world (modifyM (set_cookie (au_auth A) ''trusted_device''
                   (lax_cookie (au_auth A) trustedToken (TRUSTED_DEVICE_DAYS * 24 * 60 * 60 * 1000))))) (\<lambda>_.
           ret (LoggedIn (us_id user) (us_email user) (us_name user)))))))))
     | _ \<Rightarrow> throw (BadRequestException ''Two-factor is not enabled'')) (s\<lparr>tf_world := w2\<rparr>) = (Inr r, t)"
    by (auto simp: verifyTwoFactor_def seqM_Inr on_world_Inr)
  from r1 obtain sec where on: "us_twoFactorEnabled user" "truthy (us_twoFactorSecret user) = Some sec"
    by (auto simp: throw_def split: bool.splits option.splits)
  obtain lb m where lm: "isRateLimited (Date_now (au_auth A) w2) u (rateLimitMap s) = (lb, m)"
    by (cases "isRateLimited (Date_now (au_auth A) w2) u (rateLimitMap s)")
  have "\<not> lb" using r1 on lm by (auto simp: seqM_def throw_def split: if_splits)
  then have lim: "\<not> fst (isRateLimited (Date_now (au_auth A) w2) u (rateLimitMap s))" using lm by simp
  have ck: "(\<exists>w3. check_second_factor (au_auth A) (au_second A) u sec (field dto ''code'') w2 = (Inr (), w3))
      \<and> r = LoggedIn (us_id user) (us_email user) (us_name user)"
    using r1 on lm \<open>\<not> lb\<close> by (auto simp: seqM_Inr on_world_Inr io_prim_iff)
  then have r: "r = LoggedIn (us_id user) (us_email user) (us_name user)" ..
  from conjunct1[OF ck] obtain w3 where "check_second_factor (au_auth A) (au_second A) u sec (field dto ''code'') w2 = (Inr (), w3)" ..
  with conjunct1[OF tok] conjunct2[OF tok] d f on lim r v(2) u show thesis by (intro that) simp_all
qed

section \<open>A concrete surrounding\<close>

record auth_world = second_factor_world +
  aw_cache :: "(string \<times> token_payload) list"
  aw_mail :: "(string \<times> string \<times> string) list"

definition demo_pending_token :: string where
  "demo_pending_token = demo_token JWT_ACCESS_SECRET (PendingClaims ''u1'')"

definition pending_verify :: "secret \<Rightarrow> string \<Rightarrow> (auth_world, claims) io" where
  "pending_verify k tok =
     (if k = JWT_ACCESS_SECRET \<and> tok = demo_pending_token then ret (PendingClaims ''u1'')
      else throw (UnauthorizedException ''jwt''))"

definition demo_auth_api :: "(auth_world, int) auth_api" where
  "demo_auth_api = \<lparr>
     au_auth = demo_env\<lparr>jwt_verify := pending_verify\<rparr>, au_users = demo_users, au_second = demo_two_factor,
     au_tokens = \<lparr>cache_set = (\<lambda>k p ttl. modifyM (\<lambda>s. s\<lparr>aw_cache := (k, p) # aw_cache s\<rparr>)),
       cache_get = (\<lambda>k. readM (\<lambda>s. map_of (aw_cache s) k)),
       cache_del = (\<lambda>k. modifyM (\<lambda>s. s\<lparr>aw_cache := filter (\<lambda>(k', _). k' \<noteq> k) (aw_cache s)\<rparr>)),
       random900000 = ret 23456, sendEmail = (\<lambda>a b c. modifyM (\<lambda>s. s\<lparr>aw_mail := (a, b, c) # aw_mail s\<rparr>))\<rparr>,
     au_recaptcha = \<lparr>recaptchaSecret = None, recaptcha_threshold = 5, isProduction = False, score_zero = 0,
       score_less = (<), siteverify = (\<lambda>a b c. ret \<lparr>ra_success = True, ra_score = Some 9\<rparr>)\<rparr>,
     au_csrf = \<lparr>CSRF_ENABLED = False, validateRequest = (\<lambda>_. True)\<rparr>,
     au_pipe = class_pipe demo_validators, generateCsrfToken = (\<lambda>_. ret ''csrf''), FRONTEND_URL = None\<rparr>"

definition demo_verify :: "string \<Rightarrow> int http_request" where
  "demo_verify code = \<lparr>rq_forwardedFor = None, rq_ip = Some ''8.8.8.8'', rq_remoteAddress = None, rq_method = ''POST'',
     rq_url = ''/api/v1/auth/2fa/verify'', rq_recaptchaToken = None,
     cookies = (\<lambda>name. if name = ''two_factor_pending'' then Some demo_pending_token else None),
     userAgent = None, idempotencyKey = None, routePath = None, body = [(''code'', JString code)]\<rparr>"

definition demo_auth_start :: "auth_world two_factor_state" where
  "demo_auth_start = \<lparr>rateLimitMap = (\<lambda>_. None), tf_world = \<lparr>dw_sessions = [], dw_cookies = [], dw_clock = 5,
     lw_users = [demo_user], tw_codes = [demo_code], aw_cache = [], aw_mail = []\<rparr>\<rparr>"

interpretation demo_auth_codes: backup_codes "au_auth demo_auth_api" "au_second demo_auth_api"
  "demo_crows :: auth_world \<Rightarrow> code_row set" demo_digest
  using demo_codes.backup_codes_axioms by (simp add: backup_codes_def demo_auth_api_def)

section \<open>Properties\<close>

text \<open>C20. Through the API the second factor is always a one-time password: a request to verify it returns only
  with a pending cookie that verifies and a body whose \<open>code\<close> is a text of six characters, and only when the secret of
  the user that cookie names has verified that very text. A backup code is a text of eight, so none is ever
  accepted, although the service behind the route has a branch for them.\<close>

theorem second_factor_is_otp:
  assumes "backup_codes (au_auth A) (au_second A) crows of_text" and "copying_pipe (au_pipe A) V"
    and "\<forall>x. ascii x \<longrightarrow> char_count V x = length x"
    and "\<forall>k tok. keeps crows (jwt_verify (au_auth A) k tok)" and "\<forall>P. keeps crows (findFirst (users (au_users A)) P)"
    and "\<forall>bc \<in> crows (tf_world s). \<forall>x. of_text (bc_code bc) x \<longrightarrow> ascii x"
    and "auth_controller A rq Verify2FA s = (Inr a, t)"
  shows "\<exists>code. map_of (body rq) ''code'' = Some (JString code) \<and> char_count V code = 6
     \<and> (\<exists>tok c w1 user sec w2 w3. truthy (cookies rq ''two_factor_pending'') = Some tok
     \<and> jwt_verify (au_auth A) JWT_ACCESS_SECRET tok (tf_world s) = (Inr c, w1)
     \<and> users_findOne (au_users A) (Some (sub c)) None w1 = (Inr user, w2)
     \<and> a = Session (LoggedIn (us_id user) (us_email user) (us_name user))
     \<and> us_twoFactorSecret user = Some sec \<and> verifyOTP (au_second A) code sec w2 = (Inr True, w3))"
proof -
  have pipe: "validation_pipe (au_pipe A) V" using assms(2) by (rule copying_pipe.axioms(1))
  from verify_route_returns[OF assms(7)] obtain tok c w1 dto user w2 sec w3 where
      tok: "truthy (cookies rq ''two_factor_pending'') = Some tok"
    and v: "jwt_verify (au_auth A) JWT_ACCESS_SECRET tok (tf_world s) = (Inr c, w1)"
    and p: "au_pipe A global_pipe VerifyTwoFactorDto (body rq) = Inr dto"
    and f: "users_findOne (au_users A) (Some (sub c)) None w1 = (Inr user, w2)"
    and on: "truthy (us_twoFactorSecret user) = Some sec"
    and ck: "check_second_factor (au_auth A) (au_second A) (sub c) sec (field dto ''code'') w2 = (Inr (), w3)"
    and a: "a = Session (LoggedIn (us_id user) (us_email user) (us_name user))" by metis
  obtain code where code: "text_at dto ''code'' = Some code" "char_count V code = 6"
    using validation_pipe.code_body[OF pipe p] by blast
  have sent: "map_of (body rq) ''code'' = Some (JString code)"
    using copying_pipe.copied[OF assms(2) _ p, of "''code''"] code(1)
    by (auto simp: VerifyTwoFactorDto_def text_at_def split: option.splits json.splits)
  have "keeps crows (users_findOne (au_users A) (Some (sub c)) None)"
    unfolding users_findOne_def using assms(5) by (auto intro!: keeps_seqM keeps_assertFound)
  from keepsD[OF this f] have "crows w2 = crows (tf_world s)" using keepsD[OF assms(4)[rule_format] v] by simp
  then have "\<not> of_text (bc_code bc) code" if "length code = BACKUP_CODE_LENGTH" "bc \<in> crows w2" for bc
    using that code(2) assms(3,6) by (auto simp: BACKUP_CODE_LENGTH_def)
  then have "verifyOTP (au_second A) code sec w2 = (Inr True, w3)"
    using backup_codes.check_is_otp[OF assms(1) ck] code(1) by simp
  moreover have "us_twoFactorSecret user = Some sec" using on by (auto simp: truthy_def split: option.splits if_splits)
  ultimately show ?thesis using sent code(2) tok v f a by blast
qed

theorem second_factor_is_otp_witness:
  "(\<exists>a t. auth_controller demo_auth_api (demo_verify ''123456'') Verify2FA demo_auth_start = (Inr a, t)
      \<and> a = Session (LoggedIn ''u1'' ''ana@x'' (Some ''Ana''))
      \<and> (\<exists>sec w2 w3. verifyOTP (au_second demo_auth_api) ''123456'' sec w2 = (Inr True, w3)))
   \<and> fst (auth_controller demo_auth_api (demo_verify ''ABCDEFGH'') Verify2FA demo_auth_start)
       = Inl (BadRequestException ''Bad Request Exception'')"
proof
  let ?m = "auth_controller demo_auth_api (demo_verify ''123456'') Verify2FA demo_auth_start"
  have "fst ?m = Inr (Session (LoggedIn ''u1'' ''ana@x'' (Some ''Ana'')))" by code_simp
  then have m: "?m = (Inr (Session (LoggedIn ''u1'' ''ana@x'' (Some ''Ana''))), snd ?m)" by (metis prod.collapse)
  have pipe: "copying_pipe (au_pipe demo_auth_api) demo_validators"
    using class_copies.copying_pipe_axioms by (simp add: demo_auth_api_def)
  have sent: "map_of (body (demo_verify ''123456'')) ''code'' = Some (JString ''123456'')" by (simp add: demo_verify_def)
  have count: "\<forall>x. ascii x \<longrightarrow> char_count demo_validators x = length x" by (simp add: demo_validators_def)
  have verify: "\<forall>k tok. keeps demo_crows (jwt_verify (au_auth demo_auth_api) k tok)"
    by (simp add: demo_auth_api_def pending_verify_def keeps_prim)
  have find: "\<forall>P. keeps demo_crows (findFirst (users (au_users demo_auth_api)) P)"
    by (simp add: demo_auth_api_def demo_users_def list_delegate_def keeps_def)
  have codes: "\<forall>bc \<in> demo_crows (tf_world demo_auth_start). \<forall>x. demo_digest (bc_code bc) x \<longrightarrow> ascii x"
    by (auto simp: demo_crows_def demo_auth_start_def demo_digest_def demo_code_def ascii_def)
  from second_factor_is_otp[OF demo_auth_codes.backup_codes_axioms pipe count verify find codes m] m sent
  show "\<exists>a t. ?m = (Inr a, t) \<and> a = Session (LoggedIn ''u1'' ''ana@x'' (Some ''Ana''))
      \<and> (\<exists>sec w2 w3. verifyOTP (au_second demo_auth_api) ''123456'' sec w2 = (Inr True, w3))" by auto
  show "fst (auth_controller demo_auth_api (demo_verify ''ABCDEFGH'') Verify2FA demo_auth_start)
       = Inl (BadRequestException ''Bad Request Exception'')" by code_simp
qed

end
