(* ===== verification/Account_Api.thy ===== *)
theory Account_Api
  imports Access_Guards Kyc Transactions Investment Rates
begin

text \<open>
  The other controllers behind the access guard: sessions (\<open>session.controller.ts\<close>), the history
  (\<open>transaction.controller.ts\<close>), investments (\<open>investment.controller.ts\<close>) and exchange rates
  (\<open>exchange-rate.controller.ts\<close>). Each takes the user from the guard and makes one call of its service; the
  routes that trade or refresh the rates are behind the KYC guard too. The queries of the history are taken as
  the pipe leaves them.
\<close>

section \<open>The guards in front\<close>

definition for_user :: "'s auth_env \<Rightarrow> 'n http_request \<Rightarrow> (string \<Rightarrow> ('s, 'a) io) \<Rightarrow> ('s, 'a) io" where
  "for_user E rq f = seqM (jwt_guard E (cookies rq)) (\<lambda>(userId, sessionId). f userId)"

definition for_approved :: "'s auth_env \<Rightarrow> 's kyc_env \<Rightarrow> 'n http_request \<Rightarrow> (string \<Rightarrow> ('s, 'a) io) \<Rightarrow> ('s, 'a) io" where
  "for_approved E K rq f = for_user E rq (\<lambda>userId. seqM (kyc_canActivate K userId) (\<lambda>_. f userId))"

section \<open>Sessions\<close>

datatype session_route = GetSessions | DeleteSession string | DeleteSessions

datatype session_answer =
    SessionList "(string \<times> string \<times> string option \<times> int \<times> int) list"
  | Deleted session_row
  | DeletedMany nat

fun session_controller :: "'s auth_env \<Rightarrow> 'n http_request \<Rightarrow> session_route \<Rightarrow> ('s, session_answer) io" where
  "session_controller E rq GetSessions =
     for_user E rq (\<lambda>userId. seqM (session_getAll E userId) (\<lambda>xs. ret (SessionList xs)))"
| "session_controller E rq (DeleteSession i) =
     for_user E rq (\<lambda>userId. seqM (session_delete E i userId) (\<lambda>r. ret (Deleted r)))"
| "session_controller E rq DeleteSessions =
     for_user E rq (\<lambda>userId. seqM (session_deleteAll E userId) (\<lambda>k. ret (DeletedMany k)))"

section \<open>The history\<close>

datatype history_route = ListTransactions get_transactions | GetTransaction string

datatype history_answer = Page transactions_page | One listed_tx

fun transaction_controller ::
  "'s auth_env \<Rightarrow> 's history_env \<Rightarrow> 'n http_request \<Rightarrow> history_route \<Rightarrow> ('s, history_answer) io" where
  "transaction_controller E H rq (ListTransactions query) =
     for_user E rq (\<lambda>userId. seqM (transaction_findAll H (query\<lparr>gt_userId := userId\<rparr>)) (\<lambda>p. ret (Page p)))"
| "transaction_controller E H rq (GetTransaction i) =
     for_user E rq (\<lambda>userId. seqM (transaction_findOne H i userId) (\<lambda>r. ret (One r)))"

section \<open>Investments\<close>

definition number_at :: "'n object \<Rightarrow> string \<Rightarrow> 'n option" where
  "number_at obj k = (case map_of obj k of Some (JNumber n) \<Rightarrow> Some n | _ \<Rightarrow> None)"

definition buy_body :: "string \<Rightarrow> 'n object \<Rightarrow> 'n buy_input" where
  "buy_body userId dto = (let inp = spread [(''userId'', JString userId)] dto in
     \<lparr>bi_userId = the (text_at inp ''userId''), bi_assetId = the (text_at inp ''assetId''),
      bi_amount = the (number_at inp ''amount'')\<rparr>)"

definition sell_body :: "string \<Rightarrow> 'n object \<Rightarrow> 'n sell_input" where
  "sell_body userId dto = (let inp = spread [(''userId'', JString userId)] dto in
     \<lparr>sl_userId = the (text_at inp ''userId''), sl_assetId = the (text_at inp ''assetId''),
      sl_quantity = the (number_at inp ''quantity'')\<rparr>)"

datatype investment_route = GetAssets | GetPositions | Buy | Sell

datatype ('d, 'n) investment_answer =
    Assets "'d quoted_asset list"
  | Positions "('d, 'n) positions"
  | Traded "('d, 'n) trade_result"

record ('s, 'd, 'n) investment_api =
  ia_auth :: "'s auth_env"
  ia_kyc :: "'s kyc_env"
  ia_pipe :: "'n pipe"
  ia_service :: "('s, 'd, 'n) invest_env"
  ia_text_le :: "string \<Rightarrow> string \<Rightarrow> bool"

fun investment_controller ::
  "('s, 'd, 'n) investment_api \<Rightarrow> 'n http_request \<Rightarrow> investment_route \<Rightarrow> ('s, ('d, 'n) investment_answer) io" where
  "investment_controller A rq GetAssets =
     for_user (ia_auth A) rq (\<lambda>userId. seqM (getAssets (ia_text_le A) (ia_service A)) (\<lambda>xs. ret (Assets xs)))"
| "investment_controller A rq GetPositions =
     for_user (ia_auth A) rq (\<lambda>userId. seqM (getPortfolio (ia_service A) userId) (\<lambda>p. ret (Positions p)))"
| "investment_controller A rq Buy =
     for_approved (ia_auth A) (ia_kyc A) rq (\<lambda>userId.
     seqM (lift (ia_pipe A global_pipe BuyAssetDto (body rq))) (\<lambda>dto.
     seqM (investment_buy (ia_service A) (buy_body userId dto)) (\<lambda>r. ret (Traded r))))"
| "investment_controller A rq Sell =
     for_approved (ia_auth A) (ia_kyc A) rq (\<lambda>userId.
     seqM (lift (ia_pipe A global_pipe SellAssetDto (body rq))) (\<lambda>dto.
     seqM (investment_sell (ia_service A) (sell_body userId dto)) (\<lambda>r. ret (Traded r))))"

section \<open>Exchange rates\<close>

text \<open>The currencies of the path are not checked; Prisma refuses a text that is not of the enum.\<close>

definition with_pair :: "string \<Rightarrow> string \<Rightarrow> (currency \<Rightarrow> currency \<Rightarrow> ('s, 'a) io) \<Rightarrow> ('s, 'a) io" where
  "with_pair from to f =
     (case (currency_of from, currency_of to) of
        (Some a, Some b) \<Rightarrow> f a b
      | _ \<Rightarrow> throw (PlainError ''PrismaClientValidationError''))"

datatype rate_route = CurrentRates | PairRate string string | PairHistory string string | RefreshRates

datatype 'd rate_answer =
    AllRates "'d quoted_rate list"
  | OneRate "'d quoted_rate"
  | RateHistory "('d \<times> int) list"
  | Refreshed refresh_result

fun rate_controller ::
  "'s auth_env \<Rightarrow> 's kyc_env \<Rightarrow> ('s, 'd, 'm) rates_env \<Rightarrow> 'n http_request \<Rightarrow> rate_route \<Rightarrow> ('s, 'd rate_answer) io" where
  "rate_controller E K R rq CurrentRates =
     for_user E rq (\<lambda>_. seqM (getCurrent R) (\<lambda>xs. ret (AllRates xs)))"
| "rate_controller E K R rq (PairRate from to) =
     for_user E rq (\<lambda>_. seqM (with_pair from to (getRate R)) (\<lambda>r. ret (OneRate r)))"
| "rate_controller E K R rq (PairHistory from to) =
     for_user E rq (\<lambda>_. seqM (with_pair from to (getHistory R)) (\<lambda>h. ret (RateHistory h)))"
| "rate_controller E K R rq RefreshRates =
     for_approved E K rq (\<lambda>_. seqM (rates_refresh R) (\<lambda>r. ret (Refreshed r)))"

section \<open>Closing every session\<close>

definition demo_ana_env :: "session_world auth_env" where
  "demo_ana_env = demo_env\<lparr>jwt_verify := (\<lambda>k tok. if tok = ''token'' then ret (SessionClaims ''ana'' ''s1'' 0)
     else throw (UnauthorizedException ''jwt''))\<rparr>"

interpretation demo_ana: auth_ports demo_ana_env "demo_rows :: session_world \<Rightarrow> session_row set" demo_digest
  unfolding demo_ana_env_def by (rule auth_ports_verify[OF demo.auth_ports_axioms]) (simp add: keeps_prim)

definition demo_two_sessions :: session_world where
  "demo_two_sessions = \<lparr>dw_sessions = map (\<lambda>(i, u). \<lparr>sn_id = i, sn_userId = u, sn_refreshToken = '''',
       sn_refreshTokenVersion = 0, sn_userAgent = None, sn_ipAddress = None, sn_location = None, sn_isActive = True,
       sn_expiresAt = None, sn_createdAt = 0, sn_lastUsedAt = 0\<rparr>) [(''s1'', ''ana''), (''s2'', ''ana''), (''s3'', ''bob'')],
     dw_cookies = [], dw_clock = 0\<rparr>"

definition demo_delete :: "int http_request" where
  "demo_delete = \<lparr>rq_forwardedFor = None, rq_ip = None, rq_remoteAddress = None, rq_method = ''DELETE'',
     rq_url = ''/api/v1/sessions'', rq_recaptchaToken = None,
     cookies = (\<lambda>name. if name = ''access_token'' then Some ''token'' else None), userAgent = None,
     idempotencyKey = None, routePath = None, body = []\<rparr>"

text \<open>C16. Logging out everywhere: the request is one of a live session, it removes exactly the sessions of that
  user, and from then on, until a new session is opened, no cookie whatever passes the access guard for
  that user, also not an access token that has not expired.\<close>

theorem logout_everywhere:
  assumes "auth_ports E rows of_text" and "session_controller E rq DeleteSessions s = (Inr a, t)"
  shows "\<exists>u. (\<exists>ses \<in> rows s. sn_userId ses = u \<and> sn_isActive ses)
     \<and> rows t = {r \<in> rows s. sn_userId r \<noteq> u}
     \<and> (\<forall>ck t' i t''. rows t' = rows t \<longrightarrow> jwt_guard E ck t' \<noteq> (Inr (u, i), t''))"
proof -
  from assms(2) obtain u i s1 k where j: "jwt_guard E (cookies rq) s = (Inr (u, i), s1)"
    and d: "deleteMany (sessions E) (\<lambda>r. sn_userId r = u) s1 = (Inr k, t)"
    by (auto simp: for_user_def session_deleteAll_def seqM_Inr io_prim_iff)
  have "rows s1 = rows s" by (rule keepsD[OF auth_ports.jwt_guard_rows[OF assms(1)] j])
  then have rows: "rows t = {r \<in> rows s. sn_userId r \<noteq> u}"
    using auth_ports.tab_returns(11)[OF assms(1) d] by auto
  have "jwt_guard E ck t' \<noteq> (Inr (u, i), t'')" if "rows t' = rows t" for ck t' i t''
    using auth_ports.jwt_guard_returns[OF assms(1), of ck t' u i t''] that rows by auto
  then show ?thesis using auth_ports.jwt_guard_returns[OF assms(1) j] rows by blast
qed

theorem logout_everywhere_witness:
  "let t = snd (session_controller demo_ana_env demo_delete DeleteSessions demo_two_sessions)
   in map sn_id (dw_sessions t) = [''s3''] \<and> (\<forall>ck i t''. jwt_guard demo_ana_env ck t \<noteq> (Inr (''ana'', i), t''))"
proof -
  let ?m = "session_controller demo_ana_env demo_delete DeleteSessions demo_two_sessions"
  have "fst ?m = Inr (DeletedMany 2)" by code_simp
  then have m: "?m = (Inr (DeletedMany 2), snd ?m)" by (metis prod.collapse)
  have left: "map (\<lambda>r. (sn_id r, sn_userId r)) (dw_sessions (snd ?m)) = [(''s3'', ''bob'')]" by code_simp
  then have t: "\<forall>r \<in> demo_rows (snd ?m). sn_userId r = ''bob''" by (auto simp: demo_rows_def)
  from logout_everywhere[OF demo_ana.auth_ports_axioms m] obtain u where
    u: "\<exists>ses \<in> demo_rows demo_two_sessions. sn_userId ses = u"
      "demo_rows (snd ?m) = {r \<in> demo_rows demo_two_sessions. sn_userId r \<noteq> u}"
      "\<forall>ck t' i t''. demo_rows t' = demo_rows (snd ?m) \<longrightarrow> jwt_guard demo_ana_env ck t' \<noteq> (Inr (u, i), t'')" by blast
  have "u = ''ana''"
  proof (rule ccontr)
    assume "u \<noteq> ''ana''"
    have "''ana'' \<in> sn_userId ` demo_rows demo_two_sessions" by (simp add: demo_rows_def demo_two_sessions_def)
    then obtain r where "r \<in> demo_rows demo_two_sessions" "sn_userId r = ''ana''" by auto
    then have "r \<in> demo_rows (snd ?m)" using \<open>u \<noteq> ''ana''\<close> unfolding u(2) by simp
    then show False using t \<open>sn_userId r = ''ana''\<close> by auto
  qed
  moreover have "map sn_id (dw_sessions (snd ?m)) = [''s3'']" by code_simp
  ultimately show ?thesis using u(3) by (simp add: Let_def)
qed

end
