(* ===== verification/Users_Api.thy ===== *)
theory Users_Api
  imports Access_Guards Authentication Kyc
begin

text \<open>
  The user's own account: \<open>UsersController\<close> (\<open>users.controller.ts\<close>), with \<open>UsersService.getProfile\<close> and
  \<open>UsersService.update\<close> as the route calls it, on whatever object the pipe lets through. The columns an update writes
  are those the object names, so which columns a client can write is decided by \<open>UpdateUserDto\<close> and the
  options of the pipe. \<open>account_ports\<close> puts the contracts of the parts together.
\<close>

section \<open>The profile\<close>

record kyc_summary =
  ks_status :: kycStatus
  ks_documentType :: "string option"
  ks_submittedAt :: "int option"
  ks_reviewedAt :: "int option"
  ks_createdAt :: int

definition summary_of :: "kyc_row \<Rightarrow> kyc_summary" where
  "summary_of r = \<lparr>ks_status = ky_status r, ks_documentType = ky_documentType r,
     ks_submittedAt = ky_submittedAt r, ks_reviewedAt = ky_reviewedAt r, ks_createdAt = ky_createdAt r\<rparr>"

record user_profile =
  pr_user :: safe_user
  pr_kyc :: "kyc_summary option"

definition users_getProfile :: "'s user_env \<Rightarrow> 's kyc_env \<Rightarrow> string \<Rightarrow> ('s, user_profile) io" where
  "users_getProfile U K userId =
     seqM (findFirst (users U) (\<lambda>r. us_id r = userId)) (\<lambda>found.
     seqM (findFirst (kycs K) (kyc_of userId)) (\<lambda>kyc.
     seqM (assertFound found ''User'') (\<lambda>user.
     ret \<lparr>pr_user = safeSelect user, pr_kyc = map_option summary_of kyc\<rparr>)))"

section \<open>An update by an object\<close>

text \<open>A column named by the object takes its value, \<open>null\<close> among them where the column is optional; one that is not
  named is left alone.\<close>

definition text_column :: "'n object \<Rightarrow> string \<Rightarrow> string option \<Rightarrow> string option" where
  "text_column obj k old = (case map_of obj k of Some (JString x) \<Rightarrow> Some x | Some JNull \<Rightarrow> None | _ \<Rightarrow> old)"

definition bool_column :: "'n object \<Rightarrow> string \<Rightarrow> bool \<Rightarrow> bool" where
  "bool_column obj k old = (case map_of obj k of Some (JBool b) \<Rightarrow> b | _ \<Rightarrow> old)"

definition enum_column :: "(string \<times> 'e) list \<Rightarrow> 'n object \<Rightarrow> string \<Rightarrow> 'e \<Rightarrow> 'e" where
  "enum_column names obj k old = (case text_at obj k of Some x \<Rightarrow> or_else (map_of names x) old | None \<Rightarrow> old)"

definition userStatus_names :: "(string \<times> userStatus) list" where
  "userStatus_names = [(''ACTIVE'', ACTIVE), (''INACTIVE'', INACTIVE), (''DRAFT'', DRAFT), (''BLOCKED'', BLOCKED)]"

definition authProvider_names :: "(string \<times> authProvider) list" where
  "authProvider_names = [(''LOCAL'', LOCAL), (''GOOGLE'', GOOGLE), (''FACEBOOK'', FACEBOOK), (''APPLE'', APPLE)]"

definition role_names :: "(string \<times> role) list" where
  "role_names = [(''CUSTOMER'', CUSTOMER), (''SUPPORT'', SUPPORT), (''ADMIN'', ADMIN)]"

definition optional_texts :: "string list" where
  "optional_texts = [''name'', ''lastName'', ''avatar'', ''backupEmail'', ''phone'', ''country'', ''language'',
     ''twoFactorSecret'', ''password'']"

text \<open>What Prisma takes as the data of an update; dates and nested writes, which no class of the code has, are
  left out.\<close>

fun column_ok :: "string \<times> 'n json \<Rightarrow> bool" where
  "column_ok (k, JString x) \<longleftrightarrow> k \<in> set optional_texts \<or> k \<in> {''id'', ''email''}
     \<or> (k = ''status'' \<and> map_of userStatus_names x \<noteq> None)
     \<or> (k = ''authProvider'' \<and> map_of authProvider_names x \<noteq> None) \<or> (k = ''role'' \<and> map_of role_names x \<noteq> None)"
| "column_ok (k, JNull) \<longleftrightarrow> k \<in> set optional_texts"
| "column_ok (k, JBool b) \<longleftrightarrow> k \<in> {''emailConfirm'', ''backupEmailConfirm'', ''phoneConfirm'', ''twoFactorEnabled''}"
| "column_ok _ \<longleftrightarrow> False"

definition object_changes :: "'n object \<Rightarrow> string option \<Rightarrow> user_row \<Rightarrow> user_row" where
  "object_changes obj digest r = r\<lparr>
     us_name := text_column obj ''name'' (us_name r), us_lastName := text_column obj ''lastName'' (us_lastName r),
     us_avatar := text_column obj ''avatar'' (us_avatar r), us_email := or_else (text_at obj ''email'') (us_email r),
     us_backupEmail := text_column obj ''backupEmail'' (us_backupEmail r),
     us_phone := text_column obj ''phone'' (us_phone r),
     us_password := (if map_of obj ''password'' = Some JNull then None else given digest (us_password r)),
     us_country := text_column obj ''country'' (us_country r),
     us_language := text_column obj ''language'' (us_language r),
     us_emailConfirm := bool_column obj ''emailConfirm'' (us_emailConfirm r),
     us_backupEmailConfirm := bool_column obj ''backupEmailConfirm'' (us_backupEmailConfirm r),
     us_phoneConfirm := bool_column obj ''phoneConfirm'' (us_phoneConfirm r),
     us_twoFactorEnabled := bool_column obj ''twoFactorEnabled'' (us_twoFactorEnabled r),
     us_twoFactorSecret := text_column obj ''twoFactorSecret'' (us_twoFactorSecret r),
     us_status := enum_column userStatus_names obj ''status'' (us_status r),
     us_authProvider := enum_column authProvider_names obj ''authProvider'' (us_authProvider r),
     us_role := enum_column role_names obj ''role'' (us_role r)\<rparr>"

text \<open>\<open>this.usersService.update({ id: user.userId, ...body })\<close>: an object Prisma refuses is refused after the
  checks of \<open>update\<close>.\<close>

definition users_update_object :: "'s user_env \<Rightarrow> 'n object \<Rightarrow> ('s, safe_user) io" where
  "users_update_object U obj =
     (case text_at obj ''id'' of
        None \<Rightarrow> throw (PlainError ''PrismaClientValidationError'')
      | Some i \<Rightarrow>
          if list_all column_ok obj then
            users_update_by U i (text_at obj ''email'') (text_at obj ''password'') (object_changes obj)
          else
            seqM (users_findOne U (Some i) None) (\<lambda>_.
            seqM (case text_at obj ''email'' of
                    None \<Rightarrow> ret ()
                  | Some e \<Rightarrow> if e = '''' then ret () else validateEmail U e) (\<lambda>_.
            throw (PlainError ''PrismaClientValidationError''))))"

section \<open>The controller\<close>

datatype user_route = GetMe | UpdateMe

datatype user_answer = Profile user_profile | Updated safe_user

record ('s, 'n) users_api =
  ua_auth :: "'s auth_env"
  ua_users :: "'s user_env"
  ua_kyc :: "'s kyc_env"
  ua_pipe :: "'n pipe"

fun users_controller :: "('s, 'n) users_api \<Rightarrow> 'n http_request \<Rightarrow> user_route \<Rightarrow> ('s, user_answer) io" where
  "users_controller A rq GetMe =
     seqM (jwt_guard (ua_auth A) (cookies rq)) (\<lambda>(userId, sessionId).
     seqM (users_getProfile (ua_users A) (ua_kyc A) userId) (\<lambda>p. ret (Profile p)))"
| "users_controller A rq UpdateMe =
     seqM (jwt_guard (ua_auth A) (cookies rq)) (\<lambda>(userId, sessionId).
     seqM (lift (ua_pipe A global_pipe UpdateUserDto (body rq))) (\<lambda>dto.
     seqM (users_update_object (ua_users A) (spread [(''id'', JString userId)] dto)) (\<lambda>u. ret (Updated u))))"

section \<open>What an update can write\<close>

text \<open>One database: reading sessions and checking tokens leaves the users alone.\<close>

locale account_ports = login_ports E U rows urows of_text + validation_pipe pipe V
  for E :: "'s auth_env" and U :: "'s user_env" and rows urows of_text
    and pipe :: "'n pipe" and V :: "'n validators" +
  assumes token_users: "keeps urows (jwt_verify E k tok)"
    and session_users: "keeps urows (findFirst (sessions E) P)"
begin

lemma jwt_guard_users: "keeps urows (jwt_guard E ck)"
  unfolding jwt_guard_def jwt_validate_def session_findOne_def
  by (auto simp: keeps_prim assertFound_def split: claims.split option.split
      intro!: keeps_seqM keeps_if keeps_passport token_users session_users)

lemma accepted_columns:
  assumes "pipe global_pipe UpdateUserDto b = Inr dto"
  shows "k \<notin> {''name'', ''lastName'', ''phone'', ''email''} \<Longrightarrow> map_of dto k = None"
    and "object_changes (spread [(''id'', JString u)] dto) None r = r\<lparr>
       us_name := text_column dto ''name'' (us_name r), us_lastName := text_column dto ''lastName'' (us_lastName r),
       us_phone := text_column dto ''phone'' (us_phone r), us_email := or_else (text_at dto ''email'') (us_email r)\<rparr>"
    and "text_at (spread [(''id'', JString u)] dto) ''id'' = Some u"
    and "text_at (spread [(''id'', JString u)] dto) ''password'' = None"
    and "text_at (spread [(''id'', JString u)] dto) ''email'' = text_at dto ''email''"
proof -
  show none: "map_of dto k = None" if "k \<notin> {''name'', ''lastName'', ''phone'', ''email''}" for k
    by (rule global_declared[OF assms]) (use that in \<open>simp add: UpdateUserDto_def\<close>)
  have at: "map_of (spread [(''id'', JString u)] dto) k = map_of dto k" if "k \<noteq> ''id''" for k
    using that by (simp add: spread_def map_add_def split: option.splits)
  show "object_changes (spread [(''id'', JString u)] dto) None r = r\<lparr>
       us_name := text_column dto ''name'' (us_name r), us_lastName := text_column dto ''lastName'' (us_lastName r),
       us_phone := text_column dto ''phone'' (us_phone r), us_email := or_else (text_at dto ''email'') (us_email r)\<rparr>"
    by (simp add: object_changes_def text_column_def bool_column_def enum_column_def text_at_def at none)
  show "text_at (spread [(''id'', JString u)] dto) ''id'' = Some u"
    "text_at (spread [(''id'', JString u)] dto) ''password'' = None"
    "text_at (spread [(''id'', JString u)] dto) ''email'' = text_at dto ''email''"
    using spread_keeps[of dto "''id''" u] by (simp_all add: none at text_at_def)
qed

lemma updated_columns:
  assumes "pipe global_pipe UpdateUserDto b = Inr dto"
    and "users_update_object U (spread [(''id'', JString u)] dto) s = (Inr x, t)"
  shows "\<exists>r0 nm ln ph em now. r0 \<in> urows s \<and> us_id r0 = u
     \<and> urows t = insert (r0\<lparr>us_name := nm, us_lastName := ln, us_phone := ph, us_email := em, us_updatedAt := now\<rparr>)
                        (urows s - {r0})
     \<and> (em = us_email r0 \<or> em = '''' \<or> (\<forall>r \<in> urows s. us_email r \<noteq> em))"
proof -
  let ?obj = "spread [(''id'', JString u)] dto"
  note acc = accepted_columns[OF assms(1)]
  have "users_update_by U u (text_at dto ''email'') None (object_changes ?obj) s = (Inr x, t)"
    using assms(2) by (auto simp: users_update_object_def acc(3-5) seqM_Inr throw_def split: if_splits)
  from users_update_by_returns[OF this] obtain r0 now where r0: "r0 \<in> urows s" "us_id r0 = u"
    "urows t = insert ((object_changes ?obj None r0)\<lparr>us_updatedAt := now\<rparr>) (urows s - {r0})"
    "\<forall>e. text_at dto ''email'' = Some e \<longrightarrow> e \<noteq> '''' \<longrightarrow> (\<forall>r \<in> urows s. us_email r \<noteq> e)" by auto
  moreover from r0(4) have "or_else (text_at dto ''email'') (us_email r0) = us_email r0
      \<or> or_else (text_at dto ''email'') (us_email r0) = ''''
      \<or> (\<forall>r \<in> urows s. us_email r \<noteq> or_else (text_at dto ''email'') (us_email r0))"
    by (cases "text_at dto ''email''") (simp_all, blast)
  ultimately show ?thesis unfolding acc(2) by blast
qed

end

section \<open>A concrete surrounding\<close>

definition me_verify :: "secret \<Rightarrow> string \<Rightarrow> (login_world, claims) io" where
  "me_verify k tok = (if tok = ''token'' then ret (SessionClaims ''u1'' ''s1'' 0)
     else throw (UnauthorizedException ''jwt''))"

text \<open>No verification has been started in this world.\<close>

definition no_kyc_row :: "login_world \<Rightarrow> nat \<Rightarrow> string \<times> kycStatus \<Rightarrow> kyc_row" where
  "no_kyc_row s k n = \<lparr>ky_id = [], ky_userId = fst n, ky_status = snd n, ky_documentType = None,
     ky_submittedAt = None, ky_reviewedAt = None, ky_createdAt = 0, ky_updatedAt = 0\<rparr>"

definition demo_me :: "(login_world, int) users_api" where
  "demo_me = \<lparr>ua_auth = demo_env\<lparr>jwt_verify := me_verify\<rparr>, ua_users = demo_users,
     ua_kyc = \<lparr>kycs = list_delegate (\<lambda>s. []) (\<lambda>rs s. s) no_kyc_row (\<lambda>s r. r) (\<lambda>r r'. True),
       kyc_now = dw_clock\<rparr>,
     ua_pipe = class_pipe demo_validators\<rparr>"

interpretation demo_me: account_ports "ua_auth demo_me" "ua_users demo_me" demo_rows demo_urows demo_digest
  "ua_pipe demo_me" demo_validators
proof (intro account_ports.intro account_ports_axioms.intro, goal_cases)
  case 1
  have "auth_ports (ua_auth demo_me) demo_rows demo_digest"
    unfolding demo_me_def users_api.simps
    by (rule auth_ports_verify[OF demo.auth_ports_axioms]) (simp add: me_verify_def keeps_prim)
  moreover have "user_ports (ua_users demo_me) demo_urows demo_rows demo_digest"
    using demo_login.user_ports_axioms by (simp add: demo_me_def)
  ultimately show ?case by (rule login_ports.intro)
next
  case 2
  show ?case using class_pipe.validation_pipe_axioms by (simp add: demo_me_def)
next
  case (3 k tok)
  then show ?case by (simp add: demo_me_def me_verify_def keeps_prim)
next
  case (4 P)
  then show ?case by (simp add: demo_me_def demo_env_def list_delegate_def keeps_def)
qed

definition demo_patch :: "int http_request" where
  "demo_patch = \<lparr>rq_forwardedFor = None, rq_ip = None, rq_remoteAddress = None, rq_method = ''PATCH'',
     rq_url = ''/api/v1/users/me'', rq_recaptchaToken = None,
     cookies = (\<lambda>name. if name = ''access_token'' then Some ''token'' else None), userAgent = None,
     idempotencyKey = None, routePath = None,
     body = [(''phone'', JString ''555''), (''lastName'', JNull), (''email'', JString ''ana@y'')]\<rparr>"

definition demo_me_world :: login_world where
  "demo_me_world = \<lparr>dw_sessions = [\<lparr>sn_id = ''s1'', sn_userId = ''u1'', sn_refreshToken = '''',
       sn_refreshTokenVersion = 0, sn_userAgent = None, sn_ipAddress = None, sn_location = None, sn_isActive = True,
       sn_expiresAt = None, sn_createdAt = 0, sn_lastUsedAt = 0\<rparr>],
     dw_cookies = [], dw_clock = 7, lw_users = [demo_user, demo_user\<lparr>us_id := ''u2'', us_email := ''bob@x''\<rparr>]\<rparr>"

section \<open>Properties\<close>

text \<open>C17. No mass assignment: whatever object a client sends to update an account, only the caller's own row changes, the
  caller being the user of a live session, and of that row only the name, the last name, the phone, the
  email and the time of the update. The password, the second factor, the confirmations, the status and the role are out of
  reach, and the email is not one another user has.\<close>

theorem profile_update_contained:
  assumes "account_ports (ua_auth A) (ua_users A) rows urows of_text (ua_pipe A) V"
    and "users_controller A rq UpdateMe s = (Inr a, t)"
  shows "\<exists>r0 nm ln ph em now. r0 \<in> urows s
     \<and> (\<exists>ses \<in> rows s. sn_userId ses = us_id r0 \<and> sn_isActive ses)
     \<and> urows t = insert (r0\<lparr>us_name := nm, us_lastName := ln, us_phone := ph, us_email := em, us_updatedAt := now\<rparr>)
                        (urows s - {r0})
     \<and> (em = us_email r0 \<or> em = '''' \<or> (\<forall>r \<in> urows s. us_email r \<noteq> em))"
proof -
  have auth: "auth_ports (ua_auth A) rows of_text"
    using assms(1) by (simp add: account_ports_def login_ports_def)
  from assms(2) obtain u i s1 dto x where j: "jwt_guard (ua_auth A) (cookies rq) s = (Inr (u, i), s1)"
    and p: "ua_pipe A global_pipe UpdateUserDto (body rq) = Inr dto"
    and w: "users_update_object (ua_users A) (spread [(''id'', JString u)] dto) s1 = (Inr x, t)"
    by (auto simp: seqM_Inr io_prim_iff lift_def split: sum.splits)
  have same: "urows s1 = urows s" by (rule keepsD[OF account_ports.jwt_guard_users[OF assms(1)] j])
  from auth_ports.jwt_guard_returns[OF auth j] have "\<exists>ses \<in> rows s. sn_userId ses = u \<and> sn_isActive ses" by blast
  then show ?thesis using account_ports.updated_columns[OF assms(1) p w, unfolded same] by metis
qed

theorem profile_update_contained_witness:
  "let t = snd (users_controller demo_me demo_patch UpdateMe demo_me_world) in
     map us_phone (lw_users t) = [Some ''555'', None] \<and> map us_lastName (lw_users t) = [None, None]
   \<and> (\<exists>r0 nm ln ph em now. r0 \<in> demo_urows demo_me_world
     \<and> demo_urows t = insert (r0\<lparr>us_name := nm, us_lastName := ln, us_phone := ph, us_email := em, us_updatedAt := now\<rparr>)
                             (demo_urows demo_me_world - {r0}))"
proof -
  let ?m = "users_controller demo_me demo_patch UpdateMe demo_me_world"
  have "\<not> isl (fst ?m)" by code_simp
  then obtain a where "fst ?m = Inr a" by (cases "fst ?m") auto
  then have m: "?m = (Inr a, snd ?m)" by (metis prod.collapse)
  have "map us_phone (lw_users (snd ?m)) = [Some ''555'', None]"
    "map us_lastName (lw_users (snd ?m)) = [None, None]" by code_simp+
  then show ?thesis using profile_update_contained[OF demo_me.account_ports_axioms m] unfolding Let_def by blast
qed

end
