(* ===== verification/Platform.thy ===== *)
theory Platform
  imports Prices
begin

text \<open>
  The small services at the edge: mail (\<open>emails.service.ts\<close>), the digests of passwords (\<open>hash.service.ts\<close>), the health
  probes (\<open>health.controller.ts\<close> and the two indicators), the brokers' tariff (\<open>brokers.service.ts\<close>) and the texts of the
  environment (\<open>config/envs.ts\<close>). The clients they call (\<open>resend\<close>, \<open>argon2\<close>, \<open>redis\<close>, \<open>terminus\<close>, \<open>zod\<close>) are not in
  the sources: their calls are parameters.
\<close>

section \<open>Mail\<close>

record email =
  em_to :: string
  em_subject :: string
  em_html :: string

record outgoing =
  og_from :: string
  og_to :: string
  og_subject :: string
  og_html :: string

record ('s, 'r) mail_env =
  resend_send :: "outgoing \<Rightarrow> ('s, 'r) io"
  resend_batch :: "outgoing list \<Rightarrow> ('s, 'r) io"
  RESEND_FROM_EMAIL :: string

definition outgoing_of :: "('s, 'r) mail_env \<Rightarrow> email \<Rightarrow> outgoing" where
  "outgoing_of M e = \<lparr>og_from = ''Payflow-x <'' @ RESEND_FROM_EMAIL M @ ''>'', og_to = em_to e,
     og_subject = em_subject e, og_html = em_html e\<rparr>"

definition mail_sendEmail :: "('s, 'r) mail_env \<Rightarrow> email \<Rightarrow> ('s, 'r) io" where
  "mail_sendEmail M e =
     catchM (resend_send M (outgoing_of M e))
       (\<lambda>_. throw (BadRequestException (''Failed to send email to '' @ em_to e)))"

definition sendBatchEmail :: "('s, 'r) mail_env \<Rightarrow> email list \<Rightarrow> ('s, 'r) io" where
  "sendBatchEmail M emails =
     catchM (resend_batch M (map (outgoing_of M) emails))
       (\<lambda>_. throw (BadRequestException ''Failed to send batch email''))"

lemma mail_fails_as_bad_request:
  "mail_sendEmail M e s = (Inl x, t) \<Longrightarrow> x = BadRequestException (''Failed to send email to '' @ em_to e)"
  "sendBatchEmail M es s = (Inl x, t) \<Longrightarrow> x = BadRequestException ''Failed to send batch email''"
  by (auto simp: mail_sendEmail_def sendBatchEmail_def catchM_def throw_def split: prod.splits sum.splits)

section \<open>Digests\<close>

record 's argon2 =
  argon2_hash_of :: "string \<Rightarrow> ('s, string) io"
  argon2_matches :: "string \<Rightarrow> string \<Rightarrow> ('s, bool) io"

definition hash_hash :: "'s argon2 \<Rightarrow> string \<Rightarrow> ('s, string) io" where
  "hash_hash A data = argon2_hash_of A data"

definition hash_verify :: "'s argon2 \<Rightarrow> string \<Rightarrow> string \<Rightarrow> ('s, bool) io" where
  "hash_verify A data digest = argon2_matches A data digest"

section \<open>Health\<close>

text \<open>\<open>getStatus(key, healthy, data)\<close>. An indicator either answers it or throws it in a \<open>HealthCheckError\<close>; an error of
  any other kind, here \<open>Inl None\<close>, is none of its own.\<close>

datatype health_status = Up string | Down string "string option"

type_synonym 's indicator = "'s \<Rightarrow> (health_status + health_status) \<times> 's"

record 's health_env =
  select_1 :: "('s, unit) io"
  redis_connect :: "('s, unit) io"
  redis_ping :: "('s, unit) io"
  redis_disconnect :: "('s, unit) io"
  error_message :: "exn \<Rightarrow> string"

definition prisma_isHealthy :: "'s health_env \<Rightarrow> string \<Rightarrow> 's indicator" where
  "prisma_isHealthy H key s =
     (case select_1 H s of
        (Inr _, t) \<Rightarrow> (Inr (Up key), t)
      | (Inl e, t) \<Rightarrow> (Inl (Down key (Some (error_message H e))), t))"

text \<open>The \<open>finally\<close> runs on both ways out, and its own failure is swallowed.\<close>

definition redis_isHealthy :: "'s health_env \<Rightarrow> string \<Rightarrow> 's indicator" where
  "redis_isHealthy H key s =
     (case seqM (redis_connect H) (\<lambda>_. redis_ping H) s of
        (r, t) \<Rightarrow> ((case r of Inr _ \<Rightarrow> Inr (Up key) | Inl e \<Rightarrow> Inl (Down key (Some (error_message H e)))),
                  snd (redis_disconnect H t)))"

text \<open>\<open>terminus\<close> runs every indicator and answers 200 with their states, or 503 when one is down.\<close>

datatype health_answer = Alive | Checked "health_status list" | Unavailable "health_status list" "health_status list"

fun run_indicators :: "'s indicator list \<Rightarrow> 's \<Rightarrow> (health_status list \<times> health_status list) \<times> 's" where
  "run_indicators [] s = (([], []), s)"
| "run_indicators (m # ms) s =
     (case m s of (r, t) \<Rightarrow> (case run_indicators ms t of ((ups, downs), u) \<Rightarrow>
       ((case r of Inr x \<Rightarrow> (x # ups, downs) | Inl x \<Rightarrow> (ups, x # downs)), u)))"

definition health_check :: "'s indicator list \<Rightarrow> 's \<Rightarrow> health_answer \<times> 's" where
  "health_check ms s = (case run_indicators ms s of ((ups, downs), t) \<Rightarrow>
     (if downs = [] then Checked ups else Unavailable ups downs, t))"

datatype health_route = Live | Ready | Check

definition health_ready :: "'s health_env \<Rightarrow> 's \<Rightarrow> health_answer \<times> 's" where
  "health_ready H = health_check [prisma_isHealthy H ''database'', redis_isHealthy H ''redis'']"

fun health_controller :: "'s health_env \<Rightarrow> health_route \<Rightarrow> 's \<Rightarrow> health_answer \<times> 's" where
  "health_controller H Live s = (Alive, s)"
| "health_controller H Ready s = health_ready H s"
| "health_controller H Check s = health_ready H s"

text \<open>Ready exactly when the database answers and, after it, the cache connects and answers; alive in any case, and
  without a call.\<close>

lemma ready_iff:
  "fst (health_controller H Ready s) = Checked [Up ''database'', Up ''redis''] \<longleftrightarrow>
     (\<exists>t. select_1 H s = (Inr (), t) \<and> \<not> isl (fst (seqM (redis_connect H) (\<lambda>_. redis_ping H) t)))"
proof -
  obtain d t where d: "select_1 H s = (d, t)" by force
  obtain r u where r: "seqM (redis_connect H) (\<lambda>_. redis_ping H) t = (r, u)" by force
  show ?thesis
    by (cases d; cases r) (auto simp: health_ready_def health_check_def prisma_isHealthy_def redis_isHealthy_def d r)
qed

lemma ready_or_unavailable:
  "\<exists>ups downs. fst (health_controller H Ready s) = Checked [Up ''database'', Up ''redis'']
     \<or> (fst (health_controller H Ready s) = Unavailable ups downs \<and> downs \<noteq> [])"
proof -
  obtain d t where d: "select_1 H s = (d, t)" by force
  obtain r u where r: "seqM (redis_connect H) (\<lambda>_. redis_ping H) t = (r, u)" by force
  show ?thesis
    by (cases d; cases r) (simp_all add: health_ready_def health_check_def prisma_isHealthy_def redis_isHealthy_def d r)
qed

section \<open>Brokers\<close>

text \<open>The fees are Prisma's decimals, and the sources a JSON value.\<close>

record 'd broker_row =
  bk_id :: string
  bk_slug :: string
  bk_name :: string
  bk_feeBuyPct :: 'd
  bk_feeSellPct :: 'd
  bk_feeMaxPct :: "'d option"
  bk_feeMinArs :: "'d option"
  bk_ivaOnFees :: bool
  bk_subscriptionMonthlyArs :: "'d option"
  bk_subscriptionNotes :: "string option"
  bk_custodyPctAnnual :: "'d option"
  bk_custodyMinMonthlyArs :: "'d option"
  bk_custodyNotes :: "string option"
  bk_feeNotes :: "string option"
  bk_sources :: string
  bk_lastVerifiedAt :: int
  bk_isActive :: bool
  bk_createdAt :: int
  bk_updatedAt :: int

record market_meta =
  mm_marketRightsPct :: string
  mm_ivaPct :: string
  mm_sourceLabel :: string
  mm_sourceUrl :: string

text \<open>The numbers are kept as the texts of the source. The dash of the label is its three bytes.\<close>

definition MARKET_META :: market_meta where
  "MARKET_META = \<lparr>mm_marketRightsPct = ''0.05'', mm_ivaPct = ''21'',
     mm_sourceLabel = ''BYMA '' @ [CHR 0xE2, CHR 0x80, CHR 0x94]
       @ '' Aranceles de Renta Variable (vigente 01/10/2025)'',
     mm_sourceUrl = ''https://www.byma.com.ar/newsroom/aranceles-de-rv''\<rparr>"

record ('s, 'd) broker_env =
  brokers :: "('s, 'd broker_row, unit) delegate"
  fee_le :: "'d \<Rightarrow> 'd \<Rightarrow> bool"

definition brokers_findActive :: "('s, 'd) broker_env \<Rightarrow> ('s, 'd broker_row list) io" where
  "brokers_findActive B =
     findMany (brokers B) bk_isActive (\<lambda>a b. fee_le B (bk_feeBuyPct a) (bk_feeBuyPct b))"

definition getTariff :: "('s, 'd) broker_env \<Rightarrow> ('s, market_meta \<times> 'd broker_row list) io" where
  "getTariff B = seqM (brokers_findActive B) (\<lambda>bs. ret (MARKET_META, bs))"

lemma getTariff_lists_active:
  assumes "table (brokers B) rows other made stamp" and "total_order (fee_le B)"
    and "getTariff B s = (Inr (meta, bs), t)"
  shows "set bs = {r \<in> rows s. bk_isActive r} \<and> distinct bs
     \<and> sorted_wrt (\<lambda>a b. fee_le B (bk_feeBuyPct a) (bk_feeBuyPct b)) bs \<and> rows t = rows s"
proof -
  have ord: "total_order (\<lambda>a b. fee_le B (bk_feeBuyPct a) (bk_feeBuyPct b))"
    using assms(2) unfolding total_order_def by blast
  from assms(3) have "findMany (brokers B) bk_isActive (\<lambda>a b. fee_le B (bk_feeBuyPct a) (bk_feeBuyPct b)) s = (Inr bs, t)"
    by (auto simp: getTariff_def brokers_findActive_def seqM_Inr io_prim_iff)
  from table.returns(2)[OF assms(1) this] ord show ?thesis by blast
qed

section \<open>The environment\<close>

text \<open>\<open>process.env\<close> as a function from names. \<open>to_Number\<close> is \<open>Number\<close> and \<open>trim\<close> the method of texts; the variables the
  schema does not name, which it lets through, are not read by the code.\<close>

record 'n envs =
  en_PORT :: 'n
  en_ALLOWED_ORIGINS :: "string list"
  en_DATABASE_URL :: string
  en_REDIS_URL :: string
  en_RESEND_API_KEY :: string
  en_RESEND_FROM_EMAIL :: string
  en_JWT_ACCESS_SECRET :: string
  en_JWT_REFRESH_SECRET :: string
  en_GOOGLE_CLIENT_ID :: string
  en_GOOGLE_CLIENT_SECRET :: string
  en_GOOGLE_CALLBACK_URL :: string
  en_EXCHANGE_RATE_MAX_AGE_MS :: 'n
  en_APPLE_CLIENT_ID :: string
  en_APPLE_TEAM_ID :: string
  en_APPLE_KEY_ID :: string
  en_APPLE_CALLBACK_URL :: string
  en_RECAPTCHA_SITE_KEY :: string
  en_RECAPTCHA_SECRET_KEY :: string
  en_RECAPTCHA_THRESHOLD :: string
  en_REFRESH_GRACE_PERIOD_MS :: 'n
  en_DB_TRANSACTION_MAX_WAIT_MS :: 'n
  en_DB_TRANSACTION_TIMEOUT_MS :: 'n
  en_CSRF_SECRET :: string
  en_CSRF_ENABLED :: bool
  en_FINNHUB_API_KEY :: string

definition required_variables :: "string list" where
  "required_variables = [''ALLOWED_ORIGINS'', ''DATABASE_URL'', ''REDIS_URL'', ''RESEND_API_KEY'', ''RESEND_FROM_EMAIL'',
     ''JWT_ACCESS_SECRET'', ''JWT_REFRESH_SECRET'', ''GOOGLE_CLIENT_ID'', ''GOOGLE_CLIENT_SECRET'', ''GOOGLE_CALLBACK_URL'']"

definition envSchema ::
  "(string \<Rightarrow> 'n) \<Rightarrow> (string \<Rightarrow> string) \<Rightarrow> (string \<Rightarrow> string option) \<Rightarrow> exn + 'n envs" where
  "envSchema to_Number trim env =
     (if list_all (\<lambda>k. truthy (env k) \<noteq> None) required_variables then
        let text_of = (\<lambda>k d. or_else (env k) d) in
        Inr \<lparr>en_PORT = to_Number (text_of ''PORT'' ''3000''),
           en_ALLOWED_ORIGINS = map trim (split_comma (text_of ''ALLOWED_ORIGINS'' '''')),
           en_DATABASE_URL = text_of ''DATABASE_URL'' '''', en_REDIS_URL = text_of ''REDIS_URL'' '''',
           en_RESEND_API_KEY = text_of ''RESEND_API_KEY'' '''',
           en_RESEND_FROM_EMAIL = text_of ''RESEND_FROM_EMAIL'' '''',
           en_JWT_ACCESS_SECRET = text_of ''JWT_ACCESS_SECRET'' '''',
           en_JWT_REFRESH_SECRET = text_of ''JWT_REFRESH_SECRET'' '''',
           en_GOOGLE_CLIENT_ID = text_of ''GOOGLE_CLIENT_ID'' '''',
           en_GOOGLE_CLIENT_SECRET = text_of ''GOOGLE_CLIENT_SECRET'' '''',
           en_GOOGLE_CALLBACK_URL = text_of ''GOOGLE_CALLBACK_URL'' '''',
           en_EXCHANGE_RATE_MAX_AGE_MS = to_Number (text_of ''EXCHANGE_RATE_MAX_AGE_MS'' ''300000''),
           en_APPLE_CLIENT_ID = text_of ''APPLE_CLIENT_ID'' '''', en_APPLE_TEAM_ID = text_of ''APPLE_TEAM_ID'' '''',
           en_APPLE_KEY_ID = text_of ''APPLE_KEY_ID'' '''', en_APPLE_CALLBACK_URL = text_of ''APPLE_CALLBACK_URL'' '''',
           en_RECAPTCHA_SITE_KEY = text_of ''RECAPTCHA_SITE_KEY'' '''',
           en_RECAPTCHA_SECRET_KEY = text_of ''RECAPTCHA_SECRET_KEY'' '''',
           en_RECAPTCHA_THRESHOLD = text_of ''RECAPTCHA_THRESHOLD'' ''0.5'',
           en_REFRESH_GRACE_PERIOD_MS = to_Number (text_of ''REFRESH_GRACE_PERIOD_MS'' ''2000''),
           en_DB_TRANSACTION_MAX_WAIT_MS = to_Number (text_of ''DB_TRANSACTION_MAX_WAIT_MS'' ''5000''),
           en_DB_TRANSACTION_TIMEOUT_MS = to_Number (text_of ''DB_TRANSACTION_TIMEOUT_MS'' ''10000''),
           en_CSRF_SECRET = text_of ''CSRF_SECRET'' ''csrf-secret-dev'',
           en_CSRF_ENABLED = (text_of ''CSRF_ENABLED'' ''true'' = ''true''),
           en_FINNHUB_API_KEY = text_of ''FINNHUB_API_KEY'' ''''\<rparr>
      else Inl (PlainError ''Invalid environment variables''))"

text \<open>The application starts exactly when the required variables are set and not empty, and then no secret it signs
  tokens with is empty; the CSRF check is on unless the variable says something else than \<open>true\<close>.\<close>

lemma envSchema_starts:
  "(\<exists>e. envSchema N tr env = Inr e) \<longleftrightarrow> (\<forall>k \<in> set required_variables. truthy (env k) \<noteq> None)"
  by (simp add: envSchema_def Let_def list_all_iff)

lemma envSchema_returns:
  assumes "envSchema N tr env = Inr e"
  shows "en_JWT_ACCESS_SECRET e \<noteq> ''''" and "en_JWT_REFRESH_SECRET e \<noteq> ''''"
    and "en_CSRF_ENABLED e = (env ''CSRF_ENABLED'' \<in> {None, Some ''true''})"
proof -
  from assms have "truthy (env ''JWT_ACCESS_SECRET'') \<noteq> None" "truthy (env ''JWT_REFRESH_SECRET'') \<noteq> None"
    using envSchema_starts[of N tr env] by (auto simp: required_variables_def)
  moreover from assms have "en_JWT_ACCESS_SECRET e = or_else (env ''JWT_ACCESS_SECRET'') ''''"
    "en_JWT_REFRESH_SECRET e = or_else (env ''JWT_REFRESH_SECRET'') ''''"
    "en_CSRF_ENABLED e = (or_else (env ''CSRF_ENABLED'') ''true'' = ''true'')"
    by (auto simp: envSchema_def Let_def split: if_splits)
  ultimately show "en_JWT_ACCESS_SECRET e \<noteq> ''''" "en_JWT_REFRESH_SECRET e \<noteq> ''''"
    "en_CSRF_ENABLED e = (env ''CSRF_ENABLED'' \<in> {None, Some ''true''})"
    by (auto simp: truthy_def or_else_def split: option.splits if_splits)
qed

end
