(* ===== verification/Wallet_Events.thy ===== *)
theory Wallet_Events
  imports Prisma_Wallet Webhook Larger_State
begin

text \<open>
  The wallet and its webhooks together, the way \<open>wallet.module.ts\<close> wires them: the use cases run on
  \<open>PrismaUnitOfWork\<close>, read beneficiaries with \<open>PrismaBeneficiaryReader\<close> and hand their events to
  \<open>WebhookService\<close>, all over one database; the timers of the retries are beside it. \<open>wallet_hooks\<close> joins
  the contracts of the two components and says that each leaves the other's tables alone. The lemmas
  show that a command that throws tells nobody anything, and that one that returns tells each active
  endpoint at most once, and of its own row only.
\<close>

section \<open>The service as it is wired\<close>

definition put_world :: "'w \<Rightarrow> 'w webhook_state \<Rightarrow> 'w webhook_state" where
  "put_world w s = s\<lparr>wh_world := w\<rparr>"

lemma put_world_simps [simp]: "wh_world (put_world w s) = w" "wh_timers (put_world w s) = wh_timers s"
  by (simp_all add: put_world_def)

definition wired_run :: "'w prisma_env \<Rightarrow> 'w webhook_state unit_of_work" where
  "wired_run X = zoom_run wh_world put_world (prisma_tx X) (prisma_run X)"

definition wired_findActive ::
  "'w prisma_env \<Rightarrow> string \<Rightarrow> string \<Rightarrow> ('w webhook_state, beneficiary_snapshot option) io" where
  "wired_findActive X userId beneficiaryId = zoom wh_world put_world (prisma_findActive X userId beneficiaryId)"

definition wired_service ::
  "'w prisma_env \<Rightarrow> 'w webhook_env \<Rightarrow> wallet_command \<Rightarrow> ('w webhook_state, transaction_record) io" where
  "wired_service X E = wallet_service (wired_run X) (wired_findActive X) (webhook_dispatch E)"

fun command_user :: "wallet_command \<Rightarrow> string" where
  "command_user (Deposit inp) = di_userId inp"
| "command_user (Withdraw inp) = wi_userId inp"
| "command_user (Send inp) = si_userId inp"

fun event_for :: "wallet_command \<Rightarrow> webhook_event_data \<Rightarrow> webhook_event" where
  "event_for (Deposit inp) = DepositConfirmed"
| "event_for (Withdraw inp) = WithdrawCompleted"
| "event_for (Send inp) = TransferCompleted"

section \<open>What a delivery says\<close>

text \<open>To whom, of which event and with what body. \<open>tells N R R'\<close>: every row of \<open>R'\<close> is one of \<open>R\<close>, its status
  aside, or says one of \<open>N\<close>.\<close>

definition news :: "delivery_row \<Rightarrow> string \<times> string \<times> string" where
  "news d = (wd_endpointId d, wd_event d, wd_payload d)"

definition tells :: "(string \<times> string \<times> string) set \<Rightarrow> delivery_row set \<Rightarrow> delivery_row set \<Rightarrow> bool" where
  "tells N R R' \<longleftrightarrow> (\<forall>d \<in> R'. (\<exists>d0 \<in> R. wd_id d0 = wd_id d \<and> news d0 = news d) \<or> news d \<in> N)"

lemma tells_refl [simp]: "tells N R R"
  by (auto simp: tells_def)

lemma tells_trans: "tells N R R' \<Longrightarrow> tells N R' R'' \<Longrightarrow> tells N R R''"
  unfolding tells_def by metis

lemma tells_mono: "tells N R R' \<Longrightarrow> N \<subseteq> M \<Longrightarrow> tells M R R'"
  unfolding tells_def by blast

lemma tells_insert: "news d \<in> N \<Longrightarrow> tells N R (insert d R)"
  by (auto simp: tells_def)

lemma tells_put:
  "x \<in> R \<Longrightarrow> wd_id y = wd_id x \<Longrightarrow> news y = news x \<Longrightarrow> tells N R (insert y (R - {x}))"
  by (auto simp: tells_def)

lemma tells_map: "(\<And>x. wd_id (f x) = wd_id x \<and> news (f x) = news x) \<Longrightarrow> tells N R (f ` R)"
  by (auto simp: tells_def)

context webhook_ports
begin

abbreviation telling :: "(string \<times> string \<times> string) set \<Rightarrow> 'w webhook_state \<Rightarrow> 'w webhook_state \<Rightarrow> bool" where
  "telling N s t \<equiv> tells N (drows (wh_world s)) (drows (wh_world t))"

lemma telling_order: "reflp (telling N)" "transp (telling N)"
  by (auto intro!: reflpI transpI dest: tells_trans)

lemmas telling_intros = moves_prim[OF telling_order(1)] moves_seqM[OF telling_order(2)]
  moves_catchM[OF telling_order(2)] moves_if

lemma telling_db:
  assumes "\<And>w r w'. m w = (r, w') \<Longrightarrow> tells N (drows w) (drows w')"
  shows "moves (telling N) (wh_db m)"
proof (rule movesI)
  fix s r t assume "wh_db m s = (r, t)"
  then obtain w where "m (wh_world s) = (r, w)" "t = s\<lparr>wh_world := w\<rparr>" by (auto simp: wh_db_def zoom_iff)
  then show "telling N s t" using assms by simp
qed

lemma telling_kept: "keeps drows m \<Longrightarrow> moves (telling N) (wh_db m)"
  by (rule telling_db) (auto dest: keepsD)

lemma telling_update:
  assumes "\<And>r. wd_id (f r) = wd_id r \<and> news (f r) = news r"
  shows "moves (telling N) (wh_db (update (deliveries E) P f))"
proof (rule telling_db)
  fix w r w' assume u: "update (deliveries E) P f w = (r, w')"
  show "tells N (drows w) (drows w')"
  proof (cases r)
    case (Inl e)
    then show ?thesis using dtab_throws(8)[OF u[unfolded Inl]] by simp
  next
    case (Inr y)
    from dtab_returns(8)[OF u[unfolded Inr]] obtain x where "x \<in> drows w" "y = f x" "drows w' = insert y (drows w - {x})"
      by blast
    then show ?thesis using tells_put[of x "drows w" y] assms by simp
  qed
qed

lemma telling_updateMany:
  assumes "\<And>r. wd_id (f r) = wd_id r \<and> news (f r) = news r"
  shows "moves (telling N) (wh_db (updateMany (deliveries E) P f))"
proof (rule telling_db)
  fix w r w' assume u: "updateMany (deliveries E) P f w = (r, w')"
  show "tells N (drows w) (drows w')"
  proof (cases r)
    case (Inl e)
    then show ?thesis using dtab_throws(9)[OF u[unfolded Inl]] by simp
  next
    case (Inr k)
    have "drows w' = (\<lambda>r. if P r then f r else r) ` drows w" using dtab_returns(9)[OF u[unfolded Inr]] by simp
    then show ?thesis using tells_map[of "\<lambda>r. if P r then f r else r"] assms by simp
  qed
qed

lemma telling_create:
  assumes "(nd_endpointId n, nd_event n, nd_payload n) \<in> N"
  shows "moves (telling N) (wh_db (create (deliveries E) n))"
proof (rule telling_db)
  fix w r w' assume u: "create (deliveries E) n w = (r, w')"
  show "tells N (drows w) (drows w')"
  proof (cases r)
    case (Inl e)
    then show ?thesis using dtab_throws(5)[OF u[unfolded Inl]] by simp
  next
    case (Inr d)
    from dtab_returns(5)[OF u[unfolded Inr]] have "drows w' = insert d (drows w)" "delivery_made n d" by simp_all
    then show ?thesis using tells_insert[of d N] assms by (simp add: delivery_made_def news_def)
  qed
qed

lemma telling_timers: "(\<And>s. wh_world (f s) = wh_world s) \<Longrightarrow> moves (telling N) (modifyM f)"
  by (rule movesI) (simp add: modifyM_def)

lemma telling_scheduleRetry: "moves (telling N) (scheduleRetry E rt)"
proof -
  let ?set = "\<lambda>n r. r\<lparr>wd_nextRetryAt := Some n\<rparr>"
  have "moves (telling N) (wh_db (updateMany (deliveries E) P (?set n)))" for P n
    by (rule telling_updateMany) (simp add: news_def)
  moreover have "moves (telling N) (wh_db (readM (wh_now E)))" by (rule telling_kept) (rule keeps_prim)
  ultimately show ?thesis unfolding scheduleRetry_def Let_def orNull_def
    by (intro telling_intros telling_timers) (assumption | simp)+
qed

lemma telling_deliver:
  assumes "(rt_endpointId rt, rt_event rt, rt_payload rt) \<in> N"
  shows "moves (telling N) (deliver E rt)"
  unfolding deliver_def Let_def
  by (intro telling_intros telling_create telling_update telling_kept fetch_deliveries telling_scheduleRetry)
    (simp_all add: assms news_def)

lemma telling_deliver_all:
  "(\<And>ep. ep \<in> set eps \<Longrightarrow> (ep_id ep, event, payload) \<in> N) \<Longrightarrow> moves (telling N) (deliver_all E event payload eps)"
  by (induction eps) (auto intro!: telling_intros telling_deliver)

lemma dispatch_tells:
  assumes "webhook_dispatch E ev s = (r, t)"
  shows "\<exists>at. telling ((\<lambda>ep. (ep_id ep, event_type ev, json_event ev at)) ` {ep \<in> erows (wh_world s). ep_active ep}) s t"
proof -
  obtain q s1 where f: "wh_db (findMany (endpoints E) ep_active anyOrder) s = (q, s1)"
    by (cases "wh_db (findMany (endpoints E) ep_active anyOrder) s")
  then obtain w where fw: "findMany (endpoints E) ep_active anyOrder (wh_world s) = (q, w)"
    and s1: "s1 = s\<lparr>wh_world := w\<rparr>" by (auto simp: wh_db_def zoom_iff)
  have same: "drows w = drows (wh_world s)" by (rule keepsD[OF find_deliveries fw])
  show ?thesis
  proof (cases q)
    case (Inl x)
    then have "t = s1" using assms f by (simp add: webhook_dispatch_def seqM_def)
    then show ?thesis using same s1 by simp
  next
    case (Inr eps)
    have eps: "set eps = {ep \<in> erows (wh_world s). ep_active ep}" using etab_returns(2)[OF fw[unfolded Inr]] by auto
    show ?thesis
    proof (cases "eps = []")
      case True
      then have "t = s1" using assms f Inr by (simp add: webhook_dispatch_def seqM_def ret_def)
      then show ?thesis using same s1 by simp
    next
      case False
      let ?at = "toISOString E (wh_now E w)"
      have "deliver_all E (event_type ev) (json_event ev ?at) eps s1 = (r, t)"
        using assms f Inr False by (simp add: webhook_dispatch_def seqM_def wh_db_def zoom_def readM_def s1)
      from movesD[OF telling_deliver_all this,
          of "(\<lambda>ep. (ep_id ep, event_type ev, json_event ev ?at)) ` {ep \<in> erows (wh_world s). ep_active ep}"] eps
      have "telling ((\<lambda>ep. (ep_id ep, event_type ev, json_event ev ?at)) ` {ep \<in> erows (wh_world s). ep_active ep}) s1 t"
        by blast
      then show ?thesis using same s1 by auto
    qed
  qed
qed

end

section \<open>The two components over one database\<close>

text \<open>Each leaves the other's tables alone. That a call of the wallet leaves the webhooks' tables alone is
  said of the single calls and of a transaction around work that does.\<close>

locale wallet_hooks =
  prisma_ports X wrows txlog + webhook_ports E drows erows
  for X :: "'w prisma_env" and wrows :: "'w \<Rightarrow> wallet_row set" and txlog :: "'w \<Rightarrow> tx_row list"
    and E :: "'w webhook_env" and drows :: "'w \<Rightarrow> delivery_row set" and erows :: "'w \<Rightarrow> endpoint_row set" +
  assumes wallet_calls: "keeps (\<lambda>w. (drows w, erows w)) (findFirst (p_wallets X) P)"
      "keeps (\<lambda>w. (drows w, erows w)) (upsert (p_wallets X) P n f)"
      "keeps (\<lambda>w. (drows w, erows w)) (updateMany (p_wallets X) P f)"
      "keeps (\<lambda>w. (drows w, erows w)) (p_createTransaction X nx)"
    and transaction_frame: "keeps (\<lambda>w. (drows w, erows w)) m \<Longrightarrow> keeps (\<lambda>w. (drows w, erows w)) (p_transaction X m)"
    and sleep_frame: "(drows (p_sleep X i w), erows (p_sleep X i w)) = (drows w, erows w)"
    and beneficiary_frame: "keeps (\<lambda>w. (wrows w, txlog w, drows w, erows w)) (p_findBeneficiary X B)"
    and hook_calls: "keeps (\<lambda>w. (wrows w, txlog w)) (findMany (endpoints E) Q le)"
      "keeps (\<lambda>w. (wrows w, txlog w)) (create (deliveries E) nd)"
      "keeps (\<lambda>w. (wrows w, txlog w)) (update (deliveries E) R g)"
      "keeps (\<lambda>w. (wrows w, txlog w)) (updateMany (deliveries E) R g)"
      "keeps (\<lambda>w. (wrows w, txlog w)) (fetch_post E url sig body)"
begin

abbreviation hooks :: "'w \<Rightarrow> delivery_row set \<times> endpoint_row set" where
  "hooks w \<equiv> (drows w, erows w)"

abbreviation money_rows :: "'w \<Rightarrow> wallet_row set \<times> tx_row list" where
  "money_rows w \<equiv> (wrows w, txlog w)"

text \<open>The wallet's side: work that goes through the port leaves deliveries and endpoints alone.\<close>

lemma tx_frame: "tx_closed (prisma_tx X) (\<lambda>w. hooks w = H)"
proof -
  have "keeps hooks (prisma_findByUserAndCurrency X u c)" "keeps hooks (prisma_findOrCreateEmpty X u c)"
    "keeps hooks (compareAndSwap X i ver d)" "keeps hooks (prisma_create_transaction X nt)" for u c i ver d nt
    unfolding prisma_findByUserAndCurrency_def prisma_findOrCreateEmpty_def compareAndSwap_def prisma_create_transaction_def
    by (intro keeps_intros keeps_option wallet_calls)+
  then show ?thesis
    unfolding tx_closed_def prisma_tx_def prisma_credit_def prisma_debit_def
    by (intro conjI allI) (simp_all add: keeps_invariant[where v = hooks and Q = "\<lambda>h. h = H"])
qed

lemma run_frame:
  assumes "only_through (prisma_tx X) (work (prisma_tx X))"
  shows "keeps hooks (prisma_run X work)"
proof (rule keepsI)
  fix s r t assume run: "prisma_run X work s = (r, t)"
  have "invariant (\<lambda>w. hooks w = H) (work (prisma_tx X))" for H
    using assms tx_frame unfolding only_through_def by blast
  then have "keeps hooks (work (prisma_tx X))" unfolding keeps_def invariant_def by metis
  from transaction_frame[OF this] have tr: "keeps hooks (p_transaction X (work (prisma_tx X)))" .
  have "\<exists>s'. hooks s' = hooks s \<and> p_transaction X (work (prisma_tx X)) s' = (r, t)"
    by (rule retry_view[OF _ sleep_frame run[unfolded prisma_run_def]]) (rule keepsD[OF tr])
  then show "hooks t = hooks s" using keepsD[OF tr] by metis
qed

lemma wired_frame:
  assumes "only_through (zoom_tx wh_world put_world (prisma_tx X)) (work (zoom_tx wh_world put_world (prisma_tx X)))"
  shows "keeps (\<lambda>s. (wh_timers s, hooks (wh_world s))) (wired_run X work)"
proof (rule keepsI)
  fix s r t assume "wired_run X work s = (r, t)"
  then obtain w where run: "prisma_run X (\<lambda>_. inner_work wh_world put_world (prisma_tx X) work s) (wh_world s) = (r, w)"
    and t: "t = put_world w s" by (auto simp: wired_run_def zoom_run_def split: prod.splits)
  have "only_through (prisma_tx X) (inner_work wh_world put_world (prisma_tx X) work s)"
    by (rule inner_work_only[where get = wh_world and put = put_world and tx = "prisma_tx X" and work = work, OF _ assms]) simp
  from keepsD[OF run_frame[where work = "\<lambda>_. inner_work wh_world put_world (prisma_tx X) work s", OF this] run] show "(wh_timers t, hooks (wh_world t)) = (wh_timers s, hooks (wh_world s))"
    by (simp add: t)
qed

lemma findActive_frame:
  "keeps (\<lambda>s. (wh_timers s, money_rows (wh_world s), hooks (wh_world s))) (wired_findActive X u i)"
proof -
  have k: "keeps (\<lambda>w. (wrows w, txlog w, drows w, erows w)) (prisma_findActive X u i)"
    unfolding prisma_findActive_def by (intro keeps_intros keeps_option beneficiary_frame)
  show ?thesis
    unfolding wired_findActive_def by (rule keepsI) (auto simp: zoom_iff dest: keepsD[OF k])
qed

text \<open>The webhooks' side: a dispatch moves no money.\<close>

lemma money_db: "keeps money_rows m \<Longrightarrow> keeps (\<lambda>s. money_rows (wh_world s)) (wh_db m)"
  by (rule keepsI) (auto simp: wh_db_def zoom_iff dest: keepsD)

lemma deliver_money: "keeps (\<lambda>s. money_rows (wh_world s)) (deliver E rt)"
proof -
  have "keeps (\<lambda>s. money_rows (wh_world s)) (scheduleRetry E rt')" for rt'
    unfolding scheduleRetry_def Let_def
    by (intro keeps_intros money_db hook_calls keeps_modifyM) simp
  then show ?thesis unfolding deliver_def Let_def by (intro keeps_intros money_db hook_calls)
qed

lemma dispatch_money: "keeps (\<lambda>s. money_rows (wh_world s)) (webhook_dispatch E ev)"
proof -
  have "keeps (\<lambda>s. money_rows (wh_world s)) (deliver_all E event payload eps)" for event payload eps
    by (induction eps) (simp_all add: keeps_prim keeps_seqM deliver_money)
  then show ?thesis unfolding webhook_dispatch_def by (intro keeps_intros money_db hook_calls)
qed

text \<open>So the wired service keeps the contract of the wallet's port, webhooks included.\<close>

abbreviation hview :: "'w webhook_state \<Rightarrow> money_view" where "hview s \<equiv> pview (wh_world s)"
abbreviation hinv :: "'w webhook_state \<Rightarrow> bool" where "hinv s \<equiv> pinv (wh_world s)"

lemma hview_kept: "keeps (\<lambda>s. money_rows (wh_world s)) m \<Longrightarrow> keeps hview m \<and> invariant hinv m"
  unfolding keeps_def invariant_def prisma_view_def prisma_inv_def by auto

end

sublocale wallet_hooks \<subseteq> wired: wallet_port "zoom_tx wh_world put_world (prisma_tx X)" "wired_run X"
  "\<lambda>s. prisma_view X wrows txlog (wh_world s)" "\<lambda>s. prisma_inv wrows (wh_world s)"
  unfolding wired_run_def by (rule wallet_port_zoom[OF contract]) simp

context wallet_hooks
begin

lemma wired_ok: "wired.frame_ok (wired_findActive X) (webhook_dispatch E)"
proof -
  have "keeps (\<lambda>s. money_rows (wh_world s)) (wired_findActive X u i)" for u i
    using findActive_frame unfolding keeps_def by auto
  from hview_kept[OF this] hview_kept[OF dispatch_money] show ?thesis unfolding wired.frame_ok_def by blast
qed

end

section \<open>One command and its webhook\<close>

text \<open>\<open>told ev eps R R'\<close>: each active endpoint of \<open>eps\<close> was sent the event \<open>ev\<close> at most once, and nobody was
  sent anything else.\<close>

definition told :: "webhook_event \<Rightarrow> endpoint_row set \<Rightarrow> delivery_row set \<Rightarrow> delivery_row set \<Rightarrow> bool" where
  "told ev eps R R' \<longleftrightarrow>
     (\<exists>at. tells ((\<lambda>ep. (ep_id ep, event_type ev, json_event ev at)) ` {ep \<in> eps. ep_active ep}) R R')
     \<and> (\<forall>e. grows 1 (delivery_ids e R) (delivery_ids e R'))"

text \<open>\<open>describes d x r\<close>: the event's data are those of the row \<open>r\<close> the command \<open>x\<close> recorded.\<close>

definition describes :: "webhook_event_data \<Rightarrow> wallet_command \<Rightarrow> transaction_record \<Rightarrow> bool" where
  "describes d x r \<longleftrightarrow> we_transactionId d = tr_id r \<and> we_walletId d = tr_walletId r
     \<and> we_userId d = command_user x \<and> we_currency d = currency_name (tr_currency r)
     \<and> toMoney (we_amount d) (tr_currency r) = money_restore (tr_amount r) (tr_currency r)"

lemma describes_row:
  assumes "records r n" and "nt_amount n = m" and "toMoney raw c = Inr m" and "u = command_user x"
  shows "describes (event_data r u raw c) x r"
proof -
  note p = toMoney_props[OF assms(3)]
  have "tr_currency r = c" using assms(1,2) p(1) by (simp add: records_def)
  moreover have "money_restore (tr_amount r) c = Inr m"
    using assms(1,2) p by (auto simp: records_def)
  ultimately show ?thesis using assms(3,4) by (simp add: describes_def event_data_def)
qed

context wallet_hooks
begin

lemma notify_tells:
  assumes "only_through (zoom_tx wh_world put_world (prisma_tx X)) (work (zoom_tx wh_world put_world (prisma_tx X)))"
    and "wh_timers s = []" and "inj_on ep_id (erows (wh_world s))"
    and "run_and_notify (wired_run X) (webhook_dispatch E) ev work s = (res, t)"
  shows "case res of
      Inl e \<Rightarrow> wh_timers t = [] \<and> drows (wh_world t) = drows (wh_world s)
    | Inr r \<Rightarrow> told (ev r) (erows (wh_world s)) (drows (wh_world s)) (drows (wh_world t))"
proof -
  obtain q s1 where run: "wired_run X work s = (q, s1)" by (cases "wired_run X work s")
  from keepsD[OF wired_frame[where work = work, OF assms(1)] run]
  have k: "wh_timers s1 = []" "drows (wh_world s1) = drows (wh_world s)" "erows (wh_world s1) = erows (wh_world s)"
    using assms(2) by simp_all
  show ?thesis
  proof (cases q)
    case (Inl e)
    then have "res = Inl e" "t = s1" using assms(4) run by (simp_all add: run_and_notify_def seqM_def)
    then show ?thesis using k by simp
  next
    case (Inr r)
    obtain y where y: "webhook_dispatch E (ev r) s1 = (y, t)" and res: "res = Inr r"
      using assms(4) run Inr
      by (cases "webhook_dispatch E (ev r) s1"; cases "fst (webhook_dispatch E (ev r) s1)")
        (auto simp: run_and_notify_def seqM_def catchM_def ret_def)
    have inj: "inj_on ep_id (erows (wh_world s1))" using assms(3) k(3) by simp
    show ?thesis using dispatch_tells[OF y] dispatch_law[OF y k(1) inj] k(2,3) res by (simp add: told_def)
  qed
qed

lemma service_tells:
  assumes "hinv s" and "wh_timers s = []" and "inj_on ep_id (erows (wh_world s))"
    and "wired_service X E x s = (Inr r, t)"
  shows "\<exists>d. describes d x r \<and> told (event_for x d) (erows (wh_world s)) (drows (wh_world s)) (drows (wh_world t))"
proof (cases x)
  case (Deposit inp)
  then have exec: "deposit_execute (wired_run X) (webhook_dispatch E) inp s = (Inr r, t)"
    using assms(4) by (simp add: wired_service_def)
  then obtain m where m: "toMoney (di_amount inp) (di_currency inp) = Inr m"
    and rest: "run_and_notify (wired_run X) (webhook_dispatch E)
       (\<lambda>r. DepositConfirmed (event_data r (di_userId inp) (di_amount inp) (di_currency inp))) (deposit_work inp m) s = (Inr r, t)"
    by (auto simp: deposit_execute_def seqM_Inr io_prim_iff)
  obtain m' w where "toMoney (di_amount inp) (di_currency inp) = Inr m'" and "records r (deposit_row inp m' w)"
    using wired.deposit_returns[OF assms(1) _ exec] wired_ok posted_records unfolding wired.frame_ok_def by blast
  then have "describes (event_data r (di_userId inp) (di_amount inp) (di_currency inp)) x r"
    using Deposit by (intro describes_row[where n = "deposit_row inp m' w"]) (auto simp: deposit_row_def)
  then show ?thesis
    using notify_tells[where work = "deposit_work inp m", OF only_through_deposit assms(2,3) rest] Deposit by auto
next
  case (Withdraw inp)
  then have exec: "withdraw_execute (wired_run X) (webhook_dispatch E) inp s = (Inr r, t)"
    using assms(4) by (simp add: wired_service_def)
  then obtain m where m: "toMoney (wi_amount inp) (wi_currency inp) = Inr m"
    and rest: "run_and_notify (wired_run X) (webhook_dispatch E)
       (\<lambda>r. WithdrawCompleted (event_data r (wi_userId inp) (wi_amount inp) (wi_currency inp))) (withdraw_work inp m) s = (Inr r, t)"
    by (auto simp: withdraw_execute_def seqM_Inr io_prim_iff)
  obtain m' w where "toMoney (wi_amount inp) (wi_currency inp) = Inr m'" and "records r (withdraw_row inp m' w)"
    using wired.withdraw_returns[OF assms(1) _ exec] wired_ok posted_records unfolding wired.frame_ok_def by blast
  then have "describes (event_data r (wi_userId inp) (wi_amount inp) (wi_currency inp)) x r"
    using Withdraw by (intro describes_row[where n = "withdraw_row inp m' w"]) (auto simp: withdraw_row_def)
  then show ?thesis
    using notify_tells[where work = "withdraw_work inp m", OF only_through_withdraw assms(2,3) rest] Withdraw by auto
next
  case (Send inp)
  then have exec: "send_execute (wired_run X) (wired_findActive X) (webhook_dispatch E) inp s = (Inr r, t)"
    using assms(4) by (simp add: wired_service_def)
  then obtain b s' m where f: "wired_findActive X (si_userId inp) (si_beneficiaryId inp) s = (Inr (Some b), s')"
    and m: "toMoney (si_amount inp) (bs_currency b) = Inr m"
    and rest: "run_and_notify (wired_run X) (webhook_dispatch E)
       (\<lambda>r. TransferCompleted (event_data r (si_userId inp) (si_amount inp) (bs_currency b))) (send_work inp b m) s' = (Inr r, t)"
    by (auto simp: send_execute_def seqM_Inr io_prim_iff assertFound_iff)
  have s': "wh_timers s' = []" "drows (wh_world s') = drows (wh_world s)" "erows (wh_world s') = erows (wh_world s)"
    using keepsD[OF findActive_frame f] assms(2) by simp_all
  obtain b' s'' m' n where "wired_findActive X (si_userId inp) (si_beneficiaryId inp) s = (Inr (Some b'), s'')"
    "toMoney (si_amount inp) (bs_currency b') = Inr m'" "nt_amount n = m'" "records r n"
    using wired.send_returns[OF assms(1) _ _ _ exec] wired_ok posted_records unfolding wired.frame_ok_def by blast
  then have "describes (event_data r (si_userId inp) (si_amount inp) (bs_currency b)) x r"
    using Send f by (intro describes_row[where n = n]) auto
  then show ?thesis
    using notify_tells[where work = "send_work inp b m", OF only_through_send s'(1) _ rest] assms(3) s' Send by auto
qed

lemma service_silent:
  assumes "wh_timers s = []" and "inj_on ep_id (erows (wh_world s))" and "wired_service X E x s = (Inl e, t)"
  shows "wh_timers t = [] \<and> drows (wh_world t) = drows (wh_world s)"
proof (cases x)
  case (Deposit inp)
  then show ?thesis
    using assms notify_tells[where work = "deposit_work inp m" for m, OF only_through_deposit assms(1,2), where res = "Inl e" and t = t]
    by (auto simp: wired_service_def deposit_execute_def seqM_Inl io_prim_iff)
next
  case (Withdraw inp)
  then show ?thesis
    using assms notify_tells[where work = "withdraw_work inp m" for m, OF only_through_withdraw assms(1,2), where res = "Inl e" and t = t]
    by (auto simp: wired_service_def withdraw_execute_def seqM_Inl io_prim_iff)
next
  case (Send inp)
  have fa: "wh_timers s' = [] \<and> drows (wh_world s') = drows (wh_world s) \<and> erows (wh_world s') = erows (wh_world s)"
    if "wired_findActive X u i s = (q, s')" for u i q s'
    using keepsD[OF findActive_frame that] assms(1) by simp
  show ?thesis
    using assms Send fa notify_tells[where work = "send_work inp b m" for b m, OF only_through_send, where res = "Inl e" and t = t]
    by (auto simp: wired_service_def send_execute_def seqM_Inl seqM_Inr io_prim_iff assertFound_iff) metis+
qed

lemma service_law:
  assumes "hinv s" and "wh_timers s = []" and "inj_on ep_id (erows (wh_world s))"
    and "wired_service X E x s = (res, t)"
  shows "case res of
      Inl e \<Rightarrow> hview t = hview s \<and> drows (wh_world t) = drows (wh_world s) \<and> wh_timers t = []
    | Inr r \<Rightarrow> explained (hview s) (hview t) [r]
        \<and> (\<exists>d. describes d x r
             \<and> told (event_for x d) (erows (wh_world s)) (drows (wh_world s)) (drows (wh_world t)))"
proof -
  have run: "wallet_service (wired_run X) (wired_findActive X) (webhook_dispatch E) x s = (res, t)"
    using assms(4) by (simp add: wired_service_def)
  show ?thesis
  proof (cases res)
    case (Inl e)
    then show ?thesis
      using wired.service_throws[OF wired_ok assms(1)] service_silent[OF assms(2,3)] assms(4) run by auto
  next
    case (Inr r)
    then show ?thesis
      using wired.service_explained[OF wired_ok assms(1) run] service_tells[OF assms(1-3)] assms(4) by auto
  qed
qed

end

section \<open>A concrete surrounding\<close>

text \<open>The webhooks' world as a part of a larger one.\<close>

definition hooks_inside :: "('s \<Rightarrow> 'w) \<Rightarrow> ('w \<Rightarrow> 's \<Rightarrow> 's) \<Rightarrow> 'w webhook_env \<Rightarrow> 's webhook_env" where
  "hooks_inside get put E = \<lparr>endpoints = zoom_delegate get put (endpoints E),
     deliveries = zoom_delegate get put (deliveries E),
     fetch_post = (\<lambda>url sig body. zoom get put (fetch_post E url sig body)), hmac_sha256 = hmac_sha256 E,
     wh_now = (\<lambda>s. wh_now E (get s)), toISOString = toISOString E, wh_randomUUID = zoom get put (wh_randomUUID E)\<rparr>"

lemma keeps_zoom:
  assumes "keeps v m" and "\<And>w s. get (put w s) = w"
  shows "keeps (\<lambda>s. v (get s)) (zoom get put m)"
  by (rule keepsI) (auto simp: zoom_iff assms(2) dest: keepsD[OF assms(1)])

lemma keeps_beside: "(\<And>w s. v (put w s) = v s) \<Longrightarrow> keeps v (zoom get put m)"
  by (rule keepsI) (auto simp: zoom_iff)

lemma webhook_ports_zoom:
  assumes "webhook_ports E drows erows" and lens: "\<And>w s. get (put w s) = w"
  shows "webhook_ports (hooks_inside get put E) (\<lambda>s. drows (get s)) (\<lambda>s. erows (get s))"
proof (rule webhook_ports.intro, unfold hooks_inside_def webhook_env.simps, goal_cases)
  case 1
  show ?case by (rule table_zoom[where get = get and put = put, OF webhook_ports.dtab[OF assms(1)] lens]) simp
next
  case 2
  show ?case by (rule table_zoom[where get = get and put = put, OF webhook_ports.etab[OF assms(1)] lens]) simp
next
  case (3 P le)
  show ?case unfolding zoom_delegate_def delegate.simps
    by (rule keeps_zoom[where get = get and put = put, OF webhook_ports.find_deliveries[OF assms(1)] lens])
next
  case (4 url sig body)
  show ?case by (rule keeps_zoom[where get = get and put = put, OF webhook_ports.fetch_deliveries[OF assms(1)] lens])
qed

record shop_world = prisma_world +
  sw_hooks :: webhook_world

definition put_hooks :: "webhook_world \<Rightarrow> shop_world \<Rightarrow> shop_world" where
  "put_hooks w s = s\<lparr>sw_hooks := w\<rparr>"

definition shop_hooks :: "shop_world webhook_env" where
  "shop_hooks = hooks_inside sw_hooks put_hooks demo_webhook"

definition shop_drows :: "shop_world \<Rightarrow> delivery_row set" where "shop_drows s = demo_drows (sw_hooks s)"
definition shop_erows :: "shop_world \<Rightarrow> endpoint_row set" where "shop_erows s = demo_erows (sw_hooks s)"

lemma put_hooks_simps [simp]:
  "sw_hooks (put_hooks w s) = w" "demo_wrows (put_hooks w s) = demo_wrows s" "pw_txs (put_hooks w s) = pw_txs s"
  by (simp_all add: put_hooks_def demo_wrows_def)

interpretation shop: wallet_hooks demo_prisma demo_wrows pw_txs shop_hooks shop_drows shop_erows
proof (intro wallet_hooks.intro wallet_hooks_axioms.intro, goal_cases)
  case 1
  show ?case by (rule demo_prisma.prisma_ports_axioms)
next
  case 2
  have "shop_drows = (\<lambda>s. demo_drows (sw_hooks s))" "shop_erows = (\<lambda>s. demo_erows (sw_hooks s))"
    by (simp_all add: fun_eq_iff shop_drows_def shop_erows_def)
  then show ?case
    using webhook_ports_zoom[OF demo_webhook.webhook_ports_axioms, of sw_hooks put_hooks] by (simp add: shop_hooks_def)
next
  case (7 m)
  then show ?case by (auto simp: keeps_def demo_prisma_def split: prod.splits sum.splits) (metis snd_conv)+
qed (auto simp: shop_hooks_def hooks_inside_def zoom_delegate_def keeps_beside keeps_prim shop_drows_def shop_erows_def
      keeps_def demo_prisma_def demo_wallets_def list_delegate_def list_insert_def list_replace_def guarded_def readM_def
      zoom_def split: option.splits prod.splits sum.splits)

section \<open>Properties\<close>

definition demo_shop :: "shop_world webhook_state" where
  "demo_shop = \<lparr>wh_timers = [], wh_world = \<lparr>pw_wallets = pw_wallets demo_database, pw_txs = [],
     pw_beneficiaries = pw_beneficiaries demo_database, pw_clock = 0, sw_hooks = wh_world demo_hooks\<rparr>\<rparr>"

text \<open>C3. A webhook tells of committed money, once and truly: from a state with no retry pending, a deposit, withdrawal or transfer that throws
  changed no balance and no row, sent nothing and left no timer; one that returns moved what its row says,
  and every delivery it made is to an active endpoint, of the command's own event, naming that row, its
  wallet, its user, its currency and its amount, at most one to each endpoint.\<close>

theorem webhook_follows_commit:
  assumes "wallet_hooks X wrows txlog E drows erows" and "prisma_inv wrows (wh_world s)"
    and "wh_timers s = []" and "inj_on ep_id (erows (wh_world s))"
    and "wired_service X E x s = (res, t)"
  shows "case res of
      Inl e \<Rightarrow> prisma_view X wrows txlog (wh_world t) = prisma_view X wrows txlog (wh_world s)
        \<and> drows (wh_world t) = drows (wh_world s) \<and> wh_timers t = []
    | Inr r \<Rightarrow> explained (prisma_view X wrows txlog (wh_world s)) (prisma_view X wrows txlog (wh_world t)) [r]
        \<and> (\<exists>d. describes d x r
             \<and> told (event_for x d) (erows (wh_world s)) (drows (wh_world s)) (drows (wh_world t)))"
  by (rule wallet_hooks.service_law[OF assms])

text \<open>A withdrawal that succeeds, with an endpoint that answers 503: its delivery failed and is to be tried again.\<close>

definition demo_shop_withdrawal :: wallet_command where
  "demo_shop_withdrawal = Withdraw \<lparr>wi_userId = ''ana'', wi_currency = USD, wi_amount = ''4.50'', wi_description = None\<rparr>"

definition withdrawal_done :: "(exn + transaction_record) \<times> shop_world webhook_state \<Rightarrow> bool" where
  "withdrawal_done p = (case p of (Inl _, t) \<Rightarrow> False
     | (Inr r, t) \<Rightarrow> tr_currency r = USD \<and> map wr_balance (pw_wallets (wh_world t)) = [50000000]
         \<and> map wd_status (ww_deliveries (sw_hooks (wh_world t))) = [''failed''] \<and> length (wh_timers t) = 1)"

theorem webhook_follows_commit_witness:
  "let t = snd (wired_service demo_prisma shop_hooks demo_shop_withdrawal demo_shop)
   in (\<exists>d. we_userId d = ''ana'' \<and> we_currency d = ''USD''
         \<and> told (WithdrawCompleted d) (shop_erows (wh_world demo_shop)) {} (shop_drows (wh_world t)))
      \<and> map wr_balance (pw_wallets (wh_world t)) = [50000000]
      \<and> map wd_status (ww_deliveries (sw_hooks (wh_world t))) = [''failed''] \<and> length (wh_timers t) = 1"
proof -
  let ?run = "wired_service demo_prisma shop_hooks demo_shop_withdrawal demo_shop"
  have "withdrawal_done ?run" by code_simp
  then obtain r t where r: "?run = (Inr r, t)" "tr_currency r = USD"
    and res: "map wr_balance (pw_wallets (wh_world t)) = [50000000]"
      "map wd_status (ww_deliveries (sw_hooks (wh_world t))) = [''failed'']" "length (wh_timers t) = 1"
    by (cases ?run) (auto simp: withdrawal_done_def split: sum.splits)
  have inv: "prisma_inv demo_wrows (wh_world demo_shop)"
    using demo_database_inv by (simp add: prisma_inv_def demo_wrows_def demo_shop_def)
  have inj: "inj_on ep_id (shop_erows (wh_world demo_shop))" and no: "wh_timers demo_shop = []"
    and none: "shop_drows (wh_world demo_shop) = {}"
    by (simp_all add: shop_erows_def shop_drows_def demo_erows_def demo_drows_def demo_shop_def demo_hooks_def)
  from webhook_follows_commit[OF shop.wallet_hooks_axioms inv no inj r(1)] none
  obtain d where "describes d demo_shop_withdrawal r"
    "told (event_for demo_shop_withdrawal d) (shop_erows (wh_world demo_shop)) {} (shop_drows (wh_world t))" by auto
  then show ?thesis using res r by (auto simp: Let_def describes_def demo_shop_withdrawal_def)
qed

end
