(* ===== verification/Routes.thy ===== *)
theory Routes
  imports Prelude
begin

text \<open>
  The surface of the application: the controllers with the decorators that say at which path and method a
  handler is reached, which guards and interceptors stand before it and whether the CSRF check is waived
  (\<open>*.controller.ts\<close>), under the prefix \<open>main.ts\<close> sets. What the handlers do is in the theories of their
  components. The lemmas show that no two routes answer the same request, so the order in which they are
  registered does not matter, and list the routes that are open without a session.
\<close>

section \<open>Classes, paths and routes\<close>

text \<open>A class the container builds: its name, the tokens its constructor asks for, and the name of the
  passport strategy it registers (a strategy) or asks for (a guard).\<close>

record nest_class =
  cl_name :: string
  cl_inject :: "string list"
  cl_passport :: "string option"

datatype http_method = GET | POST | PUT | PATCH | DELETE

datatype segment = Lit string | Param string

record route =
  rt_method :: http_method
  rt_path :: "segment list"
  rt_handler :: string
  rt_guards :: "nest_class list"
  rt_interceptors :: "nest_class list"
  rt_skipCsrf :: bool

definition route ::
  "http_method \<Rightarrow> segment list \<Rightarrow> string \<Rightarrow> nest_class list \<Rightarrow> nest_class list \<Rightarrow> bool \<Rightarrow> route" where
  "route m path h guards interceptors skip = \<lparr>rt_method = m, rt_path = path, rt_handler = h, rt_guards = guards,
     rt_interceptors = interceptors, rt_skipCsrf = skip\<rparr>"

record nest_controller = nest_class +
  ct_path :: "segment list"
  ct_guards :: "nest_class list"
  ct_skipCsrf :: bool
  ct_routes :: "route list"

section \<open>Guards and interceptors\<close>

definition JwtAuthGuard_class :: nest_class where
  "JwtAuthGuard_class = \<lparr>cl_name = ''JwtAuthGuard'', cl_inject = [], cl_passport = Some ''jwt''\<rparr>"

definition RefreshTokenGuard_class :: nest_class where
  "RefreshTokenGuard_class = \<lparr>cl_name = ''RefreshTokenGuard'', cl_inject = [], cl_passport = Some ''jwt-refresh''\<rparr>"

definition TwoFactorPendingGuard_class :: nest_class where
  "TwoFactorPendingGuard_class = \<lparr>cl_name = ''TwoFactorPendingGuard'', cl_inject = [], cl_passport = Some ''two-factor-pending''\<rparr>"

definition GoogleAuthGuard_class :: nest_class where
  "GoogleAuthGuard_class = \<lparr>cl_name = ''GoogleAuthGuard'', cl_inject = [], cl_passport = Some ''google''\<rparr>"

definition AppleAuthGuard_class :: nest_class where
  "AppleAuthGuard_class = \<lparr>cl_name = ''AppleAuthGuard'', cl_inject = [], cl_passport = Some ''apple''\<rparr>"

definition RecaptchaGuard_class :: nest_class where
  "RecaptchaGuard_class = \<lparr>cl_name = ''RecaptchaGuard'', cl_inject = [], cl_passport = None\<rparr>"

definition KycGuard_class :: nest_class where
  "KycGuard_class = \<lparr>cl_name = ''KycGuard'', cl_inject = [''PrismaService''], cl_passport = None\<rparr>"

definition IdempotencyGuard_class :: nest_class where
  "IdempotencyGuard_class = \<lparr>cl_name = ''IdempotencyGuard'', cl_inject = [''PrismaService''], cl_passport = None\<rparr>"

section \<open>The controllers\<close>

definition WalletController_class :: nest_controller where
  "WalletController_class = \<lparr>cl_name = ''WalletController'', cl_inject = [''WalletService''], cl_passport = None,
     ct_path = [Lit ''wallet''], ct_guards = [JwtAuthGuard_class], ct_skipCsrf = False, ct_routes =
      [route GET [] ''getWallets'' [] [] False,
       route POST [Lit ''deposit''] ''deposit'' [] [IdempotencyGuard_class] False,
       route POST [Lit ''withdraw''] ''withdraw'' [KycGuard_class] [IdempotencyGuard_class] False,
       route POST [Lit ''exchange''] ''exchange'' [KycGuard_class] [IdempotencyGuard_class] False,
       route POST [Lit ''send''] ''send'' [KycGuard_class] [IdempotencyGuard_class] False]\<rparr>"

definition TransactionController_class :: nest_controller where
  "TransactionController_class = \<lparr>cl_name = ''TransactionController'', cl_inject = [''TransactionService''], cl_passport = None,
     ct_path = [Lit ''transactions''], ct_guards = [JwtAuthGuard_class], ct_skipCsrf = False, ct_routes =
      [route GET [] ''findAll'' [] [] False,
       route GET [Param ''id''] ''findOne'' [] [] False]\<rparr>"

definition InvestmentController_class :: nest_controller where
  "InvestmentController_class = \<lparr>cl_name = ''InvestmentController'', cl_inject = [''InvestmentService''], cl_passport = None,
     ct_path = [Lit ''investments''], ct_guards = [JwtAuthGuard_class], ct_skipCsrf = False, ct_routes =
      [route GET [Lit ''assets''] ''getAssets'' [] [] False,
       route GET [] ''getPortfolio'' [] [] False,
       route POST [Lit ''buy''] ''buy'' [KycGuard_class] [] False,
       route POST [Lit ''sell''] ''sell'' [KycGuard_class] [] False]\<rparr>"

definition CardController_class :: nest_controller where
  "CardController_class = \<lparr>cl_name = ''CardController'', cl_inject = [''CardService''], cl_passport = None,
     ct_path = [Lit ''cards''], ct_guards = [JwtAuthGuard_class], ct_skipCsrf = False, ct_routes =
      [route GET [] ''getCards'' [] [] False,
       route PATCH [Param ''id'', Lit ''freeze''] ''freeze'' [KycGuard_class] [] False,
       route PATCH [Param ''id'', Lit ''unfreeze''] ''unfreeze'' [KycGuard_class] [] False]\<rparr>"

definition ExchangeRateController_class :: nest_controller where
  "ExchangeRateController_class = \<lparr>cl_name = ''ExchangeRateController'', cl_inject = [''ExchangeRateService''], cl_passport = None,
     ct_path = [Lit ''exchange-rates''], ct_guards = [JwtAuthGuard_class], ct_skipCsrf = False, ct_routes =
      [route GET [Lit ''current''] ''getCurrent'' [] [] False,
       route GET [Param ''from'', Param ''to''] ''getRate'' [] [] False,
       route GET [Param ''from'', Param ''to'', Lit ''history''] ''getHistory'' [] [] False,
       route POST [Lit ''refresh''] ''refresh'' [KycGuard_class] [] False]\<rparr>"

definition KycController_class :: nest_controller where
  "KycController_class = \<lparr>cl_name = ''KycController'', cl_inject = [''KycService''], cl_passport = None,
     ct_path = [Lit ''kyc''], ct_guards = [JwtAuthGuard_class], ct_skipCsrf = False, ct_routes =
      [route GET [Lit ''status''] ''getStatus'' [] [] False,
       route POST [Lit ''submit''] ''submit'' [] [] False,
       route POST [Lit ''review''] ''review'' [] [] False]\<rparr>"

definition WebhookController_class :: nest_controller where
  "WebhookController_class = \<lparr>cl_name = ''WebhookController'', cl_inject = [''WebhookService'', ''PrismaService''], cl_passport = None,
     ct_path = [Lit ''webhooks''], ct_guards = [], ct_skipCsrf = False, ct_routes =
      [route POST [Lit ''endpoints''] ''createEndpoint'' [] [] False,
       route GET [Lit ''endpoints''] ''listEndpoints'' [] [] False,
       route DELETE [Lit ''endpoints'', Param ''id''] ''deleteEndpoint'' [] [] False,
       route GET [Lit ''endpoints'', Param ''id'', Lit ''deliveries''] ''listDeliveries'' [] [] False]\<rparr>"

definition BeneficiariesController_class :: nest_controller where
  "BeneficiariesController_class = \<lparr>cl_name = ''BeneficiariesController'', cl_inject = [''BeneficiariesService''], cl_passport = None,
     ct_path = [Lit ''beneficiaries''], ct_guards = [JwtAuthGuard_class], ct_skipCsrf = False, ct_routes =
      [route POST [] ''create'' [] [] False,
       route GET [] ''findAll'' [] [] False,
       route GET [Param ''id''] ''findOne'' [] [] False,
       route PATCH [Param ''id''] ''update'' [] [] False,
       route DELETE [Param ''id''] ''remove'' [] [] False]\<rparr>"

definition HealthController_class :: nest_controller where
  "HealthController_class = \<lparr>cl_name = ''HealthController'', cl_inject = [''HealthCheckService'', ''PrismaHealthIndicator'', ''RedisHealthIndicator''], cl_passport = None,
     ct_path = [Lit ''health''], ct_guards = [], ct_skipCsrf = False, ct_routes =
      [route GET [Lit ''live''] ''live'' [] [] False,
       route GET [Lit ''ready''] ''ready'' [] [] False,
       route GET [] ''check'' [] [] False]\<rparr>"

definition PricesController_class :: nest_controller where
  "PricesController_class = \<lparr>cl_name = ''PricesController'', cl_inject = [''PricesService''], cl_passport = None,
     ct_path = [Lit ''prices''], ct_guards = [JwtAuthGuard_class], ct_skipCsrf = False, ct_routes =
      [route GET [] ''getBatch'' [] [] False,
       route GET [Param ''symbol''] ''getOne'' [] [] False]\<rparr>"

definition PortfolioController_class :: nest_controller where
  "PortfolioController_class = \<lparr>cl_name = ''PortfolioController'', cl_inject = [''PortfolioService''], cl_passport = None,
     ct_path = [Lit ''portfolio''], ct_guards = [JwtAuthGuard_class], ct_skipCsrf = False, ct_routes =
      [route POST [] ''create'' [] [] False,
       route GET [] ''findAll'' [] [] False,
       route GET [Param ''id''] ''findOne'' [] [] False,
       route PUT [Param ''id''] ''update'' [] [] False,
       route DELETE [Param ''id''] ''delete'' [] [] False,
       route POST [Param ''id'', Lit ''assets''] ''addAsset'' [] [] False,
       route DELETE [Param ''id'', Lit ''assets'', Param ''assetId''] ''removeAsset'' [] [] False,
       route GET [Param ''id'', Lit ''valuation''] ''getValuation'' [] [] False]\<rparr>"

definition BrokersController_class :: nest_controller where
  "BrokersController_class = \<lparr>cl_name = ''BrokersController'', cl_inject = [''BrokersService''], cl_passport = None,
     ct_path = [Lit ''brokers''], ct_guards = [], ct_skipCsrf = True, ct_routes =
      [route GET [] ''getTariff'' [] [] False]\<rparr>"

definition UsersController_class :: nest_controller where
  "UsersController_class = \<lparr>cl_name = ''UsersController'', cl_inject = [''UsersService''], cl_passport = None,
     ct_path = [Lit ''users''], ct_guards = [], ct_skipCsrf = False, ct_routes =
      [route GET [Lit ''me''] ''getMe'' [JwtAuthGuard_class] [] False,
       route PATCH [Lit ''me''] ''updateMe'' [JwtAuthGuard_class] [] False]\<rparr>"

definition SessionController_class :: nest_controller where
  "SessionController_class = \<lparr>cl_name = ''SessionController'', cl_inject = [''SessionService''], cl_passport = None,
     ct_path = [Lit ''sessions''], ct_guards = [JwtAuthGuard_class], ct_skipCsrf = False, ct_routes =
      [route GET [] ''getAll'' [] [] False,
       route DELETE [Param ''id''] ''deleteOne'' [] [] False,
       route DELETE [] ''deleteAll'' [] [] False]\<rparr>"

definition AuthController_class :: nest_controller where
  "AuthController_class = \<lparr>cl_name = ''AuthController'', cl_inject = [''AuthService''], cl_passport = None,
     ct_path = [Lit ''auth''], ct_guards = [], ct_skipCsrf = False, ct_routes =
      [route POST [Lit ''register''] ''register'' [RecaptchaGuard_class] [] False,
       route POST [Lit ''login''] ''login'' [RecaptchaGuard_class] [] False,
       route GET [Lit ''csrf-token''] ''csrfToken'' [] [] True,
       route POST [Lit ''refresh''] ''refresh'' [RefreshTokenGuard_class] [] False,
       route POST [Lit ''logout''] ''logout'' [RefreshTokenGuard_class] [] False,
       route POST [Lit ''forgot-password''] ''forgotPassword'' [] [] False,
       route POST [Lit ''verify-otp''] ''verifyOtp'' [] [] False,
       route POST [Lit ''reset-password''] ''resetPassword'' [] [] False,
       route POST [Lit ''2fa'', Lit ''codes'', Lit ''regenerate''] ''regenerateBackupCodes'' [JwtAuthGuard_class] [] False,
       route POST [Lit ''2fa'', Lit ''generate''] ''generate2FA'' [JwtAuthGuard_class] [] False,
       route POST [Lit ''2fa'', Lit ''enable''] ''enable2FA'' [JwtAuthGuard_class] [] False,
       route POST [Lit ''2fa'', Lit ''disable''] ''disable2FA'' [JwtAuthGuard_class] [] False,
       route POST [Lit ''2fa'', Lit ''verify''] ''verify2FA'' [TwoFactorPendingGuard_class] [] False,
       route GET [Lit ''google''] ''googleAuth'' [GoogleAuthGuard_class] [] True,
       route GET [Lit ''google'', Lit ''callback''] ''googleCallback'' [GoogleAuthGuard_class] [] True,
       route GET [Lit ''apple''] ''appleAuth'' [AppleAuthGuard_class] [] True,
       route GET [Lit ''apple'', Lit ''callback''] ''appleCallbackGet'' [AppleAuthGuard_class] [] True,
       route POST [Lit ''apple'', Lit ''callback''] ''appleCallbackPost'' [AppleAuthGuard_class] [] True]\<rparr>"

definition controllers :: "nest_controller list" where
  "controllers = [UsersController_class, SessionController_class, AuthController_class, WalletController_class,
     TransactionController_class, InvestmentController_class, CardController_class, ExchangeRateController_class,
     KycController_class, WebhookController_class, BeneficiariesController_class, HealthController_class,
     PricesController_class, PortfolioController_class, BrokersController_class]"

section \<open>Routing\<close>

text \<open>\<open>setGlobalPrefix("api")\<close> and the version in the path, \<open>v1\<close> where a controller names none.\<close>

definition api_prefix :: "segment list" where
  "api_prefix = [Lit ''api'', Lit ''v1'']"

definition full_path :: "nest_controller \<times> route \<Rightarrow> segment list" where
  "full_path x = api_prefix @ ct_path (fst x) @ rt_path (snd x)"

fun accepts :: "segment list \<Rightarrow> string list \<Rightarrow> bool" where
  "accepts [] [] = True"
| "accepts (Lit a # ss) (b # bs) = (a = b \<and> accepts ss bs)"
| "accepts (Param n # ss) (b # bs) = accepts ss bs"
| "accepts _ _ = False"

definition all_routes :: "(nest_controller \<times> route) list" where
  "all_routes = concat (map (\<lambda>c. map (Pair c) (ct_routes c)) controllers)"

definition answers :: "http_method \<Rightarrow> string list \<Rightarrow> nest_controller \<times> route \<Rightarrow> bool" where
  "answers m path x \<longleftrightarrow> rt_method (snd x) = m \<and> accepts (full_path x) path"

definition find_route :: "http_method \<Rightarrow> string list \<Rightarrow> (nest_controller \<times> route) option" where
  "find_route m path = List.find (answers m path) all_routes"

text \<open>The guards of a route: those of its class, then its own. The waiver of the CSRF check is read from the
  handler and else from the class.\<close>

definition guards_of :: "nest_controller \<times> route \<Rightarrow> nest_class list" where
  "guards_of x = ct_guards (fst x) @ rt_guards (snd x)"

definition csrf_waived :: "nest_controller \<times> route \<Rightarrow> bool" where
  "csrf_waived x \<longleftrightarrow> rt_skipCsrf (snd x) \<or> ct_skipCsrf (fst x)"

section \<open>No two routes overlap\<close>

fun overlap :: "segment list \<Rightarrow> segment list \<Rightarrow> bool" where
  "overlap [] [] = True"
| "overlap (Lit a # ss) (Lit b # ts) = (a = b \<and> overlap ss ts)"
| "overlap (Lit a # ss) (Param n # ts) = overlap ss ts"
| "overlap (Param n # ss) (t # ts) = overlap ss ts"
| "overlap _ _ = False"

lemma accepts_overlap: "accepts p path \<Longrightarrow> accepts q path \<Longrightarrow> overlap p q"
proof (induction path arbitrary: p q)
  case Nil
  then show ?case by (cases p; cases q) (auto elim: accepts.elims)
next
  case (Cons b bs)
  then obtain s ss t ts where "p = s # ss" "q = t # ts" by (cases p; cases q) auto
  then show ?case using Cons by (cases s; cases t) auto
qed

fun apart :: "('a \<Rightarrow> 'a \<Rightarrow> bool) \<Rightarrow> 'a list \<Rightarrow> bool" where
  "apart r [] = True"
| "apart r (x # xs) = (list_all (\<lambda>y. \<not> r x y \<and> \<not> r y x) xs \<and> apart r xs)"

lemma apart_unique: "apart r xs \<Longrightarrow> x \<in> set xs \<Longrightarrow> y \<in> set xs \<Longrightarrow> r x y \<Longrightarrow> x = y"
  by (induction xs) (auto simp: list_all_iff)

text \<open>The controllers have one segment each, all different; within one, no two routes accept the same.\<close>

definition clashes :: "route \<Rightarrow> route \<Rightarrow> bool" where
  "clashes r r' \<longleftrightarrow> rt_method r = rt_method r' \<and> overlap (rt_path r) (rt_path r')"

definition one_segment :: "segment list \<Rightarrow> bool" where
  "one_segment p = (case p of [Lit a] \<Rightarrow> True | _ \<Rightarrow> False)"

lemma one_segment_iff: "one_segment p \<longleftrightarrow> (\<exists>a. p = [Lit a])"
  by (auto simp: one_segment_def split: list.splits segment.splits)

lemma controllers_apart:
  "list_all one_segment (map ct_path controllers)" "apart (=) (map ct_path controllers)"
  by code_simp+

lemma routes_apart: "list_all (\<lambda>c. apart clashes (ct_routes c)) controllers"
  by code_simp

lemma all_routes_iff: "x \<in> set all_routes \<longleftrightarrow> fst x \<in> set controllers \<and> snd x \<in> set (ct_routes (fst x))"
  by (cases x) (auto simp: all_routes_def)

lemma apart_inj: "apart (=) (map f xs) \<Longrightarrow> x \<in> set xs \<Longrightarrow> y \<in> set xs \<Longrightarrow> f x = f y \<Longrightarrow> x = y"
  by (induction xs) (auto simp: list_all_iff)

lemma answers_unique:
  assumes "x \<in> set all_routes" and "y \<in> set all_routes" and "answers m path x" and "answers m path y"
  shows "x = y"
proof -
  obtain c r c' r' where xy: "x = (c, r)" "y = (c', r')" by (cases x; cases y)
  then have mem: "c \<in> set controllers" "r \<in> set (ct_routes c)" "c' \<in> set controllers" "r' \<in> set (ct_routes c')"
    using assms(1,2) by (simp_all add: all_routes_iff)
  obtain a a' where seg: "ct_path c = [Lit a]" "ct_path c' = [Lit a']"
    using controllers_apart(1) mem(1,3) unfolding list_all_iff one_segment_iff set_map by blast
  have "overlap (full_path x) (full_path y)"
    using assms(3,4) by (auto simp: answers_def intro: accepts_overlap)
  then have "a = a'" and ov: "overlap (rt_path r) (rt_path r')"
    using seg xy by (simp_all add: full_path_def api_prefix_def)
  then have c: "c = c'" using apart_inj[OF controllers_apart(2) mem(1,3)] seg by simp
  have "apart clashes (ct_routes c)" using routes_apart mem(1) by (simp add: list_all_iff)
  moreover have "clashes r r'" using ov assms(3,4) xy by (simp add: clashes_def answers_def)
  ultimately have "r = r'" using apart_unique mem(2,4) c by metis
  then show ?thesis using c xy by simp
qed

lemma find_route_iff: "find_route m path = Some x \<longleftrightarrow> x \<in> set all_routes \<and> answers m path x"
proof
  assume "find_route m path = Some x"
  then show "x \<in> set all_routes \<and> answers m path x" unfolding find_route_def by (rule find_Some_iff_mem)
next
  assume x: "x \<in> set all_routes \<and> answers m path x"
  then obtain y where y: "find_route m path = Some y"
    unfolding find_route_def by (metis find_None_iff not_None_eq)
  then have "y \<in> set all_routes \<and> answers m path y" unfolding find_route_def by (rule find_Some_iff_mem)
  then show "find_route m path = Some x" using answers_unique x y by metis
qed

section \<open>Properties\<close>

text \<open>The routes a request without a session reaches past the guards, by controller and handler.\<close>

definition open_routes :: "(string \<times> string) list" where
  "open_routes =
     map (Pair ''AuthController'') [''register'', ''login'', ''csrfToken'', ''refresh'', ''logout'', ''forgotPassword'',
       ''verifyOtp'', ''resetPassword'', ''verify2FA'', ''googleAuth'', ''googleCallback'', ''appleAuth'',
       ''appleCallbackGet'', ''appleCallbackPost'']
     @ map (Pair ''HealthController'') [''live'', ''ready'', ''check'']
     @ map (Pair ''WebhookController'') [''createEndpoint'', ''listEndpoints'', ''deleteEndpoint'', ''listDeliveries'']
     @ [(''BrokersController'', ''getTariff'')]"

definition surface_ok :: "string \<Rightarrow> nest_class list \<Rightarrow> bool \<Rightarrow> route \<Rightarrow> bool" where
  "surface_ok name guards waived r \<longleftrightarrow>
     (JwtAuthGuard_class \<in> set (guards @ rt_guards r) \<or> (name, rt_handler r) \<in> set open_routes)
     \<and> (rt_method r = GET \<or> \<not> (rt_skipCsrf r \<or> waived) \<or> rt_handler r = ''appleCallbackPost'')
     \<and> ((name, rt_handler r) \<in> {(''WalletController'', ''withdraw''), (''WalletController'', ''exchange''),
          (''WalletController'', ''send''), (''InvestmentController'', ''buy''), (''InvestmentController'', ''sell'')}
        \<longrightarrow> KycGuard_class \<in> set (guards @ rt_guards r))"

lemma surface_checked:
  "list_all (\<lambda>c. list_all (surface_ok (cl_name c) (ct_guards c) (ct_skipCsrf c)) (ct_routes c)) controllers"
  by code_simp

text \<open>C18. The surface without a session is the list above and nothing else, and no request is ambiguous: whatever
  path and method, at most one route answers; if \<open>JwtAuthGuard\<close> is not among its guards it is one of the
  listed ones; if it is not a \<open>GET\<close> and waives the CSRF check it is Apple's callback; and a withdrawal, an
  exchange, a transfer or a trade has the KYC guard.\<close>

theorem surface_is_closed:
  assumes "find_route m path = Some (c, r)"
  shows "(\<forall>y \<in> set all_routes. answers m path y \<longrightarrow> y = (c, r))
    \<and> (JwtAuthGuard_class \<notin> set (guards_of (c, r)) \<longrightarrow> (cl_name c, rt_handler r) \<in> set open_routes)
    \<and> (m \<noteq> GET \<longrightarrow> csrf_waived (c, r) \<longrightarrow> rt_handler r = ''appleCallbackPost'')
    \<and> (cl_name c = ''WalletController'' \<longrightarrow> rt_handler r \<in> {''withdraw'', ''exchange'', ''send''}
        \<longrightarrow> KycGuard_class \<in> set (guards_of (c, r)))
    \<and> (cl_name c = ''InvestmentController'' \<longrightarrow> rt_handler r \<in> {''buy'', ''sell''}
        \<longrightarrow> KycGuard_class \<in> set (guards_of (c, r)))"
proof -
  have x: "(c, r) \<in> set all_routes" "answers m path (c, r)" using assms by (simp_all add: find_route_iff)
  then have s: "surface_ok (cl_name c) (ct_guards c) (ct_skipCsrf c) r"
    using surface_checked by (simp add: list_all_iff all_routes_iff)
  have u: "\<forall>y \<in> set all_routes. answers m path y \<longrightarrow> y = (c, r)" using answers_unique x by blast
  have "rt_method r = m" using x(2) by (simp add: answers_def)
  then show ?thesis using s unfolding surface_ok_def guards_of_def csrf_waived_def fst_conv snd_conv
    by (intro conjI[OF u] conjI impI) auto
qed

theorem surface_is_closed_witness:
  "\<exists>x. find_route POST [''api'', ''v1'', ''wallet'', ''send''] = Some x
     \<and> cl_name (fst x) = ''WalletController'' \<and> KycGuard_class \<in> set (guards_of x)"
proof -
  let ?r = "route POST [Lit ''send''] ''send'' [KycGuard_class] [IdempotencyGuard_class] False"
  have "WalletController_class \<in> set controllers" unfolding controllers_def set_simps by (intro insertI1 insertI2)
  moreover have "?r \<in> set (ct_routes WalletController_class)" by (simp add: WalletController_class_def)
  moreover have "answers POST [''api'', ''v1'', ''wallet'', ''send''] (WalletController_class, ?r)"
    by (simp add: answers_def full_path_def api_prefix_def WalletController_class_def route_def)
  ultimately have f: "find_route POST [''api'', ''v1'', ''wallet'', ''send''] = Some (WalletController_class, ?r)"
    by (simp add: find_route_iff all_routes_iff)
  have "cl_name WalletController_class = ''WalletController''" "rt_handler ?r = ''send''"
    by (simp_all add: WalletController_class_def route_def)
  then show ?thesis using surface_is_closed[OF f] f by auto
qed

end
