(* ===== verification/Wiring.thy ===== *)
theory Wiring
  imports Routes
begin

text \<open>
  How the application is put together and started: the classes the container builds, with what their
  constructors ask for; the modules (\<open>*.module.ts\<close>), each with what it imports, provides and exports; the
  settings of \<open>main.ts\<close>, the connection of \<open>PrismaService\<close> and the logging interceptor. The container is NestJS,
  not part of the sources: which tokens its own modules export is the parameter \<open>nest_lib\<close>. What is proved
  is a property of the declarations: everything a constructor asks for is visible in its module, and
  the classes can be built one after the other.
\<close>

section \<open>The classes\<close>

definition PrismaService_class :: nest_class where
  "PrismaService_class = \<lparr>cl_name = ''PrismaService'', cl_inject = [], cl_passport = None\<rparr>"

definition HashService_class :: nest_class where
  "HashService_class = \<lparr>cl_name = ''HashService'', cl_inject = [], cl_passport = None\<rparr>"

definition EmailsService_class :: nest_class where
  "EmailsService_class = \<lparr>cl_name = ''EmailsService'', cl_inject = [], cl_passport = None\<rparr>"

definition TokensService_class :: nest_class where
  "TokensService_class = \<lparr>cl_name = ''TokensService'', cl_inject = [''CACHE_MANAGER''], cl_passport = None\<rparr>"

definition SessionService_class :: nest_class where
  "SessionService_class = \<lparr>cl_name = ''SessionService'', cl_inject = [''PrismaService'', ''EventEmitter2''], cl_passport = None\<rparr>"

definition UsersService_class :: nest_class where
  "UsersService_class = \<lparr>cl_name = ''UsersService'', cl_inject = [''PrismaService'', ''HashService''], cl_passport = None\<rparr>"

definition KycService_class :: nest_class where
  "KycService_class = \<lparr>cl_name = ''KycService'', cl_inject = [''PrismaService''], cl_passport = None\<rparr>"

definition WebhookService_class :: nest_class where
  "WebhookService_class = \<lparr>cl_name = ''WebhookService'', cl_inject = [''PrismaService''], cl_passport = None\<rparr>"

definition SessionTokenService_class :: nest_class where
  "SessionTokenService_class = \<lparr>cl_name = ''SessionTokenService'', cl_inject = [''JwtService'', ''HashService'', ''SessionService''], cl_passport = None\<rparr>"

definition TwoFactorService_class :: nest_class where
  "TwoFactorService_class = \<lparr>cl_name = ''TwoFactorService'', cl_inject = [''PrismaService'', ''UsersService'', ''HashService'', ''JwtService'', ''SessionTokenService''], cl_passport = None\<rparr>"

definition PasswordRecoveryService_class :: nest_class where
  "PasswordRecoveryService_class = \<lparr>cl_name = ''PasswordRecoveryService'', cl_inject = [''UsersService'', ''TokensService'', ''EmailsService''], cl_passport = None\<rparr>"

definition AuthService_class :: nest_class where
  "AuthService_class = \<lparr>cl_name = ''AuthService'', cl_inject = [''UsersService'', ''HashService'', ''JwtService'', ''SessionService'', ''SessionTokenService'', ''TwoFactorService'', ''PasswordRecoveryService''], cl_passport = None\<rparr>"

definition JwtStrategy_class :: nest_class where
  "JwtStrategy_class = \<lparr>cl_name = ''JwtStrategy'', cl_inject = [''SessionService''], cl_passport = Some ''jwt''\<rparr>"

definition RefreshStrategy_class :: nest_class where
  "RefreshStrategy_class = \<lparr>cl_name = ''RefreshStrategy'', cl_inject = [], cl_passport = Some ''jwt-refresh''\<rparr>"

definition GoogleStrategy_class :: nest_class where
  "GoogleStrategy_class = \<lparr>cl_name = ''GoogleStrategy'', cl_inject = [], cl_passport = Some ''google''\<rparr>"

definition AppleStrategy_class :: nest_class where
  "AppleStrategy_class = \<lparr>cl_name = ''AppleStrategy'', cl_inject = [], cl_passport = Some ''apple''\<rparr>"

definition TwoFactorPendingStrategy_class :: nest_class where
  "TwoFactorPendingStrategy_class = \<lparr>cl_name = ''TwoFactorPendingStrategy'', cl_inject = [], cl_passport = Some ''two-factor-pending''\<rparr>"

definition GeolocationService_class :: nest_class where
  "GeolocationService_class = \<lparr>cl_name = ''GeolocationService'', cl_inject = [''CACHE_MANAGER''], cl_passport = None\<rparr>"

definition GeolocationListener_class :: nest_class where
  "GeolocationListener_class = \<lparr>cl_name = ''GeolocationListener'', cl_inject = [''GeolocationService'', ''PrismaService''], cl_passport = None\<rparr>"

definition DepositService_class :: nest_class where
  "DepositService_class = \<lparr>cl_name = ''DepositService'', cl_inject = [''UNIT_OF_WORK'', ''WebhookService''], cl_passport = None\<rparr>"

definition WithdrawService_class :: nest_class where
  "WithdrawService_class = \<lparr>cl_name = ''WithdrawService'', cl_inject = [''UNIT_OF_WORK'', ''WebhookService''], cl_passport = None\<rparr>"

definition SendService_class :: nest_class where
  "SendService_class = \<lparr>cl_name = ''SendService'', cl_inject = [''UNIT_OF_WORK'', ''BENEFICIARY_READER'', ''WebhookService''], cl_passport = None\<rparr>"

definition ExchangeService_class :: nest_class where
  "ExchangeService_class = \<lparr>cl_name = ''ExchangeService'', cl_inject = [''PrismaService''], cl_passport = None\<rparr>"

definition WalletService_class :: nest_class where
  "WalletService_class = \<lparr>cl_name = ''WalletService'', cl_inject = [''PrismaService'', ''DepositService'', ''WithdrawService'', ''ExchangeService'', ''SendService''], cl_passport = None\<rparr>"

definition PrismaUnitOfWork_class :: nest_class where
  "PrismaUnitOfWork_class = \<lparr>cl_name = ''PrismaUnitOfWork'', cl_inject = [''PrismaService''], cl_passport = None\<rparr>"

definition PrismaBeneficiaryReader_class :: nest_class where
  "PrismaBeneficiaryReader_class = \<lparr>cl_name = ''PrismaBeneficiaryReader'', cl_inject = [''PrismaService''], cl_passport = None\<rparr>"

definition TransactionService_class :: nest_class where
  "TransactionService_class = \<lparr>cl_name = ''TransactionService'', cl_inject = [''PrismaService''], cl_passport = None\<rparr>"

definition InvestmentService_class :: nest_class where
  "InvestmentService_class = \<lparr>cl_name = ''InvestmentService'', cl_inject = [''PrismaService''], cl_passport = None\<rparr>"

definition CardService_class :: nest_class where
  "CardService_class = \<lparr>cl_name = ''CardService'', cl_inject = [''PrismaService''], cl_passport = None\<rparr>"

definition ExchangeRateService_class :: nest_class where
  "ExchangeRateService_class = \<lparr>cl_name = ''ExchangeRateService'', cl_inject = [''PrismaService''], cl_passport = None\<rparr>"

definition BeneficiariesService_class :: nest_class where
  "BeneficiariesService_class = \<lparr>cl_name = ''BeneficiariesService'', cl_inject = [''PrismaService''], cl_passport = None\<rparr>"

definition PricesService_class :: nest_class where
  "PricesService_class = \<lparr>cl_name = ''PricesService'', cl_inject = [''CACHE_MANAGER''], cl_passport = None\<rparr>"

definition PortfolioService_class :: nest_class where
  "PortfolioService_class = \<lparr>cl_name = ''PortfolioService'', cl_inject = [''PrismaService'', ''PricesService''], cl_passport = None\<rparr>"

definition BrokersService_class :: nest_class where
  "BrokersService_class = \<lparr>cl_name = ''BrokersService'', cl_inject = [''PrismaService''], cl_passport = None\<rparr>"

definition PrismaHealthIndicator_class :: nest_class where
  "PrismaHealthIndicator_class = \<lparr>cl_name = ''PrismaHealthIndicator'', cl_inject = [''PrismaService''], cl_passport = None\<rparr>"

definition RedisHealthIndicator_class :: nest_class where
  "RedisHealthIndicator_class = \<lparr>cl_name = ''RedisHealthIndicator'', cl_inject = [], cl_passport = None\<rparr>"

definition IdempotencyCleanupService_class :: nest_class where
  "IdempotencyCleanupService_class = \<lparr>cl_name = ''IdempotencyCleanupService'', cl_inject = [''PrismaService''], cl_passport = None\<rparr>"

definition CsrfGuard_class :: nest_class where
  "CsrfGuard_class = \<lparr>cl_name = ''CsrfGuard'', cl_inject = [''Reflector''], cl_passport = None\<rparr>"

section \<open>The modules\<close>

text \<open>A provider is a token with the class that stands for it; the class of a library is \<open>None\<close>.\<close>

type_synonym nest_provider = "string \<times> nest_class option"

definition provide :: "string \<Rightarrow> nest_class \<Rightarrow> nest_provider" where
  "provide token c = (token, Some c)"

definition itself :: "nest_class \<Rightarrow> nest_provider" where
  "itself c = (cl_name c, Some c)"

record nest_module =
  md_name :: string
  md_imports :: "string list"
  md_controllers :: "nest_controller list"
  md_providers :: "nest_provider list"
  md_exports :: "string list"

definition PrismaModule :: nest_module where
  "PrismaModule = \<lparr>md_name = ''PrismaModule'', md_imports = [],
     md_controllers = [],
     md_providers = [itself PrismaService_class],
     md_exports = [''PrismaService'']\<rparr>"

definition HashModule :: nest_module where
  "HashModule = \<lparr>md_name = ''HashModule'', md_imports = [],
     md_controllers = [],
     md_providers = [itself HashService_class],
     md_exports = [''HashService'']\<rparr>"

definition EmailsModule :: nest_module where
  "EmailsModule = \<lparr>md_name = ''EmailsModule'', md_imports = [],
     md_controllers = [],
     md_providers = [itself EmailsService_class],
     md_exports = [''EmailsService'']\<rparr>"

definition TokensModule :: nest_module where
  "TokensModule = \<lparr>md_name = ''TokensModule'', md_imports = [],
     md_controllers = [],
     md_providers = [itself TokensService_class],
     md_exports = [''TokensService'']\<rparr>"

definition SessionModule :: nest_module where
  "SessionModule = \<lparr>md_name = ''SessionModule'', md_imports = [''PrismaModule'', ''PassportModule''],
     md_controllers = [SessionController_class],
     md_providers = [itself SessionService_class],
     md_exports = [''SessionService'']\<rparr>"

definition UsersModule :: nest_module where
  "UsersModule = \<lparr>md_name = ''UsersModule'', md_imports = [''PrismaModule'', ''HashModule''],
     md_controllers = [UsersController_class],
     md_providers = [itself UsersService_class],
     md_exports = [''UsersService'']\<rparr>"

definition KycModule :: nest_module where
  "KycModule = \<lparr>md_name = ''KycModule'', md_imports = [''PrismaModule''],
     md_controllers = [KycController_class],
     md_providers = [itself KycService_class, itself KycGuard_class],
     md_exports = [''KycService'', ''KycGuard'']\<rparr>"

definition WebhookModule :: nest_module where
  "WebhookModule = \<lparr>md_name = ''WebhookModule'', md_imports = [''PrismaModule''],
     md_controllers = [WebhookController_class],
     md_providers = [itself WebhookService_class],
     md_exports = [''WebhookService'']\<rparr>"

definition AuthModule :: nest_module where
  "AuthModule = \<lparr>md_name = ''AuthModule'', md_imports = [''PassportModule'', ''JwtModule'', ''PrismaModule'', ''UsersModule'', ''HashModule'', ''SessionModule'', ''TokensModule'', ''EmailsModule''],
     md_controllers = [AuthController_class],
     md_providers = [itself AuthService_class,
       itself SessionTokenService_class,
       itself TwoFactorService_class,
       itself PasswordRecoveryService_class,
       itself JwtStrategy_class,
       itself RefreshStrategy_class,
       itself GoogleStrategy_class,
       itself AppleStrategy_class,
       itself TwoFactorPendingStrategy_class,
       itself GeolocationService_class,
       itself GeolocationListener_class],
     md_exports = []\<rparr>"

definition WalletModule :: nest_module where
  "WalletModule = \<lparr>md_name = ''WalletModule'', md_imports = [''PrismaModule'', ''KycModule'', ''WebhookModule''],
     md_controllers = [WalletController_class],
     md_providers = [itself WalletService_class,
       itself DepositService_class,
       itself WithdrawService_class,
       itself ExchangeService_class,
       itself SendService_class,
       itself IdempotencyGuard_class,
       provide ''UNIT_OF_WORK'' PrismaUnitOfWork_class,
       provide ''BENEFICIARY_READER'' PrismaBeneficiaryReader_class],
     md_exports = [''WalletService'']\<rparr>"

definition TransactionModule :: nest_module where
  "TransactionModule = \<lparr>md_name = ''TransactionModule'', md_imports = [''PrismaModule'', ''KycModule''],
     md_controllers = [TransactionController_class],
     md_providers = [itself TransactionService_class],
     md_exports = [''TransactionService'']\<rparr>"

definition InvestmentModule :: nest_module where
  "InvestmentModule = \<lparr>md_name = ''InvestmentModule'', md_imports = [''PrismaModule'', ''KycModule''],
     md_controllers = [InvestmentController_class],
     md_providers = [itself InvestmentService_class],
     md_exports = [''InvestmentService'']\<rparr>"

definition CardModule :: nest_module where
  "CardModule = \<lparr>md_name = ''CardModule'', md_imports = [''PrismaModule'', ''KycModule''],
     md_controllers = [CardController_class],
     md_providers = [itself CardService_class],
     md_exports = [''CardService'']\<rparr>"

definition ExchangeRateModule :: nest_module where
  "ExchangeRateModule = \<lparr>md_name = ''ExchangeRateModule'', md_imports = [''PrismaModule'', ''KycModule''],
     md_controllers = [ExchangeRateController_class],
     md_providers = [itself ExchangeRateService_class],
     md_exports = [''ExchangeRateService'']\<rparr>"

definition BeneficiariesModule :: nest_module where
  "BeneficiariesModule = \<lparr>md_name = ''BeneficiariesModule'', md_imports = [''PrismaModule''],
     md_controllers = [BeneficiariesController_class],
     md_providers = [itself BeneficiariesService_class],
     md_exports = [''BeneficiariesService'']\<rparr>"

definition HealthModule :: nest_module where
  "HealthModule = \<lparr>md_name = ''HealthModule'', md_imports = [''TerminusModule'', ''PrismaModule''],
     md_controllers = [HealthController_class],
     md_providers = [itself PrismaHealthIndicator_class, itself RedisHealthIndicator_class],
     md_exports = []\<rparr>"

definition PricesModule :: nest_module where
  "PricesModule = \<lparr>md_name = ''PricesModule'', md_imports = [],
     md_controllers = [PricesController_class],
     md_providers = [itself PricesService_class],
     md_exports = [''PricesService'']\<rparr>"

definition PortfolioModule :: nest_module where
  "PortfolioModule = \<lparr>md_name = ''PortfolioModule'', md_imports = [''PrismaModule'', ''PricesModule''],
     md_controllers = [PortfolioController_class],
     md_providers = [itself PortfolioService_class],
     md_exports = [''PortfolioService'']\<rparr>"

definition BrokersModule :: nest_module where
  "BrokersModule = \<lparr>md_name = ''BrokersModule'', md_imports = [''PrismaModule''],
     md_controllers = [BrokersController_class],
     md_providers = [itself BrokersService_class],
     md_exports = [''BrokersService'']\<rparr>"

definition AppModule :: nest_module where
  "AppModule = \<lparr>md_name = ''AppModule'', md_imports = [''EventEmitterModule'', ''ThrottlerModule'', ''CacheModule'', ''LoggerModule'',
       ''PrismaModule'', ''UsersModule'', ''HashModule'', ''SessionModule'', ''TokensModule'', ''EmailsModule'', ''AuthModule'',
       ''WalletModule'', ''TransactionModule'', ''InvestmentModule'', ''CardModule'', ''ExchangeRateModule'', ''KycModule'',
       ''WebhookModule'', ''BeneficiariesModule'', ''HealthModule'', ''PricesModule'', ''PortfolioModule'', ''BrokersModule''],
     md_controllers = [],
     md_providers = [(''APP_GUARD'', None), provide ''APP_GUARD'' CsrfGuard_class, itself IdempotencyCleanupService_class],
     md_exports = []\<rparr>"

text \<open>The module \<open>AppModule\<close> registers with \<open>isGlobal: true\<close>.\<close>

definition global_imports :: "string list" where
  "global_imports = [''CacheModule'']"

definition modules :: "nest_module list" where
  "modules = [AppModule, PrismaModule, HashModule, EmailsModule, TokensModule, SessionModule, UsersModule, KycModule,
     WebhookModule, AuthModule, WalletModule, TransactionModule, InvestmentModule, CardModule, ExchangeRateModule,
     BeneficiariesModule, HealthModule, PricesModule, PortfolioModule, BrokersModule]"

section \<open>What is visible where\<close>

text \<open>Of the library: its modules, the tokens each exports, those among them that are global on their own, and
  the tokens of the core, which are everywhere.\<close>

record nest_lib =
  lb_exports :: "string \<Rightarrow> string set"
  lb_modules :: "string set"
  lb_globals :: "string set"
  lb_core :: "string set"

definition tokens_of :: "nest_module \<Rightarrow> string list" where
  "tokens_of m = map fst (md_providers m)"

definition exported :: "nest_lib \<Rightarrow> string \<Rightarrow> string set" where
  "exported lib i =
     (case map_of (map (\<lambda>m. (md_name m, md_exports m)) modules) i of Some ts \<Rightarrow> set ts | None \<Rightarrow> lb_exports lib i)"

definition visible :: "nest_lib \<Rightarrow> nest_module \<Rightarrow> string \<Rightarrow> bool" where
  "visible lib m t \<longleftrightarrow> t \<in> set (tokens_of m) \<or> (\<exists>i \<in> set (md_imports m). t \<in> exported lib i)
     \<or> (\<exists>g \<in> set (md_imports AppModule). (g \<in> set global_imports \<or> g \<in> lb_globals lib) \<and> t \<in> exported lib g)
     \<or> t \<in> lb_core lib"

text \<open>The classes built in a module: its providers, its controllers, and the guards and interceptors these name.\<close>

definition provided_classes :: "nest_module \<Rightarrow> nest_class list" where
  "provided_classes m = List.map_filter snd (md_providers m)"

definition enhancers :: "nest_controller \<Rightarrow> nest_class list" where
  "enhancers c = ct_guards c @ concat (map (\<lambda>r. rt_guards r @ rt_interceptors r) (ct_routes c))"

definition needs_of :: "nest_module \<Rightarrow> string list" where
  "needs_of m = concat (map cl_inject (provided_classes m))
     @ concat (map (\<lambda>c. cl_inject c @ concat (map cl_inject (enhancers c))) (md_controllers m))"

definition resolved :: "nest_lib \<Rightarrow> nest_module \<Rightarrow> bool" where
  "resolved lib m \<longleftrightarrow> (\<forall>t \<in> set (needs_of m). visible lib m t) \<and> set (md_exports m) \<subseteq> set (tokens_of m)
     \<and> (\<forall>i \<in> set (md_imports m). i \<in> md_name ` set modules \<or> i \<in> lb_modules lib)"

text \<open>What the code relies on of the library, as its documentation says.\<close>

definition documented :: "nest_lib \<Rightarrow> bool" where
  "documented lib \<longleftrightarrow> ''JwtService'' \<in> lb_exports lib ''JwtModule'' \<and> ''HealthCheckService'' \<in> lb_exports lib ''TerminusModule''
     \<and> ''CACHE_MANAGER'' \<in> lb_exports lib ''CacheModule'' \<and> ''EventEmitter2'' \<in> lb_exports lib ''EventEmitterModule''
     \<and> ''EventEmitterModule'' \<in> lb_globals lib \<and> ''Reflector'' \<in> lb_core lib
     \<and> {''EventEmitterModule'', ''ThrottlerModule'', ''CacheModule'', ''LoggerModule'', ''PassportModule'', ''JwtModule'',
        ''TerminusModule''} \<subseteq> lb_modules lib"

section \<open>An order to build in\<close>

definition built :: "(string \<times> nest_class) list" where
  "built = concat (map (\<lambda>m. List.map_filter (\<lambda>(t, c). map_option (Pair t) c) (md_providers m)
     @ map (\<lambda>c. (cl_name c, nest_class.truncate c)) (md_controllers m)) modules)"

text \<open>What of the application itself each class waits for, by name, and the rounds in which those
  that wait for nothing more are built.\<close>

definition waits_for :: "(string \<times> string list) list" where
  "waits_for = map (\<lambda>(t, c). (t, filter (\<lambda>n. n \<in> set (map fst built)) (cl_inject c))) built"

fun build_rounds ::
  "nat \<Rightarrow> (string \<times> string list) list \<Rightarrow> string list \<Rightarrow> string list \<times> (string \<times> string list) list" where
  "build_rounds 0 pending done = (done, pending)"
| "build_rounds (Suc n) pending done =
     (let (ready, rest) = partition (\<lambda>(t, ns). list_all (\<lambda>x. x \<in> set done) ns) pending
      in build_rounds n rest (done @ map fst ready))"

definition in_order :: "(string \<times> string list) list \<Rightarrow> string list \<Rightarrow> bool" where
  "in_order ws order \<longleftrightarrow> (\<forall>i < length order. \<exists>ns. (order ! i, ns) \<in> set ws \<and> set ns \<subseteq> set (take i order))"

lemma in_order_append:
  assumes "in_order ws order" and "\<forall>t \<in> set new. \<exists>ns. (t, ns) \<in> set ws \<and> set ns \<subseteq> set order"
  shows "in_order ws (order @ new)"
  unfolding in_order_def
proof (intro allI impI)
  fix i assume i: "i < length (order @ new)"
  show "\<exists>ns. ((order @ new) ! i, ns) \<in> set ws \<and> set ns \<subseteq> set (take i (order @ new))"
  proof (cases "i < length order")
    case True
    then show ?thesis using assms(1) by (simp add: in_order_def nth_append)
  next
    case False
    then have "(order @ new) ! i \<in> set new" using i by (simp add: nth_append)
    moreover have "set order \<subseteq> set (take i (order @ new))" using False by simp
    ultimately show ?thesis using assms(2) by blast
  qed
qed

lemma build_rounds_order:
  "in_order ws order \<Longrightarrow> set pending \<subseteq> set ws \<Longrightarrow> in_order ws (fst (build_rounds n pending order))"
proof (induction n arbitrary: pending order)
  case (Suc n)
  let ?P = "\<lambda>(t, ns). list_all (\<lambda>x. x \<in> set order) ns"
  have "in_order ws (order @ map fst (filter ?P pending))"
    using Suc.prems by (intro in_order_append) (auto simp: list_all_iff subset_iff)
  moreover have "set (filter (Not \<circ> ?P) pending) \<subseteq> set ws" using Suc.prems(2) by auto
  ultimately show ?case using Suc.IH by simp
qed simp

lemma build_rounds_all:
  "set (fst (build_rounds n pending order)) \<union> fst ` set (snd (build_rounds n pending order))
     = set order \<union> fst ` set pending"
proof (induction n arbitrary: pending order)
  case (Suc n)
  let ?P = "\<lambda>(t, ns). list_all (\<lambda>x. x \<in> set order) ns"
  have "set pending = set (filter ?P pending) \<union> set (filter (Not \<circ> ?P) pending)" by auto
  from arg_cong[OF this, of "image fst"]
  have "fst ` set pending = set (map fst (filter ?P pending)) \<union> fst ` set (filter (Not \<circ> ?P) pending)"
    by (simp only: image_Un set_map)
  then show ?case using Suc.IH by (simp add: Un_assoc)
qed simp

section \<open>The tables, computed\<close>

definition summary :: "nest_module \<Rightarrow> string list \<times> string list \<times> string list \<times> string list" where
  "summary m = (tokens_of m, md_imports m, remdups (needs_of m), md_exports m)"

lemma exports_table: "map (\<lambda>m. (md_name m, md_exports m)) modules = [
     (''AppModule'', []), (''PrismaModule'', [''PrismaService'']), (''HashModule'', [''HashService'']), (''EmailsModule'', [''EmailsService'']), (''TokensModule'', [''TokensService'']), (''SessionModule'', [''SessionService'']), (''UsersModule'', [''UsersService'']), (''KycModule'', [''KycService'', ''KycGuard'']), (''WebhookModule'', [''WebhookService'']), (''AuthModule'', []), (''WalletModule'', [''WalletService'']), (''TransactionModule'', [''TransactionService'']), (''InvestmentModule'', [''InvestmentService'']), (''CardModule'', [''CardService'']), (''ExchangeRateModule'', [''ExchangeRateService'']), (''BeneficiariesModule'', [''BeneficiariesService'']), (''HealthModule'', []), (''PricesModule'', [''PricesService'']), (''PortfolioModule'', [''PortfolioService'']), (''BrokersModule'', [''BrokersService''])]"
  by code_simp

lemma summaries: "map summary modules = [
     ([''APP_GUARD'', ''APP_GUARD'', ''IdempotencyCleanupService''], [''EventEmitterModule'', ''ThrottlerModule'', ''CacheModule'', ''LoggerModule'', ''PrismaModule'', ''UsersModule'', ''HashModule'', ''SessionModule'', ''TokensModule'', ''EmailsModule'', ''AuthModule'', ''WalletModule'', ''TransactionModule'', ''InvestmentModule'', ''CardModule'', ''ExchangeRateModule'', ''KycModule'', ''WebhookModule'', ''BeneficiariesModule'', ''HealthModule'', ''PricesModule'', ''PortfolioModule'', ''BrokersModule''], [''Reflector'', ''PrismaService''], []),
     ([''PrismaService''], [], [], [''PrismaService'']),
     ([''HashService''], [], [], [''HashService'']),
     ([''EmailsService''], [], [], [''EmailsService'']),
     ([''TokensService''], [], [''CACHE_MANAGER''], [''TokensService'']),
     ([''SessionService''], [''PrismaModule'', ''PassportModule''], [''PrismaService'', ''EventEmitter2'', ''SessionService''], [''SessionService'']),
     ([''UsersService''], [''PrismaModule'', ''HashModule''], [''PrismaService'', ''HashService'', ''UsersService''], [''UsersService'']),
     ([''KycService'', ''KycGuard''], [''PrismaModule''], [''PrismaService'', ''KycService''], [''KycService'', ''KycGuard'']),
     ([''WebhookService''], [''PrismaModule''], [''WebhookService'', ''PrismaService''], [''WebhookService'']),
     ([''AuthService'', ''SessionTokenService'', ''TwoFactorService'', ''PasswordRecoveryService'', ''JwtStrategy'', ''RefreshStrategy'', ''GoogleStrategy'', ''AppleStrategy'', ''TwoFactorPendingStrategy'', ''GeolocationService'', ''GeolocationListener''], [''PassportModule'', ''JwtModule'', ''PrismaModule'', ''UsersModule'', ''HashModule'', ''SessionModule'', ''TokensModule'', ''EmailsModule''], [''TwoFactorService'', ''PasswordRecoveryService'', ''HashService'', ''JwtService'', ''SessionTokenService'', ''UsersService'', ''TokensService'', ''EmailsService'', ''SessionService'', ''CACHE_MANAGER'', ''GeolocationService'', ''PrismaService'', ''AuthService''], []),
     ([''WalletService'', ''DepositService'', ''WithdrawService'', ''ExchangeService'', ''SendService'', ''IdempotencyGuard'', ''UNIT_OF_WORK'', ''BENEFICIARY_READER''], [''PrismaModule'', ''KycModule'', ''WebhookModule''], [''DepositService'', ''WithdrawService'', ''ExchangeService'', ''SendService'', ''UNIT_OF_WORK'', ''BENEFICIARY_READER'', ''WebhookService'', ''WalletService'', ''PrismaService''], [''WalletService'']),
     ([''TransactionService''], [''PrismaModule'', ''KycModule''], [''PrismaService'', ''TransactionService''], [''TransactionService'']),
     ([''InvestmentService''], [''PrismaModule'', ''KycModule''], [''InvestmentService'', ''PrismaService''], [''InvestmentService'']),
     ([''CardService''], [''PrismaModule'', ''KycModule''], [''CardService'', ''PrismaService''], [''CardService'']),
     ([''ExchangeRateService''], [''PrismaModule'', ''KycModule''], [''ExchangeRateService'', ''PrismaService''], [''ExchangeRateService'']),
     ([''BeneficiariesService''], [''PrismaModule''], [''PrismaService'', ''BeneficiariesService''], [''BeneficiariesService'']),
     ([''PrismaHealthIndicator'', ''RedisHealthIndicator''], [''TerminusModule'', ''PrismaModule''], [''PrismaService'', ''HealthCheckService'', ''PrismaHealthIndicator'', ''RedisHealthIndicator''], []),
     ([''PricesService''], [], [''CACHE_MANAGER'', ''PricesService''], [''PricesService'']),
     ([''PortfolioService''], [''PrismaModule'', ''PricesModule''], [''PrismaService'', ''PricesService'', ''PortfolioService''], [''PortfolioService'']),
     ([''BrokersService''], [''PrismaModule''], [''PrismaService'', ''BrokersService''], [''BrokersService''])]"
  by code_simp

lemma waiting_table: "waits_for = [
     (''APP_GUARD'', []),
     (''IdempotencyCleanupService'', [''PrismaService'']),
     (''PrismaService'', []),
     (''HashService'', []),
     (''EmailsService'', []),
     (''TokensService'', []),
     (''SessionService'', [''PrismaService'']),
     (''SessionController'', [''SessionService'']),
     (''UsersService'', [''PrismaService'', ''HashService'']),
     (''UsersController'', [''UsersService'']),
     (''KycService'', [''PrismaService'']),
     (''KycGuard'', [''PrismaService'']),
     (''KycController'', [''KycService'']),
     (''WebhookService'', [''PrismaService'']),
     (''WebhookController'', [''WebhookService'', ''PrismaService'']),
     (''AuthService'', [''UsersService'', ''HashService'', ''SessionService'', ''SessionTokenService'', ''TwoFactorService'', ''PasswordRecoveryService'']),
     (''SessionTokenService'', [''HashService'', ''SessionService'']),
     (''TwoFactorService'', [''PrismaService'', ''UsersService'', ''HashService'', ''SessionTokenService'']),
     (''PasswordRecoveryService'', [''UsersService'', ''TokensService'', ''EmailsService'']),
     (''JwtStrategy'', [''SessionService'']),
     (''RefreshStrategy'', []),
     (''GoogleStrategy'', []),
     (''AppleStrategy'', []),
     (''TwoFactorPendingStrategy'', []),
     (''GeolocationService'', []),
     (''GeolocationListener'', [''GeolocationService'', ''PrismaService'']),
     (''AuthController'', [''AuthService'']),
     (''WalletService'', [''PrismaService'', ''DepositService'', ''WithdrawService'', ''ExchangeService'', ''SendService'']),
     (''DepositService'', [''UNIT_OF_WORK'', ''WebhookService'']),
     (''WithdrawService'', [''UNIT_OF_WORK'', ''WebhookService'']),
     (''ExchangeService'', [''PrismaService'']),
     (''SendService'', [''UNIT_OF_WORK'', ''BENEFICIARY_READER'', ''WebhookService'']),
     (''IdempotencyGuard'', [''PrismaService'']),
     (''UNIT_OF_WORK'', [''PrismaService'']),
     (''BENEFICIARY_READER'', [''PrismaService'']),
     (''WalletController'', [''WalletService'']),
     (''TransactionService'', [''PrismaService'']),
     (''TransactionController'', [''TransactionService'']),
     (''InvestmentService'', [''PrismaService'']),
     (''InvestmentController'', [''InvestmentService'']),
     (''CardService'', [''PrismaService'']),
     (''CardController'', [''CardService'']),
     (''ExchangeRateService'', [''PrismaService'']),
     (''ExchangeRateController'', [''ExchangeRateService'']),
     (''BeneficiariesService'', [''PrismaService'']),
     (''BeneficiariesController'', [''BeneficiariesService'']),
     (''PrismaHealthIndicator'', [''PrismaService'']),
     (''RedisHealthIndicator'', []),
     (''HealthController'', [''PrismaHealthIndicator'', ''RedisHealthIndicator'']),
     (''PricesService'', []),
     (''PricesController'', [''PricesService'']),
     (''PortfolioService'', [''PrismaService'', ''PricesService'']),
     (''PortfolioController'', [''PortfolioService'']),
     (''BrokersService'', [''PrismaService'']),
     (''BrokersController'', [''BrokersService''])]"
  by code_simp

section \<open>Everything is found\<close>

text \<open>The check on the tables, for the least library that is as documented; a larger one only shows more.\<close>

definition least_lib :: nest_lib where
  "least_lib = \<lparr>lb_exports = (\<lambda>i. if i = ''JwtModule'' then {''JwtService''} else if i = ''TerminusModule'' then {''HealthCheckService''}
       else if i = ''CacheModule'' then {''CACHE_MANAGER''} else if i = ''EventEmitterModule'' then {''EventEmitter2''} else {}),
     lb_modules = {''EventEmitterModule'', ''ThrottlerModule'', ''CacheModule'', ''LoggerModule'', ''PassportModule'', ''JwtModule'',
        ''TerminusModule''},
     lb_globals = {''EventEmitterModule''}, lb_core = {''Reflector''}\<rparr>"

definition lib_le :: "nest_lib \<Rightarrow> nest_lib \<Rightarrow> bool" where
  "lib_le a b \<longleftrightarrow> (\<forall>i. lb_exports a i \<subseteq> lb_exports b i) \<and> lb_modules a \<subseteq> lb_modules b
     \<and> lb_globals a \<subseteq> lb_globals b \<and> lb_core a \<subseteq> lb_core b"

lemma documented_least: "documented lib \<Longrightarrow> lib_le least_lib lib"
  by (auto simp: documented_def lib_le_def least_lib_def)

lemma exported_mono: "lib_le a b \<Longrightarrow> exported a i \<subseteq> exported b i"
  by (auto simp: exported_def lib_le_def split: option.splits)

lemma visible_mono: "lib_le a b \<Longrightarrow> visible a m t \<Longrightarrow> visible b m t"
  using exported_mono[of a b] unfolding visible_def lib_le_def by blast

lemma resolved_mono: "lib_le a b \<Longrightarrow> resolved a m \<Longrightarrow> resolved b m"
  using visible_mono[of a b] unfolding resolved_def lib_le_def by blast

definition shown_by :: "nest_lib \<Rightarrow> (string \<times> string list) list \<Rightarrow> string \<Rightarrow> string \<Rightarrow> bool" where
  "shown_by lib tab t i = (case map_of tab i of Some ts \<Rightarrow> t \<in> set ts | None \<Rightarrow> t \<in> lb_exports lib i)"

fun resolved_in :: "nest_lib \<Rightarrow> (string \<times> string list) list \<Rightarrow> string list
    \<Rightarrow> string list \<times> string list \<times> string list \<times> string list \<Rightarrow> bool" where
  "resolved_in lib tab globals (toks, imps, needs, exps) =
     (list_all (\<lambda>t. t \<in> set toks \<or> list_ex (shown_by lib tab t) imps \<or> list_ex (shown_by lib tab t) globals
        \<or> t \<in> lb_core lib) needs
      \<and> list_all (\<lambda>t. t \<in> set toks) exps
      \<and> list_all (\<lambda>i. i \<in> set (map fst tab) \<or> i \<in> lb_modules lib) imps)"

definition globals_of :: "nest_lib \<Rightarrow> string list" where
  "globals_of lib = filter (\<lambda>g. g \<in> set global_imports \<or> g \<in> lb_globals lib) (md_imports AppModule)"

lemma shown_by_exported: "shown_by lib (map (\<lambda>m. (md_name m, md_exports m)) modules) t i = (t \<in> exported lib i)"
  by (simp add: shown_by_def exported_def split: option.splits)

lemma resolved_in_iff:
  "resolved_in lib (map (\<lambda>m. (md_name m, md_exports m)) modules) (globals_of lib) (summary m) = resolved lib m"
  by (auto simp: summary_def resolved_def visible_def shown_by_exported list_all_iff list_ex_iff globals_of_def image_image)

lemma least_globals: "globals_of least_lib = [''EventEmitterModule'', ''CacheModule'']"
  by code_simp

lemma least_resolved: "m \<in> set modules \<Longrightarrow> resolved least_lib m"
proof -
  have "list_all (resolved_in least_lib (map (\<lambda>m. (md_name m, md_exports m)) modules) (globals_of least_lib))
      (map summary modules)"
    unfolding exports_table summaries least_globals by code_simp
  then have "list_all (resolved least_lib) modules" by (simp add: list_all_iff resolved_in_iff)
  then show "m \<in> set modules \<Longrightarrow> resolved least_lib m" by (simp add: list_all_iff)
qed

definition start_order :: "string list" where
  "start_order = fst (build_rounds 8 waits_for [])"

text \<open>Eight rounds are enough.\<close>

lemma nothing_left: "snd (build_rounds 8 waits_for []) = []"
  unfolding waiting_table by code_simp

lemma start_order_all: "set start_order = fst ` set waits_for"
  using build_rounds_all[of 8 waits_for "[]"] by (simp add: start_order_def nothing_left)

text \<open>The strategies the guards ask for and those that are provided.\<close>

definition strategies_asked :: "string list" where
  "strategies_asked = List.map_filter cl_passport (concat (map (\<lambda>m. concat (map enhancers (md_controllers m))) modules))"

definition strategies_provided :: "string list" where
  "strategies_provided = List.map_filter cl_passport (concat (map provided_classes modules))"

lemma strategies_registered: "set strategies_asked \<subseteq> set strategies_provided"
proof -
  let ?names = "[''jwt'', ''jwt-refresh'', ''google'', ''apple'', ''two-factor-pending'']"
  have "list_all (\<lambda>x. x \<in> set ?names) strategies_asked" by code_simp
  then have "set strategies_asked \<subseteq> set ?names" unfolding list_all_iff by blast
  moreover have "strategies_provided = ?names" by code_simp
  ultimately show ?thesis by (simp only:)
qed

section \<open>Properties\<close>

text \<open>C40. The application can be put together: with a library that is as documented, every token a constructor asks
  for, in a provider, a controller or a guard or interceptor of one, is provided in its module, exported by one
  the module imports or global; nothing is exported that is not provided and no import is unknown; the classes
  can be built in an order in which each comes after those it asks for, so there is no cycle; and every guard
  finds a strategy of its name.\<close>

theorem application_wires_up:
  assumes "documented lib"
  shows "(\<forall>m \<in> set modules. resolved lib m)
    \<and> in_order waits_for start_order \<and> set start_order = fst ` set waits_for
    \<and> set strategies_asked \<subseteq> set strategies_provided"
proof -
  have "\<forall>m \<in> set modules. resolved lib m"
    using least_resolved resolved_mono[OF documented_least[OF assms]] by blast
  moreover have "in_order waits_for start_order"
    unfolding start_order_def by (rule build_rounds_order) (simp_all add: in_order_def)
  ultimately show ?thesis using start_order_all strategies_registered by blast
qed

theorem application_wires_up_witness:
  "resolved least_lib WalletModule \<and> ''WebhookService'' \<in> set (needs_of WalletModule)"
proof -
  have "documented least_lib" by (simp add: documented_def least_lib_def)
  then have "\<forall>m \<in> set modules. resolved least_lib m" using application_wires_up by blast
  moreover have "WalletModule \<in> set modules" unfolding modules_def set_simps by (intro insertI1 insertI2)
  moreover have "''WebhookService'' \<in> set (needs_of WalletModule)"
    by (simp add: needs_of_def provided_classes_def WalletModule_def itself_def provide_def map_filter_simps
        DepositService_class_def)
  ultimately show ?thesis by blast
qed

end
