(* ===== verification/Start_Up.thy ===== *)
theory Start_Up
  imports Wiring Validation Platform
begin

text \<open>
  The start of the process and what stands around every request: \<open>main.ts\<close> with the settings it applies,
  the connection of \<open>PrismaService\<close> (\<open>prisma.service.ts\<close>) and the logging interceptor
  (\<open>logging.interceptor.ts\<close>). What the frameworks do with a setting is theirs: applying one, creating the
  application and listening are parameters.
\<close>

section \<open>The settings\<close>

datatype app_setting =
    Helmet "(string \<times> string list) list"
  | CookieParser
  | ShutdownHooks
  | GlobalPrefix string
  | UriVersioning string
  | Cors "string list" bool
  | GlobalPipe pipe_options
  | GlobalFilter string
  | GlobalInterceptor string
  | SwaggerDocs string "string list"

definition swagger_tags :: "string list" where
  "swagger_tags = [''Auth'', ''Sessions'', ''Wallet'', ''Transactions'', ''Investments'', ''Cards'', ''Exchange Rates'', ''KYC'',
     ''Prices'', ''Portfolio'', ''Brokers'']"

definition app_settings :: "'n envs \<Rightarrow> app_setting list" where
  "app_settings envs =
     [Helmet [(''defaultSrc'', [CHR 0x27 # ''none'' @ [CHR 0x27]])], CookieParser, ShutdownHooks, GlobalPrefix ''api'', UriVersioning ''1'',
      Cors (en_ALLOWED_ORIGINS envs) True, GlobalPipe global_pipe, GlobalFilter ''GlobalExceptionFilter'',
      GlobalInterceptor ''LoggingInterceptor'', SwaggerDocs ''api/docs'' swagger_tags]"

record ('s, 'n) start_env =
  create_app :: "('s, unit) io"
  apply_setting :: "app_setting \<Rightarrow> ('s, unit) io"
  listen :: "'n \<Rightarrow> ('s, unit) io"
  log_line :: "string \<Rightarrow> 's \<Rightarrow> 's"
  console_error :: "exn \<Rightarrow> 's \<Rightarrow> 's"
  port_text :: "'n \<Rightarrow> string"

primrec apply_all :: "('s, 'n) start_env \<Rightarrow> app_setting list \<Rightarrow> ('s, unit) io" where
  "apply_all S [] = ret ()"
| "apply_all S (x # xs) = seqM (apply_setting S x) (\<lambda>_. apply_all S xs)"

definition bootstrap :: "('s, 'n) start_env \<Rightarrow> 'n envs \<Rightarrow> ('s, unit) io" where
  "bootstrap S envs =
     catchM
       (seqM (create_app S) (\<lambda>_.
        seqM (apply_all S (app_settings envs)) (\<lambda>_.
        seqM (listen S (en_PORT envs)) (\<lambda>_.
        seqM (modifyM (log_line S (''App running on PORT: '' @ port_text S (en_PORT envs)))) (\<lambda>_.
        modifyM (log_line S (''Swagger docs at http://localhost:'' @ port_text S (en_PORT envs) @ ''/api/docs'')))))))
       (\<lambda>e. modifyM (console_error S e))"

text \<open>The prefix and the version are those of the routes.\<close>

fun prefix_segments :: "app_setting \<Rightarrow> segment list" where
  "prefix_segments (GlobalPrefix p) = [Lit p]"
| "prefix_segments (UriVersioning v) = [Lit (CHR ''v'' # v)]"
| "prefix_segments _ = []"

lemma settings_prefix: "concat (map prefix_segments (app_settings envs)) = api_prefix"
  by (simp add: app_settings_def api_prefix_def)

text \<open>A failure is reported and not thrown, and nothing listens that was not created and configured.\<close>

lemma bootstrap_reports: "\<exists>t. bootstrap S envs s = (Inr (), t)"
proof (cases "fst (bootstrap S envs s)")
  case (Inl e)
  then have "bootstrap S envs s = (Inl e, snd (bootstrap S envs s))" by (metis prod.collapse)
  then show ?thesis by (auto simp: bootstrap_def catchM_Inl io_prim_iff)
qed (metis prod.collapse unit.exhaust)

lemma bootstrap_listens_last:
  assumes "keeps up (create_app S)" and "\<And>x. keeps up (apply_setting S x)"
    and "\<And>x s. up (log_line S x s) = up s" and "\<And>e s. up (console_error S e s) = up s"
    and "bootstrap S envs s = (r, t)" and "up t \<noteq> up s"
  shows "\<exists>s1 s2 y s3. create_app S s = (Inr (), s1) \<and> apply_all S (app_settings envs) s1 = (Inr (), s2)
    \<and> listen S (en_PORT envs) s2 = (y, s3) \<and> up t = up s3"
proof -
  have k: "keeps up (apply_all S xs)" for xs
    by (induction xs) (auto intro: keeps_intros assms(2))
  obtain q s1 where c: "create_app S s = (q, s1)" by (cases "create_app S s")
  note u1 = keepsD[OF assms(1) c]
  show ?thesis
  proof (cases q)
    case (Inl e)
    then have "up t = up s" using assms(4,5) c u1 by (auto simp: bootstrap_def catchM_def seqM_def modifyM_def)
    then show ?thesis using assms(6) by simp
  next
    case (Inr x)
    obtain q' s2 where a: "apply_all S (app_settings envs) s1 = (q', s2)" by (cases "apply_all S (app_settings envs) s1")
    note u2 = keepsD[OF k a]
    show ?thesis
    proof (cases q')
      case (Inl e)
      then have "up t = up s" using assms(4,5) c a u1 u2 Inr by (auto simp: bootstrap_def catchM_def seqM_def modifyM_def)
      then show ?thesis using assms(6) by simp
    next
      case (Inr y)
      obtain z s3 where l: "listen S (en_PORT envs) s2 = (z, s3)" by (cases "listen S (en_PORT envs) s2")
      have "up t = up s3" using assms(3,4,5) c a l \<open>q = Inr x\<close> Inr
        by (cases z) (auto simp: bootstrap_def catchM_def seqM_def modifyM_def)
      then show ?thesis using c a l \<open>q = Inr x\<close> Inr by auto
    qed
  qed
qed

section \<open>The database connection\<close>

record 's connection_env =
  connect :: "('s, unit) io"
  disconnect :: "('s, unit) io"
  cn_log :: "string \<Rightarrow> 's \<Rightarrow> 's"
  cn_error :: "string \<Rightarrow> exn \<Rightarrow> 's \<Rightarrow> 's"

definition prisma_onModuleInit :: "'s connection_env \<Rightarrow> ('s, unit) io" where
  "prisma_onModuleInit C =
     catchM (seqM (connect C) (\<lambda>_. modifyM (cn_log C ''Connected to the database successfully.'')))
       (\<lambda>e. seqM (modifyM (cn_error C ''Failed to connect to the database.'' e)) (\<lambda>_. throw e))"

definition prisma_onModuleDestroy :: "'s connection_env \<Rightarrow> ('s, unit) io" where
  "prisma_onModuleDestroy C =
     seqM (disconnect C) (\<lambda>_. modifyM (cn_log C ''Disconnected from the database.''))"

lemma init_returns_iff: "isl (fst (prisma_onModuleInit C s)) = isl (fst (connect C s))"
  by (auto simp: prisma_onModuleInit_def catchM_def seqM_def modifyM_def throw_def split: prod.splits sum.splits)

section \<open>The log of requests\<close>

record 's http_log =
  hl_now :: "'s \<Rightarrow> int"
  hl_status :: "'s \<Rightarrow> nat"
  hl_log :: "string \<Rightarrow> 's \<Rightarrow> 's"

definition show_millis :: "int \<Rightarrow> string" where
  "show_millis n = (if n < 0 then ''-'' @ show_nat (nat (- n)) else show_nat (nat n)) @ ''ms''"

definition logging_intercept :: "'s http_log \<Rightarrow> string \<Rightarrow> string \<Rightarrow> ('s, 'a) io \<Rightarrow> ('s, 'a) io" where
  "logging_intercept L method url handle =
     seqM (readM (hl_now L)) (\<lambda>now.
     seqM handle (\<lambda>x.
     seqM (readM (hl_status L)) (\<lambda>statusCode.
     seqM (readM (hl_now L)) (\<lambda>later.
     seqM (modifyM (hl_log L (method @ '' '' @ url @ '' '' @ show_nat statusCode @ '' '' @ show_millis (later - now)))) (\<lambda>_.
     ret x)))))"

text \<open>The interceptor changes neither the answer nor anything but the log, and logs nothing of a request
  that fails.\<close>

lemma logging_transparent:
  assumes "handle s = (r, t)"
  shows "(\<exists>e. r = Inl e \<and> logging_intercept L m url handle s = (r, t))
    \<or> (\<exists>line. logging_intercept L m url handle s = (r, hl_log L line t))"
  using assms by (cases r) (auto simp: logging_intercept_def seqM_def readM_def modifyM_def ret_def)

end
