(* ===== verification/Seed.thy ===== *)
theory Seed
  imports Complex_Main Platform Decimal_Text
begin

text \<open>
  The data of a development database (\<open>prisma/seed.ts\<close>): what the script removes, the user, the wallets and their
  three months of history, the rates, the daily yields, the assets and investments, and the brokers'
  tariffs. Numbers are a type parameter \<open>'n\<close> with the operations the script calls, \<open>Math.random\<close>, the
  clock and the client's calls are parameters. The lemmas compare the balances with the history and show that
  the tariffs can be seeded any number of times.
\<close>

section \<open>Parameters\<close>

datatype seed_table = AuditLogs | Investments | Cards | Transactions | Wallets | KycVerifications | Users
  | ExchangeRates | Assets

datatype 'n seed_meta = MNumber 'n | MText string

record 'n seed_tx =
  st_walletId :: string
  st_toWalletId :: "string option"
  st_type :: string
  st_amount :: 'n
  st_currency :: string
  st_status :: string
  st_description :: string
  st_category :: "string option"
  st_metadata :: "(string \<times> 'n seed_meta) list option"
  st_createdAt :: int

record 'n seed_rate =
  sr_fromCurrency :: string
  sr_toCurrency :: string
  sr_rate :: 'n
  sr_date :: int

record seed_user =
  su_email :: string
  su_password :: string
  su_name :: string
  su_lastName :: string
  su_country :: string
  su_language :: string
  su_emailConfirm :: bool

record 'n seed_investment =
  si_investorId :: string
  si_assetId :: string
  si_quantity :: 'n
  si_avgBuyPrice :: 'n
  si_currentValue :: 'n

record 'n seed_card =
  sc_userId :: string
  sc_type :: string
  sc_maskedNumber :: string
  sc_expiresAt :: string
  sc_network :: string
  sc_issuer :: string
  sc_cardToken :: string
  sc_isActive :: bool
  sc_isFrozen :: bool
  sc_spendingLimit :: 'n

record seed_audit =
  sa_userId :: string
  sa_action :: string
  sa_entity :: string
  sa_entityId :: string
  sa_createdAt :: int

text \<open>\<open>local_date n d h m\<close> is the instant \<open>n\<close> put \<open>d\<close> days back and to the hour \<open>h\<close> and minute \<open>m\<close> of the local
  time; \<open>minute_of r\<close> is \<open>Math.floor(r * 59)\<close>; \<open>fixed d x\<close> is \<open>parseFloat(x.toFixed(d))\<close>.\<close>

record ('s, 'n) seed_env =
  sd_lit :: "string \<Rightarrow> 'n"
  sd_plus :: "'n \<Rightarrow> 'n \<Rightarrow> 'n"
  sd_minus :: "'n \<Rightarrow> 'n \<Rightarrow> 'n"
  sd_times :: "'n \<Rightarrow> 'n \<Rightarrow> 'n"
  sd_divide :: "'n \<Rightarrow> 'n \<Rightarrow> 'n"
  sd_fixed :: "nat \<Rightarrow> 'n \<Rightarrow> 'n"
  sd_toFixed :: "nat \<Rightarrow> 'n \<Rightarrow> string"
  sd_positive :: "'n \<Rightarrow> bool"
  sd_random :: "('s, 'n) io"
  minute_of :: "'n \<Rightarrow> nat"
  sd_now :: "('s, int) io"
  local_date :: "int \<Rightarrow> nat \<Rightarrow> nat \<Rightarrow> nat \<Rightarrow> int"
  EXCHANGE_RATE_API_KEY :: "string option"
  latest_rates :: "string \<Rightarrow> ('s, 'n \<times> 'n) io"
  sd_hash :: "string \<Rightarrow> ('s, string) io"
  find_user :: "string \<Rightarrow> ('s, string option) io"
  clean :: "seed_table \<Rightarrow> string option \<Rightarrow> ('s, unit) io"
  insert_user :: "seed_user \<Rightarrow> ('s, string) io"
  insert_kyc :: "string \<Rightarrow> string \<Rightarrow> string \<Rightarrow> int \<Rightarrow> int \<Rightarrow> ('s, string) io"
  insert_wallet :: "string \<Rightarrow> string \<Rightarrow> 'n \<Rightarrow> ('s, string) io"
  insert_rates :: "'n seed_rate list \<Rightarrow> ('s, unit) io"
  insert_txs :: "'n seed_tx list \<Rightarrow> ('s, unit) io"
  insert_assets :: "(string \<times> string \<times> string \<times> 'n \<times> 'n) list \<Rightarrow> ('s, unit) io"
  find_assets :: "string list \<Rightarrow> ('s, (string \<times> string) list) io"
  insert_investments :: "'n seed_investment list \<Rightarrow> ('s, unit) io"
  insert_card :: "'n seed_card \<Rightarrow> ('s, unit) io"
  insert_audit :: "seed_audit list \<Rightarrow> ('s, unit) io"

record seed_wallets =
  usd_id :: string
  ars_id :: string
  usdt_id :: string

section \<open>Helpers\<close>

primrec all_of :: "('s, 'a) io list \<Rightarrow> ('s, 'a list) io" where
  "all_of [] = ret []"
| "all_of (m # ms) = seqM m (\<lambda>x. seqM (all_of ms) (\<lambda>xs. ret (x # xs)))"

definition daysAgo :: "('s, 'n) seed_env \<Rightarrow> nat \<Rightarrow> nat \<Rightarrow> ('s, int) io" where
  "daysAgo S days hour = seqM (sd_now S) (\<lambda>d. seqM (sd_random S) (\<lambda>r. ret (local_date S d days hour (minute_of S r))))"

definition sd_randomBetween :: "('s, 'n) seed_env \<Rightarrow> string \<Rightarrow> string \<Rightarrow> ('s, 'n) io" where
  "sd_randomBetween S lo hi =
     seqM (sd_random S) (\<lambda>r.
     ret (sd_fixed S 2 (sd_plus S (sd_times S r (sd_minus S (sd_lit S hi) (sd_lit S lo))) (sd_lit S lo))))"

text \<open>The rates of the days before, each computed from the one after it.\<close>

primrec walk_back :: "('s, 'n) seed_env \<Rightarrow> nat \<Rightarrow> 'n \<Rightarrow> ('s, 'n list) io" where
  "walk_back S 0 prev = ret []"
| "walk_back S (Suc k) prev =
     seqM (sd_random S) (\<lambda>r.
     let change = sd_times S (sd_times S prev (sd_lit S ''0.004'')) (sd_minus S (sd_times S r (sd_lit S ''2'')) (sd_lit S ''1''));
         next = sd_fixed S 4 (sd_minus S prev change)
     in seqM (walk_back S k next) (\<lambda>rest. ret (next # rest)))"

definition generateHistoricalRates :: "('s, 'n) seed_env \<Rightarrow> 'n \<Rightarrow> nat \<Rightarrow> ('s, 'n list) io" where
  "generateHistoricalRates S currentRate days =
     seqM (walk_back S (days - 1) currentRate) (\<lambda>rates. ret (rev (currentRate # rates)))"

definition fetchRates :: "('s, 'n) seed_env \<Rightarrow> ('s, 'n \<times> 'n) io" where
  "fetchRates S =
     (case truthy (EXCHANGE_RATE_API_KEY S) of
        None \<Rightarrow> ret (sd_lit S ''1350'', sd_lit S ''5.72'')
      | Some key \<Rightarrow> catchM (latest_rates S (''https://v6.exchangerate-api.com/v6/'' @ key @ ''/latest/USD''))
          (\<lambda>_. ret (sd_lit S ''1350'', sd_lit S ''5.72'')))"

section \<open>The history\<close>

definition entry ::
  "('s, 'n) seed_env \<Rightarrow> string \<Rightarrow> string option \<Rightarrow> string \<Rightarrow> ('s, 'n) io \<Rightarrow> string \<Rightarrow> string \<Rightarrow> string \<Rightarrow> string option
   \<Rightarrow> (string \<times> 'n seed_meta) list option \<Rightarrow> nat \<Rightarrow> ('s, 'n seed_tx) io" where
  "entry S wallet to kind amount c status description category meta days =
     seqM amount (\<lambda>x.
     seqM (daysAgo S days 10) (\<lambda>moment.
     ret \<lparr>st_walletId = wallet, st_toWalletId = to, st_type = kind, st_amount = x, st_currency = c, st_status = status,
       st_description = description, st_category = category, st_metadata = meta, st_createdAt = moment\<rparr>))"

definition month3 :: "('s, 'n) seed_env \<Rightarrow> seed_wallets \<Rightarrow> 'n \<Rightarrow> ('s, 'n seed_tx list) io" where
  "month3 S W arsRate90 = all_of
     [entry S (usd_id W) None ''DEPOSIT'' (ret (sd_lit S ''2000'')) ''USD'' ''COMPLETED''
        (''Acme Creative Co. '' @ [CHR 0xC2, CHR 0xB7] @ '' Invoice INV-2026-0005'') (Some ''TRANSFER'') None 89,
      entry S (usd_id W) (Some (ars_id W)) ''EXCHANGE'' (ret (sd_lit S ''1000'')) ''USD'' ''COMPLETED''
        (''Conversi'' @ [CHR 0xC3, CHR 0xB3] @ ''n USD '' @ [CHR 0xE2, CHR 0x86, CHR 0x92] @ '' ARS'') None
        (Some [(''rate'', MNumber arsRate90), (''received'', MText (sd_toFixed S 2 (sd_times S (sd_lit S ''1000'') arsRate90))), (''toCurrency'', MText ''ARS'')]) 88,
      entry S (usd_id W) (Some (usdt_id W)) ''EXCHANGE'' (ret (sd_lit S ''400'')) ''USD'' ''COMPLETED''
        (''Conversi'' @ [CHR 0xC3, CHR 0xB3] @ ''n USD '' @ [CHR 0xE2, CHR 0x86, CHR 0x92] @ '' USDT'') None
        (Some [(''rate'', MNumber (sd_lit S ''1.0002'')), (''received'', MText ''400.08''), (''toCurrency'', MText ''USDT'')]) 88,
      entry S (ars_id W) None ''WITHDRAWAL'' (sd_randomBetween S ''75000'' ''95000'') ''ARS'' ''COMPLETED''
        (''Retiro a CVU '' @ [CHR 0xE2, CHR 0x80, CHR 0x94] @ '' Cuenta Mercado Pago'') (Some ''TRANSFER'') None 82,
      entry S (ars_id W) None ''WITHDRAWAL'' (ret (sd_lit S ''45000'')) ''ARS'' ''COMPLETED''
        (''Alquiler '' @ [CHR 0xE2, CHR 0x80, CHR 0x94] @ '' abril 2026'') (Some ''UTILITIES'') None 76,
      entry S (ars_id W) None ''WITHDRAWAL'' (sd_randomBetween S ''18000'' ''32000'') ''ARS'' ''COMPLETED''
        ''Supermercado y varios'' (Some ''FOOD'') None 70]"

definition month2 :: "('s, 'n) seed_env \<Rightarrow> seed_wallets \<Rightarrow> 'n \<Rightarrow> ('s, 'n seed_tx list) io" where
  "month2 S W arsRate60 = all_of
     [entry S (usd_id W) None ''DEPOSIT'' (ret (sd_lit S ''3500'')) ''USD'' ''COMPLETED''
        (''TechForge Solutions '' @ [CHR 0xC2, CHR 0xB7] @ '' Invoice INV-2026-0009'') (Some ''TRANSFER'') None 59,
      entry S (usd_id W) (Some (ars_id W)) ''EXCHANGE'' (ret (sd_lit S ''1500'')) ''USD'' ''COMPLETED''
        (''Conversi'' @ [CHR 0xC3, CHR 0xB3] @ ''n USD '' @ [CHR 0xE2, CHR 0x86, CHR 0x92] @ '' ARS'') None
        (Some [(''rate'', MNumber arsRate60), (''received'', MText (sd_toFixed S 2 (sd_times S (sd_lit S ''1500'') arsRate60))), (''toCurrency'', MText ''ARS'')]) 58,
      entry S (usd_id W) (Some (usdt_id W)) ''EXCHANGE'' (ret (sd_lit S ''800'')) ''USD'' ''COMPLETED''
        (''Conversi'' @ [CHR 0xC3, CHR 0xB3] @ ''n USD '' @ [CHR 0xE2, CHR 0x86, CHR 0x92] @ '' USDT'') None
        (Some [(''rate'', MNumber (sd_lit S ''1.0002'')), (''received'', MText ''800.16''), (''toCurrency'', MText ''USDT'')]) 57,
      entry S (ars_id W) None ''WITHDRAWAL'' (sd_randomBetween S ''90000'' ''110000'') ''ARS'' ''COMPLETED''
        (''Retiro a CVU '' @ [CHR 0xE2, CHR 0x80, CHR 0x94] @ '' Cuenta Mercado Pago'') (Some ''TRANSFER'') None 52,
      entry S (ars_id W) None ''WITHDRAWAL'' (ret (sd_lit S ''45000'')) ''ARS'' ''COMPLETED''
        (''Alquiler '' @ [CHR 0xE2, CHR 0x80, CHR 0x94] @ '' mayo 2026'') (Some ''UTILITIES'') None 46,
      entry S (ars_id W) None ''WITHDRAWAL'' (sd_randomBetween S ''22000'' ''38000'') ''ARS'' ''COMPLETED''
        ''Nafta y transporte'' (Some ''TRANSPORT'') None 41,
      entry S (ars_id W) None ''WITHDRAWAL'' (sd_randomBetween S ''15000'' ''25000'') ''ARS'' ''COMPLETED''
        (''Salud '' @ [CHR 0xE2, CHR 0x80, CHR 0x94] @ '' prepaga'') (Some ''HEALTH'') None 38]"

definition month1 :: "('s, 'n) seed_env \<Rightarrow> seed_wallets \<Rightarrow> 'n \<Rightarrow> ('s, 'n seed_tx list) io" where
  "month1 S W arsRate30 = all_of
     [entry S (usd_id W) None ''DEPOSIT'' (ret (sd_lit S ''2800'')) ''USD'' ''COMPLETED''
        (''Nova Digital '' @ [CHR 0xC2, CHR 0xB7] @ '' Invoice INV-2026-0012'') (Some ''TRANSFER'') None 28,
      entry S (usd_id W) (Some (ars_id W)) ''EXCHANGE'' (ret (sd_lit S ''1000'')) ''USD'' ''COMPLETED''
        (''Conversi'' @ [CHR 0xC3, CHR 0xB3] @ ''n USD '' @ [CHR 0xE2, CHR 0x86, CHR 0x92] @ '' ARS'') None
        (Some [(''rate'', MNumber arsRate30), (''received'', MText (sd_toFixed S 2 (sd_times S (sd_lit S ''1000'') arsRate30))), (''toCurrency'', MText ''ARS'')]) 27,
      entry S (usd_id W) (Some (usdt_id W)) ''EXCHANGE'' (ret (sd_lit S ''1000'')) ''USD'' ''COMPLETED''
        (''Conversi'' @ [CHR 0xC3, CHR 0xB3] @ ''n USD '' @ [CHR 0xE2, CHR 0x86, CHR 0x92] @ '' USDT (ahorro)'') None
        (Some [(''rate'', MNumber (sd_lit S ''1.0002'')), (''received'', MText ''1000.20''), (''toCurrency'', MText ''USDT'')]) 26,
      entry S (ars_id W) None ''WITHDRAWAL'' (sd_randomBetween S ''85000'' ''105000'') ''ARS'' ''COMPLETED''
        (''Retiro a CVU '' @ [CHR 0xE2, CHR 0x80, CHR 0x94] @ '' Cuenta Mercado Pago'') (Some ''TRANSFER'') None 20,
      entry S (ars_id W) None ''WITHDRAWAL'' (ret (sd_lit S ''45000'')) ''ARS'' ''COMPLETED''
        (''Alquiler '' @ [CHR 0xE2, CHR 0x80, CHR 0x94] @ '' junio 2026'') (Some ''UTILITIES'') None 15,
      entry S (ars_id W) None ''WITHDRAWAL'' (sd_randomBetween S ''20000'' ''35000'') ''ARS'' ''COMPLETED''
        ''Entretenimiento y salidas'' (Some ''ENTERTAINMENT'') None 10,
      entry S (usd_id W) None ''WITHDRAWAL'' (ret (sd_lit S ''200'')) ''USD'' ''PENDING''
        (''Retiro USD '' @ [CHR 0xE2, CHR 0x80, CHR 0x94] @ '' en proceso'') None None 0]"

text \<open>The daily yields of 90 days, computed on running amounts that start from 600 dollars and 400 USDT.\<close>

definition yield_row ::
  "('s, 'n) seed_env \<Rightarrow> string \<Rightarrow> 'n \<Rightarrow> string \<Rightarrow> string \<Rightarrow> string \<Rightarrow> int \<Rightarrow> 'n seed_tx" where
  "yield_row S wallet amount c rate apy date = \<lparr>st_walletId = wallet, st_toWalletId = None, st_type = ''YIELD'',
     st_amount = amount, st_currency = c, st_status = ''COMPLETED'', st_description = ''Rendimiento diario '' @ c,
     st_category = None,
     st_metadata = Some [(''rate'', MNumber (sd_lit S rate)), (''period'', MText ''daily''), (''apy'', MText apy)],
     st_createdAt = date\<rparr>"

primrec yields :: "('s, 'n) seed_env \<Rightarrow> seed_wallets \<Rightarrow> nat \<Rightarrow> 'n \<Rightarrow> 'n \<Rightarrow> ('s, 'n seed_tx list) io" where
  "yields S W 0 usdRunning usdtRunning = ret []"
| "yields S W (Suc day) usdRunning usdtRunning =
     seqM (sd_now S) (\<lambda>d.
     seqM (sd_random S) (\<lambda>_.
     let date = local_date S d day 0 5;
         usdYield = sd_fixed S 4 (sd_times S usdRunning (sd_lit S ''0.0001''));
         usdtYield = sd_fixed S 4 (sd_times S usdtRunning (sd_lit S ''0.00008''));
         one = (if sd_positive S usdYield then [yield_row S (usd_id W) usdYield ''USD'' ''0.0001'' ''3.65%'' date] else []);
         two = (if sd_positive S usdtYield then [yield_row S (usdt_id W) usdtYield ''USDT'' ''0.00008'' ''2.9%'' date] else [])
     in seqM (yields S W day (if sd_positive S usdYield then sd_plus S usdRunning usdYield else usdRunning)
                (if sd_positive S usdtYield then sd_plus S usdtRunning usdtYield else usdtRunning)) (\<lambda>rest.
        ret (one @ two @ rest))))"

section \<open>Rates, assets, investments and the audit\<close>

definition rates_of_day :: "('s, 'n) seed_env \<Rightarrow> 'n list \<Rightarrow> 'n list \<Rightarrow> nat \<Rightarrow> ('s, 'n seed_rate list) io" where
  "rates_of_day S arsRates brlRates i =
     seqM (sd_now S) (\<lambda>d.
     let date = local_date S d (29 - i) 0 0;
         row = (\<lambda>a b x. \<lparr>sr_fromCurrency = a, sr_toCurrency = b, sr_rate = x, sr_date = date\<rparr>)
     in ret
       [row ''USD'' ''ARS'' (arsRates ! i),
        row ''ARS'' ''USD'' (sd_fixed S 8 (sd_divide S (sd_lit S ''1'') (arsRates ! i))),
        row ''USD'' ''USDT'' (sd_lit S ''1.0002''), row ''USDT'' ''USD'' (sd_lit S ''0.9998''),
        row ''USDT'' ''ARS'' (sd_fixed S 4 (sd_times S (arsRates ! i) (sd_lit S ''0.9998''))),
        row ''USD'' ''BRL'' (brlRates ! i)])"

definition seed_assets :: "('s, 'n) seed_env \<Rightarrow> (string \<times> string \<times> string \<times> 'n \<times> 'n) list" where
  "seed_assets S = [(''AAPL'', ''Apple Inc.'', ''STOCK'', sd_lit S ''195.5'', sd_lit S ''1.24''),
     (''GOOGL'', ''Alphabet Inc.'', ''STOCK'', sd_lit S ''178.3'', sd_lit S ''-0.43''),
     (''NVDA'', ''NVIDIA Corporation'', ''STOCK'', sd_lit S ''875.4'', sd_lit S ''3.71''),
     (''MSFT'', ''Microsoft Corporation'', ''STOCK'', sd_lit S ''418.2'', sd_lit S ''0.87''),
     (''SPY'', ''SPDR S&P 500 ETF'', ''ETF'', sd_lit S ''548.6'', sd_lit S ''0.31''),
     (''XAU'', ''Gold'', ''COMMODITY'', sd_lit S ''3280.0'', sd_lit S ''-0.15'')]"

definition seed_holdings :: "(string \<times> string \<times> string \<times> string \<times> string) list" where
  "seed_holdings =
      [(''AAPL'', ''3.5'', ''182.0'', ''3.5'', ''195.5''),
       (''NVDA'', ''0.8'', ''720.0'', ''0.8'', ''875.4''),
       (''SPY'', ''2.0'', ''510.0'', ''2.0'', ''548.6''),
       (''MSFT'', ''1.5'', ''390.0'', ''1.5'', ''418.2'')]"

text \<open>An investment of the portfolio; an asset that was not found is a \<open>TypeError\<close>.\<close>

definition investment_of ::
  "('s, 'n) seed_env \<Rightarrow> string \<Rightarrow> (string \<times> string) list \<Rightarrow> string \<times> string \<times> string \<times> string \<times> string
   \<Rightarrow> ('s, 'n seed_investment) io" where
  "investment_of S userId assetMap h = (case h of (ticker, quantity, avg, held, price) \<Rightarrow>
     case map_of assetMap ticker of
       None \<Rightarrow> throw (PlainError ''TypeError'')
     | Some i \<Rightarrow> ret \<lparr>si_investorId = userId, si_assetId = i, si_quantity = sd_lit S quantity, si_avgBuyPrice = sd_lit S avg,
         si_currentValue = sd_fixed S 2 (sd_times S (sd_lit S held) (sd_lit S price))\<rparr>)"

definition audit :: "('s, 'n) seed_env \<Rightarrow> string \<Rightarrow> string \<Rightarrow> string \<Rightarrow> string \<Rightarrow> nat \<Rightarrow> ('s, seed_audit) io" where
  "audit S userId action entity i days = seqM (daysAgo S days 10) (\<lambda>moment.
     ret \<lparr>sa_userId = userId, sa_action = action, sa_entity = entity, sa_entityId = i, sa_createdAt = moment\<rparr>)"

definition audit_trail :: "('s, 'n) seed_env \<Rightarrow> string \<Rightarrow> string \<Rightarrow> seed_wallets \<Rightarrow> ('s, seed_audit list) io" where
  "audit_trail S userId kycId W = all_of
     [audit S userId ''USER_REGISTER'' ''User'' (userId) 90,
      audit S userId ''KYC_SUBMITTED'' ''KycVerification'' (kycId) 60,
      audit S userId ''KYC_APPROVED'' ''KycVerification'' (kycId) 58,
      audit S userId ''WALLET_CREATED'' ''Wallet'' (usd_id W) 90,
      audit S userId ''WALLET_CREATED'' ''Wallet'' (ars_id W) 90,
      audit S userId ''WALLET_CREATED'' ''Wallet'' (usdt_id W) 89,
      audit S userId ''CARD_CREATED'' ''Card'' (userId) 85]"

section \<open>The brokers\<close>

text \<open>The texts of the tariffs; the numbers are kept as the source writes them.\<close>

record seed_broker =
  sb_slug :: string
  sb_name :: string
  sb_feeBuyPct :: string
  sb_feeSellPct :: string
  sb_feeMaxPct :: "string option"
  sb_ivaOnFees :: bool
  sb_subscriptionMonthlyArs :: "string option"
  sb_subscriptionNotes :: "string option"
  sb_custodyNotes :: string
  sb_feeNotes :: string
  sb_sources :: "(string \<times> string) list"

definition BROKERS :: "seed_broker list" where
  "BROKERS = [
       \<lparr>sb_slug = ''iol'', sb_name = ''IOL invertironline'', sb_feeBuyPct = ''0.6'', sb_feeSellPct = ''0.6'', sb_feeMaxPct = None, sb_ivaOnFees = True,
        sb_subscriptionMonthlyArs = None, sb_subscriptionNotes = None,
        sb_custodyNotes = ''Sin cargo (bonificada hasta cierto nivel patrimonial)'',
        sb_feeNotes = ''Operaciones intradiarias bonificadas 100%'',
        sb_sources = [(''Tarifas oficiales IOL'', ''https://www.invertironline.com/tarifas''),
          (''Rankia (act. 30/04/2026)'', ''https://www.rankia.com.ar/blog/analisis-merval/4309655-invertir-online-productos-comisiones-cotizaciones'')]\<rparr>,
       \<lparr>sb_slug = ''balanz'', sb_name = ''Balanz'', sb_feeBuyPct = ''0.5'', sb_feeSellPct = ''0.5'', sb_feeMaxPct = None, sb_ivaOnFees = True,
        sb_subscriptionMonthlyArs = None, sb_subscriptionNotes = None,
        sb_custodyNotes = ''Sin cargo de apertura ni mantenimiento'',
        sb_feeNotes = (''Comisi'' @ [CHR 0xC3, CHR 0xB3] @ ''n m'' @ [CHR 0xC3, CHR 0xA1] @ ''xima publicada (hasta 0,50%); intrad'' @ [CHR 0xC3, CHR 0xAD] @ ''a '' @ [CHR 0xE2, CHR 0x88, CHR 0x92] @ ''50%''),
        sb_sources = [(''Aranceles oficiales Balanz'', ''https://balanz.com/comisiones/''),
          (''Rankia (12/08/2025)'', ''https://www.rankia.com.ar/blog/trading-argentina/6944904-tarifario-comisiones-balanz-capital'')]\<rparr>,
       \<lparr>sb_slug = ''ppi'', sb_name = (''PPI '' @ [CHR 0xE2, CHR 0x80, CHR 0x94] @ '' Portfolio Personal Inversiones''), sb_feeBuyPct = ''0.6'', sb_feeSellPct = ''0.6'', sb_feeMaxPct = Some ''1.5'', sb_ivaOnFees = True,
        sb_subscriptionMonthlyArs = None, sb_subscriptionNotes = None,
        sb_custodyNotes = ''Sin cargo de custodia ni mantenimiento'',
        sb_feeNotes = (''Rango 0,60%'' @ [CHR 0xE2, CHR 0x80, CHR 0x93] @ ''1,50% seg'' @ [CHR 0xC3, CHR 0xBA] @ ''n acuerdo; intrad'' @ [CHR 0xC3, CHR 0xAD] @ ''a bonifica la pata menor''),
        sb_sources = [(''Comisiones oficiales PPI'', ''https://portfoliopersonal.com/Contenido/comisiones''),
          (''Rankia (20/09/2025)'', ''https://www.rankia.com.ar/blog/trading-argentina/6986316-tarifario-comisiones-ppi'')]\<rparr>,
       \<lparr>sb_slug = ''cocos'', sb_name = ''Cocos Capital'', sb_feeBuyPct = ''0.45'', sb_feeSellPct = ''0.45'', sb_feeMaxPct = None, sb_ivaOnFees = True,
        sb_subscriptionMonthlyArs = None, sb_subscriptionNotes = None,
        sb_custodyNotes = ''Gratis hasta USD 200.000; $1.000/mes hasta USD 300.000; proporcional CVSA por encima'',
        sb_feeNotes = ''Plan base. Cocos Gold (hasta 0,15% AUM/mes) y Pro (desde USD 150/mes) operan al 0%. Operador humano: 1%'',
        sb_sources = [(''Tarifario oficial Cocos'', ''https://cocos.capital/tarifario''),
          (''Rankia (act. 05/2026)'', ''https://www.rankia.com.ar/blog/trading-argentina/7336870-tarifario-comisiones-cocos-capital'')]\<rparr>,
       \<lparr>sb_slug = ''bullmarket'', sb_name = ''Bull Market Brokers'', sb_feeBuyPct = ''0.5'', sb_feeSellPct = ''0.5'', sb_feeMaxPct = None, sb_ivaOnFees = True,
        sb_subscriptionMonthlyArs = None, sb_subscriptionNotes = None,
        sb_custodyNotes = ''Sin mantenimiento de cuenta'',
        sb_feeNotes = (''Cuenta Digital. Active Trader 0,25% / AT Plus 0,10% por volumen mensual; intrad'' @ [CHR 0xC3, CHR 0xAD] @ ''a '' @ [CHR 0xE2, CHR 0x88, CHR 0x92] @ ''50%''),
        sb_sources = [((''Gu'' @ [CHR 0xC3, CHR 0xAD] @ ''a oficial de comisiones''), ''https://help.bullmarketbrokers.com/guia/comisiones/'')]\<rparr>,
       \<lparr>sb_slug = ''iebmas'', sb_name = ''IEB+'', sb_feeBuyPct = ''0'', sb_feeSellPct = ''0'', sb_feeMaxPct = None, sb_ivaOnFees = True,
        sb_subscriptionMonthlyArs = Some ''5000'', sb_subscriptionNotes = Some (''Plan Investor: $5.000 + IVA por mes, solo los meses en que oper'' @ [CHR 0xC3, CHR 0xA1] @ ''s mercado local. Plan Rookie (gratis) NO incluye acciones/CEDEARs''),
        sb_custodyNotes = ''Custodia incluida, mantenimiento bonificado'',
        sb_feeNotes = (''0% de comisi'' @ [CHR 0xC3, CHR 0xB3] @ ''n por operaci'' @ [CHR 0xC3, CHR 0xB3] @ ''n bajo modelo de suscripci'' @ [CHR 0xC3, CHR 0xB3] @ ''n''),
        sb_sources = [(''Preguntas frecuentes IEB+'', ''https://www.iebmas.com.ar/preguntas-frecuentes/'')]\<rparr>]"

definition BROKER_VERIFIED_AT :: string where "BROKER_VERIFIED_AT = ''2026-07-14''"

text \<open>\<open>write_broker b d r\<close>: the row \<open>r\<close> with the properties of \<open>b\<close> and the date of verification \<open>d\<close>.\<close>

record ('s, 'd) broker_seed_env =
  broker_table :: "('s, 'd broker_row, seed_broker \<times> string) delegate"
  write_broker :: "seed_broker \<Rightarrow> string \<Rightarrow> 'd broker_row \<Rightarrow> 'd broker_row"

primrec seed_all_brokers :: "('s, 'd) broker_seed_env \<Rightarrow> seed_broker list \<Rightarrow> ('s, unit) io" where
  "seed_all_brokers B [] = ret ()"
| "seed_all_brokers B (b # bs) =
     seqM (upsert (broker_table B) (\<lambda>r. bk_slug r = sb_slug b) (b, BROKER_VERIFIED_AT)
       (write_broker B b BROKER_VERIFIED_AT)) (\<lambda>_.
     seed_all_brokers B bs)"

definition seedBrokers :: "('s, 'd) broker_seed_env \<Rightarrow> ('s, unit) io" where
  "seedBrokers B = seed_all_brokers B BROKERS"

section \<open>The script\<close>

definition clean_demo :: "('s, 'n) seed_env \<Rightarrow> ('s, unit) io" where
  "clean_demo S =
     seqM (find_user S ''emiliano@craftbeats.dev'') (\<lambda>existing.
     seqM (case existing of
         None \<Rightarrow> ret []
       | Some i \<Rightarrow> all_of (map (\<lambda>t. clean S t (Some i))
           [AuditLogs, Investments, Cards, Transactions, Wallets, KycVerifications, Users])) (\<lambda>_.
     void (all_of (map (\<lambda>t. clean S t None) [Investments, ExchangeRates, Assets]))))"

definition seed_wallet_rows :: "('s, 'n) seed_env \<Rightarrow> string \<Rightarrow> ('s, seed_wallets) io" where
  "seed_wallet_rows S userId =
     seqM (insert_wallet S userId ''USD'' (sd_lit S ''1842.5'')) (\<lambda>usd.
     seqM (insert_wallet S userId ''ARS'' (sd_lit S ''415000'')) (\<lambda>ars.
     seqM (insert_wallet S userId ''USDT'' (sd_lit S ''1200'')) (\<lambda>usdt.
     ret \<lparr>usd_id = usd, ars_id = ars, usdt_id = usdt\<rparr>)))"

text \<open>The index of the rate a month uses: \<open>Math.floor(30 * 0.33)\<close> and \<open>Math.floor(30 * 0.66)\<close>.\<close>

definition seed_history :: "('s, 'n) seed_env \<Rightarrow> seed_wallets \<Rightarrow> 'n list \<Rightarrow> ('s, 'n seed_tx list) io" where
  "seed_history S W arsRates =
     seqM (month3 S W (arsRates ! 0)) (\<lambda>a.
     seqM (month2 S W (arsRates ! 9)) (\<lambda>b.
     seqM (month1 S W (arsRates ! 19)) (\<lambda>c. ret (a @ b @ c))))"

definition seed_rates :: "('s, 'n) seed_env \<Rightarrow> 'n list \<Rightarrow> 'n list \<Rightarrow> ('s, 'n seed_rate list) io" where
  "seed_rates S arsRates brlRates =
     seqM (all_of (map (rates_of_day S arsRates brlRates) [0..<30])) (\<lambda>rows. ret (concat rows))"

definition seed_main :: "('s, 'n) seed_env \<Rightarrow> ('s, 'd) broker_seed_env \<Rightarrow> ('s, unit) io" where
  "seed_main S B =
     seqM (fetchRates S) (\<lambda>(usdToArs, usdToBrl).
     seqM (clean_demo S) (\<lambda>_.
     seqM (sd_hash S ''Demo1234!'') (\<lambda>passwordHash.
     seqM (insert_user S \<lparr>su_email = ''emiliano@craftbeats.dev'', su_password = passwordHash, su_name = ''Emiliano'',
         su_lastName = ''Ferreyra'', su_country = ''AR'', su_language = ''es-ES'', su_emailConfirm = True\<rparr>) (\<lambda>userId.
     seqM (daysAgo S 60 10) (\<lambda>submittedAt.
     seqM (daysAgo S 58 10) (\<lambda>reviewedAt.
     seqM (insert_kyc S userId ''APPROVED'' ''DNI'' submittedAt reviewedAt) (\<lambda>kycId.
     seqM (seed_wallet_rows S userId) (\<lambda>W.
     seqM (generateHistoricalRates S usdToArs 30) (\<lambda>arsRates.
     seqM (generateHistoricalRates S usdToBrl 30) (\<lambda>brlRates.
     seqM (seed_rates S arsRates brlRates) (\<lambda>rates.
     seqM (insert_rates S rates) (\<lambda>_.
     seqM (seed_history S W arsRates) (\<lambda>txs.
     seqM (insert_txs S txs) (\<lambda>_.
     seqM (yields S W 90 (sd_lit S ''600'') (sd_lit S ''400'')) (\<lambda>yieldTxs.
     seqM (insert_txs S yieldTxs) (\<lambda>_.
     seqM (insert_assets S (seed_assets S)) (\<lambda>_.
     seqM (find_assets S [''AAPL'', ''NVDA'', ''SPY'', ''MSFT'']) (\<lambda>assetMap.
     seqM (all_of (map (investment_of S userId assetMap) seed_holdings)) (\<lambda>investments.
     seqM (insert_investments S investments) (\<lambda>_.
     seqM (insert_card S \<lparr>sc_userId = userId, sc_type = ''INTERNATIONAL'', sc_maskedNumber = ''**** **** **** 4829'',
         sc_expiresAt = ''2027-12-31'', sc_network = ''VISA'', sc_issuer = ''PayFlow'', sc_cardToken = ''tok_demo_visa_4829'',
         sc_isActive = True, sc_isFrozen = False, sc_spendingLimit = sd_lit S ''5000''\<rparr>) (\<lambda>_.
     seqM (audit_trail S userId kycId W) (\<lambda>rows.
     seqM (insert_audit S rows) (\<lambda>_.
     seedBrokers B)))))))))))))))))))))))"

section \<open>What the data is\<close>

text \<open>A series has a rate for each day asked for, and ends with the current one.\<close>

lemma walk_back_length: "walk_back S k x s = (Inr rs, t) \<Longrightarrow> length rs = k"
  by (induction k arbitrary: x s rs t) (auto simp: io_inv Let_def)

lemma generateHistoricalRates_series:
  assumes "generateHistoricalRates S x days s = (Inr rs, t)" and "0 < days"
  shows "length rs = days" and "last rs = x"
proof -
  from assms(1) obtain ys u where "walk_back S (days - 1) x s = (Inr ys, u)" "rs = rev (x # ys)"
    by (auto simp: generateHistoricalRates_def io_inv)
  then show "length rs = days" "last rs = x" using assms(2) by (auto dest: walk_back_length)
qed

text \<open>
  What a completed row of the history does to the dollar wallet, where \<open>v\<close> reads the numbers. \<open>numbers_read\<close>: the
  whole literals are read as themselves, and a positive number as one.
\<close>

definition usd_effect :: "('n \<Rightarrow> rat) \<Rightarrow> seed_wallets \<Rightarrow> 'n seed_tx \<Rightarrow> rat" where
  "usd_effect v W x =
     (if st_status x = ''COMPLETED'' then
        (if st_walletId x = usd_id W then
           (if st_type x \<in> {''DEPOSIT'', ''YIELD''} then v (st_amount x) else - v (st_amount x))
         else 0)
      else 0)"

definition numbers_read :: "('s, 'n) seed_env \<Rightarrow> ('n \<Rightarrow> rat) \<Rightarrow> bool" where
  "numbers_read S v \<longleftrightarrow>
     (\<forall>ds. ds \<noteq> [] \<longrightarrow> all_digits ds \<longrightarrow> v (sd_lit S ds) = of_nat (digits_value ds)) \<and>
     (\<forall>x. sd_positive S x \<longrightarrow> 0 < v x)"

lemma whole_literals:
  assumes "numbers_read S v"
  shows "v (sd_lit S ''2000'') = 2000" "v (sd_lit S ''1000'') = 1000" "v (sd_lit S ''400'') = 400"
    "v (sd_lit S ''3500'') = 3500" "v (sd_lit S ''1500'') = 1500" "v (sd_lit S ''800'') = 800"
    "v (sd_lit S ''2800'') = 2800"
  using assms by (simp_all add: numbers_read_def digits_value_def is_digit_def digit_val_def)

lemma month3_usd:
  assumes "month3 S W r s = (Inr xs, t)" "usd_id W \<noteq> ars_id W" "numbers_read S v"
  shows "sum_list (map (usd_effect v W) xs) = 600"
  using assms(1,2) whole_literals[OF assms(3)]
  by (auto simp: month3_def io_inv usd_effect_def entry_def)

lemma month2_usd:
  assumes "month2 S W r s = (Inr xs, t)" "usd_id W \<noteq> ars_id W" "numbers_read S v"
  shows "sum_list (map (usd_effect v W) xs) = 1200"
  using assms(1,2) whole_literals[OF assms(3)]
  by (auto simp: month2_def io_inv usd_effect_def entry_def)

lemma month1_usd:
  assumes "month1 S W r s = (Inr xs, t)" "usd_id W \<noteq> ars_id W" "numbers_read S v"
  shows "sum_list (map (usd_effect v W) xs) = 800"
  using assms(1,2) whole_literals[OF assms(3)]
  by (auto simp: month1_def io_inv usd_effect_def entry_def)

lemma yields_usd:
  assumes "yields S W k x y s = (Inr xs, t)" "numbers_read S v"
  shows "0 \<le> sum_list (map (usd_effect v W) xs)"
  using assms(1)
proof (induction k arbitrary: x y s xs t)
  case (Suc k)
  have row: "0 \<le> usd_effect v W (yield_row S w z c q a d)" if "sd_positive S z" for w z c q a d
    using that assms(2) by (auto simp: usd_effect_def yield_row_def numbers_read_def intro: less_imp_le)
  from Suc.prems show ?case
    by (auto simp: io_inv Let_def split: if_splits intro!: add_nonneg_nonneg row dest!: Suc.IH)
qed (auto simp: io_inv)

text \<open>
  The comment above the wallets has their balances match the history below it; the history leaves at least 2600
  dollars where the wallet has 1842.5.
\<close>

lemma balance_is_not_the_history:
  assumes "seed_history S W rs s = (Inr xs, t)" and "yields S W 90 x y u = (Inr ys, u')"
    and "usd_id W \<noteq> ars_id W" and "numbers_read S v"
  shows "2600 \<le> sum_list (map (usd_effect v W) (xs @ ys))"
proof -
  from assms(1) obtain a b c t t' t'' where xs: "xs = a @ b @ c"
    and months: "month3 S W (rs ! 0) s = (Inr a, t)" "month2 S W (rs ! 9) t = (Inr b, t')"
      "month1 S W (rs ! 19) t' = (Inr c, t'')"
    unfolding seed_history_def seqM_Inr io_prim_iff by blast
  show ?thesis
    using month3_usd[OF months(1) assms(3,4)] month2_usd[OF months(2) assms(3,4)] month1_usd[OF months(3) assms(3,4)]
      yields_usd[OF assms(2,4)] by (simp add: xs)
qed

text \<open>The tariffs: each broker once, however often the script runs, and nothing but the tariffs changes.\<close>

lemma slug_replaced:
  assumes "inj_on f R" and "x \<in> R" and "f r = f x"
  shows "f ` insert r (R - {x}) = insert (f x) (f ` R) \<and> inj_on f (insert r (R - {x}))"
proof
  show "f ` insert r (R - {x}) = insert (f x) (f ` R)" using assms(2,3) by auto
  have "f x \<notin> f ` (R - {x})" using assms(1,2) by (auto dest: inj_onD)
  moreover have "inj_on f (R - {x})" by (rule inj_on_subset[OF assms(1)]) blast
  ultimately show "inj_on f (insert r (R - {x}))" using assms(3) by auto
qed

lemma seed_all_brokers_slugs:
  assumes t: "table (broker_table B) rows other made stamp"
    and writes: "\<And>b d r. bk_slug (write_broker B b d r) = sb_slug b"
    and stamps: "\<And>s r. bk_slug (stamp s r) = bk_slug r"
    and makes: "\<And>s b d r. made s (b, d) r \<Longrightarrow> bk_slug r = sb_slug b"
  shows "seed_all_brokers B bs s = (Inr (), s') \<Longrightarrow> inj_on bk_slug (rows s) \<Longrightarrow>
    bk_slug ` rows s' = bk_slug ` rows s \<union> sb_slug ` set bs \<and> inj_on bk_slug (rows s') \<and> other s' = other s"
proof (induction bs arbitrary: s)
  case (Cons b bs)
  from Cons.prems(1) obtain r u where
    one: "upsert (broker_table B) (\<lambda>r. bk_slug r = sb_slug b) (b, BROKER_VERIFIED_AT)
            (write_broker B b BROKER_VERIFIED_AT) s = (Inr r, u)"
    and rest: "seed_all_brokers B bs u = (Inr (), s')"
    by (auto simp: io_inv)
  note law = table.returns(7)[OF t one]
  have "bk_slug ` rows u = insert (sb_slug b) (bk_slug ` rows s) \<and> inj_on bk_slug (rows u)"
  proof (cases "\<exists>x \<in> rows s. bk_slug x = sb_slug b")
    case True
    with law obtain x where "x \<in> rows s" "bk_slug x = sb_slug b" "bk_slug r = sb_slug b"
        "rows u = insert r (rows s - {x})"
      by (auto simp: writes stamps)
    then show ?thesis using slug_replaced[OF Cons.prems(2)] by metis
  next
    case False
    with law have "bk_slug r = sb_slug b" "rows u = insert r (rows s)" by (auto dest: makes)
    then show ?thesis using False Cons.prems(2) by (auto simp: image_iff)
  qed
  moreover have "other u = other s" using law by simp
  ultimately show ?case using Cons.IH[OF rest] by auto
qed (auto simp: io_inv)

end
