(* ===== verification/Webhook_Demo.thy ===== *)
theory Webhook_Demo
  imports Webhook Validation Http_Guards
begin

text \<open>
  The demonstration of the webhooks, \<open>scripts/webhook-demo.ts\<close>: a client of the API that registers an endpoint of its own,
  triggers a deposit and checks the signature of what it is sent. \<open>fetch\<close>, the HTTP server and the HMAC are
  parameters, an answer's body is read as the type the script casts it to, and the lines it prints are left out.
  The lemmas say when the script passes, and that the deposit it sends is one the API's own pipe refuses.
\<close>

section \<open>Parameters\<close>

record 'n api_request =
  hq_method :: string
  hq_url :: string
  hq_headers :: "(string \<times> string) list"
  hq_body :: "'n object option"

record 'b api_response =
  hr_status :: nat
  hr_body :: 'b

definition response_ok :: "'b api_response \<Rightarrow> bool" where
  "response_ok r = (200 \<le> hr_status r \<and> hr_status r \<le> 299)"

text \<open>\<open>next_webhook\<close> is the promise the receiver resolves, with the server closed after it.\<close>

record ('s, 'n, 'b) demo_env =
  API_URL_text :: "string option"
  PAYFLOW_JWT_text :: "string option"
  JWT_text :: "string option"
  api_fetch :: "'n api_request \<Rightarrow> ('s, 'b api_response) io"
  demo_number :: "nat \<Rightarrow> 'n"
  read_ids :: "'b \<Rightarrow> exn + string list"
  read_endpoint :: "'b \<Rightarrow> exn + string \<times> string"
  read_id :: "'b \<Rightarrow> exn + string"
  read_deliveries :: "'b \<Rightarrow> exn + (string \<times> string \<times> nat \<times> nat option) list"
  start_server :: "nat \<Rightarrow> ('s, unit) io"
  next_webhook :: "('s, string \<times> string option) io"
  demo_hmac :: "string \<Rightarrow> string \<Rightarrow> string"

definition demo_url :: "('s, 'n, 'b) demo_env \<Rightarrow> string" where
  "demo_url E = (case truthy (API_URL_text E) of Some u \<Rightarrow> u | None \<Rightarrow> ''http://localhost:3000/api/v1'')"

definition demo_jwt :: "('s, 'n, 'b) demo_env \<Rightarrow> string option" where
  "demo_jwt E = (case truthy (PAYFLOW_JWT_text E) of Some t \<Rightarrow> Some t | None \<Rightarrow> truthy (JWT_text E))"

definition RECEIVER_PORT :: nat where "RECEIVER_PORT = 9999"

section \<open>The receiver\<close>

text \<open>A request to the receiver: its answer, and what the promise holds, which is settled once.\<close>

definition demo_receive ::
  "string \<Rightarrow> string \<Rightarrow> string option \<Rightarrow> (string \<times> string option) option \<Rightarrow> nat \<times> (string \<times> string option) option" where
  "demo_receive meth body signature got =
     (if meth \<noteq> ''POST'' then (405, got)
      else (200, case got of None \<Rightarrow> Some (body, signature) | Some g \<Rightarrow> Some g))"

definition startReceiver :: "('s, 'n, 'b) demo_env \<Rightarrow> ('s, string) io" where
  "startReceiver E = seqM (start_server E RECEIVER_PORT) (\<lambda>_. ret ''http://host.docker.internal:9999/webhook'')"

section \<open>The calls\<close>

definition demo_call ::
  "('s, 'n, 'b) demo_env \<Rightarrow> string \<Rightarrow> string \<Rightarrow> 'n object option \<Rightarrow> ('s, 'b api_response) io" where
  "demo_call E meth path body = api_fetch E \<lparr>hq_method = meth, hq_url = demo_url E @ path,
     hq_headers = [(''Content-Type'', ''application/json''),
       (''Cookie'', ''access_token='' @ (case demo_jwt E of Some t \<Rightarrow> t | None \<Rightarrow> ''''))],
     hq_body = body\<rparr>"

primrec delete_endpoints :: "('s, 'n, 'b) demo_env \<Rightarrow> string list \<Rightarrow> ('s, unit) io" where
  "delete_endpoints E [] = ret ()"
| "delete_endpoints E (i # is) =
     seqM (demo_call E ''DELETE'' (''/webhooks/endpoints/'' @ i) None) (\<lambda>_. delete_endpoints E is)"

definition clearEndpoints :: "('s, 'n, 'b) demo_env \<Rightarrow> ('s, unit) io" where
  "clearEndpoints E =
     seqM (demo_call E ''GET'' ''/webhooks/endpoints'' None) (\<lambda>res.
     if \<not> response_ok res then ret ()
     else seqM (lift (read_ids E (hr_body res))) (\<lambda>ids. delete_endpoints E ids))"

definition registerEndpoint :: "('s, 'n, 'b) demo_env \<Rightarrow> string \<Rightarrow> ('s, string \<times> string) io" where
  "registerEndpoint E url =
     seqM (demo_call E ''POST'' ''/webhooks/endpoints'' (Some [(''url'', JString url)])) (\<lambda>res.
     if \<not> response_ok res
     then throw (PlainError (''Endpoint registration failed ('' @ show_nat (hr_status res) @ '')''))
     else lift (read_endpoint E (hr_body res)))"

definition demo_deposit_body :: "('s, 'n, 'b) demo_env \<Rightarrow> 'n object" where
  "demo_deposit_body E = [(''amount'', JNumber (demo_number E 1000)), (''currency'', JString ''USD'')]"

definition triggerDeposit :: "('s, 'n, 'b) demo_env \<Rightarrow> ('s, unit) io" where
  "triggerDeposit E =
     seqM (demo_call E ''POST'' ''/wallet/deposit'' (Some (demo_deposit_body E))) (\<lambda>res.
     if \<not> response_ok res then throw (PlainError (''Deposit failed ('' @ show_nat (hr_status res) @ '')''))
     else void (lift (read_id E (hr_body res))))"

definition checkDelivery :: "('s, 'n, 'b) demo_env \<Rightarrow> string \<Rightarrow> ('s, unit) io" where
  "checkDelivery E endpointId =
     seqM (demo_call E ''GET'' (''/webhooks/endpoints/'' @ endpointId @ ''/deliveries'') None) (\<lambda>res.
     if \<not> response_ok res
     then throw (PlainError (''Failed to fetch deliveries: '' @ show_nat (hr_status res)))
     else void (lift (read_deliveries E (hr_body res))))"

text \<open>The exit code of the process.\<close>

definition demo_main :: "('s, 'n, 'b) demo_env \<Rightarrow> ('s, nat) io" where
  "demo_main E =
     catchM
       (seqM (startReceiver E) (\<lambda>receiverUrl.
        seqM (clearEndpoints E) (\<lambda>_.
        seqM (registerEndpoint E receiverUrl) (\<lambda>(i, secret).
        seqM (triggerDeposit E) (\<lambda>_.
        seqM (next_webhook E) (\<lambda>(payload, signature).
        seqM (checkDelivery E i) (\<lambda>_.
        ret (if signature = Some (demo_hmac E secret payload) then 0 else 1))))))))
       (\<lambda>err. ret 1)"

definition demo_start :: "('s, 'n, 'b) demo_env \<Rightarrow> string list \<Rightarrow> ('s, nat) io" where
  "demo_start E args =
     (if ''--help'' \<in> set args \<or> ''-h'' \<in> set args then ret 0
      else if demo_jwt E = None then ret 1
      else demo_main E)"

section \<open>What a pass says\<close>

text \<open>The promise is settled by the first \<open>POST\<close>, and by nothing else.\<close>

lemma receives_first_post:
  "snd (demo_receive ''POST'' body sig None) = Some (body, sig)"
  "snd (demo_receive meth body sig (Some g)) = Some g"
  "meth \<noteq> ''POST'' \<Longrightarrow> snd (demo_receive meth body sig got) = got"
  by (simp_all add: demo_receive_def)

text \<open>The script always ends with a code, and with 0 only for a payload signed with the secret of its endpoint.\<close>

lemma demo_main_ends: "\<exists>n t. demo_main E s = (Inr n, t) \<and> n \<le> 1"
proof -
  obtain r t where run: "demo_main E s = (r, t)" by force
  have "\<exists>n \<le> 1. r = Inr n"
    using run unfolding demo_main_def
    by (cases r) (auto simp: io_inv split: prod.splits if_splits)
  then show ?thesis using run by blast
qed

lemma demo_passes_signed:
  assumes "demo_main E s = (Inr 0, t)"
  shows "\<exists>u v i secret w x payload.
    registerEndpoint E ''http://host.docker.internal:9999/webhook'' u = (Inr (i, secret), v)
    \<and> next_webhook E w = (Inr (payload, Some (demo_hmac E secret payload)), x)"
  using assms unfolding demo_main_def startReceiver_def
  by (auto simp: io_inv split: prod.splits if_splits) blast

section \<open>The deposit it sends\<close>

text \<open>
  \<open>DepositDto\<close> wants the amount as a text, and the script sends a number; its requests carry no token of the CSRF
  protection either, which is on by default. One or the other, an API that refuses the deposit makes the script fail.
\<close>

lemma demo_deposit_refused:
  "class_pipe V global_pipe DepositDto (demo_deposit_body E) = Inl (BadRequestException ''Bad Request Exception'')"
  by (simp add: class_pipe_def DepositDto_def demo_deposit_body_def property_ok_def optional_def field_value_def
      string_such_def)

lemma demo_fails_without_deposit:
  assumes "\<And>u res v. demo_call E ''POST'' ''/wallet/deposit'' (Some (demo_deposit_body E)) u = (Inr res, v)
      \<Longrightarrow> \<not> response_ok res"
  shows "\<exists>t. demo_main E s = (Inr 1, t)"
proof -
  have no: "triggerDeposit E u \<noteq> (Inr x, v)" for u x v
    using assms by (auto simp: triggerDeposit_def io_inv split: if_splits)
  obtain n t where run: "demo_main E s = (Inr n, t)" using demo_main_ends[of E s] by blast
  then have "n = 1" unfolding demo_main_def using no by (auto simp: io_inv split: prod.splits)
  then show ?thesis using run by blast
qed

end
