(* ===== verification/Spec2Isabelle.thy ===== *)
theory Spec2Isabelle
  imports Money_Laws In_Memory_UoW Optimistic_Retry Prisma_Wallet Sessions Users Authentication
    Two_Factor Recovery Kyc Idempotency Webhook Exchange
    Http_Guards Resources Transactions Investment Rates Prices
    Geolocation
    Validation Access_Guards Wallet_Api Kyc_Api Auth_Api Account_Api Users_Api Platform
    Larger_State Wallet_Events Routes Wiring Start_Up Seed Webhook_Demo
begin

text \<open>
  PayFlow, a NestJS application for a digital wallet (sources under \<open>src/src\<close>): what its services, guards and
  routes compute, and why the money, the sessions and the approvals they handle stay right. Paths below are
  relative to \<open>src/src\<close>, but for \<open>prisma/seed.ts\<close> and \<open>scripts/webhook-demo.ts\<close>, which are under \<open>src\<close>.

  \<^bold>\<open>How the program is put together.\<close> A request passes the CSRF middleware, the guards of its route (the access
  token, the identity check), for money the idempotency interceptor, and the validation pipe on its body; then one
  method of a service runs. The wallet module separates its use cases (\<open>application\<close>) from persistence by
  ports: a use case is a piece of work handed to a unit of work, which runs it in a transaction and again after a
  conflict. A balance is changed by a compare-and-swap on a version column, and every change writes a transaction
  row. When the work has committed, the event goes to the webhook service, which keeps its own deliveries and
  timers. Sessions are rows holding the digest of the last refresh token and a version; the other modules
  (users, second factor, recovery, verification, cards, beneficiaries, portfolios, investments, rates, prices) are
  services over tables of the database and a cache.

  \<^bold>\<open>Conventions.\<close> A function that may throw is a value of \<open>exn + 'a\<close>; an asynchronous method is a \<open>('s, 'a) io\<close>,
  a function from a state to a result and the next state, sequenced by \<open>seqM\<close> and caught by \<open>catchM\<close>
  (\<open>Prelude\<close>). The order of effects is the order of the source's awaits; the branches of a \<open>Promise.all\<close> run one after the
  other, in the order they are written. A single read-check-write method is one function where one request is
  looked at, and is split into its reads and its writes where two requests are
  interleaved (\<open>idem_lookup\<close> and \<open>idem_handle\<close>, \<open>buy_reads\<close> and \<open>buy_writes\<close>). What the code starts and does not
  await is a separate step: the timers of \<open>Kyc\<close> and \<open>Webhook\<close>, and the insert of an idempotency record
  (\<open>idem_handle\<close> starts it, \<open>idem_settle\<close> is its answer). Texts are lists
  of bytes. \<open>None\<close> is \<open>undefined\<close> in an input and \<open>NULL\<close> in a row; a \<open>null\<close> in a body counts as absent, but for
  the update of an account (\<open>Users_Api\<close>), where it empties a column. Ledger amounts are unbounded integers, as the \<open>bigint\<close> of the source is; JavaScript
  numbers and Prisma's \<open>Decimal\<close> are type parameters with the operations the code calls.

  \<^bold>\<open>What is assumed.\<close> Prisma's generated client, \<open>argon2\<close>, \<open>@nestjs/jwt\<close>, \<open>otplib\<close>, \<open>class-validator\<close>, the cache,
  \<open>fetch\<close> and the clock are not part of the sources: each is an argument of the definitions, gathered in an
  environment record per service. What the code relies on of them is the \<open>assumes\<close> part of a locale, and
  each locale is interpreted: the wallet ports on the repository's own in-memory adapter and on the Prisma
  adapter, the wallet with its webhooks on a database that holds both, the validation pipe on a reference pipe (\<open>validation_pipe\<close>,
  and \<open>copying_pipe\<close> where a body's own values matter), and the others on a list-backed database
  on which the witnesses are evaluated. The \<open>CHECK\<close> that keeps a wallet's balance from going below zero, which a migration
  under \<open>src/prisma\<close> declares, is assumed where it matters, for the purchases of \<open>Investment\<close>
  (\<open>checked_invest_ports\<close>); the wallet's use cases are shown not to need it.

  \<^bold>\<open>The theories.\<close>
  \<^item> \<open>Prelude\<close>: exceptions, computations and the collections \<open>io_defs\<close>, \<open>keeps_intros\<close> and \<open>inv_intros\<close> the other
    proofs rest on. \<open>Table\<close>: a Prisma delegate as a record of functions, the locale \<open>table\<close> with its
    laws, and the list-backed table that meets them.
  \<^item> \<open>Decimal_Text\<close>, \<open>Money\<close>, \<open>Money_Laws\<close>: \<open>shared/kernel/money.ts\<close>. A \<open>money\<close> is a number of ledger units (eight
    decimals) and a currency. The lemmas say which texts are accepted and with what value, that the two textual forms
    read back, that no operation passes the ceiling, and what a conversion truncates.
  \<^item> \<open>Ports\<close>, \<open>Use_Cases\<close>, \<open>Wallet_Contract\<close>: \<open>modules/wallet/application\<close>. The three \<open>execute\<close> methods over a
    record of ports, the locale \<open>wallet_port\<close> (what a unit of work promises about balances and the journal),
    and the theorems proved once for any unit of work that keeps it: a use case that returns has moved exactly
    its amount and written its rows, one that throws has changed nothing, and no validated request overdraws.
  \<^item> \<open>Optimistic_Retry\<close>: \<open>utils/with-optimistic-retry.ts\<close>. \<open>In_Memory_UoW\<close>: \<open>testing/in-memory-unit-of-work.ts\<close>,
    the first interpretation of \<open>wallet_port\<close>. \<open>Prisma_Wallet\<close>: \<open>infrastructure/persistence\<close>, the
    adapter in production, whose interpretation is a \<open>sublocale\<close> over the laws of the tables.
    The journal of a session is refined to the abstract balances by \<open>mem_session_explained\<close>.
  \<^item> \<open>Larger_State\<close>, \<open>Wallet_Events\<close>: a unit of work keeps its contract inside a larger state, so the wallet on Prisma's
    adapter and the webhook service can be put together as \<open>wallet.module.ts\<close> does (\<open>wired_service\<close>). The locale \<open>wallet_hooks\<close>
    joins the two contracts; its lemmas say that a webhook tells of committed money only.
  \<^item> \<open>Exchange\<close>: \<open>exchange.service.ts\<close>, which changes two rows outside the ports, in one transaction.
  \<^item> \<open>Sessions\<close>: \<open>session.service.ts\<close>, \<open>session-token.service.ts\<close>, the refresh and logout of \<open>auth.service.ts\<close> and the
    two token strategies. \<open>Users\<close>: \<open>users.service.ts\<close>. \<open>Authentication\<close>: registration, login and the OAuth logins.
    \<open>Two_Factor\<close>: the rate limiter's map, the codes and the backup codes. \<open>Recovery\<close>: \<open>tokens.service.ts\<close> and
    \<open>password-recovery.service.ts\<close>. Their lemmas are about who can obtain what: isolation of
    users, rotation, revocation, single use.
  \<^item> \<open>Kyc\<close>: the status of a verification as a step relation over requests and timers, with reachability. \<open>Webhook\<close>:
    deliveries with their pending timers as a step relation. \<open>Idempotency\<close>: the interceptor and the cleanup, with \<open>idem_run\<close>, all that can happen to
    the records between two requests.
  \<^item> \<open>Resources\<close>: cards, beneficiaries and portfolios, their services and controllers. \<open>Transactions\<close>: the paged
    history. \<open>Investment\<close>: buying and selling, and two purchases interleaved. \<open>Rates\<close>: exchange rates and their refresh. \<open>Prices\<close>: cached quotes and
    the valuation of a portfolio. \<open>Geolocation\<close>: the location of a session.
  \<^item> \<open>Http_Guards\<close>: the address of a request, the bot check, CSRF, the OAuth profiles and the exception filter.
    \<open>Access_Guards\<close>: the three token guards. \<open>Validation\<close>: every DTO class with its decorators, and the pipe.
    \<open>Wallet_Api\<close>, \<open>Kyc_Api\<close>, \<open>Auth_Api\<close>, \<open>Account_Api\<close>, \<open>Users_Api\<close>: the controllers, each route with all that stands before it, so that a property
    of a service becomes a property of the requests that reach it.
  \<^item> \<open>Platform\<close>: the small services at the edge: mail, digests, the health probes, the tariff of brokers and the texts of
    the environment.
  \<^item> \<open>Routes\<close>: the decorators of the controllers as data, one \<open>nest_controller\<close> per class: each route with its method, path,
    guards and interceptors. The lemmas show that no request has two routes and which routes are
    open. \<open>Wiring\<close>: the modules, what each provides, imports and exports, and what the constructors ask for; NestJS
    itself is the parameter \<open>nest_lib\<close>, of which \<open>documented\<close> says which classes of the libraries it has. The
    lemmas show that each dependency is visible where it is asked for and that an order of
    construction exists. \<open>Start_Up\<close>: \<open>main.ts\<close>, the connection of Prisma and the logging interceptor.
  \<^item> \<open>Seed\<close>: \<open>prisma/seed.ts\<close>, the data of a development database. \<open>Webhook_Demo\<close>: \<open>scripts/webhook-demo.ts\<close>, a client of the API.

  \<^bold>\<open>Bounds and fuel.\<close> The retry loop makes \<open>MAX_RETRIES\<close> attempts, which is the source's bound and not a fuel; the
  search in the causes of an error stops at \<open>MAX_CAUSE_DEPTH\<close>, also the source's. A webhook delivery has
  \<open>WEBHOOK_MAX_ATTEMPTS\<close>. \<open>portfolio_pages\<close>, which follows the cursors of \<open>portfolio_findAll\<close>, takes a fuel; one more
  than the number of portfolios is shown to be enough, every page but the last having at least one.
  \<open>build_rounds\<close>, which orders the constructors of \<open>Wiring\<close>, takes a number of rounds; eight are shown to build every class.
  All other recursion is structural.

  \<^bold>\<open>Not modelled.\<close> What the libraries make of their configuration: the throttler, helmet, the cookies' attributes, HTTP
  serialisation, the injector of NestJS. Log lines, but for those of the logging interceptor, and the annotations of
  Swagger on routes and DTOs, which nothing reads. The
  test factories and mocks, the type tests and the path of the Prisma schema are not part of the application.
  Two transactions of the database interleave only as far as version conflicts and the split methods above show it:
  isolation itself is Prisma's and PostgreSQL's.
\<close>

end
